(* ===== verification/Prelude.thy ===== *)
theory Prelude
  imports Main "HOL-Library.List_Lexorder" "HOL-Library.Char_ord"
begin

text \<open>
  What the component theories share: the C locale's character classes, decimal numbers as
  the C++ library prints and reads them, searching in strings, and \<open>std::map\<close> as an
  association list sorted by key (the order its iterators visit the entries in). The
  collections \<open>omap_simps\<close> and \<open>chr_simps\<close> carry the routine facts.
\<close>

named_theorems omap_simps \<open>lookups and invariant of ordered maps\<close>
named_theorems chr_simps \<open>definitions of the character classes\<close>

section \<open>Characters in the C locale\<close>

definition c_isspace :: "char \<Rightarrow> bool" where [chr_simps]:
  "c_isspace c = (of_char c = (32::nat) \<or> (9 \<le> (of_char c :: nat) \<and> of_char c \<le> (13::nat)))"

definition c_isdigit :: "char \<Rightarrow> bool" where [chr_simps]:
  "c_isdigit c = (48 \<le> (of_char c :: nat) \<and> of_char c \<le> (57::nat))"

definition c_isupper :: "char \<Rightarrow> bool" where [chr_simps]:
  "c_isupper c = (65 \<le> (of_char c :: nat) \<and> of_char c \<le> (90::nat))"

definition c_islower :: "char \<Rightarrow> bool" where [chr_simps]:
  "c_islower c = (97 \<le> (of_char c :: nat) \<and> of_char c \<le> (122::nat))"

definition c_isalpha :: "char \<Rightarrow> bool" where [chr_simps]:
  "c_isalpha c = (c_isupper c \<or> c_islower c)"

definition c_isalnum :: "char \<Rightarrow> bool" where [chr_simps]:
  "c_isalnum c = (c_isalpha c \<or> c_isdigit c)"

definition c_isxdigit :: "char \<Rightarrow> bool" where [chr_simps]:
  "c_isxdigit c = (c_isdigit c \<or> (65 \<le> (of_char c :: nat) \<and> of_char c \<le> (70::nat))
     \<or> (97 \<le> (of_char c :: nat) \<and> of_char c \<le> (102::nat)))"

definition c_tolower :: "char \<Rightarrow> char" where [chr_simps]:
  "c_tolower c = (if c_isupper c then char_of ((of_char c :: nat) + 32) else c)"

definition c_toupper :: "char \<Rightarrow> char" where [chr_simps]:
  "c_toupper c = (if c_islower c then char_of ((of_char c :: nat) - 32) else c)"

lemma of_char_lt_256 [simp]: "(of_char c :: nat) < 256"
  using nat_of_char_less_256 by simp

lemma of_char_char_of_small [simp]: "n < 256 \<Longrightarrow> (of_char (char_of n :: char) :: nat) = n"
  by simp

lemma c_tolower_idem [simp]: "c_tolower (c_tolower c) = c_tolower c"
  by (auto simp: chr_simps)

lemma c_isspace_tolower [simp]: "c_isspace (c_tolower c) = c_isspace c"
  by (auto simp: chr_simps)

section \<open>Decimal numbers\<close>

definition digit_char :: "nat \<Rightarrow> char" where
  "digit_char d = char_of (48 + d)"

definition digit_val :: "char \<Rightarrow> nat" where
  "digit_val c = of_char c - 48"

lemma c_isdigit_digit_char [simp]: "d < 10 \<Longrightarrow> c_isdigit (digit_char d)"
  by (simp add: c_isdigit_def digit_char_def)

lemma digit_val_digit_char [simp]: "d < 10 \<Longrightarrow> digit_val (digit_char d) = d"
  by (simp add: digit_val_def digit_char_def)

text \<open>\<open>std::to_string\<close> on a non-negative and on a signed integer.\<close>

fun dec_of_nat :: "nat \<Rightarrow> string" where
  "dec_of_nat n = (if n < 10 then [digit_char n] else dec_of_nat (n div 10) @ [digit_char (n mod 10)])"

declare dec_of_nat.simps [simp del]

definition to_string :: "int \<Rightarrow> string" where
  "to_string i = (if i < 0 then CHR ''-'' # dec_of_nat (nat (- i)) else dec_of_nat (nat i))"

text \<open>The same digits by integer arithmetic, for evaluation.\<close>

function digits_of_int :: "int \<Rightarrow> string" where
  "digits_of_int i = (if i < 10 then [digit_char (nat i)] else digits_of_int (i div 10) @ [digit_char (nat (i mod 10))])"
  by auto
termination by (relation "measure nat") auto

declare digits_of_int.simps [simp del]

lemma digits_of_int_nat: "digits_of_int (int n) = dec_of_nat n"
proof (induction n rule: dec_of_nat.induct)
  case (1 n)
  have "nat (int n mod 10) = n mod 10" "int n div 10 = int (n div 10)"
    by (simp_all add: nat_mod_distrib zdiv_int)
  with 1 show ?case
    by (cases "n < 10") (simp_all add: dec_of_nat.simps [of n] digits_of_int.simps [of "int n"])
qed

lemma to_string_code [code]: "to_string i = (if i < 0 then CHR ''-'' # digits_of_int (- i) else digits_of_int i)"
  using digits_of_int_nat [of "nat i"] digits_of_int_nat [of "nat (- i)"] by (auto simp: to_string_def split: if_splits)

text \<open>\<open>%0<w>d\<close>: leading zeros up to the width.\<close>

definition pad_zeros :: "nat \<Rightarrow> string \<Rightarrow> string" where
  "pad_zeros w s = replicate (w - length s) CHR ''0'' @ s"

definition nat_of_dec :: "string \<Rightarrow> nat" where
  "nat_of_dec s = foldl (\<lambda>v c. v * 10 + digit_val c) 0 s"

lemma dec_of_nat_nonempty [simp]: "dec_of_nat n \<noteq> []"
  by (subst dec_of_nat.simps) simp

lemma dec_of_nat_digits: "\<forall>c \<in> set (dec_of_nat n). c_isdigit c"
proof (induction n rule: dec_of_nat.induct)
  case (1 n)
  then show ?case
    by (cases "n < 10") (auto simp: dec_of_nat.simps [of n])
qed

lemma nat_of_dec_append: "nat_of_dec (s @ [c]) = nat_of_dec s * 10 + digit_val c"
  by (simp add: nat_of_dec_def)

lemma nat_of_dec_of_nat [simp]: "nat_of_dec (dec_of_nat n) = n"
proof (induction n rule: dec_of_nat.induct)
  case (1 n)
  show ?case
  proof (cases "n < 10")
    case True
    then show ?thesis by (simp add: dec_of_nat.simps [of n] nat_of_dec_def)
  next
    case False
    with 1 have "nat_of_dec (dec_of_nat (n div 10)) = n div 10" by simp
    with False show ?thesis
      by (simp add: dec_of_nat.simps [of n] nat_of_dec_append)
  qed
qed

lemma dec_of_nat_inject [simp]: "dec_of_nat m = dec_of_nat n \<longleftrightarrow> m = n"
  by (metis nat_of_dec_of_nat)

lemma dec_of_nat_hd_nonzero: "0 < n \<Longrightarrow> hd (dec_of_nat n) \<noteq> digit_char 0"
proof (induction n rule: dec_of_nat.induct)
  case (1 n)
  show ?case
  proof (cases "n < 10")
    case True
    with 1 show ?thesis
      by (metis dec_of_nat.simps digit_val_digit_char list.sel(1) not_gr_zero zero_less_numeral)
  next
    case False
    with 1 have "hd (dec_of_nat (n div 10)) \<noteq> digit_char 0" by simp
    with False show ?thesis by (simp add: dec_of_nat.simps [of n])
  qed
qed

text \<open>
  \<open>std::stoi\<close>: leading white space, an optional sign, at least one digit, anything after
  the digits ignored; \<open>None\<close> is the exception it throws (no digits, or out of range).
\<close>

definition read_signed :: "string \<Rightarrow> int option" where
  "read_signed str =
     (let s = dropWhile c_isspace str;
          (neg, t) = (case s of c # r \<Rightarrow> if c = CHR ''-'' then (True, r)
                                        else if c = CHR ''+'' then (False, r) else (False, s)
                      | [] \<Rightarrow> (False, s));
          ds = takeWhile c_isdigit t
      in if ds = [] then None
         else Some (if neg then - int (nat_of_dec ds) else int (nat_of_dec ds)))"

definition stoi :: "string \<Rightarrow> int option" where
  "stoi s = (case read_signed s of None \<Rightarrow> None
     | Some v \<Rightarrow> if - (2 ^ 31) \<le> v \<and> v < 2 ^ 31 then Some v else None)"

definition stoll :: "string \<Rightarrow> int option" where
  "stoll s = (case read_signed s of None \<Rightarrow> None
     | Some v \<Rightarrow> if - (2 ^ 63) \<le> v \<and> v < 2 ^ 63 then Some v else None)"

lemma takeWhile_all: "\<forall>x \<in> set xs. P x \<Longrightarrow> takeWhile P xs = xs"
  by (induction xs) auto

lemma dropWhile_hd_no: "xs \<noteq> [] \<Longrightarrow> \<not> P (hd xs) \<Longrightarrow> dropWhile P xs = xs"
  by (cases xs) auto

lemma digit_not_space: "c_isdigit c \<Longrightarrow> \<not> c_isspace c \<and> c \<noteq> CHR ''-'' \<and> c \<noteq> CHR ''+''"
  by (auto simp: chr_simps)

lemma read_signed_dec_of_nat: "read_signed (dec_of_nat n) = Some (int n)"
proof -
  obtain c r where cr: "dec_of_nat n = c # r"
    by (metis dec_of_nat_nonempty neq_Nil_conv)
  then have "c_isdigit c" using dec_of_nat_digits [of n] by auto
  note c = digit_not_space [OF this]
  have tw: "takeWhile c_isdigit (c # r) = c # r"
    using dec_of_nat_digits [of n] by (intro takeWhile_all) (simp add: cr)
  have val: "nat_of_dec (c # r) = n" using nat_of_dec_of_nat [of n] cr by simp
  show ?thesis
    using c by (simp add: read_signed_def cr Let_def tw val del: takeWhile.simps)
qed

lemma read_signed_to_string: "read_signed (to_string i) = Some i"
proof (cases "i < 0")
  case True
  have tw: "takeWhile c_isdigit (dec_of_nat (nat (- i))) = dec_of_nat (nat (- i))"
    using dec_of_nat_digits by (rule takeWhile_all)
  from True show ?thesis
    by (simp add: to_string_def read_signed_def c_isspace_def Let_def tw)
next
  case False
  then show ?thesis by (simp add: to_string_def read_signed_dec_of_nat)
qed

lemma stoi_to_string: "- (2 ^ 31) \<le> i \<Longrightarrow> i < 2 ^ 31 \<Longrightarrow> stoi (to_string i) = Some i"
  by (simp add: stoi_def read_signed_to_string)

section \<open>Searching in strings\<close>

text \<open>
  \<open>break_at d s\<close> is \<open>s.find(d)\<close> with the text before and after the first occurrence;
  \<open>None\<close> is \<open>npos\<close>. A position in the source is the suffix that starts there.
\<close>

fun is_prefix :: "string \<Rightarrow> string \<Rightarrow> bool" where
  "is_prefix [] s = True"
| "is_prefix (p # ps) [] = False"
| "is_prefix (p # ps) (c # cs) = (p = c \<and> is_prefix ps cs)"

fun break_at :: "string \<Rightarrow> string \<Rightarrow> (string \<times> string) option" where
  "break_at d [] = (if d = [] then Some ([], []) else None)"
| "break_at d (c # cs) =
     (if is_prefix d (c # cs) then Some ([], drop (length d) (c # cs))
      else map_option (\<lambda>(a, b). (c # a, b)) (break_at d cs))"

lemma is_prefix_iff: "is_prefix p s \<longleftrightarrow> (\<exists>r. s = p @ r)"
  by (induction p s rule: is_prefix.induct) auto

lemma is_prefix_self [simp]: "is_prefix p (p @ s)"
  by (simp add: is_prefix_iff)

lemma break_at_SomeD: "break_at d s = Some (a, b) \<Longrightarrow> s = a @ d @ b"
proof (induction d s arbitrary: a b rule: break_at.induct)
  case (2 d c cs)
  show ?case
  proof (cases "is_prefix d (c # cs)")
    case True
    then obtain r where r: "c # cs = d @ r" by (auto simp: is_prefix_iff)
    from "2.prems" True have "a = []" and "b = drop (length d) (c # cs)" by simp_all
    then show ?thesis by (simp add: r)
  next
    case False
    with 2 show ?thesis by auto
  qed
qed (auto split: if_splits)

lemma break_at_None: "break_at d s = None \<longleftrightarrow> (\<forall>a b. s \<noteq> a @ d @ b)"
proof (induction d s rule: break_at.induct)
  case (2 d c cs)
  show ?case
  proof (cases "is_prefix d (c # cs)")
    case True
    then obtain r where "c # cs = [] @ d @ r" by (auto simp: is_prefix_iff)
    then have "\<exists>a b. c # cs = a @ d @ b" by blast
    with True show ?thesis by (auto simp: is_prefix_iff)
  next
    case False
    then have "(\<exists>a b. c # cs = a @ d @ b) \<longleftrightarrow> (\<exists>a b. cs = a @ d @ b)"
      by (auto simp: is_prefix_iff Cons_eq_append_conv)
    with 2 False show ?thesis by auto
  qed
qed auto

lemma break_at_length: "break_at d s = Some (a, b) \<Longrightarrow> length s = length a + length d + length b"
  by (auto dest: break_at_SomeD)

section \<open>std::map\<close>

type_synonym ('k, 'v) omap = "('k \<times> 'v) list"

fun omap_put :: "'k::linorder \<Rightarrow> 'v \<Rightarrow> ('k, 'v) omap \<Rightarrow> ('k, 'v) omap" where
  "omap_put k v [] = [(k, v)]"
| "omap_put k v ((k', v') # m) =
     (if k < k' then (k, v) # (k', v') # m
      else if k = k' then (k, v) # m
      else (k', v') # omap_put k v m)"

definition omap_erase :: "'k::linorder \<Rightarrow> ('k, 'v) omap \<Rightarrow> ('k, 'v) omap" where
  "omap_erase k m = filter (\<lambda>e. fst e \<noteq> k) m"

definition omap_ok :: "('k::linorder, 'v) omap \<Rightarrow> bool" where
  "omap_ok m = sorted_wrt (<) (map fst m)"

abbreviation omap_get :: "('k::linorder, 'v) omap \<Rightarrow> 'k \<Rightarrow> 'v option" where
  "omap_get m k \<equiv> map_of m k"

abbreviation omap_keys :: "('k::linorder, 'v) omap \<Rightarrow> 'k list" where
  "omap_keys m \<equiv> map fst m"

lemma omap_get_put [omap_simps]: "map_of (omap_put k v m) = (map_of m)(k \<mapsto> v)"
  by (induction k v m rule: omap_put.induct) (auto simp: fun_eq_iff)

lemma omap_get_erase [omap_simps]: "map_of (omap_erase k m) = (map_of m)(k := None)"
  by (induction m) (auto simp: omap_erase_def fun_eq_iff)

lemma set_keys_put: "set (omap_keys (omap_put k v m)) = insert k (set (omap_keys m))"
  by (induction k v m rule: omap_put.induct) auto

lemma omap_ok_Nil [simp, omap_simps]: "omap_ok []"
  by (simp add: omap_ok_def)

lemma omap_ok_put [omap_simps]: "omap_ok m \<Longrightarrow> omap_ok (omap_put k v m)"
proof (induction k v m rule: omap_put.induct)
  case (2 k v k' v' m)
  then have "\<forall>x \<in> set (omap_keys m). k' < x" by (simp add: omap_ok_def)
  with 2 show ?case
    using set_keys_put [of k v m] by (auto simp: omap_ok_def)
qed (simp add: omap_ok_def)

lemma omap_ok_erase [omap_simps]: "omap_ok m \<Longrightarrow> omap_ok (omap_erase k m)"
  unfolding omap_ok_def omap_erase_def
  by (induction m) auto

lemma omap_ok_distinct: "omap_ok m \<Longrightarrow> distinct (omap_keys m)"
  unfolding omap_ok_def by (induction m) auto

lemma omap_ok_get_mem: "omap_ok m \<Longrightarrow> (k, v) \<in> set m \<longleftrightarrow> map_of m k = Some v"
  using omap_ok_distinct by (metis map_of_eq_Some_iff)

lemma omap_put_append:
  "\<forall>x \<in> set (omap_keys m). x < k \<Longrightarrow> omap_put k v m = m @ [(k, v)]"
  by (induction k v m rule: omap_put.induct) auto

text \<open>Building a map by \<open>operator[]\<close> assignments in order: a sorted list is its own result.\<close>

definition omap_of_list :: "('k::linorder \<times> 'v) list \<Rightarrow> ('k, 'v) omap" where
  "omap_of_list xs = foldl (\<lambda>m (k, v). omap_put k v m) [] xs"

lemma omap_foldl_put:
  "omap_ok (m @ xs) \<Longrightarrow> foldl (\<lambda>m (k, v). omap_put k v m) m xs = m @ xs"
proof (induction xs arbitrary: m)
  case (Cons x xs)
  obtain k v where x: "x = (k, v)" by (cases x)
  from Cons.prems x have "\<forall>y \<in> set (omap_keys m). y < k"
    by (auto simp: omap_ok_def sorted_wrt_append)
  then have "omap_put k v m = m @ [(k, v)]" by (rule omap_put_append)
  with Cons x show ?case by simp
qed simp

lemma omap_of_list_ok: "omap_ok m \<Longrightarrow> omap_of_list m = m"
  using omap_foldl_put [of "[]" m] by (simp add: omap_of_list_def)

section \<open>Lists\<close>

definition safe_last :: "'a list \<Rightarrow> 'a option" where
  "safe_last xs = (if xs = [] then None else Some (last xs))"

text \<open>Replacing the last element: what a pointer to \<open>back()\<close> writes through.\<close>

definition upd_last :: "('a \<Rightarrow> 'a) \<Rightarrow> 'a list \<Rightarrow> 'a list" where
  "upd_last f xs = (if xs = [] then [] else butlast xs @ [f (last xs)])"

lemma upd_last_snoc [simp]: "upd_last f (xs @ [x]) = xs @ [f x]"
  by (simp add: upd_last_def)

lemma upd_last_Nil [simp]: "upd_last f [] = []"
  by (simp add: upd_last_def)

lemma length_upd_last [simp]: "length (upd_last f xs) = length xs"
  by (simp add: upd_last_def)

lemma set_upd_last: "set (upd_last f xs) \<subseteq> set xs \<union> f ` set xs"
  by (cases xs rule: rev_cases) auto

lemma list_all_upd_last: "list_all P xs \<Longrightarrow> (\<And>x. P x \<Longrightarrow> P (f x)) \<Longrightarrow> list_all P (upd_last f xs)"
  by (cases xs rule: rev_cases) auto

lemma map_upd_last: "(\<And>x. g (f x) = g x) \<Longrightarrow> map g (upd_last f xs) = map g xs"
  by (cases xs rule: rev_cases) auto

end
