(* ===== verification/StringUtil.thy ===== *)
theory StringUtil
  imports Prelude
begin

text \<open>
  \<open>src/src/util/string_util.h\<close>. Byte strings are \<open>string\<close>; the functions keep their
  names. \<open>split\<close> and \<open>replace\<close> are the two loops: with an empty delimiter (pattern) the
  position never advances and the C++ loop does not end, which is the value \<open>None\<close> here;
  with a non-empty one they are proved to return.
\<close>

section \<open>Case and blanks\<close>

definition toLower :: "string \<Rightarrow> string" where
  "toLower str = map c_tolower str"

definition toUpper :: "string \<Rightarrow> string" where
  "toUpper str = map c_toupper str"

text \<open>The set \<open>" \t\n\r\f\v"\<close> of \<open>trim\<close> is \<open>isspace\<close> of the C locale.\<close>

definition trim :: "string \<Rightarrow> string" where
  "trim str = rev (dropWhile c_isspace (rev (dropWhile c_isspace str)))"

definition isEmpty :: "string \<Rightarrow> bool" where
  "isEmpty str = (str = [])"

definition isBlank :: "string \<Rightarrow> bool" where
  "isBlank str = (trim str = [])"

section \<open>Splitting, joining and replacing\<close>

partial_function (option) split_loop :: "string \<Rightarrow> string \<Rightarrow> string list \<Rightarrow> string list option" where
  "split_loop delimiter rest tokens =
     (case break_at delimiter rest of
        Some (token, rest') \<Rightarrow> split_loop delimiter rest' (tokens @ [token])
      | None \<Rightarrow> Some (tokens @ [rest]))"

declare split_loop.simps [code]

definition split :: "string \<Rightarrow> string \<Rightarrow> string list option" where
  "split str delimiter = (if str = [] then Some [] else split_loop delimiter str [])"

fun join :: "string list \<Rightarrow> string \<Rightarrow> string" where
  "join [] delimiter = []"
| "join [s] delimiter = s"
| "join (s # t # ts) delimiter = s @ delimiter @ join (t # ts) delimiter"

partial_function (option) replace_loop :: "string \<Rightarrow> string \<Rightarrow> string \<Rightarrow> string \<Rightarrow> string option" where
  "replace_loop done rest src to =
     (case break_at src rest of
        Some (front, rest') \<Rightarrow> replace_loop (done @ front @ to) rest' src to
      | None \<Rightarrow> Some (done @ rest))"

declare replace_loop.simps [code]

definition replace :: "string \<Rightarrow> string \<Rightarrow> string \<Rightarrow> string option" where
  "replace str src to = replace_loop [] str src to"

section \<open>Tests and conversions\<close>

definition startsWith :: "string \<Rightarrow> string \<Rightarrow> bool" where
  "startsWith str pre =
     (if length pre > length str then False else take (length pre) str = pre)"

definition endsWith :: "string \<Rightarrow> string \<Rightarrow> bool" where
  "endsWith str suf =
     (if length suf > length str then False else drop (length str - length suf) str = suf)"

definition contains :: "string \<Rightarrow> string \<Rightarrow> bool" where
  "contains str sub = (break_at sub str \<noteq> None)"

definition toInt :: "string \<Rightarrow> int" where
  "toInt str = (case stoi str of Some v \<Rightarrow> v | None \<Rightarrow> 0)"

definition toBool :: "string \<Rightarrow> bool" where
  "toBool str = (let lower = toLower str in lower = ''true'' \<or> lower = ''1'' \<or> lower = ''yes'')"

section \<open>Facts\<close>

lemma length_toLower [simp]: "length (toLower s) = length s"
  by (simp add: toLower_def)

lemma toLower_idem [simp]: "toLower (toLower s) = toLower s"
  by (simp add: toLower_def)

lemma toLower_append [simp]: "toLower (s @ t) = toLower s @ toLower t"
  by (simp add: toLower_def)

lemma toLower_Nil_iff [simp]: "toLower s = [] \<longleftrightarrow> s = []"
  by (simp add: toLower_def)

lemma trim_Nil [simp]: "trim [] = []"
  by (simp add: trim_def)

lemma dropWhile_snoc_no: "\<not> P x \<Longrightarrow> dropWhile P (xs @ [x]) = dropWhile P xs @ [x]"
  by (induction xs) auto

lemma trim_id:
  assumes "s \<noteq> []" and "\<not> c_isspace (hd s)" and "\<not> c_isspace (last s)"
  shows "trim s = s"
  using assms by (simp add: trim_def dropWhile_hd_no hd_rev)

lemma trim_shape:
  "trim s = [] \<or> (trim s \<noteq> [] \<and> \<not> c_isspace (hd (trim s)) \<and> \<not> c_isspace (last (trim s)))"
proof (cases "trim s = []")
  case False
  let ?u = "dropWhile c_isspace s"
  let ?v = "dropWhile c_isspace (rev ?u)"
  from False have v: "?v \<noteq> []" by (simp add: trim_def)
  then have "\<not> c_isspace (last (trim s))"
    using hd_dropWhile [of c_isspace "rev ?u"] by (simp add: trim_def last_rev)
  moreover have "\<not> c_isspace (hd (trim s))"
  proof -
    from v have u: "?u \<noteq> []" by (metis dropWhile.simps(1) rev.simps(1))
    then have nu: "\<not> c_isspace (hd ?u)" using hd_dropWhile by blast
    have "last ?v = last (rev ?u)"
      using v by (metis last_appendR takeWhile_dropWhile_id)
    then show ?thesis using u nu v by (simp add: trim_def hd_rev last_rev)
  qed
  ultimately show ?thesis using False by simp
qed simp

lemma trim_trim [simp]: "trim (trim s) = trim s"
  using trim_shape [of s] trim_id by auto

lemma length_trim: "length (trim s) \<le> length s"
proof -
  have "length (dropWhile c_isspace (rev (dropWhile c_isspace s))) \<le> length (rev (dropWhile c_isspace s))"
    by (rule length_dropWhile_le)
  also have "\<dots> \<le> length s" by (simp add: length_dropWhile_le)
  finally show ?thesis by (simp add: trim_def)
qed

lemma set_trim: "set (trim s) \<subseteq> set s"
  by (auto simp: trim_def dest!: set_dropWhileD)

lemma startsWith_iff: "startsWith s p \<longleftrightarrow> (\<exists>r. s = p @ r)"
  by (auto simp: startsWith_def) (metis append_take_drop_id)

lemma startsWith_append [simp]: "startsWith (p @ r) p"
  by (simp add: startsWith_iff)

lemma endsWith_iff: "endsWith s p \<longleftrightarrow> (\<exists>r. s = r @ p)"
  by (auto simp: endsWith_def) (metis append_take_drop_id)

lemma contains_iff: "contains s p \<longleftrightarrow> (\<exists>a b. s = a @ p @ b)"
  using break_at_None [of p s] by (auto simp: contains_def simp del: not_None_eq)

text \<open>What splitting means, and that the loop computes it for every non-empty delimiter.\<close>

function split_spec :: "string \<Rightarrow> string \<Rightarrow> string list" where
  "split_spec d s =
     (if d = [] then [s]
      else case break_at d s of None \<Rightarrow> [s] | Some (a, b) \<Rightarrow> a # split_spec d b)"
  by pat_completeness auto
termination
proof (relation "measure (\<lambda>(d, s). length s)")
  fix d s x and a b :: string
  assume "d \<noteq> []" and "break_at d s = Some x" and "(a, b) = x"
  then have "break_at d s = Some (a, b)" by simp
  from break_at_length [OF this] \<open>d \<noteq> []\<close>
  show "((d, b), (d, s)) \<in> measure (\<lambda>(d, s). length s)" by simp
qed simp

declare split_spec.simps [simp del]

lemma split_loop_spec: "d \<noteq> [] \<Longrightarrow> split_loop d s acc = Some (acc @ split_spec d s)"
proof (induction d s arbitrary: acc rule: split_spec.induct)
  case (1 d s)
  show ?case
  proof (cases "break_at d s")
    case None
    with 1 show ?thesis by (simp add: split_loop.simps split_spec.simps [of d s])
  next
    case (Some x)
    obtain a b where "x = (a, b)" by (cases x)
    with 1 Some show ?thesis
      by (simp add: split_loop.simps [of d s] split_spec.simps [of d s])
  qed
qed

lemma split_returns: "d \<noteq> [] \<Longrightarrow> split s d = Some (if s = [] then [] else split_spec d s)"
  by (simp add: split_def split_loop_spec)

lemma split_spec_nonempty [simp]: "split_spec d s \<noteq> []"
  by (subst split_spec.simps) (auto split: option.splits)

lemma join_Cons: "ts \<noteq> [] \<Longrightarrow> join (s # ts) d = s @ d @ join ts d"
  by (cases ts) auto

lemma join_split_spec: "d \<noteq> [] \<Longrightarrow> join (split_spec d s) d = s"
proof (induction d s rule: split_spec.induct)
  case (1 d s)
  show ?case
  proof (cases "break_at d s")
    case None
    with 1 show ?thesis by (simp add: split_spec.simps [of d s])
  next
    case (Some x)
    obtain a b where x: "x = (a, b)" by (cases x)
    with 1 Some have "join (split_spec d b) d = b" by simp
    moreover from Some x have "s = a @ d @ b" by (auto dest: break_at_SomeD)
    moreover have "split_spec d s = a # split_spec d b"
      using 1 Some x by (simp add: split_spec.simps [of d s])
    ultimately show ?thesis by (simp add: join_Cons)
  qed
qed

text \<open>The source only ever splits at one-character delimiters; the result of such a split.\<close>

definition split1 :: "string \<Rightarrow> char \<Rightarrow> string list" where
  "split1 str c = the (split str [c])"

lemma split1_eq: "split1 s c = (if s = [] then [] else split_spec [c] s)"
  by (simp add: split1_def split_returns)

lemma break_at_single_notin: "break_at [c] s = Some (a, b) \<Longrightarrow> c \<notin> set a"
proof (induction s arbitrary: a)
  case (Cons x s)
  then show ?case by (auto split: if_splits)
qed simp

lemma split_spec_no_delim: "t \<in> set (split_spec [c] s) \<Longrightarrow> c \<notin> set t"
proof (induction "[c]" s rule: split_spec.induct)
  case (1 s)
  show ?case
  proof (cases "break_at [c] s")
    case None
    then have "c \<notin> set s"
      unfolding break_at_None by (metis append_Cons append_Nil split_list)
    with None 1 show ?thesis by (simp add: split_spec.simps [of "[c]" s])
  next
    case (Some x)
    obtain a b where "x = (a, b)" by (cases x)
    with 1 Some show ?thesis
      using break_at_single_notin by (auto simp: split_spec.simps [of "[c]" s])
  qed
qed

lemma split1_no_delim: "t \<in> set (split1 s c) \<Longrightarrow> c \<notin> set t"
  by (auto simp: split1_eq split_spec_no_delim split: if_splits)

lemma join_split1: "join (split1 s c) [c] = s"
  by (simp add: split1_eq join_split_spec)

lemma replace_loop_returns: "src \<noteq> [] \<Longrightarrow> \<exists>r. replace_loop acc s src to = Some (acc @ r)"
proof (induction src s arbitrary: acc rule: split_spec.induct)
  case (1 src s)
  show ?case
  proof (cases "break_at src s")
    case None
    then show ?thesis by (simp add: replace_loop.simps)
  next
    case (Some x)
    obtain a b where x: "x = (a, b)" by (cases x)
    with 1 Some obtain r where "replace_loop (acc @ a @ to) b src to = Some ((acc @ a @ to) @ r)"
      by blast
    with Some x show ?thesis by (simp add: replace_loop.simps [of acc s])
  qed
qed

lemma replace_eq_join:
  "src \<noteq> [] \<Longrightarrow> replace_loop acc s src to = Some (acc @ join (split_spec src s) to)"
proof (induction src s arbitrary: acc rule: split_spec.induct)
  case (1 src s)
  show ?case
  proof (cases "break_at src s")
    case None
    with 1 show ?thesis by (simp add: replace_loop.simps split_spec.simps [of src s])
  next
    case (Some x)
    obtain a b where "x = (a, b)" by (cases x)
    with 1 Some show ?thesis
      by (simp add: replace_loop.simps [of acc s] split_spec.simps [of src s] join_Cons)
  qed
qed

text \<open>
  Splitting at a non-empty delimiter returns, joining the tokens with the delimiter gives
  the text back, and replacing is splitting at the pattern and joining with the replacement.
\<close>

lemma split_join_replace:
  assumes "d \<noteq> []"
  shows "\<exists>ts. split s d = Some ts \<and> join ts d = s \<and> replace s d to = Some (join ts to)"
proof (cases "s = []")
  case True
  with assms show ?thesis by (simp add: split_def replace_def replace_loop.simps)
next
  case False
  with assms show ?thesis
    by (simp add: split_returns join_split_spec replace_def replace_eq_join)
qed

lemma split_join_replace_witness:
  "\<exists>ts. split ''a,b,c'' '','' = Some ts \<and> join ts '','' = ''a,b,c''
     \<and> replace ''a,b,c'' '','' ''; '' = Some (join ts ''; '')"
  by (rule split_join_replace) simp

end
