(* ===== verification/JsonValue.thy ===== *)
theory JsonValue
  imports StringUtil Complex_Main
begin

text \<open>
  \<open>src/src/util/json.h\<close>, the value type: construction, access, modification and
  serialisation. The copy-on-write containers have value semantics, so a value is a plain
  datatype; an object is a \<open>std::map\<close>, hence an ordered map. A number is a C++
  \<open>double\<close>: \<open>Fin q\<close> for a finite value (the sign of zero is not kept, no operation here
  tells the two zeros apart), \<open>Inf\<close> and \<open>NaN\<close>. \<open>round_double\<close> is the
  round-half-to-even of \<open>strtod\<close>, and \<open>fmt_17g\<close> is \<open>printf\<close> with \<open>%.17g\<close>.
\<close>

section \<open>Doubles\<close>

datatype double = Fin rat | Inf bool | NaN

fun bitlen :: "nat \<Rightarrow> nat" where
  "bitlen n = (if n = 0 then 0 else Suc (bitlen (n div 2)))"

declare bitlen.simps [simp del]

definition pow2 :: "int \<Rightarrow> rat" where
  "pow2 k = (if 0 \<le> k then of_nat (2 ^ nat k) else 1 / of_nat (2 ^ nat (- k)))"

text \<open>\<open>n / d / 2 ^ k\<close> as a quotient of natural numbers.\<close>

definition scaled :: "nat \<Rightarrow> nat \<Rightarrow> int \<Rightarrow> nat \<times> nat" where
  "scaled n d k = (if 0 \<le> k then (n, d * 2 ^ nat k) else (n * 2 ^ nat (- k), d))"

definition div_half_even :: "nat \<Rightarrow> nat \<Rightarrow> nat" where
  "div_half_even n d =
     (let q = n div d; r = n mod d
      in if 2 * r > d \<or> (2 * r = d \<and> odd q) then q + 1 else q)"

definition binary_exponent :: "nat \<Rightarrow> nat \<Rightarrow> int" where
  "binary_exponent n d =
     (let k0 = int (bitlen n) - int (bitlen d) - 53;
          k1 = (case scaled n d k0 of (a, b) \<Rightarrow> if 2 ^ 53 \<le> a div b then k0 + 1 else k0)
      in max k1 (- 1074))"

text \<open>The double nearest to \<open>(-1)^neg * n / d\<close>.\<close>

definition round_double :: "bool \<Rightarrow> nat \<Rightarrow> nat \<Rightarrow> double" where
  "round_double neg n d =
     (if n = 0 then Fin 0
      else let k = binary_exponent n d;
               m = (case scaled n d k of (a, b) \<Rightarrow> div_half_even a b);
               v = of_nat m * pow2 k
           in if pow2 1024 \<le> v then Inf neg else Fin (if neg then - v else v))"

lemma bitlen_le: "n < 2 ^ b \<Longrightarrow> bitlen n \<le> b"
proof (induction b arbitrary: n)
  case 0
  then show ?case by (simp add: bitlen.simps)
next
  case (Suc b)
  then have "n div 2 < 2 ^ b" by simp
  with Suc.IH have "bitlen (n div 2) \<le> b" by blast
  then show ?case by (subst bitlen.simps) simp
qed

lemma round_double_int:
  assumes "n < 2 ^ 53"
  shows "round_double neg n 1 = Fin (if neg then - of_nat n else of_nat n)"
proof (cases "n = 0")
  case False
  let ?k = "binary_exponent n 1"
  have "bitlen 1 = 1" by (simp add: bitlen.simps)
  with bitlen_le [OF assms] have "int (bitlen n) - int (bitlen 1) - 53 \<le> - 1" by simp
  then have k: "?k \<le> 0" by (simp add: binary_exponent_def Let_def split: prod.splits)
  have val: "of_nat (case scaled n 1 ?k of (a, b) \<Rightarrow> div_half_even a b) * pow2 ?k = (of_nat n :: rat)"
  proof (cases "?k = 0")
    case True
    then show ?thesis by (simp add: scaled_def div_half_even_def pow2_def)
  next
    case neg: False
    with k show ?thesis by (simp add: scaled_def div_half_even_def pow2_def)
  qed
  have "(of_nat n :: rat) < of_nat (2 ^ 53)" using assms by (simp only: of_nat_less_iff)
  also have "\<dots> \<le> pow2 1024" by (simp add: pow2_def)
  finally have "\<not> pow2 1024 \<le> (of_nat n :: rat)" by simp
  with False val show ?thesis by (simp add: round_double_def Let_def)
qed (simp add: round_double_def)

section \<open>Printing a double\<close>

definition pow10 :: "int \<Rightarrow> rat" where
  "pow10 k = (if 0 \<le> k then of_nat (10 ^ nat k) else 1 / of_nat (10 ^ nat (- k)))"

definition floor_log10 :: "nat \<Rightarrow> nat \<Rightarrow> int" where
  "floor_log10 n d =
     (let x = int (length (dec_of_nat n)) - int (length (dec_of_nat d))
      in if pow10 x \<le> of_nat n / of_nat d then x else x - 1)"

text \<open>The 17 significant digits of \<open>n / d\<close> and the decimal exponent of the first one.\<close>

definition digits17 :: "nat \<Rightarrow> nat \<Rightarrow> nat \<times> int" where
  "digits17 n d =
     (let x = floor_log10 n d; e = x - 16;
          m = (if 0 \<le> e then div_half_even n (d * 10 ^ nat e) else div_half_even (n * 10 ^ nat (- e)) d)
      in if m = 10 ^ 17 then (10 ^ 16, x + 1) else (m, x))"

definition strip_zeros :: "string \<Rightarrow> string" where
  "strip_zeros s = rev (dropWhile (\<lambda>c. c = CHR ''0'') (rev s))"

definition with_fraction :: "string \<Rightarrow> string \<Rightarrow> string" where
  "with_fraction whole ds = (let f = strip_zeros ds in if f = [] then whole else whole @ ''.'' @ f)"

definition fmt_17g :: "rat \<Rightarrow> string" where
  "fmt_17g v =
     (if v = 0 then ''0''
      else case quotient_of \<bar>v\<bar> of (n, d) \<Rightarrow>
        case digits17 (nat n) (nat d) of (m, x) \<Rightarrow>
          let ds = dec_of_nat m; sgn_part = (if v < 0 then ''-'' else [])
          in sgn_part @
            (if x < - 4 \<or> 17 \<le> x
             then with_fraction (take 1 ds) (drop 1 ds) @ ''e'' @ (if x < 0 then ''-'' else ''+'')
                  @ (let e = dec_of_nat (nat \<bar>x\<bar>) in if length e < 2 then ''0'' @ e else e)
             else if 0 \<le> x then with_fraction (take (nat x + 1) ds) (drop (nat x + 1) ds)
             else with_fraction ''0'' (replicate (nat (- x) - 1) CHR ''0'' @ ds)))"

definition dump_number :: "double \<Rightarrow> string" where
  "dump_number x =
     (case x of
        Fin v \<Rightarrow> if of_int \<lfloor>v\<rfloor> = v \<and> \<bar>v\<bar> < 10 ^ 15 then to_string \<lfloor>v\<rfloor> else fmt_17g v
      | _ \<Rightarrow> ''null'')"

section \<open>Values\<close>

datatype Json =
    JNull
  | JBool bool
  | JNum double
  | JStr string
  | JArr "Json list"
  | JObj "(string \<times> Json) list"

datatype json_type = TNull | TBool | TNumber | TString | TArray | TObject

fun type_of :: "Json \<Rightarrow> json_type" where
  "type_of JNull = TNull"
| "type_of (JBool b) = TBool"
| "type_of (JNum n) = TNumber"
| "type_of (JStr s) = TString"
| "type_of (JArr a) = TArray"
| "type_of (JObj ob) = TObject"

definition isNull :: "Json \<Rightarrow> bool" where "isNull j = (type_of j = TNull)"
definition isBool :: "Json \<Rightarrow> bool" where "isBool j = (type_of j = TBool)"
definition isNumber :: "Json \<Rightarrow> bool" where "isNumber j = (type_of j = TNumber)"
definition isString :: "Json \<Rightarrow> bool" where "isString j = (type_of j = TString)"
definition isArray :: "Json \<Rightarrow> bool" where "isArray j = (type_of j = TArray)"
definition isObject :: "Json \<Rightarrow> bool" where "isObject j = (type_of j = TObject)"

definition asBool :: "bool \<Rightarrow> Json \<Rightarrow> bool" where
  "asBool def j = (case j of JBool b \<Rightarrow> b | _ \<Rightarrow> def)"

definition asNumber :: "double \<Rightarrow> Json \<Rightarrow> double" where
  "asNumber def j = (case j of JNum n \<Rightarrow> n | _ \<Rightarrow> def)"

text \<open>
  \<open>static_cast<int>(double)\<close> truncates; a value that does not fit (or is not finite) is
  undefined behaviour, for which the model takes what the x86-64 instruction delivers, the
  smallest integer of the width.
\<close>

definition trunc_to :: "nat \<Rightarrow> double \<Rightarrow> int" where
  "trunc_to w x =
     (case x of
        Fin v \<Rightarrow> (let t = (if v < 0 then \<lceil>v\<rceil> else \<lfloor>v\<rfloor>)
                  in if - (2 ^ (w - 1)) \<le> t \<and> t < 2 ^ (w - 1) then t else - (2 ^ (w - 1)))
      | _ \<Rightarrow> - (2 ^ (w - 1)))"

definition asInt :: "int \<Rightarrow> Json \<Rightarrow> int" where
  "asInt def j = (case j of JNum n \<Rightarrow> trunc_to 32 n | _ \<Rightarrow> def)"

definition asInt64 :: "int \<Rightarrow> Json \<Rightarrow> int" where
  "asInt64 def j = (case j of JNum n \<Rightarrow> trunc_to 64 n | _ \<Rightarrow> def)"

definition asString :: "string \<Rightarrow> Json \<Rightarrow> string" where
  "asString def j = (case j of JStr s \<Rightarrow> s | _ \<Rightarrow> def)"

definition asArray :: "Json \<Rightarrow> Json list" where
  "asArray j = (case j of JArr a \<Rightarrow> a | _ \<Rightarrow> [])"

definition asObject :: "Json \<Rightarrow> (string, Json) omap" where
  "asObject j = (case j of JObj ob \<Rightarrow> ob | _ \<Rightarrow> [])"

definition json_size :: "Json \<Rightarrow> nat" where
  "json_size j = (case j of JArr a \<Rightarrow> length a | JObj ob \<Rightarrow> length ob | _ \<Rightarrow> 0)"

definition json_contains :: "Json \<Rightarrow> string \<Rightarrow> bool" where
  "json_contains j key = (case j of JObj ob \<Rightarrow> omap_get ob key \<noteq> None | _ \<Rightarrow> False)"

text \<open>Read-only access: a missing key or index is the null value.\<close>

definition jget :: "Json \<Rightarrow> string \<Rightarrow> Json" where
  "jget j key = (case j of
      JObj ob \<Rightarrow> (case omap_get ob key of None \<Rightarrow> JNull | Some v \<Rightarrow> v)
    | _ \<Rightarrow> JNull)"

definition jindex :: "Json \<Rightarrow> int \<Rightarrow> Json" where
  "jindex j i = (case j of
      JArr a \<Rightarrow> if 0 \<le> i \<and> nat i < length a then a ! nat i else JNull
    | _ \<Rightarrow> JNull)"

text \<open>Writes turn a value of another type into an empty container first.\<close>

definition jset :: "Json \<Rightarrow> string \<Rightarrow> Json \<Rightarrow> Json" where
  "jset j key v = JObj (omap_put key v (asObject j))"

definition jpush :: "Json \<Rightarrow> Json \<Rightarrow> Json" where
  "jpush j v = JArr (asArray j @ [v])"

definition jerase :: "Json \<Rightarrow> string \<Rightarrow> Json" where
  "jerase j key = (case j of JObj ob \<Rightarrow> JObj (omap_erase key ob) | _ \<Rightarrow> j)"

definition jobject :: "(string \<times> Json) list \<Rightarrow> Json" where
  "jobject kvs = foldl (\<lambda>j (k, v). jset j k v) (JObj []) kvs"

lemma jget_jset [simp]: "jget (jset j k v) k' = (if k' = k then v else jget (JObj (asObject j)) k')"
  by (simp add: jget_def jset_def omap_get_put)

section \<open>Serialisation\<close>

definition hex_char :: "nat \<Rightarrow> char" where
  "hex_char d = (if d < 10 then char_of (48 + d) else char_of (87 + d))"

definition c_quote :: char where "c_quote = CHR 0x22"
definition c_backslash :: char where "c_backslash = CHR 0x5C"

definition escape_char :: "char \<Rightarrow> string" where
  "escape_char c =
     (if c = c_quote then [c_backslash, c_quote]
      else if c = c_backslash then [c_backslash, c_backslash]
      else if c = CHR 0x08 then [c_backslash, CHR ''b'']
      else if c = CHR 0x0C then [c_backslash, CHR ''f'']
      else if c = CHR 0x0A then [c_backslash, CHR ''n'']
      else if c = CHR 0x0D then [c_backslash, CHR ''r'']
      else if c = CHR 0x09 then [c_backslash, CHR ''t'']
      else if (of_char c :: nat) < 32
      then c_backslash # ''u00'' @ [hex_char (of_char c div 16), hex_char (of_char c mod 16)]
      else [c])"

definition escape :: "string \<Rightarrow> string" where
  "escape s = c_quote # concat (map escape_char s) @ [c_quote]"

definition indentTo :: "int \<Rightarrow> nat \<Rightarrow> string" where
  "indentTo indent depth =
     (if indent < 0 then [] else CHR 10 # replicate (nat indent * depth) CHR '' '')"

fun comma_sep :: "string list \<Rightarrow> string" where
  "comma_sep [] = []"
| "comma_sep [x] = x"
| "comma_sep (x # y # ys) = x @ '','' @ comma_sep (y # ys)"

fun dumpTo :: "int \<Rightarrow> nat \<Rightarrow> Json \<Rightarrow> string" where
  "dumpTo indent depth JNull = ''null''"
| "dumpTo indent depth (JBool b) = (if b then ''true'' else ''false'')"
| "dumpTo indent depth (JNum n) = dump_number n"
| "dumpTo indent depth (JStr s) = escape s"
| "dumpTo indent depth (JArr a) =
     ''['' @ comma_sep (map (\<lambda>v. indentTo indent (depth + 1) @ dumpTo indent (depth + 1) v) a)
     @ (if a = [] then [] else indentTo indent depth) @ '']''"
| "dumpTo indent depth (JObj ob) =
     ''{'' @ comma_sep (map (\<lambda>(k, v). indentTo indent (depth + 1) @ escape k @ '':''
               @ (if 0 \<le> indent then '' '' else []) @ dumpTo indent (depth + 1) v) ob)
     @ (if ob = [] then [] else indentTo indent depth) @ ''}''"

definition dump :: "int \<Rightarrow> Json \<Rightarrow> string" where
  "dump indent j = dumpTo indent 0 j"

end
