(* ===== verification/Calendar.thy ===== *)
theory Calendar
  imports StringUtil "HOL-Library.Signed_Division" "HOL-Library.Word"
begin

text \<open>
  The proleptic Gregorian calendar of the C library (\<open>gmtime_r\<close> and \<open>timegm\<close>), which
  \<open>src/src/util/time_util.h\<close> and \<open>src/src/util/cron.h\<close> call: a broken-down time is the record
  \<open>tm\<close>, \<open>gmtime\<close> searches for the year and then the month of a day number, and \<open>timegm\<close>
  normalises its fields the way the C library does. Both are total on unbounded integers; the
  two are inverse to each other on the broken-down times that name a date.
\<close>

named_theorems calendar_simps \<open>lengths of years and months\<close>

section \<open>Years\<close>

definition leap :: "int \<Rightarrow> bool" where
  "leap y = (y mod 4 = 0 \<and> (y mod 100 \<noteq> 0 \<or> y mod 400 = 0))"

definition year_length :: "int \<Rightarrow> int" where
  "year_length y = (if leap y then 366 else 365)"

text \<open>The number of the first day of a year; day 0 is 1970-01-01.\<close>

definition year_start :: "int \<Rightarrow> int" where
  "year_start y = 365 * (y - 1970) + ((y - 1) div 4 - (y - 1) div 100 + (y - 1) div 400) - 477"

lemma div_step: "0 < k \<Longrightarrow> (y::int) div k = (y - 1) div k + (if y mod k = 0 then 1 else 0)"
proof -
  assume k: "0 < k"
  have "(y - 1) div k = y div k - (if y mod k = 0 then 1 else 0)"
  proof (cases "y mod k = 0")
    case True
    then have e: "y - 1 = k - 1 + k * (y div k - 1)" by (simp add: algebra_simps minus_mod_eq_mult_div [symmetric])
    have "(y - 1) div k = (k - 1 + k * (y div k - 1)) div k" by (rule arg_cong [OF e])
    also have "\<dots> = (k - 1) div k + (y div k - 1)" using k by (subst div_mult_self2) auto
    finally show ?thesis using True k by (simp add: div_pos_pos_trivial)
  next
    case False
    with k have r: "0 < y mod k" by (metis order_neq_le_trans pos_mod_sign)
    have e: "y - 1 = y mod k - 1 + k * (y div k)" by simp
    have "(y - 1) div k = (y mod k - 1 + k * (y div k)) div k" by (rule arg_cong [OF e])
    also have "\<dots> = (y mod k - 1) div k + y div k" using k by (subst div_mult_self2) auto
    also have "(y mod k - 1) div k = 0" using r k pos_mod_bound [OF k, of y] by (intro div_pos_pos_trivial) linarith+
    finally show ?thesis using False by simp
  qed
  then show ?thesis by simp
qed

lemma year_start_Suc: "year_start (y + 1) = year_start y + year_length y"
proof -
  have "(4::int) dvd 100" "(100::int) dvd 400" by simp_all
  then have m: "y mod 100 = 0 \<Longrightarrow> y mod 4 = 0" "y mod 400 = 0 \<Longrightarrow> y mod 100 = 0"
    by (metis dvd_trans mod_eq_0_iff_dvd)+
  define a b c where "a = (y - 1) div 4" and "b = (y - 1) div 100" and "c = (y - 1) div 400"
  have "y div 4 = a + (if y mod 4 = 0 then 1 else 0)" "y div 100 = b + (if y mod 100 = 0 then 1 else 0)"
    "y div 400 = c + (if y mod 400 = 0 then 1 else 0)"
    unfolding a_def b_def c_def by (rule div_step; simp)+
  then have "year_start (y + 1) = 365 * (y - 1969) + (a + (if y mod 4 = 0 then 1 else 0)
      - (b + (if y mod 100 = 0 then 1 else 0)) + (c + (if y mod 400 = 0 then 1 else 0))) - 477"
    by (simp only: year_start_def add_diff_cancel_right') simp
  moreover have "year_start y = 365 * (y - 1970) + (a - b + c) - 477"
    by (simp only: year_start_def a_def b_def c_def)
  ultimately show ?thesis
    using m by (cases "y mod 4 = 0"; cases "y mod 100 = 0"; cases "y mod 400 = 0") (simp_all add: year_length_def leap_def)
qed

lemma year_length_bounds [calendar_simps]: "365 \<le> year_length y" "year_length y \<le> 366"
  by (simp_all add: year_length_def)

lemma year_start_mono_nat: "year_start y + 365 * int n \<le> year_start (y + int n)"
proof (induction n)
  case (Suc n)
  have e: "y + int (Suc n) = (y + int n) + 1" by simp
  show ?case
    unfolding e year_start_Suc using Suc year_length_bounds(1) [of "y + int n"] by simp
qed simp

lemma year_start_upper_nat: "year_start (y + int n) \<le> year_start y + 366 * int n"
proof (induction n)
  case (Suc n)
  have e: "y + int (Suc n) = (y + int n) + 1" by simp
  show ?case
    unfolding e year_start_Suc using Suc year_length_bounds(2) [of "y + int n"] by simp
qed simp

lemma year_start_mono: "y \<le> z \<Longrightarrow> year_start y + 365 * (z - y) \<le> year_start z"
  using year_start_mono_nat [of y "nat (z - y)"] by simp

lemma year_start_upper: "y \<le> z \<Longrightarrow> year_start z \<le> year_start y + 366 * (z - y)"
  using year_start_upper_nat [of y "nat (z - y)"] by simp

lemma year_start_epoch [calendar_simps]: "year_start 1970 = 0"
  by (simp add: year_start_def)

text \<open>The year of a day: upwards from a year that does not start after it.\<close>

function year_search :: "int \<Rightarrow> int \<Rightarrow> int" where
  "year_search days y = (if year_start (y + 1) \<le> days then year_search days (y + 1) else y)"
  by auto
termination
proof (relation "measure (\<lambda>(days, y). nat (days - year_start y))")
  fix days y
  assume "year_start (y + 1) \<le> days"
  then show "((days, y + 1), days, y) \<in> measure (\<lambda>(days, y). nat (days - year_start y))"
    using year_length_bounds(1) [of y] by (simp add: year_start_Suc)
qed simp

declare year_search.simps [simp del]

definition year_of :: "int \<Rightarrow> int" where
  "year_of days = year_search days (1970 + days div (if days < 0 then 365 else 366))"

lemma year_search_spec:
  "year_start y \<le> days \<Longrightarrow>
   year_start (year_search days y) \<le> days \<and> days < year_start (year_search days y + 1)"
  by (induction days y rule: year_search.induct) (simp add: year_search.simps)

lemma year_of_start: "year_start (1970 + days div (if days < 0 then 365 else 366)) \<le> days"
proof (cases "days < 0")
  case True
  let ?y = "1970 + days div 365"
  from True have "days div 365 < 0" by (simp add: neg_imp_zdiv_neg_iff)
  with year_start_mono [of ?y 1970] have "year_start ?y \<le> 365 * (days div 365)"
    by (simp add: calendar_simps)
  also have "\<dots> \<le> days" using mult_div_mod_eq [of 365 days] by simp
  finally show ?thesis using True by simp
next
  case False
  let ?y = "1970 + days div 366"
  from False have "0 \<le> days div 366" by (simp add: pos_imp_zdiv_nonneg_iff)
  with year_start_upper [of 1970 ?y] have "year_start ?y \<le> 366 * (days div 366)"
    by (simp add: calendar_simps)
  also have "\<dots> \<le> days" using mult_div_mod_eq [of 366 days] by simp
  finally show ?thesis using False by simp
qed

lemma year_of_bounds: "year_start (year_of days) \<le> days" "days < year_start (year_of days + 1)"
  using year_search_spec [OF year_of_start [of days]] by (auto simp: year_of_def)

lemma year_of_unique:
  assumes "year_start y \<le> days" and "days < year_start (y + 1)"
  shows "year_of days = y"
proof -
  note b = year_of_bounds [of days]
  show ?thesis
  proof (rule antisym)
    show "year_of days \<le> y"
    proof (rule ccontr)
      assume "\<not> year_of days \<le> y"
      then show False using year_start_mono [of "y + 1" "year_of days"] b assms by simp
    qed
    show "y \<le> year_of days"
    proof (rule ccontr)
      assume "\<not> y \<le> year_of days"
      then show False using year_start_mono [of "year_of days + 1" y] b assms by simp
    qed
  qed
qed

section \<open>Months\<close>

definition month_lengths :: "bool \<Rightarrow> int list" where
  "month_lengths lp = [31, if lp then 29 else 28, 31, 30, 31, 30, 31, 31, 30, 31, 30, 31]"

text \<open>The month (from 0) and the day in it (from 0) of a day of the year.\<close>

fun month_search :: "int list \<Rightarrow> int \<Rightarrow> int \<Rightarrow> int \<times> int" where
  "month_search [] m d = (m, d)"
| "month_search (l # ls) m d = (if d < l then (m, d) else month_search ls (m + 1) (d - l))"

definition days_before :: "int list \<Rightarrow> int \<Rightarrow> int" where
  "days_before ls m = sum_list (take (nat m) ls)"

lemma month_search_spec:
  assumes "0 \<le> d" and "d < sum_list ls" and "\<forall>l \<in> set ls. 0 < l" and "month_search ls m d = (m', d')"
  shows "m \<le> m' \<and> m' < m + int (length ls) \<and> 0 \<le> d' \<and> d' < ls ! nat (m' - m) \<and> d = days_before ls (m' - m) + d'"
  using assms
proof (induction ls m d rule: month_search.induct)
  case (2 l ls m d)
  show ?case
  proof (cases "d < l")
    case True
    with 2 show ?thesis by (auto simp: days_before_def)
  next
    case False
    with 2 have ih: "m + 1 \<le> m' \<and> m' < m + 1 + int (length ls) \<and> 0 \<le> d' \<and> d' < ls ! nat (m' - (m + 1))
        \<and> d - l = days_before ls (m' - (m + 1)) + d'"
      by simp
    then have n: "nat (m' - m) = Suc (nat (m' - (m + 1)))" by (auto simp: nat_eq_iff)
    with ih show ?thesis by (simp add: days_before_def)
  qed
qed simp

lemma month_search_unique:
  assumes "k < length ls" and "0 \<le> d" and "d < ls ! k" and "\<forall>l \<in> set ls. 0 < l"
  shows "month_search ls m (sum_list (take k ls) + d) = (m + int k, d)"
  using assms
proof (induction ls arbitrary: k m)
  case (Cons l ls)
  have pos: "0 \<le> sum_list (take j ls)" for j
    using Cons.prems(4) by (intro sum_list_nonneg) (auto dest!: in_set_takeD intro: less_imp_le)
  show ?case
  proof (cases k)
    case (Suc j)
    with Cons.prems have "month_search ls (m + 1) (sum_list (take j ls) + d) = (m + 1 + int j, d)"
      by (intro Cons.IH) auto
    with Suc pos [of j] Cons.prems(2) show ?thesis by (simp add: algebra_simps)
  qed (use Cons.prems in simp)
qed simp

lemma month_lengths_facts [calendar_simps]:
  "length (month_lengths lp) = 12" "sum_list (month_lengths (leap y)) = year_length y"
  by (simp_all add: month_lengths_def year_length_def)

lemma month_lengths_pos [calendar_simps]: "\<forall>l \<in> set (month_lengths lp). 0 < l"
  by (simp add: month_lengths_def)

section \<open>Broken-down times\<close>

text \<open>As \<open>std::tm\<close>, with the year and the month as they are written.\<close>

record tm =
  tm_year :: int
  tm_mon :: int
  tm_mday :: int
  tm_hour :: int
  tm_min :: int
  tm_sec :: int
  tm_wday :: int

definition date_of_days :: "int \<Rightarrow> int \<times> int \<times> int" where
  "date_of_days days =
     (let y = year_of days; (m, d) = month_search (month_lengths (leap y)) 0 (days - year_start y)
      in (y, m + 1, d + 1))"

definition gmtime :: "int \<Rightarrow> tm" where
  "gmtime t =
     (let days = t div 86400; rem = t mod 86400; (y, m, d) = date_of_days days
      in \<lparr>tm_year = y, tm_mon = m, tm_mday = d, tm_hour = rem div 3600, tm_min = rem div 60 mod 60,
          tm_sec = rem mod 60, tm_wday = (days + 4) mod 7\<rparr>)"

text \<open>\<open>timegm\<close>: a month outside 1 to 12 carries into the year, every other field is added as it is.\<close>

definition days_of_date :: "int \<Rightarrow> int \<Rightarrow> int \<Rightarrow> int" where
  "days_of_date y m d =
     (let y' = y + (m - 1) div 12; m' = (m - 1) mod 12
      in year_start y' + days_before (month_lengths (leap y')) m' + (d - 1))"

definition timegm :: "tm \<Rightarrow> int" where
  "timegm u = days_of_date (tm_year u) (tm_mon u) (tm_mday u) * 86400
     + tm_hour u * 3600 + tm_min u * 60 + tm_sec u"

definition valid_date :: "int \<Rightarrow> int \<Rightarrow> int \<Rightarrow> bool" where
  "valid_date y m d = (1 \<le> m \<and> m \<le> 12 \<and> 1 \<le> d \<and> d \<le> month_lengths (leap y) ! nat (m - 1))"

definition valid_tm :: "tm \<Rightarrow> bool" where
  "valid_tm u =
     (valid_date (tm_year u) (tm_mon u) (tm_mday u) \<and> 0 \<le> tm_hour u \<and> tm_hour u < 24
      \<and> 0 \<le> tm_min u \<and> tm_min u < 60 \<and> 0 \<le> tm_sec u \<and> tm_sec u < 60
      \<and> tm_wday u = (days_of_date (tm_year u) (tm_mon u) (tm_mday u) + 4) mod 7)"

lemma date_of_days_facts:
  assumes "date_of_days days = (y, m, d)"
  shows "valid_date y m d" and "days_of_date y m d = days" and "y = year_of days"
proof -
  let ?ls = "month_lengths (leap (year_of days))"
  obtain m0 d0 where s: "month_search ?ls 0 (days - year_start (year_of days)) = (m0, d0)"
    by (metis surj_pair)
  have e: "y = year_of days" "m = m0 + 1" "d = d0 + 1"
    using assms by (simp_all add: date_of_days_def s)
  show "y = year_of days" by (rule e(1))
  have "0 \<le> m0 \<and> m0 < 0 + int (length ?ls) \<and> 0 \<le> d0 \<and> d0 < ?ls ! nat (m0 - 0) \<and>
      days - year_start (year_of days) = days_before ?ls (m0 - 0) + d0"
    using year_of_bounds [of days] s
    by (intro month_search_spec) (simp_all add: calendar_simps year_start_Suc)
  then have f: "0 \<le> m0" "m0 < 12" "0 \<le> d0" "d0 < ?ls ! nat m0" "days = year_start y + days_before ?ls m0 + d0"
    by (simp_all add: calendar_simps e)
  show "valid_date y m d" using f by (simp add: valid_date_def e)
  show "days_of_date y m d = days"
    using f by (simp add: days_of_date_def e div_pos_pos_trivial mod_pos_pos_trivial Let_def)
qed

lemma days_of_date_inverse:
  assumes "valid_date y m d"
  shows "date_of_days (days_of_date y m d) = (y, m, d)"
proof -
  let ?ls = "month_lengths (leap y)"
  define k where "k = nat (m - 1)"
  from assms have k: "k < 12" "m = int k + 1" "1 \<le> d" "d \<le> ?ls ! k"
    by (auto simp: valid_date_def k_def)
  have days: "days_of_date y m d = year_start y + (sum_list (take k ?ls) + (d - 1))"
    using k by (simp add: days_of_date_def days_before_def div_pos_pos_trivial mod_pos_pos_trivial)
  have s: "month_search ?ls 0 (sum_list (take k ?ls) + (d - 1)) = (0 + int k, d - 1)"
    using k by (intro month_search_unique) (simp_all add: calendar_simps)
  have pos: "0 \<le> sum_list (take k ?ls)"
    using month_lengths_pos [of "leap y"] by (intro sum_list_nonneg) (auto dest!: in_set_takeD)
  have "sum_list (take (Suc k) ?ls) \<le> sum_list ?ls"
  proof -
    have "0 \<le> sum_list (drop (Suc k) ?ls)"
      using month_lengths_pos [of "leap y"] by (intro sum_list_nonneg) (auto dest!: in_set_dropD)
    moreover have "sum_list ?ls = sum_list (take (Suc k) ?ls) + sum_list (drop (Suc k) ?ls)"
      by (metis append_take_drop_id sum_list_append)
    ultimately show ?thesis by simp
  qed
  then have "sum_list (take k ?ls) + ?ls ! k \<le> year_length y"
    using k by (simp add: take_Suc_conv_app_nth calendar_simps)
  then have "year_of (days_of_date y m d) = y"
    using k(3,4) pos unfolding days by (intro year_of_unique) (simp_all add: year_start_Suc)
  then show ?thesis using s k(2) days by (simp add: date_of_days_def)
qed

lemma clock_split:
  fixes r :: int
  assumes "0 \<le> r" and "r < 86400"
  shows "r div 3600 * 3600 + r div 60 mod 60 * 60 + r mod 60 = r" "0 \<le> r div 3600" "r div 3600 < 24"
proof -
  have "r div 3600 = r div 60 div 60" using zdiv_zmult2_eq [of 60 r 60] by simp
  then show "r div 3600 * 3600 + r div 60 mod 60 * 60 + r mod 60 = r"
    using div_mult_mod_eq [of r 60] div_mult_mod_eq [of "r div 60" 60] by linarith
  show "0 \<le> r div 3600" "r div 3600 < 24" using assms by linarith+
qed

lemma clock_join:
  fixes h m s :: int
  assumes "0 \<le> h" "h < 24" "0 \<le> m" "m < 60" "0 \<le> s" "s < 60"
  shows "(h * 3600 + m * 60 + s) div 3600 = h" "(h * 3600 + m * 60 + s) div 60 mod 60 = m"
    "(h * 3600 + m * 60 + s) mod 60 = s" "h * 3600 + m * 60 + s < 86400"
proof -
  have a: "(h * 3600 + m * 60 + s) div 60 = h * 60 + m"
  proof -
    have "(s + 60 * (h * 60 + m)) div 60 = h * 60 + m" using assms by (subst div_mult_self2) auto
    then show ?thesis by (simp add: algebra_simps)
  qed
  show "(h * 3600 + m * 60 + s) div 3600 = h"
    using assms a zdiv_zmult2_eq [of 60 "h * 3600 + m * 60 + s" 60] by simp
  show "(h * 3600 + m * 60 + s) div 60 mod 60 = m" using assms by (simp add: a mod_pos_pos_trivial)
  have "(s + 60 * (h * 60 + m)) mod 60 = s" using assms by (subst mod_mult_self2) auto
  then show "(h * 3600 + m * 60 + s) mod 60 = s" by (simp add: algebra_simps)
  show "h * 3600 + m * 60 + s < 86400" using assms by linarith
qed

lemma timegm_gmtime [calendar_simps]: "timegm (gmtime t) = t"
proof -
  obtain y m d where dd: "date_of_days (t div 86400) = (y, m, d)" by (metis prod_cases3)
  have r: "0 \<le> t mod 86400" "t mod 86400 < 86400" by simp_all
  have "timegm (gmtime t) = days_of_date y m d * 86400 + t mod 86400 div 3600 * 3600
      + t mod 86400 div 60 mod 60 * 60 + t mod 86400 mod 60"
    by (simp only: timegm_def gmtime_def Let_def dd prod.case tm.select_convs)
  also have "\<dots> = t div 86400 * 86400 + t mod 86400"
    unfolding date_of_days_facts(2) [OF dd] using clock_split(1) [OF r] by (simp only: add.assoc)
  finally show ?thesis by (simp only: div_mult_mod_eq)
qed

lemma valid_tm_gmtime [calendar_simps]: "valid_tm (gmtime t)"
proof -
  obtain y m d where dd: "date_of_days (t div 86400) = (y, m, d)" by (metis prod_cases3)
  have r: "0 \<le> t mod 86400" "t mod 86400 < 86400" by simp_all
  show ?thesis
    using clock_split(2,3) [OF r] date_of_days_facts [OF dd] by (simp add: valid_tm_def gmtime_def Let_def dd)
qed

lemma gmtime_timegm:
  assumes "valid_tm u"
  shows "gmtime (timegm u) = u"
proof -
  let ?c = "tm_hour u * 3600 + tm_min u * 60 + tm_sec u"
  let ?d = "days_of_date (tm_year u) (tm_mon u) (tm_mday u)"
  from assms have v: "valid_date (tm_year u) (tm_mon u) (tm_mday u)" "0 \<le> tm_hour u" "tm_hour u < 24"
    "0 \<le> tm_min u" "tm_min u < 60" "0 \<le> tm_sec u" "tm_sec u < 60" "tm_wday u = (?d + 4) mod 7"
    by (simp_all add: valid_tm_def)
  note c = clock_join [OF v(2-7)]
  have t: "timegm u = ?c + 86400 * ?d" unfolding timegm_def by (simp only: algebra_simps)
  have p: "0 \<le> ?c" by (intro add_nonneg_nonneg mult_nonneg_nonneg v zero_le_numeral)
  have q: "timegm u div 86400 = ?d" "timegm u mod 86400 = ?c"
    unfolding t using div_pos_pos_trivial [OF p c(4)] mod_pos_pos_trivial [OF p c(4)]
    by (simp_all only: div_mult_self2 mod_mult_self2 zero_neq_numeral not_False_eq_True add_0_right)
  show ?thesis
    by (simp add: gmtime_def Let_def q days_of_date_inverse [OF v(1)] c v(8))
qed

end
