(* ===== verification/Types.thy ===== *)
theory Types
  imports StringUtil Complex_Main
begin

text \<open>
  \<open>src/src/model/types.h\<close>: the enumerations with their wire names, and the records of
  requests, results, statuses and events. A C++ \<open>int\<close> that only counts is \<open>int\<close>, a
  \<open>TimePoint\<close> is its tick count since the epoch, and a duration in seconds is the exact
  rational value (IEEE rounding of durations is not modelled). \<open>StepResult\<close> contains
  itself through \<open>conceptSteps\<close>, so it is a datatype with selectors instead of a record.
\<close>

section \<open>Enumerations\<close>

datatype TestState = QUEUED | RUNNING | PASSED | FAILED | SKIPPED | CANCELLED | TEST_ERROR

datatype Priority = LOW | NORMAL | HIGH | URGENT

datatype RunnerState = DISCONNECTED | CONNECTING | CONNECTED | BUSY | RUNNER_ERROR

fun testStateToString :: "TestState \<Rightarrow> string" where
  "testStateToString QUEUED = ''queued''"
| "testStateToString RUNNING = ''running''"
| "testStateToString PASSED = ''passed''"
| "testStateToString FAILED = ''failed''"
| "testStateToString SKIPPED = ''skipped''"
| "testStateToString CANCELLED = ''cancelled''"
| "testStateToString TEST_ERROR = ''error''"

definition stringToTestState :: "string \<Rightarrow> TestState" where
  "stringToTestState str =
     (if str = ''queued'' then QUEUED
      else if str = ''running'' then RUNNING
      else if str = ''passed'' then PASSED
      else if str = ''failed'' then FAILED
      else if str = ''skipped'' then SKIPPED
      else if str = ''cancelled'' then CANCELLED
      else TEST_ERROR)"

definition isTerminalState :: "TestState \<Rightarrow> bool" where
  "isTerminalState st = (st = PASSED \<or> st = FAILED \<or> st = SKIPPED \<or> st = CANCELLED \<or> st = TEST_ERROR)"

fun priorityToString :: "Priority \<Rightarrow> string" where
  "priorityToString LOW = ''low''"
| "priorityToString NORMAL = ''normal''"
| "priorityToString HIGH = ''high''"
| "priorityToString URGENT = ''urgent''"

definition stringToPriority :: "string \<Rightarrow> Priority" where
  "stringToPriority str =
     (if str = ''low'' then LOW
      else if str = ''high'' then HIGH
      else if str = ''urgent'' then URGENT
      else NORMAL)"

fun runnerStateToString :: "RunnerState \<Rightarrow> string" where
  "runnerStateToString DISCONNECTED = ''disconnected''"
| "runnerStateToString CONNECTING = ''connecting''"
| "runnerStateToString CONNECTED = ''connected''"
| "runnerStateToString BUSY = ''busy''"
| "runnerStateToString RUNNER_ERROR = ''error''"

text \<open>\<open>static_cast<int>(priority)\<close>, and the order it gives to priorities.\<close>

fun priorityValue :: "Priority \<Rightarrow> nat" where
  "priorityValue LOW = 0"
| "priorityValue NORMAL = 1"
| "priorityValue HIGH = 2"
| "priorityValue URGENT = 3"

instantiation Priority :: linorder
begin

definition less_eq_Priority :: "Priority \<Rightarrow> Priority \<Rightarrow> bool" where
  "less_eq_Priority a b = (priorityValue a \<le> priorityValue b)"

definition less_Priority :: "Priority \<Rightarrow> Priority \<Rightarrow> bool" where
  "less_Priority a b = (priorityValue a < priorityValue b)"

instance
proof
  fix x y z :: Priority
  show "x < y \<longleftrightarrow> x \<le> y \<and> \<not> y \<le> x"
    by (auto simp: less_eq_Priority_def less_Priority_def)
  show "x \<le> x" by (simp add: less_eq_Priority_def)
  show "x \<le> y \<Longrightarrow> y \<le> z \<Longrightarrow> x \<le> z" by (simp add: less_eq_Priority_def)
  show "x \<le> y \<Longrightarrow> y \<le> x \<Longrightarrow> x = y"
    by (cases x; cases y) (auto simp: less_eq_Priority_def)
  show "x \<le> y \<or> y \<le> x" by (auto simp: less_eq_Priority_def)
qed

end

lemma stringToTestState_inverse [simp]: "stringToTestState (testStateToString st) = st"
  by (cases st) (simp_all add: stringToTestState_def)

lemma stringToPriority_inverse [simp]: "stringToPriority (priorityToString p) = p"
  by (cases p) (simp_all add: stringToPriority_def)

lemma isTerminalState_simps [simp]:
  "isTerminalState PASSED" "isTerminalState FAILED" "isTerminalState SKIPPED"
  "isTerminalState CANCELLED" "isTerminalState TEST_ERROR"
  "\<not> isTerminalState QUEUED" "\<not> isTerminalState RUNNING"
  by (simp_all add: isTerminalState_def)

lemma isTerminalState_iff: "isTerminalState st \<longleftrightarrow> st \<noteq> QUEUED \<and> st \<noteq> RUNNING"
  by (cases st) simp_all

section \<open>Records\<close>

type_synonym TimePoint = int
type_synonym seconds = rat

text \<open>The upper bound on step retries (not counting the first attempt).\<close>

definition kMaxStepRetry :: int where
  "kMaxStepRetry = 5"

record TestRequest =
  rq_id :: string
  rq_name :: string
  rq_specFiles :: "string list"
  rq_tags :: "string list"
  rq_scenarios :: "string list"
  rq_environment :: string
  rq_parallelStreams :: int
  rq_priority :: Priority
  rq_timeoutMs :: int
  rq_failFast :: bool
  rq_stepRetry :: int
  rq_metadata :: "(string, string) omap"
  rq_callbackUrl :: string
  rq_submittedBy :: string

definition default_TestRequest :: TestRequest where
  "default_TestRequest = \<lparr>rq_id = [], rq_name = [], rq_specFiles = [], rq_tags = [],
     rq_scenarios = [], rq_environment = ''default'', rq_parallelStreams = 1,
     rq_priority = NORMAL, rq_timeoutMs = 0, rq_failFast = False, rq_stepRetry = 0,
     rq_metadata = [], rq_callbackUrl = [], rq_submittedBy = []\<rparr>"

datatype StepResult = StepResult
  (sr_stepText: string)
  (sr_parameterizedText: string)
  (sr_state: TestState)
  (sr_errorMessage: string)
  (sr_stackTrace: string)
  (sr_duration: rat)
  (sr_attempts: int)
  (sr_messages: "string list")
  (sr_conceptSteps: "StepResult list")
  (sr_isConcept: bool)

definition default_StepResult :: StepResult where
  "default_StepResult = StepResult [] [] PASSED [] [] 0 1 [] [] False"

record ScenarioResult =
  sc_scenarioName :: string
  sc_tags :: "string list"
  sc_state :: TestState
  sc_contextSteps :: "StepResult list"
  sc_stepResults :: "StepResult list"
  sc_teardownSteps :: "StepResult list"
  sc_errorMessage :: string
  sc_duration :: seconds
  sc_dataRowIndex :: int
  sc_dataRow :: "(string, string) omap"
  sc_lineNumber :: int

definition default_ScenarioResult :: ScenarioResult where
  "default_ScenarioResult = \<lparr>sc_scenarioName = [], sc_tags = [], sc_state = PASSED,
     sc_contextSteps = [], sc_stepResults = [], sc_teardownSteps = [], sc_errorMessage = [],
     sc_duration = 0, sc_dataRowIndex = -1, sc_dataRow = [], sc_lineNumber = 0\<rparr>"

record SpecResult =
  sp_specFile :: string
  sp_specName :: string
  sp_tags :: "string list"
  sp_state :: TestState
  sp_scenarioResults :: "ScenarioResult list"
  sp_errorMessage :: string
  sp_duration :: seconds
  sp_totalScenarios :: int
  sp_passedScenarios :: int
  sp_failedScenarios :: int
  sp_skippedScenarios :: int

definition default_SpecResult :: SpecResult where
  "default_SpecResult = \<lparr>sp_specFile = [], sp_specName = [], sp_tags = [], sp_state = PASSED,
     sp_scenarioResults = [], sp_errorMessage = [], sp_duration = 0, sp_totalScenarios = 0,
     sp_passedScenarios = 0, sp_failedScenarios = 0, sp_skippedScenarios = 0\<rparr>"

record TestStatus =
  ts_testId :: string
  ts_state :: TestState
  ts_totalSpecs :: int
  ts_executedSpecs :: int
  ts_passedSpecs :: int
  ts_failedSpecs :: int
  ts_totalScenarios :: int
  ts_executedScenarios :: int
  ts_passedScenarios :: int
  ts_failedScenarios :: int
  ts_skippedScenarios :: int
  ts_progress :: rat
  ts_currentSpec :: string
  ts_currentScenario :: string
  ts_currentStep :: string
  ts_submitTime :: TimePoint
  ts_startTime :: TimePoint
  ts_endTime :: TimePoint
  ts_errors :: "string list"
  ts_warnings :: "string list"

definition default_TestStatus :: TestStatus where
  "default_TestStatus = \<lparr>ts_testId = [], ts_state = QUEUED, ts_totalSpecs = 0,
     ts_executedSpecs = 0, ts_passedSpecs = 0, ts_failedSpecs = 0, ts_totalScenarios = 0,
     ts_executedScenarios = 0, ts_passedScenarios = 0, ts_failedScenarios = 0,
     ts_skippedScenarios = 0, ts_progress = 0, ts_currentSpec = [], ts_currentScenario = [],
     ts_currentStep = [], ts_submitTime = 0, ts_startTime = 0, ts_endTime = 0, ts_errors = [],
     ts_warnings = []\<rparr>"

record TestResult =
  tr_testId :: string
  tr_finalState :: TestState
  tr_specResults :: "SpecResult list"
  tr_errors :: "string list"
  tr_warnings :: "string list"
  tr_totalDuration :: seconds
  tr_startTime :: TimePoint
  tr_endTime :: TimePoint
  tr_totalScenarios :: int
  tr_passedScenarios :: int
  tr_failedScenarios :: int
  tr_skippedScenarios :: int

definition default_TestResult :: TestResult where
  "default_TestResult = \<lparr>tr_testId = [], tr_finalState = PASSED, tr_specResults = [],
     tr_errors = [], tr_warnings = [], tr_totalDuration = 0, tr_startTime = 0, tr_endTime = 0,
     tr_totalScenarios = 0, tr_passedScenarios = 0, tr_failedScenarios = 0,
     tr_skippedScenarios = 0\<rparr>"

record TestInfo =
  ti_testId :: string
  ti_name :: string
  ti_state :: TestState
  ti_specFiles :: "string list"
  ti_tags :: "string list"
  ti_priority :: Priority
  ti_progress :: rat
  ti_submitTime :: TimePoint
  ti_startTime :: TimePoint
  ti_endTime :: TimePoint
  ti_totalScenarios :: int
  ti_passedScenarios :: int
  ti_failedScenarios :: int
  ti_skippedScenarios :: int
  ti_duration :: seconds

record StepValue =
  sv_stepText :: string
  sv_parameterizedStepText :: string
  sv_parameters :: "string list"

text \<open>An event as published: its type, the test it is about, and its data.\<close>

record Event =
  ev_type :: string
  ev_testId :: string
  ev_timestamp :: TimePoint
  ev_data :: "(string, string) omap"

end
