(* ===== verification/TimeText.thy ===== *)
theory TimeText
  imports Calendar Types
begin

text \<open>
  \<open>src/src/util/time_util.h\<close>. A \<open>TimePoint\<close> counts the nanoseconds of \<open>system_clock\<close>;
  \<open>duration_cast\<close> and C++ division truncate towards zero (\<open>sdiv\<close>, \<open>smod\<close>), and the
  conversion from seconds back to ticks is a 64-bit multiplication. \<open>now\<close> is the clock of the
  environment and \<open>formatLocal\<close> depends on the host's time zone: both are parameters where
  they are used.
\<close>

section \<open>Formatting\<close>

text \<open>\<open>%0<w>d\<close>.\<close>

definition fmt0 :: "nat \<Rightarrow> int \<Rightarrow> string" where
  "fmt0 w i = (if i < 0 then CHR ''-'' # pad_zeros (w - 1) (dec_of_nat (nat (- i))) else pad_zeros w (dec_of_nat (nat i)))"

definition to_millis :: "TimePoint \<Rightarrow> int" where
  "to_millis tp = tp sdiv 1000000"

definition to_time_t :: "TimePoint \<Rightarrow> int" where
  "to_time_t tp = tp sdiv 1000000000"

definition iso_text :: "tm \<Rightarrow> int \<Rightarrow> string" where
  "iso_text u millis =
     fmt0 4 (tm_year u) @ ''-'' @ fmt0 2 (tm_mon u) @ ''-'' @ fmt0 2 (tm_mday u) @ ''T'' @
     fmt0 2 (tm_hour u) @ '':'' @ fmt0 2 (tm_min u) @ '':'' @ fmt0 2 (tm_sec u) @ ''.'' @ fmt0 3 millis @ ''Z''"

definition toIso8601 :: "TimePoint \<Rightarrow> string" where
  "toIso8601 tp =
     (if tp = 0 then []
      else let ms = to_millis tp in iso_text (gmtime (ms sdiv 1000)) (ms smod 1000))"

definition toEpochMillis :: "TimePoint \<Rightarrow> int" where
  "toEpochMillis tp = (if tp = 0 then 0 else to_millis tp)"

definition weekday_name :: "int \<Rightarrow> string" where
  "weekday_name w = [''Sun'', ''Mon'', ''Tue'', ''Wed'', ''Thu'', ''Fri'', ''Sat''] ! nat w"

definition month_name :: "int \<Rightarrow> string" where
  "month_name m = [''Jan'', ''Feb'', ''Mar'', ''Apr'', ''May'', ''Jun'', ''Jul'', ''Aug'', ''Sep'', ''Oct'', ''Nov'', ''Dec''] ! nat (m - 1)"

definition httpDate :: "TimePoint \<Rightarrow> string" where
  "httpDate tp =
     (let u = gmtime (to_time_t tp)
      in weekday_name (tm_wday u) @ '', '' @ fmt0 2 (tm_mday u) @ '' '' @ month_name (tm_mon u) @ '' '' @
         to_string (tm_year u) @ '' '' @ fmt0 2 (tm_hour u) @ '':'' @ fmt0 2 (tm_min u) @ '':'' @ fmt0 2 (tm_sec u) @ '' GMT'')"

section \<open>Parsing\<close>

text \<open>\<open>sscanf\<close>'s \<open>%<w>d\<close>: blanks, an optional sign, digits, the sign counting to the width.\<close>

definition scan_digits :: "nat \<Rightarrow> string \<Rightarrow> (nat \<times> string) option" where
  "scan_digits w s =
     (let ds = takeWhile c_isdigit (take w s)
      in if ds = [] then None else Some (nat_of_dec ds, drop (length ds) s))"

definition scan_int :: "nat \<Rightarrow> string \<Rightarrow> (int \<times> string) option" where
  "scan_int w str =
     (case dropWhile c_isspace str of
        [] \<Rightarrow> None
      | c # r \<Rightarrow>
          if c = CHR ''-'' then map_option (\<lambda>(n, t). (- int n, t)) (scan_digits (w - 1) r)
          else if c = CHR ''+'' then map_option (\<lambda>(n, t). (int n, t)) (scan_digits (w - 1) r)
          else map_option (\<lambda>(n, t). (int n, t)) (scan_digits w (c # r)))"

definition scan_char :: "char \<Rightarrow> string \<Rightarrow> string option" where
  "scan_char c s = (case s of [] \<Rightarrow> None | d # r \<Rightarrow> if d = c then Some r else None)"

fun scan_fields :: "(nat \<times> char) list \<Rightarrow> nat \<Rightarrow> string \<Rightarrow> (int list \<times> string) option" where
  "scan_fields [] w s = map_option (\<lambda>(v, r). ([v], r)) (scan_int w s)"
| "scan_fields ((w0, c) # fs) w s =
     (case scan_int w0 s of None \<Rightarrow> None
      | Some (v, r) \<Rightarrow> case scan_char c r of None \<Rightarrow> None
        | Some r' \<Rightarrow> map_option (\<lambda>(vs, t). (v # vs, t)) (scan_fields fs w r'))"

text \<open>The format \<open>"%4d-%2d-%2dT%2d:%2d:%2d"\<close>; fewer than six conversions is \<open>None\<close>.\<close>

definition scan_date :: "string \<Rightarrow> int list option" where
  "scan_date text =
     map_option fst (scan_fields [(4, CHR ''-''), (2, CHR ''-''), (2, CHR ''T''), (2, CHR '':''), (2, CHR '':'')] 2
       (takeWhile (\<lambda>c. c \<noteq> CHR 0x00) text))"

definition fraction_millis :: "string \<Rightarrow> int" where
  "fraction_millis text =
     (case break_at ''.'' (drop 19 text) of
        None \<Rightarrow> 0
      | Some (pre, r) \<Rightarrow> let ds = takeWhile c_isdigit (take 3 r)
          in int (nat_of_dec ds) * 10 ^ (3 - length ds))"

text \<open>Ticks are 64-bit integers.\<close>

definition ticks64 :: "int \<Rightarrow> TimePoint" where
  "ticks64 n = signed_take_bit 63 n"

definition fromIso8601 :: "string \<Rightarrow> TimePoint" where
  "fromIso8601 text =
     (if length text < 20 then 0
      else case scan_date text of
        Some [year, month, day, hour, minute, second] \<Rightarrow>
          (let t = timegm \<lparr>tm_year = year, tm_mon = month, tm_mday = day, tm_hour = hour, tm_min = minute,
                           tm_sec = second, tm_wday = 0\<rparr>
           in if t = -1 then 0 else ticks64 (t * 1000000000 + fraction_millis text * 1000000))
      | _ \<Rightarrow> 0)"

section \<open>Reading back what was written\<close>

lemma length_dec_of_nat: "n < 10 ^ w \<Longrightarrow> 0 < w \<Longrightarrow> length (dec_of_nat n) \<le> w"
proof (induction w arbitrary: n)
  case (Suc w)
  show ?case
  proof (cases "n < 10")
    case True
    then show ?thesis by (simp add: dec_of_nat.simps [of n])
  next
    case False
    with Suc.prems have "0 < w" by (cases w) auto
    moreover from Suc.prems have "n div 10 < 10 ^ w" by (simp add: less_mult_imp_div_less)
    ultimately have "length (dec_of_nat (n div 10)) \<le> w" by (intro Suc.IH)
    with False show ?thesis by (simp add: dec_of_nat.simps [of n])
  qed
qed simp

lemma nat_of_dec_zeros: "nat_of_dec (replicate k CHR ''0'' @ s) = nat_of_dec s"
  by (induction k) (simp_all add: nat_of_dec_def digit_val_def)

lemma padded:
  assumes "n < 10 ^ w" and "0 < w"
  shows "length (pad_zeros w (dec_of_nat n)) = w" "nat_of_dec (pad_zeros w (dec_of_nat n)) = n"
    "\<forall>c \<in> set (pad_zeros w (dec_of_nat n)). c_isdigit c"
  using length_dec_of_nat [OF assms] dec_of_nat_digits [of n]
  by (auto simp: pad_zeros_def nat_of_dec_zeros c_isdigit_def)

lemma fmt0_padded:
  assumes "0 \<le> i" and "i < 10 ^ w" and "0 < w"
  shows "\<exists>ds. fmt0 w i = ds \<and> length ds = w \<and> nat_of_dec ds = nat i \<and> (\<forall>c \<in> set ds. c_isdigit c)"
proof -
  have "nat i < 10 ^ w" using assms by (simp add: nat_less_iff)
  with padded [OF this assms(3)] assms(1) show ?thesis by (simp add: fmt0_def)
qed

lemma scan_int_fmt0:
  assumes "0 \<le> i" and "i < 10 ^ w" and "0 < w"
  shows "scan_int w (fmt0 w i @ rest) = Some (i, rest)"
proof -
  obtain ds where ds: "fmt0 w i = ds" "length ds = w" "nat_of_dec ds = nat i" "\<forall>c \<in> set ds. c_isdigit c"
    using fmt0_padded [OF assms] by blast
  with assms(3) obtain c r where cr: "ds = c # r" by (cases ds) auto
  with ds(4) have c: "\<not> c_isspace c \<and> c \<noteq> CHR ''-'' \<and> c \<noteq> CHR ''+''"
    using digit_not_space by simp
  have "takeWhile c_isdigit (take w (ds @ rest)) = ds"
    using ds(2,4) by (simp add: takeWhile_all)
  then have "scan_digits w (ds @ rest) = Some (nat i, rest)"
    using ds(2,3) assms(3) by (auto simp: scan_digits_def Let_def takeWhile_all)
  then show ?thesis using c assms(1) by (simp add: scan_int_def ds(1) cr)
qed

lemma fmt0_nul_free:
  assumes "0 \<le> i" and "i < 10 ^ w" and "0 < w"
  shows "CHR 0x00 \<notin> set (fmt0 w i)" "length (fmt0 w i) = w"
proof -
  obtain ds where ds: "fmt0 w i = ds" "length ds = w" "\<forall>c \<in> set ds. c_isdigit c"
    using fmt0_padded [OF assms] by blast
  then show "CHR 0x00 \<notin> set (fmt0 w i)" "length (fmt0 w i) = w"
    by (auto simp: c_isdigit_def)
qed

text \<open>The broken-down times that \<open>toIso8601\<close> writes in fixed columns.\<close>

definition four_digit_tm :: "tm \<Rightarrow> bool" where
  "four_digit_tm u = (valid_tm u \<and> 0 \<le> tm_year u \<and> tm_year u < 10000)"

lemma four_digit_ranges:
  assumes "four_digit_tm u"
  shows "0 \<le> tm_year u" "tm_year u < 10 ^ 4" "0 \<le> tm_mon u" "tm_mon u < 10 ^ 2" "0 \<le> tm_mday u" "tm_mday u < 10 ^ 2"
    "0 \<le> tm_hour u" "tm_hour u < 10 ^ 2" "0 \<le> tm_min u" "tm_min u < 10 ^ 2" "0 \<le> tm_sec u" "tm_sec u < 10 ^ 2"
proof -
  have "month_lengths (leap (tm_year u)) ! nat (tm_mon u - 1) \<le> 31"
    if "1 \<le> tm_mon u" "tm_mon u \<le> 12"
  proof -
    have "\<forall>l \<in> set (month_lengths (leap (tm_year u))). l \<le> 31" by (simp add: month_lengths_def)
    moreover have "nat (tm_mon u - 1) < length (month_lengths (leap (tm_year u)))"
      using that by (simp add: calendar_simps)
    ultimately show ?thesis by (meson nth_mem)
  qed
  with assms show "0 \<le> tm_year u" "tm_year u < 10 ^ 4" "0 \<le> tm_mon u" "tm_mon u < 10 ^ 2" "0 \<le> tm_mday u"
    "tm_mday u < 10 ^ 2" "0 \<le> tm_hour u" "tm_hour u < 10 ^ 2" "0 \<le> tm_min u" "tm_min u < 10 ^ 2" "0 \<le> tm_sec u"
    "tm_sec u < 10 ^ 2"
    by (auto simp: four_digit_tm_def valid_tm_def valid_date_def)
qed

lemma scan_date_iso:
  assumes "four_digit_tm u" and "0 \<le> ms" and "ms < 1000"
  shows "scan_date (iso_text u ms) = Some [tm_year u, tm_mon u, tm_mday u, tm_hour u, tm_min u, tm_sec u]"
    and "fraction_millis (iso_text u ms) = ms" and "length (iso_text u ms) = 24"
proof -
  note r = four_digit_ranges [OF assms(1)]
  have ms: "0 \<le> ms" "ms < 10 ^ 3" using assms by simp_all
  note nf = fmt0_nul_free [OF r(1,2)] fmt0_nul_free [OF r(3,4)] fmt0_nul_free [OF r(5,6)] fmt0_nul_free [OF r(7,8)]
    fmt0_nul_free [OF r(9,10)] fmt0_nul_free [OF r(11,12)] fmt0_nul_free [OF ms]
  note sc = scan_int_fmt0 [OF r(1,2)] scan_int_fmt0 [OF r(3,4)] scan_int_fmt0 [OF r(5,6)] scan_int_fmt0 [OF r(7,8)]
    scan_int_fmt0 [OF r(9,10)] scan_int_fmt0 [OF r(11,12)]
  show len: "length (iso_text u ms) = 24" by (simp add: iso_text_def nf)
  have "takeWhile (\<lambda>c. c \<noteq> CHR 0x00) (iso_text u ms) = iso_text u ms"
    by (rule takeWhile_all) (use nf in \<open>auto simp: iso_text_def\<close>)
  then show "scan_date (iso_text u ms) = Some [tm_year u, tm_mon u, tm_mday u, tm_hour u, tm_min u, tm_sec u]"
    by (simp add: scan_date_def iso_text_def sc scan_char_def)
  have d: "drop 19 (iso_text u ms) = ''.'' @ fmt0 3 ms @ ''Z''"
    by (simp add: iso_text_def nf)
  obtain ds where ds: "fmt0 3 ms = ds" "length ds = 3" "nat_of_dec ds = nat ms" "\<forall>c \<in> set ds. c_isdigit c"
    using fmt0_padded [OF ms] by auto
  then have "takeWhile c_isdigit (take 3 (ds @ ''Z'')) = ds" by (simp add: takeWhile_all)
  with ds show "fraction_millis (iso_text u ms) = ms"
    using assms(2) by (simp add: fraction_millis_def d Let_def takeWhile_all)
qed

lemma sdiv_nonneg: "0 \<le> (a::int) \<Longrightarrow> 0 < b \<Longrightarrow> a sdiv b = a div b \<and> a smod b = a mod b"
  by (auto simp: signed_divide_int_def signed_modulo_int_def sgn_if)

lemma gmtime_four_digit:
  assumes "0 \<le> t" and "t < 86400 * 2932897"
  shows "four_digit_tm (gmtime t)"
proof -
  let ?days = "t div 86400"
  have d: "0 \<le> ?days" "?days < 2932897" using assms by linarith+
  have y: "tm_year (gmtime t) = year_of ?days"
    using date_of_days_facts(3) by (simp add: gmtime_def Let_def split: prod.split)
  have "year_start 10000 = 2932897" by (simp add: year_start_def)
  then have "year_of ?days < 10000"
    using year_of_bounds(1) [of ?days] d(2) year_start_mono [of 10000 "year_of ?days"] by smt
  moreover have "1970 \<le> year_of ?days"
    using year_of_bounds(2) [of ?days] d(1) year_start_mono [of "year_of ?days + 1" 1970]
    unfolding year_start_epoch by smt
  ultimately show ?thesis by (simp add: four_digit_tm_def valid_tm_gmtime y)
qed

lemma ticks64_id: "0 \<le> n \<Longrightarrow> n < 2 ^ 63 \<Longrightarrow> ticks64 n = n"
  by (simp add: ticks64_def signed_take_bit_int_eq_self)

lemma timegm_wday: "timegm (u\<lparr>tm_wday := w\<rparr>) = timegm u"
  by (simp add: timegm_def)

lemma iso_text_readback:
  assumes "four_digit_tm u" and "0 \<le> ms" and "ms < 1000" and "0 \<le> timegm u"
  shows "fromIso8601 (iso_text u ms) = ticks64 (timegm u * 1000000000 + ms * 1000000)"
proof -
  note sc = scan_date_iso [OF assms(1-3)]
  have "timegm \<lparr>tm_year = tm_year u, tm_mon = tm_mon u, tm_mday = tm_mday u, tm_hour = tm_hour u,
      tm_min = tm_min u, tm_sec = tm_sec u, tm_wday = 0\<rparr> = timegm u"
    by (simp add: timegm_def)
  with assms(4) sc show ?thesis by (simp add: fromIso8601_def Let_def)
qed

lemma millis_split:
  fixes n :: int
  shows "n div 1000000 div 1000 * 1000000000 + n div 1000000 mod 1000 * 1000000 = n - n mod 1000000"
proof -
  have "n div 1000000 div 1000 * 1000 + n div 1000000 mod 1000 = n div 1000000" by (rule div_mult_mod_eq)
  moreover have "n div 1000000 * 1000000 = n - n mod 1000000" by (rule minus_mod_eq_div_mult [symmetric])
  ultimately show ?thesis by linarith
qed

text \<open>
  A time after the epoch that fits the 64-bit clock, written with \<open>toIso8601\<close> and read back
  with \<open>fromIso8601\<close>, is the same time cut off to the millisecond.
\<close>

lemma fromIso8601_toIso8601:
  assumes "0 < tp" and "tp < 2 ^ 63"
  shows "fromIso8601 (toIso8601 tp) = tp - tp mod 1000000"
proof -
  define ms where "ms = tp div 1000000"
  have "1000000 * ms + tp mod 1000000 = tp" "0 \<le> tp mod 1000000" "tp mod 1000000 < 1000000"
    by (simp_all add: ms_def)
  moreover have "tp < 9223372036854775808" using assms(2) by simp
  ultimately have ms: "0 \<le> ms" "ms < 9223372036855" using assms(1) by linarith+
  then have t: "0 \<le> ms div 1000" "ms div 1000 < 86400 * 2932897" by linarith+
  have iso: "toIso8601 tp = iso_text (gmtime (ms div 1000)) (ms mod 1000)"
    using assms ms(1) sdiv_nonneg [of tp 1000000] sdiv_nonneg [of ms 1000]
    by (simp add: toIso8601_def to_millis_def ms_def Let_def)
  have "fromIso8601 (toIso8601 tp) = ticks64 (ms div 1000 * 1000000000 + ms mod 1000 * 1000000)"
    unfolding iso using iso_text_readback [OF gmtime_four_digit [OF t], of "ms mod 1000"] t(1)
    by (simp add: timegm_gmtime)
  also have "\<dots> = ticks64 (tp - tp mod 1000000)" unfolding ms_def by (simp only: millis_split)
  also have "\<dots> = tp - tp mod 1000000"
  proof (rule ticks64_id)
    have m: "0 \<le> tp mod 1000000" by simp
    then show "tp - tp mod 1000000 < 2 ^ 63" using assms(2) by linarith
    have "tp - tp mod 1000000 = tp div 1000000 * 1000000" by (rule minus_mod_eq_div_mult)
    with ms(1) show "0 \<le> tp - tp mod 1000000" by (simp add: ms_def)
  qed
  finally show ?thesis .
qed

end
