(* ===== verification/SpecModel.thy ===== *)
theory SpecModel
  imports StringUtil
begin

text \<open>
  \<open>src/src/spec/spec.h\<close>: tables, steps with their arguments, scenarios, specifications and
  concepts. A step contains the steps its concept expands to, so it is a datatype; the other
  structs are records.
\<close>

section \<open>Tables\<close>

record Table =
  tb_headers :: "string list"
  tb_rows :: "string list list"

definition empty_table :: Table where
  "empty_table = \<lparr>tb_headers = [], tb_rows = []\<rparr>"

definition table_empty :: "Table \<Rightarrow> bool" where
  "table_empty t = (tb_headers t = [])"

definition rowCount :: "Table \<Rightarrow> nat" where
  "rowCount t = length (tb_rows t)"

definition columnCount :: "Table \<Rightarrow> nat" where
  "columnCount t = length (tb_headers t)"

fun index_from :: "nat \<Rightarrow> string \<Rightarrow> string list \<Rightarrow> int" where
  "index_from i name [] = -1"
| "index_from i name (h # hs) = (if h = name then int i else index_from (Suc i) name hs)"

definition columnIndex :: "Table \<Rightarrow> string \<Rightarrow> int" where
  "columnIndex t name = index_from 0 name (tb_headers t)"

definition cell :: "Table \<Rightarrow> nat \<Rightarrow> string \<Rightarrow> string" where
  "cell t row column =
     (let idx = columnIndex t column in
      if idx < 0 \<or> row \<ge> length (tb_rows t) \<or> nat idx \<ge> length (tb_rows t ! row) then []
      else tb_rows t ! row ! nat idx)"

lemma index_from_neg: "index_from i name hs < 0 \<longleftrightarrow> name \<notin> set hs"
  by (induction i name hs rule: index_from.induct) auto

lemma columnIndex_neg: "columnIndex t name < 0 \<longleftrightarrow> name \<notin> set (tb_headers t)"
  by (simp add: columnIndex_def index_from_neg)

lemma index_from_nth: "name \<in> set hs \<Longrightarrow>
    \<exists>j < length hs. index_from i name hs = int (i + j) \<and> hs ! j = name \<and> (\<forall>l < j. hs ! l \<noteq> name)"
proof (induction i name hs rule: index_from.induct)
  case (2 i name h hs)
  show ?case
  proof (cases "h = name")
    case False
    with 2 obtain j where "j < length hs" "index_from (Suc i) name hs = int (Suc i + j)"
      "hs ! j = name" "\<forall>l < j. hs ! l \<noteq> name" by auto
    with False show ?thesis by (intro exI [of _ "Suc j"]) (auto simp: nth_Cons split: nat.splits)
  qed auto
qed simp

section \<open>Steps\<close>

datatype ArgType = Static | Dynamic | SpecialString | SpecialTable | TableArg

fun argTypeToString :: "ArgType \<Rightarrow> string" where
  "argTypeToString Static = ''static''"
| "argTypeToString Dynamic = ''dynamic''"
| "argTypeToString SpecialString = ''special_string''"
| "argTypeToString SpecialTable = ''special_table''"
| "argTypeToString TableArg = ''table''"

record StepArg =
  sa_type :: ArgType
  sa_value :: string
  sa_table :: Table

definition default_StepArg :: StepArg where
  "default_StepArg = \<lparr>sa_type = Static, sa_value = [], sa_table = empty_table\<rparr>"

datatype Step = Step
  (st_text: string)
  (st_parameterizedText: string)
  (st_args: "StepArg list")
  (st_lineNumber: int)
  (st_isConcept: bool)
  (st_conceptSteps: "Step list")

definition default_Step :: Step where
  "default_Step = Step [] [] [] 0 False []"

definition hasInlineTable :: "Step \<Rightarrow> bool" where
  "hasInlineTable s = list_ex (\<lambda>a. sa_type a = TableArg) (st_args s)"

fun set_args :: "StepArg list \<Rightarrow> Step \<Rightarrow> Step" where
  "set_args as (Step t p a l c cs) = Step t p as l c cs"

fun set_line :: "int \<Rightarrow> Step \<Rightarrow> Step" where
  "set_line n (Step t p a l c cs) = Step t p a n c cs"

text \<open>\<open>args.push_back(arg); parameterizedText += " {}"\<close>, for a table under a step.\<close>

fun attach_table :: "Table \<Rightarrow> Step \<Rightarrow> Step" where
  "attach_table tb (Step t p a l c cs) =
     Step t (p @ '' {}'') (a @ [default_StepArg\<lparr>sa_type := TableArg, sa_table := tb\<rparr>]) l c cs"

fun set_concept :: "Step list \<Rightarrow> Step \<Rightarrow> Step" where
  "set_concept inner (Step t p a l c cs) = Step t p a l True inner"

lemma step_updates [simp]:
  "st_args (set_args as s) = as" "st_args (set_line n s) = st_args s"
  "st_args (set_concept cs s) = st_args s"
  "st_args (attach_table tb s) = st_args s @ [default_StepArg\<lparr>sa_type := TableArg, sa_table := tb\<rparr>]"
  "st_text (set_args as s) = st_text s" "st_text (set_line n s) = st_text s"
  "st_text (set_concept cs s) = st_text s" "st_text (attach_table tb s) = st_text s"
  "st_lineNumber (set_args as s) = st_lineNumber s" "st_lineNumber (set_line n s) = n"
  "st_lineNumber (set_concept cs s) = st_lineNumber s"
  "st_lineNumber (attach_table tb s) = st_lineNumber s"
  "st_conceptSteps (set_args as s) = st_conceptSteps s" "st_conceptSteps (set_line n s) = st_conceptSteps s"
  "st_conceptSteps (set_concept cs s) = cs" "st_conceptSteps (attach_table tb s) = st_conceptSteps s"
  "st_parameterizedText (set_args as s) = st_parameterizedText s"
  "st_parameterizedText (set_line n s) = st_parameterizedText s"
  "st_parameterizedText (set_concept cs s) = st_parameterizedText s"
  "st_isConcept (set_args as s) = st_isConcept s" "st_isConcept (set_line n s) = st_isConcept s"
  "st_isConcept (set_concept cs s)" "st_isConcept (attach_table tb s) = st_isConcept s"
  by (cases s; simp)+

section \<open>Scenarios, specifications and concepts\<close>

record Scenario =
  sn_name :: string
  sn_tags :: "string list"
  sn_steps :: "Step list"
  sn_comments :: "string list"
  sn_lineNumber :: int
  sn_span :: int

definition default_Scenario :: Scenario where
  "default_Scenario = \<lparr>sn_name = [], sn_tags = [], sn_steps = [], sn_comments = [],
     sn_lineNumber = 0, sn_span = 0\<rparr>"

definition scenario_hasTag :: "Scenario \<Rightarrow> string \<Rightarrow> bool" where
  "scenario_hasTag s tag = list_ex (\<lambda>t. t = tag) (sn_tags s)"

record Specification =
  sf_fileName :: string
  sf_heading :: string
  sf_tags :: "string list"
  sf_contexts :: "Step list"
  sf_teardowns :: "Step list"
  sf_scenarios :: "Scenario list"
  sf_dataTable :: Table
  sf_comments :: "string list"
  sf_headingLine :: int

definition default_Specification :: Specification where
  "default_Specification = \<lparr>sf_fileName = [], sf_heading = [], sf_tags = [], sf_contexts = [],
     sf_teardowns = [], sf_scenarios = [], sf_dataTable = empty_table, sf_comments = [],
     sf_headingLine = 0\<rparr>"

definition spec_hasTag :: "Specification \<Rightarrow> string \<Rightarrow> bool" where
  "spec_hasTag s tag = list_ex (\<lambda>t. t = tag) (sf_tags s)"

definition isDataDriven :: "Specification \<Rightarrow> bool" where
  "isDataDriven s = (\<not> table_empty (sf_dataTable s) \<and> rowCount (sf_dataTable s) > 0)"

record Concept =
  co_heading :: string
  co_parameterizedText :: string
  co_params :: "string list"
  co_steps :: "Step list"
  co_fileName :: string
  co_lineNumber :: int

definition default_Concept :: Concept where
  "default_Concept = \<lparr>co_heading = [], co_parameterizedText = [], co_params = [], co_steps = [],
     co_fileName = [], co_lineNumber = 0\<rparr>"

record ParseError =
  pe_fileName :: string
  pe_lineNumber :: int
  pe_message :: string
  pe_lineText :: string

end
