(* ===== verification/JsonConvert.thy ===== *)
theory JsonConvert
  imports JsonValue TimeText SpecModel
begin

text \<open>
  \<open>src/src/model/json_convert.h\<close>: the data model as JSON values and back. An object is built by
  assignments in the order of the code; a field the code writes only under a condition is an
  \<open>opt\<close> entry. Durations are exact seconds; a number read from JSON that is not finite is
  outside the model and read as 0. The status records of the runner pool, from
  \<open>src/src/model/types.h\<close>, are here because only this conversion reads all of them.
\<close>

named_theorems json_simps \<open>reading fields of objects just built\<close>

section \<open>Building objects\<close>

definition opt :: "bool \<Rightarrow> string \<Rightarrow> Json \<Rightarrow> (string \<times> Json) list" where
  "opt b k v = (if b then [(k, v)] else [])"

definition JInt :: "int \<Rightarrow> Json" where
  "JInt i = JNum (Fin (of_int i))"

definition JSecs :: "rat \<Rightarrow> Json" where
  "JSecs d = JNum (Fin d)"

definition JTime :: "TimePoint \<Rightarrow> Json" where
  "JTime tp = JStr (toIso8601 tp)"

definition JState :: "TestState \<Rightarrow> Json" where
  "JState st = JStr (testStateToString st)"

definition strings_json :: "string list \<Rightarrow> Json" where
  "strings_json v = JArr (map JStr v)"

definition string_map_json :: "(string, string) omap \<Rightarrow> Json" where
  "string_map_json m = jobject (map (\<lambda>(k, v). (k, JStr v)) m)"

section \<open>Specifications\<close>

definition table_json :: "Table \<Rightarrow> Json" where
  "table_json t = jobject [(''headers'', strings_json (tb_headers t)), (''rows'', JArr (map strings_json (tb_rows t)))]"

definition arg_json :: "StepArg \<Rightarrow> Json" where
  "arg_json a = jobject [(''type'', JStr (argTypeToString (sa_type a))),
     if sa_type a = TableArg then (''table'', table_json (sa_table a)) else (''value'', JStr (sa_value a))]"

fun step_json :: "Step \<Rightarrow> Json" where
  "step_json (Step text param args line isConcept inner) =
     jobject ([(''text'', JStr text), (''parameterized_text'', JStr param), (''line_number'', JInt line),
       (''args'', JArr (map arg_json args))] @
       (if isConcept then [(''is_concept'', JBool True), (''concept_steps'', JArr (map step_json inner))] else []))"

definition scenario_json :: "Scenario \<Rightarrow> Json" where
  "scenario_json sc = jobject [(''name'', JStr (sn_name sc)), (''tags'', strings_json (sn_tags sc)),
     (''line_number'', JInt (sn_lineNumber sc)), (''span'', JInt (sn_span sc)), (''steps'', JArr (map step_json (sn_steps sc)))]"

definition specification_json :: "Specification \<Rightarrow> Json" where
  "specification_json s = jobject ([(''file'', JStr (sf_fileName s)), (''heading'', JStr (sf_heading s)),
     (''tags'', strings_json (sf_tags s)), (''heading_line'', JInt (sf_headingLine s)),
     (''is_data_driven'', JBool (isDataDriven s))] @
     opt (\<not> table_empty (sf_dataTable s)) ''data_table'' (table_json (sf_dataTable s)) @
     [(''contexts'', JArr (map step_json (sf_contexts s))), (''teardowns'', JArr (map step_json (sf_teardowns s))),
      (''scenarios'', JArr (map scenario_json (sf_scenarios s))),
      (''scenario_count'', JInt (int (length (sf_scenarios s))))])"

definition parse_error_json :: "ParseError \<Rightarrow> Json" where
  "parse_error_json e = jobject ([(''file'', JStr (pe_fileName e)), (''line'', JInt (pe_lineNumber e)),
     (''message'', JStr (pe_message e))] @ opt (pe_lineText e \<noteq> []) ''text'' (JStr (pe_lineText e)))"

section \<open>Results\<close>

fun step_result_json :: "StepResult \<Rightarrow> Json" where
  "step_result_json (StepResult text param st err trace dur attempts msgs inner isConcept) =
     jobject ([(''step'', JStr text), (''parameterized_text'', JStr param), (''state'', JState st),
       (''duration'', JSecs dur), (''attempts'', JInt attempts)] @
       opt (err \<noteq> []) ''error'' (JStr err) @ opt (trace \<noteq> []) ''stack_trace'' (JStr trace) @
       opt (msgs \<noteq> []) ''messages'' (strings_json msgs) @
       (if isConcept then [(''is_concept'', JBool True), (''concept_steps'', JArr (map step_result_json inner))] else []))"

definition scenario_result_json :: "ScenarioResult \<Rightarrow> Json" where
  "scenario_result_json r = jobject ([(''name'', JStr (sc_scenarioName r)), (''tags'', strings_json (sc_tags r)),
     (''state'', JState (sc_state r)), (''duration'', JSecs (sc_duration r)), (''line_number'', JInt (sc_lineNumber r))] @
     opt (sc_errorMessage r \<noteq> []) ''error'' (JStr (sc_errorMessage r)) @
     (if sc_dataRowIndex r \<ge> 0
      then [(''data_row_index'', JInt (sc_dataRowIndex r)), (''data_row'', string_map_json (sc_dataRow r))] else []) @
     [(''context_steps'', JArr (map step_result_json (sc_contextSteps r))),
      (''steps'', JArr (map step_result_json (sc_stepResults r))),
      (''teardown_steps'', JArr (map step_result_json (sc_teardownSteps r)))])"

definition spec_result_json :: "SpecResult \<Rightarrow> Json" where
  "spec_result_json r = jobject ([(''file'', JStr (sp_specFile r)), (''name'', JStr (sp_specName r)),
     (''tags'', strings_json (sp_tags r)), (''state'', JState (sp_state r)), (''duration'', JSecs (sp_duration r))] @
     opt (sp_errorMessage r \<noteq> []) ''error'' (JStr (sp_errorMessage r)) @
     [(''total_scenarios'', JInt (sp_totalScenarios r)), (''passed_scenarios'', JInt (sp_passedScenarios r)),
      (''failed_scenarios'', JInt (sp_failedScenarios r)), (''skipped_scenarios'', JInt (sp_skippedScenarios r)),
      (''scenarios'', JArr (map scenario_result_json (sp_scenarioResults r)))])"

definition request_json :: "TestRequest \<Rightarrow> Json" where
  "request_json r = jobject ([(''id'', JStr (rq_id r)), (''name'', JStr (rq_name r)),
     (''spec_files'', strings_json (rq_specFiles r)), (''tags'', strings_json (rq_tags r)),
     (''scenarios'', strings_json (rq_scenarios r)), (''environment'', JStr (rq_environment r)),
     (''parallel_streams'', JInt (rq_parallelStreams r)), (''priority'', JStr (priorityToString (rq_priority r))),
     (''timeout_ms'', JInt (rq_timeoutMs r)), (''fail_fast'', JBool (rq_failFast r)),
     (''step_retry'', JInt (rq_stepRetry r)), (''metadata'', string_map_json (rq_metadata r))] @
     opt (rq_callbackUrl r \<noteq> []) ''callback_url'' (JStr (rq_callbackUrl r)) @
     opt (rq_submittedBy r \<noteq> []) ''submitted_by'' (JStr (rq_submittedBy r)))"

definition status_json :: "TestStatus \<Rightarrow> Json" where
  "status_json s = jobject ([(''test_id'', JStr (ts_testId s)), (''state'', JState (ts_state s)),
     (''progress'', JSecs (ts_progress s)), (''total_specs'', JInt (ts_totalSpecs s)),
     (''executed_specs'', JInt (ts_executedSpecs s)), (''passed_specs'', JInt (ts_passedSpecs s)),
     (''failed_specs'', JInt (ts_failedSpecs s)), (''total_scenarios'', JInt (ts_totalScenarios s)),
     (''executed_scenarios'', JInt (ts_executedScenarios s)), (''passed_scenarios'', JInt (ts_passedScenarios s)),
     (''failed_scenarios'', JInt (ts_failedScenarios s)), (''skipped_scenarios'', JInt (ts_skippedScenarios s)),
     (''current_spec'', JStr (ts_currentSpec s)), (''current_scenario'', JStr (ts_currentScenario s)),
     (''current_step'', JStr (ts_currentStep s)), (''submit_time'', JTime (ts_submitTime s)),
     (''start_time'', JTime (ts_startTime s)), (''end_time'', JTime (ts_endTime s))] @
     opt (ts_errors s \<noteq> []) ''errors'' (strings_json (ts_errors s)) @
     opt (ts_warnings s \<noteq> []) ''warnings'' (strings_json (ts_warnings s)))"

definition result_json :: "TestResult \<Rightarrow> Json" where
  "result_json r = jobject [(''test_id'', JStr (tr_testId r)), (''state'', JState (tr_finalState r)),
     (''duration'', JSecs (tr_totalDuration r)), (''start_time'', JTime (tr_startTime r)),
     (''end_time'', JTime (tr_endTime r)), (''total_scenarios'', JInt (tr_totalScenarios r)),
     (''passed_scenarios'', JInt (tr_passedScenarios r)), (''failed_scenarios'', JInt (tr_failedScenarios r)),
     (''skipped_scenarios'', JInt (tr_skippedScenarios r)), (''errors'', strings_json (tr_errors r)),
     (''warnings'', strings_json (tr_warnings r)), (''specs'', JArr (map spec_result_json (tr_specResults r)))]"

definition info_json :: "TestInfo \<Rightarrow> Json" where
  "info_json i = jobject [(''test_id'', JStr (ti_testId i)), (''name'', JStr (ti_name i)), (''state'', JState (ti_state i)),
     (''spec_files'', strings_json (ti_specFiles i)), (''tags'', strings_json (ti_tags i)),
     (''priority'', JStr (priorityToString (ti_priority i))), (''progress'', JSecs (ti_progress i)),
     (''submit_time'', JTime (ti_submitTime i)), (''start_time'', JTime (ti_startTime i)),
     (''end_time'', JTime (ti_endTime i)), (''total_scenarios'', JInt (ti_totalScenarios i)),
     (''passed_scenarios'', JInt (ti_passedScenarios i)), (''failed_scenarios'', JInt (ti_failedScenarios i)),
     (''skipped_scenarios'', JInt (ti_skippedScenarios i)), (''duration'', JSecs (ti_duration i))]"

section \<open>Runner status and events\<close>

record RunnerSlotStatus =
  ss_index :: int
  ss_state :: RunnerState
  ss_pid :: int
  ss_version :: string
  ss_restartCount :: int
  ss_stepsExecuted :: int
  ss_busy :: bool
  ss_lastError :: string
  ss_startedAt :: TimePoint
  ss_lastHeartbeat :: TimePoint

record RunnerStatus =
  rs_state :: RunnerState
  rs_language :: string
  rs_command :: string
  rs_pid :: int
  rs_version :: string
  rs_implementedSteps :: "string list"
  rs_lastHeartbeat :: TimePoint
  rs_startedAt :: TimePoint
  rs_restartCount :: int
  rs_lastError :: string
  rs_poolSize :: int
  rs_aliveCount :: int
  rs_busyCount :: int
  rs_slots :: "RunnerSlotStatus list"

definition slot_json :: "RunnerSlotStatus \<Rightarrow> Json" where
  "slot_json s = jobject ([(''index'', JInt (ss_index s)), (''state'', JStr (runnerStateToString (ss_state s))),
     (''pid'', JInt (ss_pid s)), (''version'', JStr (ss_version s)), (''restart_count'', JInt (ss_restartCount s)),
     (''steps_executed'', JInt (ss_stepsExecuted s)), (''busy'', JBool (ss_busy s))] @
     opt (ss_lastError s \<noteq> []) ''last_error'' (JStr (ss_lastError s)) @
     [(''started_at'', JTime (ss_startedAt s)), (''last_heartbeat'', JTime (ss_lastHeartbeat s))])"

definition runner_status_json :: "RunnerStatus \<Rightarrow> Json" where
  "runner_status_json s = jobject ([(''state'', JStr (runnerStateToString (rs_state s))),
     (''language'', JStr (rs_language s)), (''command'', JStr (rs_command s)), (''pid'', JInt (rs_pid s)),
     (''version'', JStr (rs_version s)), (''implemented_steps'', strings_json (rs_implementedSteps s)),
     (''step_count'', JInt (int (length (rs_implementedSteps s)))), (''last_heartbeat'', JTime (rs_lastHeartbeat s)),
     (''started_at'', JTime (rs_startedAt s)), (''restart_count'', JInt (rs_restartCount s))] @
     opt (rs_lastError s \<noteq> []) ''last_error'' (JStr (rs_lastError s)) @
     [(''pool_size'', JInt (rs_poolSize s)), (''alive'', JInt (rs_aliveCount s)), (''busy'', JInt (rs_busyCount s)),
      (''runners'', JArr (map slot_json (rs_slots s)))])"

definition event_json :: "Event \<Rightarrow> Json" where
  "event_json e = jobject [(''event'', JStr (ev_type e)), (''test_id'', JStr (ev_testId e)),
     (''timestamp'', JTime (ev_timestamp e)), (''data'', string_map_json (ev_data e))]"

section \<open>Reading\<close>

definition num_secs :: "double \<Rightarrow> rat" where
  "num_secs x = (case x of Fin v \<Rightarrow> v | _ \<Rightarrow> 0)"

definition read_secs :: "Json \<Rightarrow> rat" where
  "read_secs j = num_secs (asNumber (Fin 0) j)"

definition read_time :: "Json \<Rightarrow> TimePoint" where
  "read_time j = fromIso8601 (asString [] j)"

definition stringsFromJson :: "Json \<Rightarrow> string list" where
  "stringsFromJson j = map (asString []) (filter isString (asArray j))"

definition text_of :: "Json \<Rightarrow> string" where
  "text_of j = (if isString j then asString [] j else dump (-1) j)"

definition stringMapFromJson :: "Json \<Rightarrow> (string, string) omap" where
  "stringMapFromJson j = foldl (\<lambda>m (k, v). omap_put k (text_of v) m) [] (asObject j)"

lemma size_asArray: "v \<in> set (asArray (jget j k)) \<Longrightarrow> size v < size j"
proof -
  assume v: "v \<in> set (asArray (jget j k))"
  then obtain ob a where j: "j = JObj ob" and g: "map_of ob k = Some (JArr a)" and a: "v \<in> set a"
    by (auto simp: jget_def asArray_def split: Json.splits option.splits)
  from map_of_SomeD [OF g] have "size (JArr a) < size j"
    by (auto simp: j dest!: size_list_estimation' [where f = "size_prod (\<lambda>x. 0) size" and y = "Suc (size_list size a)"])
  with a show ?thesis
    using size_list_estimation' [OF a, of "size v" size] by simp
qed

function stepResultFromJson :: "Json \<Rightarrow> StepResult" where
  "stepResultFromJson j =
     StepResult (asString [] (jget j ''step'')) (asString [] (jget j ''parameterized_text''))
       (stringToTestState (asString ''passed'' (jget j ''state''))) (asString [] (jget j ''error''))
       (asString [] (jget j ''stack_trace'')) (read_secs (jget j ''duration''))
       (let n = asInt 1 (jget j ''attempts'') in if n < 1 then 1 else n)
       (stringsFromJson (jget j ''messages''))
       (map stepResultFromJson (asArray (jget j ''concept_steps'')))
       (asBool False (jget j ''is_concept''))"
  by auto
termination by (relation "measure size") (auto dest: size_asArray)

declare stepResultFromJson.simps [simp del]

definition scenarioResultFromJson :: "Json \<Rightarrow> ScenarioResult" where
  "scenarioResultFromJson j =
     \<lparr>sc_scenarioName = asString [] (jget j ''name''), sc_tags = stringsFromJson (jget j ''tags''),
      sc_state = stringToTestState (asString ''passed'' (jget j ''state'')),
      sc_contextSteps = map stepResultFromJson (asArray (jget j ''context_steps'')),
      sc_stepResults = map stepResultFromJson (asArray (jget j ''steps'')),
      sc_teardownSteps = map stepResultFromJson (asArray (jget j ''teardown_steps'')),
      sc_errorMessage = asString [] (jget j ''error''), sc_duration = read_secs (jget j ''duration''),
      sc_dataRowIndex = asInt (-1) (jget j ''data_row_index''), sc_dataRow = stringMapFromJson (jget j ''data_row''),
      sc_lineNumber = asInt 0 (jget j ''line_number'')\<rparr>"

definition specResultFromJson :: "Json \<Rightarrow> SpecResult" where
  "specResultFromJson j =
     \<lparr>sp_specFile = asString [] (jget j ''file''), sp_specName = asString [] (jget j ''name''),
      sp_tags = stringsFromJson (jget j ''tags''), sp_state = stringToTestState (asString ''passed'' (jget j ''state'')),
      sp_scenarioResults = map scenarioResultFromJson (asArray (jget j ''scenarios'')),
      sp_errorMessage = asString [] (jget j ''error''), sp_duration = read_secs (jget j ''duration''),
      sp_totalScenarios = asInt 0 (jget j ''total_scenarios''), sp_passedScenarios = asInt 0 (jget j ''passed_scenarios''),
      sp_failedScenarios = asInt 0 (jget j ''failed_scenarios''),
      sp_skippedScenarios = asInt 0 (jget j ''skipped_scenarios'')\<rparr>"

definition testResultFromJson :: "Json \<Rightarrow> TestResult" where
  "testResultFromJson j =
     \<lparr>tr_testId = asString [] (jget j ''test_id''),
      tr_finalState = stringToTestState (asString ''passed'' (jget j ''state'')),
      tr_specResults = map specResultFromJson (asArray (jget j ''specs'')),
      tr_errors = stringsFromJson (jget j ''errors''), tr_warnings = stringsFromJson (jget j ''warnings''),
      tr_totalDuration = read_secs (jget j ''duration''), tr_startTime = read_time (jget j ''start_time''),
      tr_endTime = read_time (jget j ''end_time''), tr_totalScenarios = asInt 0 (jget j ''total_scenarios''),
      tr_passedScenarios = asInt 0 (jget j ''passed_scenarios''),
      tr_failedScenarios = asInt 0 (jget j ''failed_scenarios''),
      tr_skippedScenarios = asInt 0 (jget j ''skipped_scenarios'')\<rparr>"

definition testStatusFromJson :: "Json \<Rightarrow> TestStatus" where
  "testStatusFromJson j =
     \<lparr>ts_testId = asString [] (jget j ''test_id''), ts_state = stringToTestState (asString ''queued'' (jget j ''state'')),
      ts_totalSpecs = asInt 0 (jget j ''total_specs''), ts_executedSpecs = asInt 0 (jget j ''executed_specs''),
      ts_passedSpecs = asInt 0 (jget j ''passed_specs''), ts_failedSpecs = asInt 0 (jget j ''failed_specs''),
      ts_totalScenarios = asInt 0 (jget j ''total_scenarios''),
      ts_executedScenarios = asInt 0 (jget j ''executed_scenarios''),
      ts_passedScenarios = asInt 0 (jget j ''passed_scenarios''),
      ts_failedScenarios = asInt 0 (jget j ''failed_scenarios''),
      ts_skippedScenarios = asInt 0 (jget j ''skipped_scenarios''), ts_progress = read_secs (jget j ''progress''),
      ts_currentSpec = asString [] (jget j ''current_spec''), ts_currentScenario = asString [] (jget j ''current_scenario''),
      ts_currentStep = asString [] (jget j ''current_step''), ts_submitTime = read_time (jget j ''submit_time''),
      ts_startTime = read_time (jget j ''start_time''), ts_endTime = read_time (jget j ''end_time''),
      ts_errors = stringsFromJson (jget j ''errors''), ts_warnings = stringsFromJson (jget j ''warnings'')\<rparr>"

section \<open>Reading a request\<close>

fun read_items :: "string \<Rightarrow> string list \<Rightarrow> Json list \<Rightarrow> string + string list" where
  "read_items key out [] = Inr out"
| "read_items key out (item # items) =
     (if \<not> isString item then Inl (key @ '' must contain only strings'')
      else read_items key (if asString [] item \<noteq> [] then out @ [asString [] item] else out) items)"

definition readStrings :: "Json \<Rightarrow> string \<Rightarrow> string list \<Rightarrow> string + string list" where
  "readStrings j key out =
     (let v = jget j key in
      if isNull v then Inr out
      else if isString v then Inr (if asString [] v \<noteq> [] then out @ [asString [] v] else out)
      else if \<not> isArray v then Inl (key @ '' must be an array of strings'')
      else read_items key out (asArray v))"

definition clamp_streams :: "int \<Rightarrow> int" where
  "clamp_streams n = (let n1 = (if n < 1 then 1 else n) in if n1 > 64 then 64 else n1)"

definition retry_error :: string where
  "retry_error = ''step_retry must be an integer between 0 and '' @ to_string kMaxStepRetry"

definition read_retry :: "Json \<Rightarrow> int \<Rightarrow> string + int" where
  "read_retry v cur =
     (if isNull v then Inr cur
      else if \<not> isNumber v then Inl retry_error
      else let n = asInt 0 v in if n < 0 \<or> n > kMaxStepRetry then Inl retry_error else Inr n)"

definition read_text :: "Json \<Rightarrow> string \<Rightarrow> string" where
  "read_text v cur = (if isString v then asString [] v else cur)"

definition read_metadata :: "Json \<Rightarrow> (string, string) omap \<Rightarrow> (string, string) omap" where
  "read_metadata v cur =
     (if isObject v then foldl (\<lambda>m (k, x). omap_put k (text_of x) m) cur (asObject v) else cur)"

definition read_options :: "Json \<Rightarrow> TestRequest \<Rightarrow> string + TestRequest" where
  "read_options j r =
     (let r1 = r\<lparr>rq_name := read_text (jget j ''name'') (rq_name r),
                 rq_environment := read_text (jget j ''environment'') (rq_environment r),
                 rq_priority := (if isString (jget j ''priority'') then stringToPriority (asString [] (jget j ''priority''))
                                 else rq_priority r),
                 rq_parallelStreams := (if isNumber (jget j ''parallel_streams'')
                                        then clamp_streams (asInt 0 (jget j ''parallel_streams'')) else rq_parallelStreams r),
                 rq_timeoutMs := (if isNumber (jget j ''timeout_ms'') then max 0 (asInt 0 (jget j ''timeout_ms''))
                                  else rq_timeoutMs r),
                 rq_failFast := asBool (rq_failFast r) (jget j ''fail_fast'')\<rparr>
      in case read_retry (jget j ''step_retry'') (rq_stepRetry r1) of
           Inl e \<Rightarrow> Inl e
         | Inr n \<Rightarrow> Inr (r1\<lparr>rq_stepRetry := n,
                            rq_callbackUrl := read_text (jget j ''callback_url'') (rq_callbackUrl r1),
                            rq_submittedBy := read_text (jget j ''submitted_by'') (rq_submittedBy r1),
                            rq_metadata := read_metadata (jget j ''metadata'') (rq_metadata r1)\<rparr>))"

definition testRequestFromJson :: "Json \<Rightarrow> TestRequest \<Rightarrow> string + TestRequest" where
  "testRequestFromJson j r =
     (if \<not> isObject j then Inl ''Request body must be a JSON object''
      else case readStrings j ''spec_files'' (rq_specFiles r) of Inl e \<Rightarrow> Inl e
      | Inr files0 \<Rightarrow> case readStrings j ''specs'' files0 of Inl e \<Rightarrow> Inl e
      | Inr files \<Rightarrow> case readStrings j ''tags'' (rq_tags r) of Inl e \<Rightarrow> Inl e
      | Inr tags \<Rightarrow> case readStrings j ''scenarios'' (rq_scenarios r) of Inl e \<Rightarrow> Inl e
      | Inr scenarios \<Rightarrow> read_options j (r\<lparr>rq_specFiles := files, rq_tags := tags, rq_scenarios := scenarios\<rparr>))"

end
