(* ===== verification/HttpMessage.thy ===== *)
theory HttpMessage
  imports JsonConvert JsonParse TimeText
begin

text \<open>
  The messages of \<open>src/src/server/http_server.h\<close> and \<open>http_server.cpp\<close>: requests and responses with
  their accessors, the parsing of a request head, the framing of requests on a connection, and the
  serialisation of responses. A socket is the list of what its peer does next: a chunk of bytes
  that one \<open>recv\<close> returns, silence until the poll times out, or the end of the connection; after the
  end of the list it is silent.
\<close>

section \<open>Requests and responses\<close>

record HttpRequest =
  hq_method :: string
  hq_path :: string
  hq_rawTarget :: string
  hq_version :: string
  hq_body :: string
  hq_headers :: "(string, string) omap"
  hq_queryParams :: "(string, string) omap"
  hq_pathParams :: "(string, string) omap"
  hq_remoteAddress :: string

definition new_request :: "string \<Rightarrow> HttpRequest" where
  "new_request remote = \<lparr>hq_method = [], hq_path = [], hq_rawTarget = [], hq_version = ''HTTP/1.1'', hq_body = [],
     hq_headers = [], hq_queryParams = [], hq_pathParams = [], hq_remoteAddress = remote\<rparr>"

definition get_or :: "string \<Rightarrow> (string, string) omap \<Rightarrow> string \<Rightarrow> string" where
  "get_or def m name = (case omap_get m name of None \<Rightarrow> def | Some v \<Rightarrow> v)"

definition header :: "HttpRequest \<Rightarrow> string \<Rightarrow> string \<Rightarrow> string" where
  "header rq name def = get_or def (hq_headers rq) (map c_tolower name)"

definition query :: "HttpRequest \<Rightarrow> string \<Rightarrow> string \<Rightarrow> string" where
  "query rq name def = get_or def (hq_queryParams rq) name"

definition param :: "HttpRequest \<Rightarrow> string \<Rightarrow> string \<Rightarrow> string" where
  "param rq name def = get_or def (hq_pathParams rq) name"

definition keepAlive :: "HttpRequest \<Rightarrow> bool" where
  "keepAlive rq =
     (let c = map c_tolower (header rq ''connection'' [])
      in if contains c ''close'' then False
         else if hq_version rq = ''HTTP/1.0'' then contains c ''keep-alive''
         else True)"

record HttpResponse =
  hp_statusCode :: int
  hp_body :: string
  hp_headers :: "(string, string) omap"
  hp_handled :: bool

definition json_type_header :: string where
  "json_type_header = ''application/json; charset=utf-8''"

definition new_response :: HttpResponse where
  "new_response = \<lparr>hp_statusCode = 200, hp_body = [], hp_headers = [(''Content-Type'', json_type_header)], hp_handled = True\<rparr>"

definition set_header :: "string \<Rightarrow> string \<Rightarrow> HttpResponse \<Rightarrow> HttpResponse" where
  "set_header k v r = r\<lparr>hp_headers := omap_put k v (hp_headers r)\<rparr>"

definition json_response :: "int \<Rightarrow> Json \<Rightarrow> HttpResponse" where
  "json_response code j = new_response\<lparr>hp_statusCode := code, hp_body := dump (- 1) j\<rparr>"

definition text_response :: "int \<Rightarrow> string \<Rightarrow> string \<Rightarrow> HttpResponse" where
  "text_response code t contentType =
     set_header ''Content-Type'' contentType (new_response\<lparr>hp_statusCode := code, hp_body := t\<rparr>)"

definition error_response :: "int \<Rightarrow> string \<Rightarrow> string \<Rightarrow> HttpResponse" where
  "error_response code message detail =
     json_response code (jobject ([(''error'', JStr message), (''status'', JInt code)] @ opt (detail \<noteq> []) ''detail'' (JStr detail)))"

definition noContent :: HttpResponse where
  "noContent = new_response\<lparr>hp_statusCode := 204, hp_headers := omap_erase ''Content-Type'' (hp_headers new_response)\<rparr>"

definition redirect :: "string \<Rightarrow> int \<Rightarrow> HttpResponse" where
  "redirect location code = (let r = set_header ''Location'' location (new_response\<lparr>hp_statusCode := code\<rparr>)
     in r\<lparr>hp_headers := omap_erase ''Content-Type'' (hp_headers r)\<rparr>)"

definition hijacked :: HttpResponse where
  "hijacked = new_response\<lparr>hp_handled := False\<rparr>"

definition reasonPhrase :: "int \<Rightarrow> string" where
  "reasonPhrase code = (case map_of
     [(100, ''Continue''), (101, ''Switching Protocols''), (200, ''OK''), (201, ''Created''), (202, ''Accepted''),
      (204, ''No Content''), (301, ''Moved Permanently''), (302, ''Found''), (304, ''Not Modified''),
      (400, ''Bad Request''), (401, ''Unauthorized''), (403, ''Forbidden''), (404, ''Not Found''),
      (405, ''Method Not Allowed''), (408, ''Request Timeout''), (409, ''Conflict''), (413, ''Payload Too Large''),
      (415, ''Unsupported Media Type''), (418, ''I'' @ [CHR 0x27] @ ''m a teapot''), (422, ''Unprocessable Entity''),
      (426, ''Upgrade Required''), (429, ''Too Many Requests''), (431, ''Request Header Fields Too Large''),
      (500, ''Internal Server Error''), (501, ''Not Implemented''), (503, ''Service Unavailable''),
      (504, ''Gateway Timeout'')] code of None \<Rightarrow> ''Unknown'' | Some t \<Rightarrow> t)"

section \<open>Targets and query strings\<close>

definition hex_digit :: "char \<Rightarrow> nat" where
  "hex_digit c = (case hex_val c of Some v \<Rightarrow> v | None \<Rightarrow> 0)"

fun urlDecode :: "string \<Rightarrow> string" where
  "urlDecode [] = []"
| "urlDecode (c # s) =
     (if c = CHR ''+'' then CHR '' '' # urlDecode s
      else case s of
        a # b # r \<Rightarrow>
          if c = CHR ''%'' \<and> c_isxdigit a \<and> c_isxdigit b
          then char_of (16 * hex_digit a + hex_digit b) # urlDecode r
          else c # urlDecode s
      | _ \<Rightarrow> c # urlDecode s)"

definition query_pair :: "string \<Rightarrow> (string, string) omap \<Rightarrow> (string, string) omap" where
  "query_pair pair params =
     (if pair = [] then params
      else case break_at ''='' pair of
        None \<Rightarrow> omap_put (urlDecode pair) [] params
      | Some (k, v) \<Rightarrow> omap_put (urlDecode k) (urlDecode v) params)"

function query_loop :: "string \<Rightarrow> (string, string) omap \<Rightarrow> (string, string) omap" where
  "query_loop qs params =
     (case break_at ''&'' qs of
        None \<Rightarrow> query_pair qs params
      | Some (pair, rest) \<Rightarrow> query_loop rest (query_pair pair params))"
  by pat_completeness auto
termination
  by (relation "measure (\<lambda>(qs, params). length qs)") (auto dest: break_at_length)

declare query_loop.simps [simp del]

definition parseQueryString :: "string \<Rightarrow> (string, string) omap" where
  "parseQueryString qs = query_loop qs []"

section \<open>The head of a request\<close>

definition crlf :: string where
  "crlf = [CHR 0x0D, CHR 0x0A]"

text \<open>\<open>std::getline\<close>: the line and what follows it, or failure at the end of the text.\<close>

definition next_line :: "string \<Rightarrow> (string \<times> string) option" where
  "next_line s =
     (if s = [] then None
      else case break_at [CHR 0x0A] s of None \<Rightarrow> Some (s, []) | Some (a, b) \<Rightarrow> Some (a, b))"

definition strip_cr :: "string \<Rightarrow> string" where
  "strip_cr line = (if line \<noteq> [] \<and> last line = CHR 0x0D then butlast line else line)"

text \<open>\<open>operator>>\<close> into a string: the next word, and what follows it.\<close>

definition next_word :: "string \<Rightarrow> (string \<times> string) option" where
  "next_word s = (let t = dropWhile c_isspace s
     in if t = [] then None else Some (takeWhile (\<lambda>c. \<not> c_isspace c) t, dropWhile (\<lambda>c. \<not> c_isspace c) t))"

definition set_target :: "string \<Rightarrow> HttpRequest \<Rightarrow> HttpRequest" where
  "set_target target rq =
     (case break_at ''?'' target of
        Some (p, qs) \<Rightarrow> rq\<lparr>hq_rawTarget := target, hq_path := urlDecode p, hq_queryParams := parseQueryString qs\<rparr>
      | None \<Rightarrow> rq\<lparr>hq_rawTarget := target, hq_path := urlDecode target\<rparr>)"

definition absolute_form :: "string \<Rightarrow> string" where
  "absolute_form p =
     (case break_at ''//'' p of
        Some (scheme, rest) \<Rightarrow>
          (case break_at ''/'' rest of None \<Rightarrow> ''/'' | Some (host, q) \<Rightarrow> CHR ''/'' # q)
      | None \<Rightarrow> p)"

definition check_path :: "HttpRequest \<Rightarrow> string + HttpRequest" where
  "check_path rq =
     (if hq_path rq = [] \<or> hd (hq_path rq) \<noteq> CHR ''/'' then
        if startsWith (hq_path rq) ''http://'' \<or> startsWith (hq_path rq) ''https://''
        then Inr (rq\<lparr>hq_path := absolute_form (hq_path rq)\<rparr>)
        else if hq_path rq \<noteq> ''*'' then Inl ''Invalid request target'' else Inr rq
      else Inr rq)"

definition request_line :: "string \<Rightarrow> HttpRequest \<Rightarrow> string + HttpRequest" where
  "request_line line rq =
     (case next_word line of
        None \<Rightarrow> Inl ''Malformed request line''
      | Some (m, r1) \<Rightarrow>
          (case next_word r1 of
             None \<Rightarrow> Inl ''Malformed request line''
           | Some (target, r2) \<Rightarrow>
               let rq1 = rq\<lparr>hq_method := m, hq_version := (case next_word r2 of None \<Rightarrow> hq_version rq | Some (v, _) \<Rightarrow> v)\<rparr>
               in if hq_version rq1 \<noteq> ''HTTP/1.1'' \<and> hq_version rq1 \<noteq> ''HTTP/1.0''
                  then Inl ''Unsupported HTTP version''
                  else check_path (set_target target rq1)))"

definition add_header :: "string \<Rightarrow> string \<Rightarrow> (string, string) omap \<Rightarrow> (string, string) omap" where
  "add_header key value hs =
     (case omap_get hs key of
        Some old \<Rightarrow> if key \<noteq> ''content-length'' then omap_put key (old @ '', '' @ value) hs else omap_put key value hs
      | None \<Rightarrow> omap_put key value hs)"

lemma next_line_shorter: "next_line s = Some (l, r) \<Longrightarrow> length r < length s"
  by (auto simp: next_line_def split: if_splits option.splits dest: break_at_length)

function header_lines :: "string \<Rightarrow> HttpRequest \<Rightarrow> string + HttpRequest" where
  "header_lines s rq =
     (case next_line s of
        None \<Rightarrow> Inr rq
      | Some (raw, rest) \<Rightarrow>
          let line = strip_cr raw
          in if line = [] then Inr rq
             else case break_at '':'' line of
               None \<Rightarrow> Inl ''Malformed header line''
             | Some (k, v) \<Rightarrow>
                 header_lines rest (rq\<lparr>hq_headers := add_header (toLower (trim k)) (trim v) (hq_headers rq)\<rparr>))"
  by pat_completeness auto
termination
  by (relation "measure (\<lambda>(s, rq). length s)") (auto dest: next_line_shorter)

declare header_lines.simps [simp del]

definition parseRequestHead :: "string \<Rightarrow> HttpRequest \<Rightarrow> string + HttpRequest" where
  "parseRequestHead head rq =
     (case next_line head of
        None \<Rightarrow> Inl ''Empty request''
      | Some (raw, rest) \<Rightarrow>
          (case request_line (strip_cr raw) rq of
             Inl err \<Rightarrow> Inl err
           | Inr rq1 \<Rightarrow> header_lines rest rq1))"

section \<open>Requests on a connection\<close>

record HttpServerConfig =
  hc_maxHeaderBytes :: nat
  hc_maxBodyBytes :: nat
  hc_enableCors :: bool

definition default_HttpServerConfig :: HttpServerConfig where
  "default_HttpServerConfig = \<lparr>hc_maxHeaderBytes = 65536, hc_maxBodyBytes = 16777216, hc_enableCors = True\<rparr>"

datatype net_event = Chunk string | Silence | Closed

definition head_end :: string where
  "head_end = crlf @ crlf"

text \<open>The outcome of a failed read: the status code to answer with, 0 for none, and the message.\<close>

type_synonym read_error = "int \<times> string"

fun read_head :: "nat \<Rightarrow> string \<Rightarrow> bool \<Rightarrow> net_event list \<Rightarrow> read_error + (string \<times> string \<times> net_event list)" where
  "read_head limit buf firstByte evs =
     (case break_at head_end buf of
        Some (h, rest) \<Rightarrow> Inr (h @ crlf, rest, evs)
      | None \<Rightarrow>
          (case evs of
             Chunk c # es \<Rightarrow>
               if break_at head_end (buf @ c) = None \<and> length (buf @ c) > limit
               then Inl (431, ''Request headers too large'')
               else read_head limit (buf @ c) False es
           | Closed # es \<Rightarrow> Inl (0, ''Connection closed'')
           | _ \<Rightarrow> Inl (if firstByte then 0 else 408, ''Request timeout'')))"

declare read_head.simps [simp del]

fun read_body :: "nat \<Rightarrow> string \<Rightarrow> net_event list \<Rightarrow> read_error + (string \<times> net_event list)" where
  "read_body n body evs =
     (if n \<le> length body then Inr (body, evs)
      else case evs of
             Chunk c # es \<Rightarrow> read_body n (body @ c) es
           | Closed # es \<Rightarrow> Inl (400, ''Connection closed while reading body'')
           | _ \<Rightarrow> Inl (408, ''Timed out reading request body''))"

declare read_body.simps [simp del]

definition content_length :: "HttpRequest \<Rightarrow> read_error + nat" where
  "content_length rq =
     (let cl = header rq ''content-length'' []
      in if cl \<noteq> [] then
           (case stoll cl of
              None \<Rightarrow> Inl (400, ''Invalid Content-Length'')
            | Some v \<Rightarrow> if v < 0 then Inl (400, ''Invalid Content-Length'') else Inr (nat v))
         else if contains (toLower (header rq ''transfer-encoding'' [])) ''chunked''
           then Inl (501, ''Chunked transfer encoding is not supported'')
         else Inr 0)"

definition continue_wanted :: "HttpRequest \<Rightarrow> nat \<Rightarrow> string \<Rightarrow> bool" where
  "continue_wanted rq n rest = (toLower (header rq ''expect'' []) = ''100-continue'' \<and> n > length rest)"

definition continue_line :: string where
  "continue_line = ''HTTP/1.1 100 Continue'' @ crlf @ crlf"

text \<open>
  \<open>readRequest\<close>: the request, the bytes left for the next one, the rest of the socket, and what was
  sent meanwhile.
\<close>

definition readRequest ::
  "HttpServerConfig \<Rightarrow> HttpRequest \<Rightarrow> string \<Rightarrow> net_event list
   \<Rightarrow> (read_error + (HttpRequest \<times> string \<times> net_event list)) \<times> string list" where
  "readRequest cfg rq buf evs =
     (case read_head (hc_maxHeaderBytes cfg) buf (buf = []) evs of
        Inl e \<Rightarrow> (Inl e, [])
      | Inr (head, rest, evs1) \<Rightarrow>
          (case parseRequestHead head rq of
             Inl msg \<Rightarrow> (Inl (400, msg), [])
           | Inr rq1 \<Rightarrow>
               (case content_length rq1 of
                  Inl e \<Rightarrow> (Inl e, [])
                | Inr n \<Rightarrow>
                    if n > hc_maxBodyBytes cfg then (Inl (413, ''Request body too large''), [])
                    else let sent = (if continue_wanted rq1 n rest then [continue_line] else [])
                         in case read_body n rest evs1 of
                              Inl e \<Rightarrow> (Inl e, sent)
                            | Inr (body, evs2) \<Rightarrow>
                                (Inr (rq1\<lparr>hq_body := take n body\<rparr>, drop n body, evs2), sent))))"

section \<open>Serialisation\<close>

definition has_header :: "string \<Rightarrow> HttpResponse \<Rightarrow> bool" where
  "has_header name r = list_ex (\<lambda>(k, v). toLower k = name) (hp_headers r)"

definition header_line :: "string \<Rightarrow> string \<Rightarrow> string" where
  "header_line k v = k @ '': '' @ v @ crlf"

definition bodyless :: "HttpResponse \<Rightarrow> bool" where
  "bodyless r = (hp_statusCode r = 204 \<or> hp_statusCode r = 304)"

definition serialize :: "TimePoint \<Rightarrow> HttpResponse \<Rightarrow> bool \<Rightarrow> string" where
  "serialize now r keep =
     ''HTTP/1.1 '' @ to_string (hp_statusCode r) @ '' '' @ reasonPhrase (hp_statusCode r) @ crlf
     @ concat (map (\<lambda>(k, v). header_line k v) (hp_headers r))
     @ (if has_header ''date'' r then [] else header_line ''Date'' (httpDate now))
     @ (if has_header ''server'' r then [] else header_line ''Server'' ''TestHub'')
     @ (if has_header ''content-length'' r \<or> bodyless r then []
        else header_line ''Content-Length'' (to_string (int (length (hp_body r)))))
     @ (if has_header ''connection'' r then [] else header_line ''Connection'' (if keep then ''keep-alive'' else ''close''))
     @ crlf
     @ (if bodyless r then [] else hp_body r)"

end
