(* ===== verification/HttpClient.thy ===== *)
theory HttpClient
  imports HttpMessage
begin

text \<open>
  \<open>src/src/util/http_client.cpp\<close>: parsing URLs, the bytes of a request, and reading the response. A
  connection is the list of what its peer does next, as in \<open>HttpMessage\<close>; its end before the deadline
  is \<open>Closed\<close>, and silence is the deadline. Resolving and connecting are a parameter: an error, or the
  events that follow once the request is sent.
\<close>

section \<open>URLs\<close>

record ParsedUrl =
  pu_scheme :: string
  pu_host :: string
  pu_port :: int
  pu_path :: string

text \<open>\<open>std::atoi\<close>: 0 when there is no number; a number too large for \<open>int\<close> is not a value the caller may rely on.\<close>

definition atoi :: "string \<Rightarrow> int" where
  "atoi s = (case read_signed s of None \<Rightarrow> 0 | Some v \<Rightarrow> v)"

definition scheme_error :: "string \<Rightarrow> string" where
  "scheme_error scheme =
     (if scheme = ''https'' then ''https is not supported (no TLS support)''
      else ''Unsupported URL scheme '' @ [CHR 0x27] @ scheme @ [CHR 0x27])"

definition after_last :: "char \<Rightarrow> string \<Rightarrow> string" where
  "after_last c s = rev (takeWhile (\<lambda>x. x \<noteq> c) (rev s))"

definition before_last :: "char \<Rightarrow> string \<Rightarrow> string" where
  "before_last c s = take (length s - length (after_last c s) - 1) s"

definition drop_userinfo :: "string \<Rightarrow> string" where
  "drop_userinfo authority = (if CHR 0x40 \<in> set authority then after_last CHR 0x40 authority else authority)"

text \<open>Host and port of an authority; \<open>None\<close> is a malformed IPv6 host.\<close>

definition host_and_port :: "string \<Rightarrow> (string \<times> int) option" where
  "host_and_port authority =
     (case authority of
        CHR ''['' # r \<Rightarrow>
          (case break_at '']'' authority of
             None \<Rightarrow> None
           | Some (front, rest) \<Rightarrow>
               Some (drop 1 front, case rest of CHR '':'' # p \<Rightarrow> atoi p | _ \<Rightarrow> 80))
      | _ \<Rightarrow>
          if CHR '':'' \<in> set authority then Some (before_last CHR '':'' authority, atoi (after_last CHR '':'' authority))
          else Some (authority, 80))"

definition is_path_start :: "char \<Rightarrow> bool" where
  "is_path_start c = (c = CHR ''/'' \<or> c = CHR ''?'' \<or> c = CHR 0x23)"

definition target_path :: "string \<Rightarrow> string" where
  "target_path rest =
     (let p = (if rest = [] then ''/'' else takeWhile (\<lambda>c. c \<noteq> CHR 0x23) rest)
      in if p = [] \<or> hd p \<noteq> CHR ''/'' then CHR ''/'' # p else p)"

definition parseUrl :: "string \<Rightarrow> string + ParsedUrl" where
  "parseUrl url =
     (case break_at ''://'' url of
        None \<Rightarrow> Inl ''URL must start with http://''
      | Some (s, rest) \<Rightarrow>
          let scheme = toLower s
          in if scheme \<noteq> ''http'' then Inl (scheme_error scheme)
             else let authority = takeWhile (\<lambda>c. \<not> is_path_start c) rest; tail = dropWhile (\<lambda>c. \<not> is_path_start c) rest
             in if authority = [] then Inl ''URL has no host''
                else case host_and_port (drop_userinfo authority) of
                  None \<Rightarrow> Inl ''Malformed IPv6 host''
                | Some (host, port) \<Rightarrow>
                    if host = [] \<or> port \<le> 0 \<or> port > 65535 then Inl ''Invalid host or port''
                    else Inr \<lparr>pu_scheme = scheme, pu_host = host, pu_port = port, pu_path = target_path tail\<rparr>)"

section \<open>The request\<close>

definition request_bytes :: "string \<Rightarrow> ParsedUrl \<Rightarrow> (string, string) omap \<Rightarrow> string \<Rightarrow> string" where
  "request_bytes meth u headers body =
     meth @ '' '' @ pu_path u @ '' HTTP/1.1'' @ crlf
     @ header_line ''Host'' (pu_host u @ (if pu_port u = 80 then [] else '':'' @ to_string (pu_port u)))
     @ header_line ''User-Agent'' ''TestHub'' @ header_line ''Accept'' ''*/*'' @ header_line ''Connection'' ''close''
     @ concat (map (\<lambda>(k, v). header_line k v) headers)
     @ (if body \<noteq> [] \<or> meth = ''POST'' \<or> meth = ''PUT'' \<or> meth = ''PATCH'' then
          (if \<not> list_ex (\<lambda>(k, v). toLower k = ''content-type'') headers \<and> body \<noteq> []
           then header_line ''Content-Type'' ''application/octet-stream'' else [])
          @ header_line ''Content-Length'' (to_string (int (length body)))
        else [])
     @ crlf @ body"

section \<open>The response\<close>

record HttpClientResponse =
  cr_ok :: bool
  cr_status :: int
  cr_body :: string
  cr_headers :: "(string, string) omap"
  cr_error :: string

definition no_response :: "string \<Rightarrow> HttpClientResponse" where
  "no_response err = \<lparr>cr_ok = False, cr_status = 0, cr_body = [], cr_headers = [], cr_error = err\<rparr>"

text \<open>
  \<open>readUntil\<close>: the buffer when the test holds, and what the peer does afterwards; otherwise the error text, empty
  when the peer closed the connection, with the buffer so far.
\<close>

fun readUntil :: "(string \<Rightarrow> bool) \<Rightarrow> string \<Rightarrow> net_event list \<Rightarrow> (string \<times> string) + (string \<times> net_event list)" where
  "readUntil enough buf evs =
     (if enough buf then Inr (buf, evs)
      else case evs of
        Chunk c # es \<Rightarrow> readUntil enough (buf @ c) es
      | Closed # es \<Rightarrow> Inl ([], buf)
      | _ \<Rightarrow> Inl (''read timed out'', buf))"

declare readUntil.simps [simp del]

fun hex_prefix :: "nat \<Rightarrow> string \<Rightarrow> nat" where
  "hex_prefix v [] = v"
| "hex_prefix v (c # s) = (if c_isxdigit c then hex_prefix (v * 16 + hex_digit c) s else v)"

text \<open>\<open>strtoul\<close> in base 16 for sizes below \<open>ULONG_MAX\<close>: blanks, an optional \<open>+\<close> and \<open>0x\<close>, digits.\<close>

definition strtoul16 :: "string \<Rightarrow> nat" where
  "strtoul16 s =
     (let t = dropWhile c_isspace s; u = (case t of CHR ''+'' # r \<Rightarrow> r | _ \<Rightarrow> t)
      in case u of
           CHR ''0'' # x # d # r \<Rightarrow>
             if (x = CHR ''x'' \<or> x = CHR ''X'') \<and> c_isxdigit d then hex_prefix 0 (d # r) else hex_prefix 0 u
         | _ \<Rightarrow> hex_prefix 0 u)"

definition chunk_size :: "string \<Rightarrow> nat" where
  "chunk_size line = strtoul16 (case break_at '';'' line of None \<Rightarrow> line | Some (a, b) \<Rightarrow> a)"

text \<open>The body of a chunked message; \<open>None\<close> while it is not complete.\<close>

function parseChunked :: "string \<Rightarrow> string \<Rightarrow> string option" where
  "parseChunked s out =
     (case break_at crlf s of
        None \<Rightarrow> None
      | Some (line, rest) \<Rightarrow>
          let n = chunk_size line
          in if n = 0 then Some out
             else if n > length rest then None
             else parseChunked (drop (n + 2) rest) (out @ take n rest))"
  by pat_completeness auto
termination
  by (relation "measure (\<lambda>(s, out). length s)") (auto simp: crlf_def dest: break_at_length)

declare parseChunked.simps [simp del]

function client_headers :: "string \<Rightarrow> (string, string) omap \<Rightarrow> (string, string) omap" where
  "client_headers s hs =
     (if s = [] then hs
      else let (line, rest) = (case break_at crlf s of None \<Rightarrow> (s, []) | Some (a, b) \<Rightarrow> (a, b));
               hs' = (case break_at '':'' line of None \<Rightarrow> hs | Some (k, v) \<Rightarrow> omap_put (toLower (trim k)) (trim v) hs)
           in client_headers rest hs')"
  by pat_completeness auto
termination
  by (relation "measure (\<lambda>(s, hs). length s)") (auto simp: crlf_def split: option.splits dest: break_at_length)

declare client_headers.simps [simp del]

definition bodyless_response :: "string \<Rightarrow> int \<Rightarrow> bool" where
  "bodyless_response meth status = (meth = ''HEAD'' \<or> status = 204 \<or> status = 304 \<or> (100 \<le> status \<and> status < 200))"

definition or_else :: "string \<Rightarrow> string \<Rightarrow> string" where
  "or_else err def = (if err = [] then def else err)"

text \<open>\<open>strtoull\<close> in base 10, up to the largest value.\<close>

definition strtoull10 :: "string \<Rightarrow> nat" where
  "strtoull10 s = (case read_signed s of None \<Rightarrow> 0
     | Some v \<Rightarrow> if v \<ge> 0 then min (nat v) (2 ^ 64 - 1)
                 else if - v < 2 ^ 64 then nat (2 ^ 64 + v) else 2 ^ 64 - 1)"

definition read_response_body :: "string \<Rightarrow> net_event list \<Rightarrow> HttpClientResponse \<Rightarrow> HttpClientResponse" where
  "read_response_body buf evs r =
     (if (case omap_get (cr_headers r) ''transfer-encoding'' of None \<Rightarrow> False | Some te \<Rightarrow> contains (toLower te) ''chunked'') then
        (case readUntil (\<lambda>b. parseChunked b [] \<noteq> None) buf evs of
           Inl (err, b) \<Rightarrow> r\<lparr>cr_error := or_else err ''incomplete chunked body''\<rparr>
         | Inr (b, es) \<Rightarrow> r\<lparr>cr_ok := True, cr_body := (case parseChunked b [] of None \<Rightarrow> [] | Some d \<Rightarrow> d)\<rparr>)
      else case omap_get (cr_headers r) ''content-length'' of
        Some cl \<Rightarrow>
          (let len = strtoull10 cl
           in case readUntil (\<lambda>b. len \<le> length b) buf evs of
                Inl (err, b) \<Rightarrow> r\<lparr>cr_error := or_else err ''incomplete body''\<rparr>
              | Inr (b, es) \<Rightarrow> r\<lparr>cr_ok := True, cr_body := take len b\<rparr>)
      | None \<Rightarrow>
          (case readUntil (\<lambda>b. False) buf evs of
             Inl (err, b) \<Rightarrow> r\<lparr>cr_ok := True, cr_body := b\<rparr>
           | Inr (b, es) \<Rightarrow> r\<lparr>cr_ok := True, cr_body := b\<rparr>))"

definition read_response :: "string \<Rightarrow> net_event list \<Rightarrow> HttpClientResponse" where
  "read_response meth evs =
     (case readUntil (\<lambda>b. break_at head_end b \<noteq> None) [] evs of
        Inl (err, b) \<Rightarrow> no_response (or_else err ''connection closed before headers'')
      | Inr (buf, es) \<Rightarrow>
          (case break_at head_end buf of
             None \<Rightarrow> no_response ''connection closed before headers''
           | Some (head, rest) \<Rightarrow>
               let (line, hs) = (case break_at crlf head of None \<Rightarrow> (head, []) | Some (a, b) \<Rightarrow> (a, b))
               in if length line < 12 \<or> take 5 line \<noteq> ''HTTP/'' then no_response ''malformed status line''
                  else let r = (no_response [])\<lparr>cr_status := atoi (take 3 (drop 9 line)), cr_headers := client_headers hs []\<rparr>
                       in if bodyless_response meth (cr_status r) then r\<lparr>cr_ok := True\<rparr>
                          else read_response_body rest es r))"

text \<open>
  The whole exchange. \<open>exchange\<close> connects to the URL and sends the bytes: the error of that, or what the
  peer does then.
\<close>

definition http_request ::
  "(ParsedUrl \<Rightarrow> string \<Rightarrow> 'w \<Rightarrow> (string + net_event list) \<times> 'w) \<Rightarrow>
   string \<Rightarrow> string \<Rightarrow> string \<Rightarrow> (string, string) omap \<Rightarrow> 'w \<Rightarrow> HttpClientResponse \<times> 'w" where
  "http_request exchange meth url body headers w =
     (case parseUrl url of
        Inl err \<Rightarrow> (no_response err, w)
      | Inr u \<Rightarrow>
          (case exchange u (request_bytes meth u headers body) w of
             (Inl err, w1) \<Rightarrow> (no_response err, w1)
           | (Inr evs, w1) \<Rightarrow> (read_response meth evs, w1)))"

definition http_post ::
  "(ParsedUrl \<Rightarrow> string \<Rightarrow> 'w \<Rightarrow> (string + net_event list) \<times> 'w) \<Rightarrow>
   string \<Rightarrow> string \<Rightarrow> string \<Rightarrow> (string, string) omap \<Rightarrow> 'w \<Rightarrow> HttpClientResponse \<times> 'w" where
  "http_post exchange url body contentType headers w =
     http_request exchange ''POST'' url body (omap_put ''Content-Type'' contentType headers) w"

end
