(* ===== verification/JsonConvertFacts.thy ===== *)
theory JsonConvertFacts
  imports JsonConvert
begin

text \<open>
  Round trips of the data model through JSON values (\<open>src/src/model/json_convert.h\<close>) and the
  validation of requests. \<open>storable\<close> predicates collect what a value must satisfy to survive:
  counters that fit an \<open>int\<close>, times in whole milliseconds, concept steps only on concepts.
\<close>

section \<open>Fields of objects\<close>

fun look :: "string \<Rightarrow> (string \<times> Json) list \<Rightarrow> Json \<Rightarrow> Json" where
  "look k [] d = d"
| "look k ((k', v) # r) d = look k r (if k = k' then v else d)"

lemma jget_foldl: "jget (foldl (\<lambda>j (k, v). jset j k v) (JObj ob) kvs) k = look k kvs (jget (JObj ob) k)"
proof (induction kvs arbitrary: ob)
  case (Cons e kvs)
  obtain k' v where e: "e = (k', v)" by (cases e)
  have "jset (JObj ob) k' v = JObj (omap_put k' v ob)" by (simp add: jset_def asObject_def)
  with Cons [of "omap_put k' v ob"] show ?case
    by (simp add: e jget_def omap_get_put)
qed simp

lemma jget_jobject [json_simps]: "jget (jobject kvs) k = look k kvs JNull"
  by (simp add: jobject_def jget_foldl) (simp add: jget_def)

lemma look_append [json_simps]: "look k (xs @ ys) d = look k ys (look k xs d)"
  by (induction k xs d rule: look.induct) auto

lemma look_opt [json_simps]: "look k (opt b k' v) d = (if b \<and> k = k' then v else d)"
  by (simp add: opt_def)

lemma look_if [json_simps]: "look k (if b then xs else ys) d = (if b then look k xs d else look k ys d)"
  by simp

lemma isObject_jobject [json_simps]: "isObject (jobject kvs)"
proof -
  have "isObject (foldl (\<lambda>j (k, v). jset j k v) (JObj ob) kvs)" for ob
    by (induction kvs arbitrary: ob) (auto simp: isObject_def jset_def asObject_def)
  then show ?thesis by (simp add: jobject_def)
qed

lemma asObject_jobject:
  "omap_ok m \<Longrightarrow> asObject (jobject (map (\<lambda>(k, v). (k, f v)) m)) = map (\<lambda>(k, v). (k, f v)) m"
proof -
  assume ok: "omap_ok m"
  have fold: "foldl (\<lambda>j (k, v). jset j k v) (JObj ob) kvs = JObj (foldl (\<lambda>m (k, v). omap_put k v m) ob kvs)" for ob kvs
    by (induction kvs arbitrary: ob) (auto simp: jset_def asObject_def)
  have "omap_ok (map (\<lambda>(k, v). (k, f v)) m)"
    using ok by (simp add: omap_ok_def case_prod_unfold comp_def)
  then show ?thesis
    unfolding jobject_def fold using omap_of_list_ok by (simp add: omap_of_list_def asObject_def)
qed

section \<open>Atomic values\<close>

definition in32 :: "int \<Rightarrow> bool" where
  "in32 i = (- (2 ^ 31) \<le> i \<and> i < 2 ^ 31)"

definition storable_time :: "TimePoint \<Rightarrow> bool" where
  "storable_time tp = (tp = 0 \<or> 0 < tp \<and> tp < 2 ^ 63 \<and> tp mod 1000000 = 0)"

lemma asInt_JInt [json_simps]: "in32 i \<Longrightarrow> asInt d (JInt i) = i"
  by (simp add: asInt_def JInt_def trunc_to_def in32_def)

lemma asInt_JNull [json_simps]: "asInt d JNull = d"
  by (simp add: asInt_def)

lemma type_JInt [json_simps]: "isNumber (JInt i)" "\<not> isNull (JInt i)"
  by (simp_all add: isNumber_def isNull_def JInt_def)

lemma asString_JStr [json_simps]: "asString d (JStr s) = s" "asString d JNull = d" "isString (JStr s)" "\<not> isString JNull"
  by (simp_all add: asString_def isString_def)

lemma asBool_simps [json_simps]: "asBool d (JBool b) = b" "asBool d JNull = d"
  by (simp_all add: asBool_def)

lemma asArray_simps [json_simps]: "asArray (JArr a) = a" "asArray JNull = []"
  by (simp_all add: asArray_def)

lemma read_secs_JSecs [json_simps]: "read_secs (JSecs d) = d"
  by (simp add: read_secs_def JSecs_def asNumber_def num_secs_def)

lemma read_state_JState [json_simps]: "stringToTestState (asString d (JState st)) = st"
  by (simp add: JState_def asString_def)

lemma strings_round [json_simps]: "stringsFromJson (strings_json v) = v" "stringsFromJson JNull = []"
proof -
  have "filter isString (map JStr v) = map JStr v"
    by (induction v) (simp_all add: json_simps)
  then show "stringsFromJson (strings_json v) = v" "stringsFromJson JNull = []"
    by (simp_all add: stringsFromJson_def strings_json_def json_simps comp_def)
qed

lemma text_of_JStr [json_simps]: "text_of (JStr s) = s"
  by (simp add: text_of_def json_simps)

lemma string_map_round [json_simps]: "omap_ok m \<Longrightarrow> stringMapFromJson (string_map_json m) = m"
proof -
  assume ok: "omap_ok m"
  have "foldl (\<lambda>m (k, v). omap_put k (text_of v) m) acc (map (\<lambda>(k, v). (k, JStr v)) xs) =
      foldl (\<lambda>m (k, v). omap_put k v m) acc xs" for acc xs :: "(string \<times> string) list"
    by (induction xs arbitrary: acc) (auto simp: json_simps)
  with ok omap_of_list_ok [OF ok] show ?thesis
    by (simp add: stringMapFromJson_def string_map_json_def asObject_jobject omap_of_list_def)
qed

lemma string_map_JNull [json_simps]: "stringMapFromJson JNull = []"
  by (simp add: stringMapFromJson_def asObject_def)

lemma read_time_round [json_simps]: "storable_time tp \<Longrightarrow> read_time (JTime tp) = tp"
proof (cases "tp = 0")
  case True
  then show ?thesis
    by (simp add: read_time_def JTime_def toIso8601_def fromIso8601_def json_simps)
next
  case False
  assume "storable_time tp"
  with False have t: "0 < tp" "tp < 2 ^ 63" "tp mod 1000000 = 0" by (simp_all add: storable_time_def)
  with fromIso8601_toIso8601 [OF t(1,2)] show ?thesis by (simp add: read_time_def JTime_def json_simps)
qed

section \<open>Results\<close>

fun storable_step :: "StepResult \<Rightarrow> bool" where
  "storable_step (StepResult text param st err trace dur attempts msgs inner isConcept) =
     (1 \<le> attempts \<and> in32 attempts \<and> (isConcept \<or> inner = []) \<and> list_all storable_step inner)"

lemma step_result_round: "storable_step r \<Longrightarrow> stepResultFromJson (step_result_json r) = r"
proof (induction r)
  case (StepResult step param st err trace dur attempts msgs inner isConcept)
  then have inner: "map (stepResultFromJson \<circ> step_result_json) inner = inner"
    by (intro map_idI) (auto simp: list_all_iff)
  from StepResult.prems have a: "\<not> attempts < 1" "in32 attempts" "\<not> isConcept \<Longrightarrow> inner = []" by auto
  then show ?case
    using inner
    by (subst stepResultFromJson.simps) (cases isConcept; simp add: json_simps)
qed

lemma steps_round: "list_all storable_step rs \<Longrightarrow> map (\<lambda>r. stepResultFromJson (step_result_json r)) rs = rs"
  by (intro map_idI) (auto simp: list_all_iff step_result_round)

definition storable_scenario :: "ScenarioResult \<Rightarrow> bool" where
  "storable_scenario r =
     (list_all storable_step (sc_contextSteps r) \<and> list_all storable_step (sc_stepResults r) \<and>
      list_all storable_step (sc_teardownSteps r) \<and> in32 (sc_lineNumber r) \<and> in32 (sc_dataRowIndex r) \<and>
      omap_ok (sc_dataRow r) \<and> (0 \<le> sc_dataRowIndex r \<or> sc_dataRowIndex r = -1 \<and> sc_dataRow r = []))"

lemma scenario_result_round: "storable_scenario r \<Longrightarrow> scenarioResultFromJson (scenario_result_json r) = r"
  by (cases "0 \<le> sc_dataRowIndex r")
    (simp_all add: storable_scenario_def scenarioResultFromJson_def scenario_result_json_def json_simps comp_def
      steps_round)

definition storable_spec :: "SpecResult \<Rightarrow> bool" where
  "storable_spec r =
     (list_all storable_scenario (sp_scenarioResults r) \<and> in32 (sp_totalScenarios r) \<and> in32 (sp_passedScenarios r) \<and>
      in32 (sp_failedScenarios r) \<and> in32 (sp_skippedScenarios r))"

lemma spec_result_round: "storable_spec r \<Longrightarrow> specResultFromJson (spec_result_json r) = r"
proof -
  assume r: "storable_spec r"
  then have "map (scenarioResultFromJson \<circ> scenario_result_json) (sp_scenarioResults r) = sp_scenarioResults r"
    by (intro map_idI) (auto simp: storable_spec_def list_all_iff scenario_result_round)
  with r show ?thesis
    by (simp add: storable_spec_def specResultFromJson_def spec_result_json_def json_simps)
qed

definition storable_result :: "TestResult \<Rightarrow> bool" where
  "storable_result r =
     (list_all storable_spec (tr_specResults r) \<and> in32 (tr_totalScenarios r) \<and> in32 (tr_passedScenarios r) \<and>
      in32 (tr_failedScenarios r) \<and> in32 (tr_skippedScenarios r) \<and> storable_time (tr_startTime r) \<and>
      storable_time (tr_endTime r))"

lemma test_result_round: "storable_result r \<Longrightarrow> testResultFromJson (result_json r) = r"
proof -
  assume r: "storable_result r"
  then have "map (specResultFromJson \<circ> spec_result_json) (tr_specResults r) = tr_specResults r"
    by (intro map_idI) (auto simp: storable_result_def list_all_iff spec_result_round)
  with r show ?thesis
    by (simp add: storable_result_def testResultFromJson_def result_json_def json_simps)
qed

definition storable_status :: "TestStatus \<Rightarrow> bool" where
  "storable_status s =
     (list_all in32 [ts_totalSpecs s, ts_executedSpecs s, ts_passedSpecs s, ts_failedSpecs s, ts_totalScenarios s,
        ts_executedScenarios s, ts_passedScenarios s, ts_failedScenarios s, ts_skippedScenarios s] \<and>
      list_all storable_time [ts_submitTime s, ts_startTime s, ts_endTime s])"

lemma test_status_round: "storable_status s \<Longrightarrow> testStatusFromJson (status_json s) = s"
  by (simp add: storable_status_def testStatusFromJson_def status_json_def json_simps)

section \<open>Requests\<close>

definition valid_request :: "TestRequest \<Rightarrow> bool" where
  "valid_request r =
     ([] \<notin> set (rq_specFiles r) \<and> [] \<notin> set (rq_tags r) \<and> [] \<notin> set (rq_scenarios r) \<and>
      1 \<le> rq_parallelStreams r \<and> rq_parallelStreams r \<le> 64 \<and> 0 \<le> rq_timeoutMs r \<and> rq_timeoutMs r < 2 ^ 31 \<and>
      0 \<le> rq_stepRetry r \<and> rq_stepRetry r \<le> kMaxStepRetry \<and> omap_ok (rq_metadata r))"

lemma read_items_strings: "[] \<notin> set v \<Longrightarrow> read_items key out (map JStr v) = Inr (out @ v)"
  by (induction v arbitrary: out) (auto simp: json_simps)

lemma readStrings_round:
  "[] \<notin> set v \<Longrightarrow> jget j key = strings_json v \<Longrightarrow> readStrings j key out = Inr (out @ v)"
  by (simp add: readStrings_def strings_json_def isNull_def isString_def isArray_def json_simps read_items_strings)

lemma readStrings_absent: "jget j key = JNull \<Longrightarrow> readStrings j key out = Inr out"
  by (simp add: readStrings_def isNull_def)

lemma clamp_id: "1 \<le> n \<Longrightarrow> n \<le> 64 \<Longrightarrow> clamp_streams n = n"
  by (simp add: clamp_streams_def)

lemma read_metadata_round: "omap_ok m \<Longrightarrow> read_metadata (string_map_json m) [] = m"
  using string_map_round [of m]
  by (simp add: read_metadata_def stringMapFromJson_def) (simp add: string_map_json_def json_simps)

lemma read_text_simps [json_simps]: "read_text (JStr s) d = s" "read_text JNull d = d"
  by (simp_all add: read_text_def json_simps)

lemma request_round:
  assumes "valid_request r"
  shows "testRequestFromJson (request_json r) default_TestRequest = Inr (r\<lparr>rq_id := []\<rparr>)"
proof -
  let ?j = "request_json r"
  from assms have v: "[] \<notin> set (rq_specFiles r)" "[] \<notin> set (rq_tags r)" "[] \<notin> set (rq_scenarios r)"
    "in32 (rq_parallelStreams r)" "in32 (rq_timeoutMs r)" "in32 (rq_stepRetry r)"
    by (simp_all add: valid_request_def in32_def kMaxStepRetry_def)
  have lists: "readStrings ?j ''spec_files'' [] = Inr (rq_specFiles r)"
      "readStrings ?j ''specs'' (rq_specFiles r) = Inr (rq_specFiles r)"
      "readStrings ?j ''tags'' [] = Inr (rq_tags r)" "readStrings ?j ''scenarios'' [] = Inr (rq_scenarios r)"
    using readStrings_round [OF v(1), of ?j "''spec_files''" "[]"] readStrings_round [OF v(2), of ?j "''tags''" "[]"]
      readStrings_round [OF v(3), of ?j "''scenarios''" "[]"] readStrings_absent [of ?j "''specs''"]
    by (simp_all add: request_json_def json_simps)
  have retry: "read_retry (jget ?j ''step_retry'') n = Inr (rq_stepRetry r)" for n
    using assms v(6) by (simp add: read_retry_def request_json_def json_simps valid_request_def)
  have "read_metadata (jget ?j ''metadata'') [] = rq_metadata r"
    using assms read_metadata_round by (simp add: request_json_def json_simps valid_request_def)
  note md = this
  have flds: "read_text (jget ?j ''name'') n = rq_name r" "read_text (jget ?j ''environment'') n = rq_environment r"
      "isString (jget ?j ''priority'')" "asString [] (jget ?j ''priority'') = priorityToString (rq_priority r)"
      "isNumber (jget ?j ''parallel_streams'')" "asInt 0 (jget ?j ''parallel_streams'') = rq_parallelStreams r"
      "isNumber (jget ?j ''timeout_ms'')" "asInt 0 (jget ?j ''timeout_ms'') = rq_timeoutMs r"
      "asBool b (jget ?j ''fail_fast'') = rq_failFast r"
      "read_text (jget ?j ''callback_url'') [] = rq_callbackUrl r"
      "read_text (jget ?j ''submitted_by'') [] = rq_submittedBy r" "isObject ?j" for n b
    using v(4,5) by (simp_all add: request_json_def json_simps)
  from assms have "clamp_streams (rq_parallelStreams r) = rq_parallelStreams r" "max 0 (rq_timeoutMs r) = rq_timeoutMs r"
    by (simp_all add: valid_request_def clamp_id)
  with md lists retry flds show ?thesis
    by (simp add: testRequestFromJson_def read_options_def Let_def default_TestRequest_def)
qed

lemma read_items_nonempty: "read_items key out js = Inr out' \<Longrightarrow> [] \<notin> set out \<Longrightarrow> [] \<notin> set out'"
  by (induction key out js rule: read_items.induct) (auto split: if_splits)

lemma readStrings_nonempty: "readStrings j key out = Inr out' \<Longrightarrow> [] \<notin> set out \<Longrightarrow> [] \<notin> set out'"
  by (auto simp: readStrings_def Let_def split: if_splits dest: read_items_nonempty)

lemma trunc_range: "- (2 ^ 31) \<le> trunc_to 32 x \<and> trunc_to 32 x < 2 ^ 31"
  by (simp add: trunc_to_def Let_def split: double.splits)

lemma asInt_range: "isNumber j \<Longrightarrow> - (2 ^ 31) \<le> asInt d j \<and> asInt d j < 2 ^ 31"
  using trunc_range by (cases j) (auto simp: asInt_def isNumber_def)

lemma omap_ok_metadata: "omap_ok m \<Longrightarrow> omap_ok (read_metadata v m)"
proof -
  assume ok: "omap_ok m"
  have "omap_ok (foldl (\<lambda>m (k, x). omap_put k (text_of x) m) acc xs)"
    if "omap_ok acc" for acc :: "(string, string) omap" and xs
    using that by (induction xs arbitrary: acc) (auto simp: omap_ok_put)
  with ok show ?thesis by (simp add: read_metadata_def)
qed

lemma read_options_valid:
  assumes "read_options j r = Inr r'" and "valid_request r"
  shows "valid_request r'"
proof -
  from assms(1) obtain n where n: "read_retry (jget j ''step_retry'') (rq_stepRetry r) = Inr n"
    and r': "rq_specFiles r' = rq_specFiles r" "rq_tags r' = rq_tags r" "rq_scenarios r' = rq_scenarios r"
      "rq_stepRetry r' = n" "rq_metadata r' = read_metadata (jget j ''metadata'') (rq_metadata r)"
      "rq_parallelStreams r' = (if isNumber (jget j ''parallel_streams'')
        then clamp_streams (asInt 0 (jget j ''parallel_streams'')) else rq_parallelStreams r)"
      "rq_timeoutMs r' = (if isNumber (jget j ''timeout_ms'') then max 0 (asInt 0 (jget j ''timeout_ms''))
        else rq_timeoutMs r)"
    by (auto simp: read_options_def Let_def split: sum.splits)
  have "0 \<le> n \<and> n \<le> kMaxStepRetry"
    using n assms(2) by (auto simp: read_retry_def Let_def valid_request_def split: if_splits)
  moreover have "1 \<le> rq_parallelStreams r' \<and> rq_parallelStreams r' \<le> 64"
    using assms(2) by (simp add: r' clamp_streams_def Let_def valid_request_def)
  moreover have "0 \<le> rq_timeoutMs r' \<and> rq_timeoutMs r' < 2 ^ 31"
    using assms(2) asInt_range [of "jget j ''timeout_ms''" 0] by (auto simp: r' valid_request_def)
  ultimately show ?thesis
    using assms(2) omap_ok_metadata by (simp add: r'(1-5) valid_request_def)
qed

lemma testRequestFromJson_valid:
  assumes "testRequestFromJson j r = Inr r'" and "valid_request r"
  shows "valid_request r'"
proof -
  from assms(1) obtain f0 f t s where
    s: "readStrings j ''spec_files'' (rq_specFiles r) = Inr f0" "readStrings j ''specs'' f0 = Inr f"
      "readStrings j ''tags'' (rq_tags r) = Inr t" "readStrings j ''scenarios'' (rq_scenarios r) = Inr s"
    and o: "read_options j (r\<lparr>rq_specFiles := f, rq_tags := t, rq_scenarios := s\<rparr>) = Inr r'"
    by (auto simp: testRequestFromJson_def split: if_splits sum.splits)
  have "valid_request (r\<lparr>rq_specFiles := f, rq_tags := t, rq_scenarios := s\<rparr>)"
    using assms(2) s [THEN readStrings_nonempty] by (auto simp: valid_request_def)
  with o show ?thesis by (rule read_options_valid)
qed

lemma valid_default: "valid_request default_TestRequest"
  by (simp add: valid_request_def default_TestRequest_def kMaxStepRetry_def)

text \<open>
  A request accepted from JSON asks for 1 to 64 streams, 0 to 5 retries and a non-negative
  timeout, and names no empty specification, tag or scenario.
\<close>

lemma accepted_request_bounds:
  assumes "testRequestFromJson j default_TestRequest = Inr r"
  shows "1 \<le> rq_parallelStreams r \<and> rq_parallelStreams r \<le> 64 \<and> 0 \<le> rq_stepRetry r \<and> rq_stepRetry r \<le> 5
    \<and> 0 \<le> rq_timeoutMs r \<and> rq_timeoutMs r < 2 ^ 31
    \<and> [] \<notin> set (rq_specFiles r) \<and> [] \<notin> set (rq_tags r) \<and> [] \<notin> set (rq_scenarios r)"
  using testRequestFromJson_valid [OF assms valid_default] by (simp add: valid_request_def kMaxStepRetry_def)

lemma accepted_request_bounds_witness:
  "\<exists>r. testRequestFromJson (JObj [(''parallel_streams'', JInt 100), (''specs'', JStr ''a.spec'')]) default_TestRequest
     = Inr r \<and> rq_parallelStreams r \<le> 64"
proof -
  let ?j = "JObj [(''parallel_streams'', JInt 100), (''specs'', JStr ''a.spec'')]"
  have "isl (testRequestFromJson ?j default_TestRequest) = False" by code_simp
  then obtain r where r: "testRequestFromJson ?j default_TestRequest = Inr r"
    by (cases "testRequestFromJson ?j default_TestRequest") auto
  from accepted_request_bounds [OF r] r show ?thesis by blast
qed

end
