(* ===== verification/JsonRoundtrip.thy ===== *)
theory JsonRoundtrip
  imports JsonParse
begin

text \<open>
  The parser of \<open>src/src/util/json.h\<close> reads back what its serialiser prints, compact or
  indented: strings (every byte), whole numbers, and nested arrays and objects up to the
  depth limit.
\<close>

section \<open>Strings\<close>

lemma hex_val_hex_char: "d < 16 \<Longrightarrow> hex_val (hex_char d) = Some d"
  by (simp add: hex_val_def hex_char_def Let_def)

lemma parseHex4_control:
  assumes "n < 32"
  shows "parseHex4 (CHR ''0'' # CHR ''0'' # hex_char (n div 16) # hex_char (n mod 16) # r) = Ok n r"
proof -
  have zero: "hex_val CHR ''0'' = Some 0" by code_simp
  have "n div 16 < 16" "n mod 16 < 16" using assms by simp_all
  then have h: "hex_val (hex_char (n div 16)) = Some (n div 16)" "hex_val (hex_char (n mod 16)) = Some (n mod 16)"
    by (simp_all add: hex_val_hex_char)
  have four: "(4::nat) = Suc (Suc (Suc (Suc 0)))" by simp
  show ?thesis
    unfolding parseHex4_def four
    by (simp add: h zero)
qed

lemma escape_seq_control:
  assumes "(of_char c :: nat) < 32"
  shows "escape_seq (''u00'' @ hex_char (of_char c div 16) # hex_char (of_char c mod 16) # r) = Ok [c] r"
  using parseHex4_control [OF assms, of r] assms
  by (simp add: escape_seq_def unicode_escape_def appendUtf8_def c_quote_def c_backslash_def)

lemma quote_backslash [simp]: "c_quote \<noteq> c_backslash" "c_backslash \<noteq> c_quote"
  by (simp_all add: c_quote_def c_backslash_def)

lemma string_loop_backslash:
  "escape_seq t = Ok e r \<Longrightarrow> string_loop out (c_backslash # t) = string_loop (out @ e) r"
  by simp

lemma escape_seq_simple:
  "escape_seq (c_quote # r) = Ok [c_quote] r"
  "escape_seq (c_backslash # r) = Ok [c_backslash] r"
  "escape_seq (CHR ''b'' # r) = Ok [CHR 0x08] r"
  "escape_seq (CHR ''f'' # r) = Ok [CHR 0x0C] r"
  "escape_seq (CHR ''n'' # r) = Ok [CHR 0x0A] r"
  "escape_seq (CHR ''r'' # r) = Ok [CHR 0x0D] r"
  "escape_seq (CHR ''t'' # r) = Ok [CHR 0x09] r"
  by (simp_all add: escape_seq_def c_quote_def c_backslash_def)

lemma string_loop_escape_char: "string_loop out (escape_char c @ r) = string_loop (out @ [c]) r"
proof (cases "c \<in> {c_quote, c_backslash, CHR 0x08, CHR 0x0C, CHR 0x0A, CHR 0x0D, CHR 0x09}")
  case True
  then show ?thesis
    by (elim insertE) (simp_all add: escape_char_def string_loop_backslash escape_seq_simple
        c_quote_def [symmetric] c_backslash_def [symmetric] del: string_loop.simps)
next
  case False
  show ?thesis
  proof (cases "(of_char c :: nat) < 32")
    case True
    with False have "escape_char c @ r =
        c_backslash # (''u00'' @ hex_char (of_char c div 16) # hex_char (of_char c mod 16) # r)"
      by (simp add: escape_char_def)
    then show ?thesis
      using string_loop_backslash [OF escape_seq_control [OF True]] by (simp del: string_loop.simps)
  next
    case big: False
    with False show ?thesis by (simp add: escape_char_def)
  qed
qed

lemma string_loop_quote: "string_loop out (c_quote # r) = Ok out r"
  by simp

lemma string_loop_escape: "string_loop out (concat (map escape_char s) @ c_quote # r) = Ok (out @ s) r"
  by (induction s arbitrary: out) (simp_all add: string_loop_escape_char string_loop_quote del: string_loop.simps(2))

lemma parseString_escape: "parseString (escape s @ r) = Ok s r"
  using string_loop_escape [of "[]" s r] by (simp add: parseString_def escape_def)

section \<open>Numbers\<close>

text \<open>What may follow a value in a printed text.\<close>

definition ends_value :: "string \<Rightarrow> bool" where
  "ends_value r = (r = [] \<or> hd r \<in> {CHR '','', CHR '']'', CHR ''}'', CHR 0x0A})"

lemma ends_value_simps [simp]:
  "ends_value []" "ends_value (CHR '','' # r)" "ends_value (CHR '']'' # r)" "ends_value (CHR ''}'' # r)"
  "ends_value (CHR 0x0A # r)"
  by (simp_all add: ends_value_def)

lemma ends_value_no_digit: "ends_value r \<Longrightarrow> r = [] \<or> \<not> c_isdigit (hd r)"
  by (auto simp: ends_value_def c_isdigit_def)

lemma takeWhile_digits: "\<forall>c \<in> set ds. P c \<Longrightarrow> r = [] \<or> \<not> P (hd r) \<Longrightarrow> takeWhile P (ds @ r) = ds"
  by (induction ds) (cases r; auto)+

lemma dropWhile_digits: "\<forall>c \<in> set ds. P c \<Longrightarrow> r = [] \<or> \<not> P (hd r) \<Longrightarrow> dropWhile P (ds @ r) = r"
  by (induction ds) (cases r; auto)+

lemma digit_char_0: "digit_char 0 = CHR ''0''"
  by code_simp

lemma lex_int_dec:
  assumes "ends_value r"
  shows "lex_int (dec_of_nat n @ r) = Ok (dec_of_nat n) r"
proof (cases "n = 0")
  case True
  then show ?thesis by (simp add: dec_of_nat.simps [of 0] digit_char_0 lex_int_def)
next
  case False
  obtain c ds where cd: "dec_of_nat n = c # ds" by (metis dec_of_nat_nonempty neq_Nil_conv)
  with dec_of_nat_digits [of n] have all: "\<forall>x \<in> set (c # ds). c_isdigit x" by simp
  from cd False dec_of_nat_hd_nonzero [of n] have "c \<noteq> CHR ''0''" by (simp add: digit_char_0)
  moreover note takeWhile_digits [OF all ends_value_no_digit [OF assms]]
    dropWhile_digits [OF all ends_value_no_digit [OF assms]]
  ultimately show ?thesis
    using all unfolding lex_int_def cd by simp
qed

lemma lex_fraction_ends: "ends_value r \<Longrightarrow> lex_fraction r = Ok [] r"
  by (cases r) (auto simp: ends_value_def lex_fraction_def)

lemma lex_exponent_ends: "ends_value r \<Longrightarrow> lex_exponent r = Ok 0 r"
  by (cases r) (auto simp: ends_value_def lex_exponent_def)

lemma to_string_first:
  "\<exists>c ds. to_string i = c # ds \<and> (c = CHR ''-'' \<and> i < 0 \<or> c_isdigit c \<and> 0 \<le> i)"
proof (cases "i < 0")
  case False
  obtain c ds where "dec_of_nat (nat i) = c # ds" by (metis dec_of_nat_nonempty neq_Nil_conv)
  with dec_of_nat_digits [of "nat i"] False show ?thesis by (simp add: to_string_def)
qed (simp add: to_string_def)

lemma lex_sign_to_string: "lex_sign (to_string i @ r) = (i < 0, dec_of_nat (nat \<bar>i\<bar>) @ r)"
proof (cases "i < 0")
  case False
  then obtain c ds where cd: "to_string i = c # ds" "c_isdigit c" using to_string_first [of i] by auto
  then have "c \<noteq> CHR ''-''" using digit_not_space by blast
  with cd False show ?thesis by (simp add: lex_sign_def) (simp add: to_string_def)
qed (simp add: to_string_def lex_sign_def)

lemma parseNumber_to_string:
  assumes "ends_value r" and "\<bar>i\<bar> < 2 ^ 53"
  shows "parseNumber (to_string i @ r) = Ok (Fin (of_int i)) r"
proof -
  have "nat \<bar>i\<bar> < 2 ^ 53" using assms(2) by (simp add: nat_less_iff)
  then have "round_double (i < 0) (nat \<bar>i\<bar>) 1 = Fin (of_int i)"
    using round_double_int [of "nat \<bar>i\<bar>" "i < 0"] by (cases "i < 0") auto
  then show ?thesis
    using assms(1)
    by (simp add: parseNumber_def lex_sign_to_string lex_int_dec lex_fraction_ends lex_exponent_ends strtod_of_def)
qed

section \<open>Values\<close>

text \<open>
  Values the format can carry: objects with keys in map order, and the whole numbers the
  serialiser prints in full (any other number goes through \<open>%.17g\<close>; infinities and NaN
  are printed as null).
\<close>

fun json_ok :: "Json \<Rightarrow> bool" where
  "json_ok (JNum (Fin v)) = (of_int \<lfloor>v\<rfloor> = v \<and> \<bar>v\<bar> < 10 ^ 15)"
| "json_ok (JNum x) = False"
| "json_ok (JArr a) = (\<forall>v \<in> set a. json_ok v)"
| "json_ok (JObj ob) = (omap_ok ob \<and> (\<forall>e \<in> set ob. json_ok (snd e)))"
| "json_ok j = True"

fun jdepth :: "Json \<Rightarrow> nat" where
  "jdepth (JArr a) = Suc (foldr max (map jdepth a) 0)"
| "jdepth (JObj ob) = Suc (foldr max (map (\<lambda>(k, v). jdepth v) ob) 0)"
| "jdepth j = 0"

lemma foldr_max_mem: "(x::nat) \<in> set xs \<Longrightarrow> x \<le> foldr max xs 0"
  by (induction xs) auto

lemma skipWs_blank: "\<forall>c \<in> set b. is_json_ws c \<Longrightarrow> skipWs (b @ s) = skipWs s"
  by (induction b) (auto simp: skipWs_def)

lemma skipWs_no: "s \<noteq> [] \<Longrightarrow> \<not> is_json_ws (hd s) \<Longrightarrow> skipWs s = s"
  by (cases s) (auto simp: skipWs_def)

lemma indentTo_blank: "\<forall>c \<in> set (indentTo i d). is_json_ws c"
  by (auto simp: indentTo_def is_json_ws_def)

lemma indentTo_ends: "ends_value r \<Longrightarrow> ends_value (indentTo i d @ r)"
  by (simp add: indentTo_def)

lemma digit_not_ws: "c_isdigit c \<or> c = CHR ''-'' \<Longrightarrow> \<not> is_json_ws c"
  by (auto simp: c_isdigit_def is_json_ws_def)

lemma dump_number_ok:
  assumes "json_ok (JNum x)"
  obtains i where "x = Fin (of_int i)" "\<bar>i\<bar> < 2 ^ 53" "dump_number x = to_string i"
proof (cases x)
  case (Fin v)
  with assms have v: "of_int \<lfloor>v\<rfloor> = v" "\<bar>v\<bar> < 10 ^ 15" by simp_all
  define n where "n = \<lfloor>v\<rfloor>"
  then have "v = of_int n" using v(1) by (simp only:)
  with v(2) have "\<bar>of_int n :: rat\<bar> < of_int (10 ^ 15)" by simp
  then have "\<bar>\<lfloor>v\<rfloor>\<bar> < 10 ^ 15"
    unfolding n_def [symmetric] by (simp only: of_int_less_iff of_int_abs [symmetric])
  moreover have "x = Fin (of_int \<lfloor>v\<rfloor>)" using Fin v(1) by (simp only:)
  moreover have "dump_number x = to_string \<lfloor>v\<rfloor>"
    unfolding Fin dump_number_def double.case using v by (simp only: if_True simp_thms)
  ultimately show ?thesis by (intro that) simp_all
qed (use assms in simp_all)

lemma dumpTo_first:
  assumes "json_ok j"
  shows "skipWs (dumpTo i d j @ r) = dumpTo i d j @ r"
proof (cases j)
  case (JNum x)
  with assms obtain n where "dump_number x = to_string n" using dump_number_ok by blast
  then obtain c ds where "dump_number x = c # ds" "c_isdigit c \<or> c = CHR ''-''"
    using to_string_first by metis
  with JNum digit_not_ws show ?thesis by (intro skipWs_no) simp_all
next
  case (JBool b)
  then show ?thesis by (cases b) (simp_all add: skipWs_def is_json_ws_def)
qed (simp_all add: skipWs_def is_json_ws_def escape_def c_quote_def)

text \<open>The loops over the printed items of an array and of an object.\<close>

definition reads :: "nat \<Rightarrow> (string \<Rightarrow> string) \<Rightarrow> Json \<Rightarrow> bool" where
  "reads d f v = (\<forall>r k. ends_value r \<longrightarrow> 2 * length (f r) + 1 \<le> k \<longrightarrow>
      skipWs (f r) = f r \<and> parseValue k d (f r) = Some (Ok v r))"

lemma readsD:
  "reads d f v \<Longrightarrow> ends_value r \<Longrightarrow> 2 * length (f r) + 1 \<le> k \<Longrightarrow> parseValue k d (f r) = Some (Ok v r)"
  "reads d f v \<Longrightarrow> ends_value r \<Longrightarrow> skipWs (f r) = f r"
  by (auto simp: reads_def)

lemma array_loop_items:
  assumes items: "\<forall>v \<in> set (v # vs). reads d (\<lambda>r. f v @ r) v"
    and sp: "\<forall>c \<in> set sp. is_json_ws c"
    and cl: "\<forall>c \<in> set cl. is_json_ws c" "ends_value (cl @ '']'')"
    and k: "2 * length (comma_sep (map (\<lambda>v. sp @ f v) (v # vs)) @ cl @ '']'' @ r) + 2 \<le> k"
  shows "array_loop k d arr (comma_sep (map (\<lambda>v. sp @ f v) (v # vs)) @ cl @ '']'' @ r)
    = Some (Ok (JArr (arr @ v # vs)) r)"
  using items k
proof (induction vs arbitrary: v arr k)
  case Nil
  from Nil.prems(2) obtain k' where k': "k = Suc k'" by (cases k) auto
  from cl(2) have "ends_value (cl @ '']'' @ r)" by (cases cl) (auto simp: ends_value_def)
  with Nil.prems k' have "skipWs (f v @ cl @ '']'' @ r) = f v @ cl @ '']'' @ r"
    and "parseValue k' d (f v @ cl @ '']'' @ r) = Some (Ok v (cl @ '']'' @ r))"
    by (auto simp: reads_def)
  moreover have "skipWs (cl @ '']'' @ r) = '']'' @ r"
    using skipWs_blank [OF cl(1)] by (simp add: skipWs_def is_json_ws_def)
  ultimately show ?case
    using skipWs_blank [OF sp] by (simp add: k')
next
  case (Cons w ws)
  let ?tl = "comma_sep (map (\<lambda>v. sp @ f v) (w # ws)) @ cl @ '']'' @ r"
  from Cons.prems(2) obtain k' where k': "k = Suc k'" by (cases k) auto
  have "reads d (\<lambda>r. f v @ r) v" using Cons.prems(1) by simp
  moreover have "2 * length (f v @ CHR '','' # ?tl) + 1 \<le> k'" using Cons.prems(2) k' by simp
  ultimately have p: "skipWs (f v @ CHR '','' # ?tl) = f v @ CHR '','' # ?tl"
    "parseValue k' d (f v @ CHR '','' # ?tl) = Some (Ok v (CHR '','' # ?tl))"
    by (simp_all add: reads_def)
  have "array_loop k' d (arr @ [v]) ?tl = Some (Ok (JArr ((arr @ [v]) @ w # ws)) r)"
    using Cons.prems k' by (intro Cons.IH) simp_all
  moreover have "skipWs (CHR '','' # ?tl) = CHR '','' # ?tl" by (simp add: skipWs_def is_json_ws_def)
  ultimately show ?case
    using skipWs_blank [OF sp] p by (simp add: k')
qed

lemma object_loop_items:
  assumes items: "\<forall>e \<in> set (e # es). reads d (\<lambda>r. f (snd e) @ r) (snd e)"
    and sp: "\<forall>c \<in> set sp. is_json_ws c" and sp2: "\<forall>c \<in> set sp2. is_json_ws c"
    and cl: "\<forall>c \<in> set cl. is_json_ws c" "ends_value (cl @ ''}'')"
    and k: "2 * length (comma_sep (map (\<lambda>(k, v). sp @ escape k @ '':'' @ sp2 @ f v) (e # es)) @ cl @ ''}'' @ r) + 2 \<le> k"
  shows "object_loop k d ob (comma_sep (map (\<lambda>(k, v). sp @ escape k @ '':'' @ sp2 @ f v) (e # es)) @ cl @ ''}'' @ r)
    = Some (Ok (JObj (foldl (\<lambda>m (k, v). omap_put k v m) ob (e # es))) r)"
  using items k
proof (induction es arbitrary: e ob k)
  case Nil
  obtain ke v where e: "e = (ke, v)" by (cases e)
  from Nil.prems(2) obtain k' where k': "k = Suc k'" by (cases k) auto
  have q: "skipWs (escape ke @ t) = escape ke @ t" for t
    by (simp add: escape_def skipWs_def is_json_ws_def c_quote_def)
  have hq: "\<exists>t. escape ke @ x = c_quote # t" for x by (simp add: escape_def)
  from cl(2) have "ends_value (cl @ ''}'' @ r)" by (cases cl) (auto simp: ends_value_def)
  with Nil.prems k' e have "skipWs (f v @ cl @ ''}'' @ r) = f v @ cl @ ''}'' @ r"
    and "parseValue k' d (f v @ cl @ ''}'' @ r) = Some (Ok v (cl @ ''}'' @ r))"
    by (auto simp: reads_def)
  moreover have "skipWs (cl @ ''}'' @ r) = ''}'' @ r"
    using skipWs_blank [OF cl(1)] by (simp add: skipWs_def is_json_ws_def)
  moreover have "skipWs (CHR '':'' # t) = CHR '':'' # t" for t by (simp add: skipWs_def is_json_ws_def)
  moreover obtain t where t: "escape ke @ '':'' @ sp2 @ f v @ cl @ ''}'' @ r = c_quote # t"
    using hq by blast
  moreover have "parseString (c_quote # t) = Ok ke ('':'' @ sp2 @ f v @ cl @ ''}'' @ r)"
    unfolding t [symmetric] by (rule parseString_escape)
  moreover have "skipWs (c_quote # t) = c_quote # t" by (simp add: skipWs_def is_json_ws_def c_quote_def)
  ultimately show ?case
    using skipWs_blank [OF sp] skipWs_blank [OF sp2] by (simp add: k' e)
next
  case (Cons e2 es)
  let ?g = "\<lambda>(k, v). sp @ escape k @ '':'' @ sp2 @ f v"
  let ?tl = "comma_sep (map ?g (e2 # es)) @ cl @ ''}'' @ r"
  obtain ke v where e: "e = (ke, v)" by (cases e)
  from Cons.prems(2) obtain k' where k': "k = Suc k'" by (cases k) auto
  have "reads d (\<lambda>r. f v @ r) v" using Cons.prems(1) e by simp
  moreover have "2 * length (f v @ CHR '','' # ?tl) + 1 \<le> k'" using Cons.prems(2) k' e by simp
  ultimately have p: "skipWs (f v @ CHR '','' # ?tl) = f v @ CHR '','' # ?tl"
    "parseValue k' d (f v @ CHR '','' # ?tl) = Some (Ok v (CHR '','' # ?tl))"
    by (simp_all add: reads_def)
  obtain t where t: "escape ke @ '':'' @ sp2 @ f v @ CHR '','' # ?tl = c_quote # t"
    by (simp add: escape_def)
  have ps: "parseString (c_quote # t) = Ok ke ('':'' @ sp2 @ f v @ CHR '','' # ?tl)"
    unfolding t [symmetric] by (rule parseString_escape)
  have "object_loop k' d (omap_put ke v ob) ?tl
      = Some (Ok (JObj (foldl (\<lambda>m (k, v). omap_put k v m) (omap_put ke v ob) (e2 # es))) r)"
    using Cons.prems k' e by (intro Cons.IH) simp_all
  moreover have "skipWs (CHR '','' # ?tl) = CHR '','' # ?tl" by (simp add: skipWs_def is_json_ws_def)
  moreover have "skipWs (CHR '':'' # t) = CHR '':'' # t" for t by (simp add: skipWs_def is_json_ws_def)
  moreover have "skipWs (c_quote # t) = c_quote # t" by (simp add: skipWs_def is_json_ws_def c_quote_def)
  moreover have "comma_sep (map ?g (e # e2 # es)) @ cl @ ''}'' @ r = sp @ c_quote # t"
    using t e by simp
  ultimately show ?case
    using skipWs_blank [OF sp] skipWs_blank [OF sp2] p ps by (simp only: k') (simp add: e)
qed

lemma jdepth_elem: "v \<in> set a \<Longrightarrow> jdepth v < jdepth (JArr a)"
  by (simp add: foldr_max_mem less_Suc_eq_le)

lemma jdepth_member: "(k, v) \<in> set ob \<Longrightarrow> jdepth v < jdepth (JObj ob)"
  using foldr_max_mem [of "jdepth v" "map (\<lambda>(k, v). jdepth v) ob"] by force

lemma kMaxDepth_le: "d + n \<le> kMaxDepth \<Longrightarrow> m < n \<Longrightarrow> (d + 1) + m \<le> kMaxDepth"
  by simp

lemma readsI:
  assumes "json_ok j"
    and that: "\<And>k r. ends_value r \<Longrightarrow> 2 * length (dumpTo i n j @ r) \<le> k \<Longrightarrow>
      parseValue (Suc k) d (dumpTo i n j @ r) = Some (Ok j r)"
  shows "reads d (\<lambda>r. dumpTo i n j @ r) j"
  unfolding reads_def
proof (intro allI impI conjI)
  fix r :: string and k :: nat
  assume r: "ends_value r" and k: "2 * length (dumpTo i n j @ r) + 1 \<le> k"
  then obtain k' where "k = Suc k'" by (cases k) auto
  with that [OF r] k show "parseValue k d (dumpTo i n j @ r) = Some (Ok j r)" by simp
qed (rule dumpTo_first [OF assms(1)])

lemma parse_number_value:
  assumes "json_ok (JNum x)" "ends_value r"
  shows "parseValue (Suc k) d (dump_number x @ r) = Some (Ok (JNum x) r)"
proof -
  obtain i where i: "x = Fin (of_int i)" "\<bar>i\<bar> < 2 ^ 53" "dump_number x = to_string i"
    using dump_number_ok [OF assms(1)] .
  obtain c ds where c: "to_string i = c # ds" "c_isdigit c \<or> c = CHR ''-''" using to_string_first by metis
  from c(2) have "c \<notin> {CHR ''{'', CHR ''['', c_quote, CHR ''t'', CHR ''f'', CHR ''n''}"
    by (auto simp: c_isdigit_def c_quote_def)
  moreover have "parseNumber (c # ds @ r) = Ok x r"
    using parseNumber_to_string [OF assms(2) i(2)] c(1) i(1) by simp
  ultimately show ?thesis using c by (auto simp: i(3))
qed

lemma json_skipWs_idem [simp]: "skipWs (skipWs s) = skipWs s"
  unfolding skipWs_def by (induction s) auto

lemma open_array:
  assumes "d + 1 \<le> kMaxDepth" "skipWs t \<noteq> []" "hd (skipWs t) \<noteq> CHR '']''"
  shows "parseValue (Suc (Suc k)) d (CHR ''['' # t) = array_loop (Suc k) (d + 1) [] t"
proof -
  from assms(2,3) obtain x t' where x: "skipWs t = x # t'" "x \<noteq> CHR '']''" by (cases "skipWs t") auto
  then have "skipWs (x # t') = x # t'" by (metis json_skipWs_idem)
  with x assms(1) show ?thesis by simp
qed

lemma open_object:
  assumes "d + 1 \<le> kMaxDepth" "skipWs t \<noteq> []" "hd (skipWs t) \<noteq> CHR ''}''"
  shows "parseValue (Suc (Suc k)) d (CHR ''{'' # t) = object_loop (Suc k) (d + 1) [] t"
proof -
  from assms(2,3) obtain x t' where x: "skipWs t = x # t'" "x \<noteq> CHR ''}''" by (cases "skipWs t") auto
  then have "skipWs (x # t') = x # t'" by (metis json_skipWs_idem)
  with x assms(1) show ?thesis by simp
qed

lemma dumpTo_hd:
  assumes "json_ok j"
  shows "dumpTo i d j \<noteq> [] \<and> hd (dumpTo i d j) \<noteq> CHR '']''"
proof (cases j)
  case (JNum x)
  with assms obtain n where "dump_number x = to_string n" using dump_number_ok by blast
  then obtain c ds where "dump_number x = c # ds" "c_isdigit c \<or> c = CHR ''-''"
    using to_string_first by metis
  with JNum show ?thesis by (auto simp: c_isdigit_def)
next
  case (JBool b)
  then show ?thesis by (cases b) simp_all
qed (simp_all add: escape_def c_quote_def)

lemma comma_sep_Cons: "\<exists>t. comma_sep (x # xs) = x @ t"
  by (cases xs) auto

lemma reads_array:
  assumes ok: "json_ok (JArr a)" and d: "d + 1 \<le> kMaxDepth"
    and elems: "\<forall>v \<in> set a. reads (d + 1) (\<lambda>r. dumpTo i (n + 1) v @ r) v"
  shows "reads d (\<lambda>r. dumpTo i n (JArr a) @ r) (JArr a)"
proof (rule readsI [OF ok])
  fix k :: nat and r :: string
  assume r: "ends_value r" and k: "2 * length (dumpTo i n (JArr a) @ r) \<le> k"
  show "parseValue (Suc k) d (dumpTo i n (JArr a) @ r) = Some (Ok (JArr a) r)"
  proof (cases a)
    case Nil
    with d show ?thesis by (simp add: skipWs_def is_json_ws_def)
  next
    case (Cons v vs)
    let ?sp = "indentTo i (n + 1)" and ?cl = "indentTo i n" and ?f = "dumpTo i (n + 1)"
    let ?t = "comma_sep (map (\<lambda>v. ?sp @ ?f v) (v # vs)) @ ?cl @ '']'' @ r"
    have shape: "dumpTo i n (JArr a) @ r = CHR ''['' # ?t" using Cons by simp
    obtain u where u: "?t = ?sp @ ?f v @ u"
      using comma_sep_Cons [of "?sp @ ?f v" "map (\<lambda>v. ?sp @ ?f v) vs"] by auto
    have vok: "json_ok v" using ok Cons by simp
    have ws: "skipWs ?t = ?f v @ u"
      unfolding u using skipWs_blank [OF indentTo_blank] dumpTo_first [OF vok] by simp
    from k shape obtain k' where k': "k = Suc k'" by (cases k) auto
    have "parseValue (Suc k) d (CHR ''['' # ?t) = array_loop k (d + 1) [] ?t"
      unfolding k' using ws dumpTo_hd [OF vok] by (intro open_array [OF d]) (auto simp: hd_append)
    also have "\<dots> = Some (Ok (JArr ([] @ v # vs)) r)"
    proof (rule array_loop_items)
      from k show "2 * length ?t + 2 \<le> k" unfolding shape by simp
      show "ends_value (?cl @ '']'')" by (rule indentTo_ends) simp
      show "\<forall>x\<in>set (v # vs). reads (d + 1) (\<lambda>r. ?f x @ r) x" using elems Cons by simp
    qed (rule indentTo_blank)+
    finally show ?thesis unfolding shape by (simp only: Cons append_Nil)
  qed
qed

lemma reads_object:
  assumes ok: "json_ok (JObj ob)" and d: "d + 1 \<le> kMaxDepth"
    and elems: "\<forall>e \<in> set ob. reads (d + 1) (\<lambda>r. dumpTo i (n + 1) (snd e) @ r) (snd e)"
  shows "reads d (\<lambda>r. dumpTo i n (JObj ob) @ r) (JObj ob)"
proof (rule readsI [OF ok])
  fix k :: nat and r :: string
  assume r: "ends_value r" and k: "2 * length (dumpTo i n (JObj ob) @ r) \<le> k"
  show "parseValue (Suc k) d (dumpTo i n (JObj ob) @ r) = Some (Ok (JObj ob) r)"
  proof (cases ob)
    case Nil
    with d show ?thesis by (simp add: skipWs_def is_json_ws_def)
  next
    case (Cons e es)
    let ?sp = "indentTo i (n + 1)" and ?cl = "indentTo i n" and ?f = "dumpTo i (n + 1)"
    let ?sp2 = "if 0 \<le> i then '' '' else []"
    let ?g = "\<lambda>(k, v). ?sp @ escape k @ '':'' @ ?sp2 @ ?f v"
    let ?t = "comma_sep (map ?g (e # es)) @ ?cl @ ''}'' @ r"
    have shape: "dumpTo i n (JObj ob) @ r = CHR ''{'' # ?t" using Cons by simp
    obtain u where u: "?t = ?sp @ c_quote # u"
      using comma_sep_Cons [of "?g e" "map ?g es"] by (auto simp: escape_def split: prod.splits)
    have ws: "skipWs ?t = c_quote # u"
      unfolding u using skipWs_blank [OF indentTo_blank] by (simp add: skipWs_def is_json_ws_def c_quote_def)
    from k shape obtain k' where k': "k = Suc k'" by (cases k) auto
    have "parseValue (Suc k) d (CHR ''{'' # ?t) = object_loop k (d + 1) [] ?t"
      unfolding k' using ws by (intro open_object [OF d]) (auto simp: c_quote_def)
    also have "\<dots> = Some (Ok (JObj (foldl (\<lambda>m (k, v). omap_put k v m) [] (e # es))) r)"
    proof (rule object_loop_items)
      from k show "2 * length ?t + 2 \<le> k" unfolding shape by simp
      show "ends_value (?cl @ ''}'')" by (rule indentTo_ends) simp
      show "\<forall>x\<in>set (e # es). reads (d + 1) (\<lambda>r. ?f (snd x) @ r) (snd x)" using elems Cons by simp
      show "\<forall>c\<in>set ?sp2. is_json_ws c" by (simp add: is_json_ws_def)
    qed (rule indentTo_blank)+
    also have "foldl (\<lambda>m (k, v). omap_put k v m) [] (e # es) = ob"
      using omap_of_list_ok [of ob] ok Cons by (simp add: omap_of_list_def)
    finally show ?thesis by (simp only: shape)
  qed
qed

lemma dumpTo_reads:
  "json_ok j \<Longrightarrow> d + jdepth j \<le> kMaxDepth \<Longrightarrow> reads d (\<lambda>r. dumpTo i n j @ r) j"
proof (induction i n j arbitrary: d rule: dumpTo.induct)
  case (2 i n b)
  show ?case by (rule readsI) (simp_all add: expectLiteral_def c_quote_def)
next
  case (3 i n x)
  then show ?case by (intro readsI) (simp_all add: parse_number_value del: parseValue.simps json_ok.simps)
next
  case (4 i n s)
  have "parseValue (Suc k) d (escape s @ r) = Some (Ok (JStr s) r)" for k r
    using parseString_escape [of s r] unfolding escape_def by (simp add: c_quote_def)
  then show ?case by (intro readsI) simp_all
next
  case (5 i n a)
  have d: "d + 1 + jdepth v \<le> kMaxDepth" if "v \<in> set a" for v
    using kMaxDepth_le [OF "5.prems"(2) jdepth_elem [OF that]] .
  have "d + 1 \<le> kMaxDepth" using "5.prems"(2) by simp
  then show ?case
    using 5 d by (intro reads_array ballI) (simp_all del: jdepth.simps)
next
  case (6 i n ob)
  have d: "d + 1 + jdepth (snd e) \<le> kMaxDepth" if "e \<in> set ob" for e
    using kMaxDepth_le [OF "6.prems"(2) jdepth_member [of "fst e" "snd e" ob]] that by simp
  have "d + 1 \<le> kMaxDepth" using "6.prems"(2) by simp
  then show ?case
    using 6 d by (intro reads_object ballI) (auto simp del: jdepth.simps)
qed (rule readsI; simp add: expectLiteral_def c_quote_def)

lemma dump_reads:
  assumes "json_ok j" and "jdepth j \<le> kMaxDepth"
  shows "parseValue (parse_fuel (dump indent j)) 0 (dump indent j) = Some (Ok j [])"
    and "skipWs (dump indent j) = dump indent j"
proof -
  have "reads 0 (\<lambda>r. dumpTo indent 0 j @ r) j" using assms by (intro dumpTo_reads) simp_all
  from readsD [OF this, of "[]"]
  show "parseValue (parse_fuel (dump indent j)) 0 (dump indent j) = Some (Ok j [])"
    and "skipWs (dump indent j) = dump indent j"
    by (simp_all add: dump_def parse_fuel_def)
qed



end
