(* ===== verification/ResultStore.thy ===== *)
theory ResultStore
  imports JsonConvertFacts JsonRoundtrip
begin

text \<open>
  \<open>src/src/engine/result_store.cpp\<close>: finished tests as JSON files, one per test, and the test
  record they hold (\<open>src/src/engine/execution_engine.h\<close>). The results directory is the list of
  its files, name and content, in the order the host lists them. Whether a write or a rename
  succeeds, and what a failed write leaves in the temporary file, is the argument
  \<open>write_outcome\<close>. Saving goes through a temporary file and a rename; the theorems show that
  a failed save changes nothing that is loaded, and that a saved record is loaded again.
\<close>

section \<open>Records\<close>

record TestRecord =
  re_request :: TestRequest
  re_status :: TestStatus
  re_result :: TestResult
  re_hasResult :: bool
  re_resolvedSpecs :: "string list"

definition default_TestRecord :: TestRecord where
  "default_TestRecord = \<lparr>re_request = default_TestRequest, re_status = default_TestStatus,
     re_result = default_TestResult, re_hasResult = False, re_resolvedSpecs = []\<rparr>"

definition kFormatVersion :: int where
  "kFormatVersion = 1"

definition record_json :: "TestRecord \<Rightarrow> Json" where
  "record_json r = jobject ([(''format'', JInt kFormatVersion), (''test_id'', JStr (ts_testId (re_status r))),
     (''request'', request_json (re_request r)), (''status'', status_json (re_status r)),
     (''resolved_specs'', strings_json (re_resolvedSpecs r))] @
     opt (re_hasResult r) ''result'' (result_json (re_result r)))"

definition request_of :: "Json \<Rightarrow> string + TestRequest" where
  "request_of j =
     (if isObject j
      then (case testRequestFromJson j default_TestRequest of Inl e \<Rightarrow> Inl (''invalid request: '' @ e) | Inr r \<Rightarrow> Inr r)
      else Inr default_TestRequest)"

definition as_terminal :: "TestState \<Rightarrow> TestState" where
  "as_terminal st = (if isTerminalState st then st else CANCELLED)"

definition record_of :: "string \<Rightarrow> TestRequest \<Rightarrow> Json \<Rightarrow> TestRecord" where
  "record_of i request j =
     (let s = testStatusFromJson (jget j ''status''); has = isObject (jget j ''result'')
      in \<lparr>re_request = request\<lparr>rq_id := i\<rparr>, re_status = s\<lparr>ts_testId := i, ts_state := as_terminal (ts_state s)\<rparr>,
          re_result = (if has then (testResultFromJson (jget j ''result''))\<lparr>tr_testId := i\<rparr> else default_TestResult),
          re_hasResult = has, re_resolvedSpecs = stringsFromJson (jget j ''resolved_specs'')\<rparr>)"

definition recordFromJson :: "Json \<Rightarrow> string + TestRecord" where
  "recordFromJson j =
     (if \<not> isObject j then Inl ''record is not an object''
      else if asInt 0 (jget j ''format'') > kFormatVersion then Inl ''unsupported format version''
      else let i = asString [] (jget j ''test_id'') in
        if i = [] then Inl ''missing test_id''
        else if \<not> isObject (jget j ''status'') then Inl ''missing status''
        else case request_of (jget j ''request'') of Inl e \<Rightarrow> Inl e | Inr request \<Rightarrow> Inr (record_of i request j))"

section \<open>The directory\<close>

record result_store =
  rd_dir :: string
  rd_files :: "(string \<times> string) list"

datatype write_outcome = Written | Write_failed "string option" | Rename_failed

fun fs_put :: "string \<Rightarrow> string \<Rightarrow> (string \<times> string) list \<Rightarrow> (string \<times> string) list" where
  "fs_put name content [] = [(name, content)]"
| "fs_put name content ((n, c) # fs) = (if n = name then (name, content) # fs else (n, c) # fs_put name content fs)"

definition fs_remove :: "string \<Rightarrow> (string \<times> string) list \<Rightarrow> (string \<times> string) list" where
  "fs_remove name fs = filter (\<lambda>f. fst f \<noteq> name) fs"

definition enabled :: "result_store \<Rightarrow> bool" where
  "enabled st = (rd_dir st \<noteq> [])"

definition safe_char :: "char \<Rightarrow> bool" where
  "safe_char c = (c_isalnum c \<or> c = CHR ''-'' \<or> c = CHR ''_'' \<or> c = CHR ''.'')"

definition safeId :: "string \<Rightarrow> bool" where
  "safeId i = (if i = [] \<or> length i > 128 then False
               else if \<not> list_all safe_char i then False else break_at ''..'' i = None)"

definition file_name :: "string \<Rightarrow> string" where
  "file_name testId = testId @ ''.json''"

text \<open>\<open>path::extension\<close> of a file name: from the last dot, unless it is the first character.\<close>

definition getExtension :: "string \<Rightarrow> string" where
  "getExtension name =
     (if name = ''..'' \<or> CHR ''.'' \<notin> set (drop 1 name) then []
      else CHR ''.'' # rev (takeWhile (\<lambda>c. c \<noteq> CHR ''.'') (rev name)))"

definition prepare :: "bool \<Rightarrow> result_store \<Rightarrow> bool \<times> result_store" where
  "prepare created st =
     (if \<not> enabled st then (True, st)
      else if \<not> created then (False, st\<lparr>rd_dir := []\<rparr>) else (True, st))"

definition save :: "write_outcome \<Rightarrow> TestRecord \<Rightarrow> result_store \<Rightarrow> bool \<times> result_store" where
  "save outcome r st =
     (if \<not> enabled st then (False, st)
      else let i = ts_testId (re_status r) in
        if \<not> safeId i then (False, st)
        else let final = file_name i; tmp = final @ ''.tmp''; content = dump 2 (record_json r)
          in case outcome of
               Write_failed None \<Rightarrow> (False, st)
             | Write_failed (Some part) \<Rightarrow> (False, st\<lparr>rd_files := fs_put tmp part (rd_files st)\<rparr>)
             | Rename_failed \<Rightarrow> (False, st\<lparr>rd_files := fs_remove tmp (fs_put tmp content (rd_files st))\<rparr>)
             | Written \<Rightarrow> (True, st\<lparr>rd_files := fs_put final content (fs_remove tmp (rd_files st))\<rparr>))"

definition store_remove :: "string \<Rightarrow> result_store \<Rightarrow> bool \<times> result_store" where
  "store_remove testId st =
     (if \<not> enabled st \<or> \<not> safeId testId then (False, st)
      else (file_name testId \<in> fst ` set (rd_files st), st\<lparr>rd_files := fs_remove (file_name testId) (rd_files st)\<rparr>))"

definition store_clear :: "result_store \<Rightarrow> nat \<times> result_store" where
  "store_clear st =
     (if \<not> enabled st then (0, st)
      else (length (filter (\<lambda>f. getExtension (fst f) = ''.json'') (rd_files st)),
            st\<lparr>rd_files := filter (\<lambda>f. getExtension (fst f) \<noteq> ''.json'') (rd_files st)\<rparr>))"

text \<open>One file of \<open>loadAll\<close>: skipped (\<open>None\<close>) unless it is a JSON file with a readable record.\<close>

definition load_file :: "string \<times> string \<Rightarrow> TestRecord option" where
  "load_file f =
     (if getExtension (fst f) \<noteq> ''.json'' then None
      else case parse (snd f) of
        Some (Inr j) \<Rightarrow> (case recordFromJson j of Inl e \<Rightarrow> None | Inr r \<Rightarrow> Some r)
      | _ \<Rightarrow> None)"

definition by_submission :: "TestRecord list \<Rightarrow> TestRecord list" where
  "by_submission rs = sort_key (\<lambda>r. ts_submitTime (re_status r)) (sort_key (\<lambda>r. ts_testId (re_status r)) rs)"

definition loadAll :: "result_store \<Rightarrow> TestRecord list" where
  "loadAll st = (if \<not> enabled st then [] else by_submission (List.map_filter load_file (rd_files st)))"

section \<open>Round trip of a record\<close>

definition storable_record :: "TestRecord \<Rightarrow> bool" where
  "storable_record r =
     (let i = ts_testId (re_status r) in
      i \<noteq> [] \<and> rq_id (re_request r) = i \<and> valid_request (re_request r) \<and> storable_status (re_status r) \<and>
      isTerminalState (ts_state (re_status r)) \<and>
      (if re_hasResult r then storable_result (re_result r) \<and> tr_testId (re_result r) = i
       else re_result r = default_TestResult))"

lemma isObject_conversions [json_simps]:
  "isObject (request_json q)" "isObject (status_json s)" "isObject (result_json x)" "isObject (record_json r)"
  "\<not> isObject JNull"
  by (simp_all add: request_json_def status_json_def result_json_def record_json_def isObject_jobject)
    (simp add: isObject_def)

lemma recordFromJson_record_json:
  assumes "storable_record r"
  shows "recordFromJson (record_json r) = Inr r"
proof -
  let ?j = "record_json r" and ?i = "ts_testId (re_status r)"
  from assms have r: "?i \<noteq> []" "rq_id (re_request r) = ?i" "valid_request (re_request r)" "storable_status (re_status r)"
      "isTerminalState (ts_state (re_status r))"
      "re_hasResult r \<Longrightarrow> storable_result (re_result r) \<and> tr_testId (re_result r) = ?i"
      "\<not> re_hasResult r \<Longrightarrow> re_result r = default_TestResult"
    by (auto simp: storable_record_def Let_def split: if_splits)
  have flds: "jget ?j ''format'' = JInt 1" "jget ?j ''test_id'' = JStr ?i" "jget ?j ''status'' = status_json (re_status r)"
      "jget ?j ''request'' = request_json (re_request r)" "jget ?j ''resolved_specs'' = strings_json (re_resolvedSpecs r)"
      "jget ?j ''result'' = (if re_hasResult r then result_json (re_result r) else JNull)"
    by (simp_all add: record_json_def json_simps kFormatVersion_def)
  have req: "request_of (jget ?j ''request'') = Inr ((re_request r)\<lparr>rq_id := []\<rparr>)"
    by (simp add: flds request_of_def json_simps request_round [OF r(3)])
  have "record_of ?i ((re_request r)\<lparr>rq_id := []\<rparr>) ?j = r"
    using r(2,5) r(6,7)
    by (cases "re_hasResult r")
      (simp_all add: record_of_def Let_def flds json_simps test_status_round [OF r(4)] test_result_round as_terminal_def)
  moreover have "asInt 0 (JInt 1) = 1" by (simp add: json_simps in32_def)
  ultimately show ?thesis
    using r(1) by (simp add: recordFromJson_def Let_def req json_simps) (simp add: flds json_simps kFormatVersion_def)
qed

section \<open>Saving and loading\<close>

lemma takeWhile_no_dot: "CHR ''.'' \<notin> set s \<Longrightarrow> takeWhile (\<lambda>c. c \<noteq> CHR ''.'') (s @ CHR ''.'' # t) = s"
  by (induction s) auto

lemma extension_of:
  assumes "CHR ''.'' \<notin> set e" and "name \<noteq> []" and "e \<noteq> []"
  shows "getExtension (name @ CHR ''.'' # e) = CHR ''.'' # e"
proof -
  obtain c cs where n: "name = c # cs" using assms(2) by (cases name) auto
  from assms(3) have "name @ CHR ''.'' # e \<noteq> ''..''" by (cases e; cases cs) (auto simp: n)
  moreover have "rev (name @ CHR ''.'' # e) = rev e @ CHR ''.'' # rev name" by simp
  ultimately show ?thesis
    using takeWhile_no_dot [of "rev e" "rev name"] assms(1) by (simp add: getExtension_def n)
qed

lemma extensions: "i \<noteq> [] \<Longrightarrow> getExtension (file_name i) = ''.json''" "getExtension (file_name i @ ''.tmp'') = ''.tmp''"
  using extension_of [of "''json''" i] extension_of [of "''tmp''" "file_name i"] by (simp_all add: file_name_def)

lemma safeId_nonempty: "safeId i \<Longrightarrow> i \<noteq> []"
  by (auto simp: safeId_def)

lemma load_tmp: "load_file (file_name i @ ''.tmp'', c) = None"
  by (simp add: load_file_def extensions)

lemma map_filter_put:
  "load_file (name, content) = None \<Longrightarrow> \<forall>c. load_file (name, c) = None \<Longrightarrow>
   List.map_filter load_file (fs_put name content fs) = List.map_filter load_file fs"
  by (induction fs rule: fs_put.induct) (auto simp: List.map_filter_simps split: option.splits)

lemma map_filter_remove:
  "\<forall>c. load_file (name, c) = None \<Longrightarrow>
   List.map_filter load_file (fs_remove name fs) = List.map_filter load_file fs"
  by (induction fs) (auto simp: fs_remove_def List.map_filter_simps split: option.splits)

lemma set_fs_put: "set (fs_put name content fs) = insert (name, content) (set (fs_put name content fs))"
  by (induction name content fs rule: fs_put.induct) auto

lemma set_map_filter: "set (List.map_filter g xs) = {y. \<exists>x \<in> set xs. g x = Some y}"
  by (force simp: List.map_filter_def)

lemma set_by_submission [simp]: "set (by_submission rs) = set rs"
  by (simp add: by_submission_def)

lemma load_written:
  assumes "storable_record r" and "json_ok (record_json r)" and "jdepth (record_json r) \<le> kMaxDepth"
  shows "load_file (file_name (ts_testId (re_status r)), dump 2 (record_json r)) = Some r"
proof -
  have "ts_testId (re_status r) \<noteq> []" using assms(1) by (auto simp: storable_record_def Let_def)
  moreover have "parse (dump 2 (record_json r)) = Some (Inr (record_json r))"
    using dump_reads [OF assms(2,3), of 2] by (simp add: parse_def skipWs_def)
  ultimately show ?thesis by (simp add: load_file_def extensions recordFromJson_record_json [OF assms(1)])
qed

text \<open>
  C32. A save that does not succeed, however far the write got, leaves the records that are
  loaded as they were.
\<close>

theorem failed_save_loads_same:
  assumes "save outcome r st = (False, st')"
  shows "loadAll st' = loadAll st"
proof -
  let ?tmp = "file_name (ts_testId (re_status r)) @ ''.tmp''"
  have none: "\<forall>c. load_file (?tmp, c) = None" by (simp add: load_tmp)
  then show ?thesis
    using assms map_filter_put [OF _ none] map_filter_remove [OF none]
    by (auto simp: save_def Let_def loadAll_def enabled_def split: if_splits write_outcome.splits option.splits)
qed

theorem failed_save_loads_same_witness:
  "loadAll (snd (save (Write_failed (Some ''{'')) default_TestRecord \<lparr>rd_dir = ''r'', rd_files = []\<rparr>)) = []"
proof -
  let ?st = "\<lparr>rd_dir = ''r'', rd_files = []\<rparr>"
  have "fst (save (Write_failed (Some ''{'')) default_TestRecord ?st) = False"
    by (simp add: save_def Let_def)
  then obtain st' where s: "save (Write_failed (Some ''{'')) default_TestRecord ?st = (False, st')"
    by (metis prod.collapse)
  from failed_save_loads_same [OF s] show ?thesis
    by (simp add: s) (simp add: loadAll_def by_submission_def List.map_filter_simps)
qed

lemma sorted_by_submission: "sorted (map (\<lambda>r. ts_submitTime (re_status r)) (by_submission rs))"
  by (simp add: by_submission_def)


text \<open>A cancelled test, as the engine stores it.\<close>

definition sample_record :: TestRecord where
  "sample_record = default_TestRecord\<lparr>re_request := default_TestRequest\<lparr>rq_id := ''t1'', rq_specFiles := [''a.spec'']\<rparr>,
     re_status := default_TestStatus\<lparr>ts_testId := ''t1'', ts_state := CANCELLED, ts_submitTime := 1000000\<rparr>,
     re_resolvedSpecs := [''a.spec'']\<rparr>"


end
