(* ===== verification/HttpServer.thy ===== *)
theory HttpServer
  imports HttpMessage ResultStore
begin

text \<open>
  Routing and connections of \<open>src/src/server/http_server.cpp\<close>, the authentication of
  \<open>src/src/server/auth.h\<close> and the static pages of \<open>src/src/server/web_ui.cpp\<close>. Handlers act on a state
  \<open>'w\<close> that stands for the rest of the application, and what they throw is a value; the files of the
  host are a parameter. The routes are registered before the server starts.
\<close>

section \<open>Handlers and registration\<close>

datatype http_exception = Invalid_argument string | Json_parse_error string | Other_exception string

type_synonym 'w handler = "HttpRequest \<Rightarrow> 'w \<Rightarrow> (http_exception + HttpResponse) \<times> 'w"

record 'h route =
  rt_method :: string
  rt_segments :: "string list"
  rt_wildcard :: bool
  rt_handler :: 'h

record StaticAsset =
  sa_content :: string
  sa_contentType :: string
  sa_etag :: string

record files =
  fl_isDirectory :: "string \<Rightarrow> bool"
  fl_isFile :: "string \<Rightarrow> bool"
  fl_read :: "string \<Rightarrow> string"

record 'w server =
  sv_config :: HttpServerConfig
  sv_routes :: "'w handler route list"
  sv_upgrades :: "(string, HttpRequest \<Rightarrow> 'w \<Rightarrow> bool \<times> 'w) omap"
  sv_assets :: "(string, StaticAsset) omap"
  sv_directories :: "(string \<times> string) list"
  sv_fallback :: "'w handler option"
  sv_filter :: "(HttpRequest \<Rightarrow> HttpResponse option) option"

definition new_server :: "HttpServerConfig \<Rightarrow> 'w server" where
  "new_server cfg = \<lparr>sv_config = cfg, sv_routes = [], sv_upgrades = [], sv_assets = [], sv_directories = [],
     sv_fallback = None, sv_filter = None\<rparr>"

fun split_path_loop :: "string list \<Rightarrow> string \<Rightarrow> string \<Rightarrow> string list" where
  "split_path_loop segments current [] = (if current \<noteq> [] then segments @ [current] else segments)"
| "split_path_loop segments current (c # s) =
     (if c = CHR ''/'' then split_path_loop (if current \<noteq> [] then segments @ [current] else segments) [] s
      else split_path_loop segments (current @ [c]) s)"

definition splitPath :: "string \<Rightarrow> string list" where
  "splitPath path = split_path_loop [] [] path"

definition make_route :: "string \<Rightarrow> string \<Rightarrow> 'h \<Rightarrow> 'h route" where
  "make_route m path h =
     (let segs = splitPath path; wild = (segs \<noteq> [] \<and> last segs = ''*'')
      in \<lparr>rt_method = toUpper m, rt_segments = (if wild then butlast segs else segs), rt_wildcard = wild, rt_handler = h\<rparr>)"

definition addRoute :: "string \<Rightarrow> string \<Rightarrow> 'w handler \<Rightarrow> 'w server \<Rightarrow> 'w server" where
  "addRoute m path h sv = sv\<lparr>sv_routes := sv_routes sv @ [make_route m path h]\<rparr>"

definition addUpgradeHandler :: "string \<Rightarrow> (HttpRequest \<Rightarrow> 'w \<Rightarrow> bool \<times> 'w) \<Rightarrow> 'w server \<Rightarrow> 'w server" where
  "addUpgradeHandler path h sv = sv\<lparr>sv_upgrades := omap_put path h (sv_upgrades sv)\<rparr>"

text \<open>\<open>hash\<close> stands for \<open>std::hash\<close> of a string.\<close>

definition addStaticAsset :: "(string \<Rightarrow> nat) \<Rightarrow> string \<Rightarrow> string \<Rightarrow> string \<Rightarrow> 'w server \<Rightarrow> 'w server" where
  "addStaticAsset hash path content contentType sv =
     sv\<lparr>sv_assets := omap_put path
       \<lparr>sa_content = content, sa_contentType = contentType,
        sa_etag = c_quote # dec_of_nat (hash content) @ [c_quote]\<rparr> (sv_assets sv)\<rparr>"

definition serveDirectory :: "string \<Rightarrow> string \<Rightarrow> 'w server \<Rightarrow> 'w server" where
  "serveDirectory urlPrefix dir sv =
     sv\<lparr>sv_directories := sv_directories sv @
       [(if urlPrefix = [] \<or> last urlPrefix \<noteq> CHR ''/'' then urlPrefix @ ''/'' else urlPrefix, dir)]\<rparr>"

definition setFallback :: "'w handler \<Rightarrow> 'w server \<Rightarrow> 'w server" where
  "setFallback h sv = sv\<lparr>sv_fallback := Some h\<rparr>"

definition setRequestFilter :: "(HttpRequest \<Rightarrow> HttpResponse option) option \<Rightarrow> 'w server \<Rightarrow> 'w server" where
  "setRequestFilter f sv = sv\<lparr>sv_filter := f\<rparr>"

section \<open>Matching a route\<close>

definition is_placeholder :: "string \<Rightarrow> bool" where
  "is_placeholder pat = (length pat \<ge> 2 \<and> hd pat = CHR 0x7B \<and> last pat = CHR 0x7D)"

fun match_segments ::
  "string list \<Rightarrow> string list \<Rightarrow> (string, string) omap \<Rightarrow> nat \<Rightarrow> ((string, string) omap \<times> nat) option" where
  "match_segments [] segs p score = Some (p, score)"
| "match_segments (pat # pats) [] p score = None"
| "match_segments (pat # pats) (s # segs) p score =
     (if is_placeholder pat then match_segments pats segs (omap_put (butlast (tl pat)) s p) score
      else if pat = s then match_segments pats segs p (score + 2)
      else None)"

definition rest_path :: "string list \<Rightarrow> string" where
  "rest_path segs = foldl (\<lambda>rest s. (if rest \<noteq> [] then rest @ ''/'' else rest) @ s) [] segs"

definition fits_length :: "'h route \<Rightarrow> string list \<Rightarrow> bool" where
  "fits_length r segs =
     (if rt_wildcard r then length (rt_segments r) \<le> length segs else length (rt_segments r) = length segs)"

text \<open>The parameters and the score of one route against the path's segments.\<close>

definition route_score :: "'h route \<Rightarrow> string list \<Rightarrow> ((string, string) omap \<times> nat) option" where
  "route_score r segs =
     (if fits_length r segs then
        (case match_segments (rt_segments r) segs [] 0 of
           None \<Rightarrow> None
         | Some (p, score) \<Rightarrow>
             if rt_wildcard r then Some (omap_put ''*'' (rest_path (drop (length (rt_segments r)) segs)) p, score)
             else Some (p, score + 1))
      else None)"

text \<open>The best route so far with its parameters and score, and whether some route had another method.\<close>

type_synonym 'h choice = "('h \<times> (string, string) omap \<times> nat) option \<times> bool"

definition consider_route :: "string \<Rightarrow> string list \<Rightarrow> 'h choice \<Rightarrow> 'h route \<Rightarrow> 'h choice" where
  "consider_route meth segs acc r =
     (case route_score r segs of
        None \<Rightarrow> acc
      | Some (p, score) \<Rightarrow>
          if rt_method r \<noteq> meth then (fst acc, True)
          else if (case fst acc of None \<Rightarrow> True | Some (h, q, best) \<Rightarrow> score > best)
          then (Some (rt_handler r, p, score), snd acc)
          else acc)"

definition matchRoute :: "'h route list \<Rightarrow> HttpRequest \<Rightarrow> ('h \<times> (string, string) omap) option \<times> bool" where
  "matchRoute routes rq =
     (case foldl (consider_route (hq_method rq) (splitPath (hq_path rq))) (None, False) routes of
        (None, mismatch) \<Rightarrow> (None, mismatch)
      | (Some (h, p, score), mismatch) \<Rightarrow> (Some (h, p), False))"

section \<open>Static content\<close>

text \<open>\<open>path::extension\<close> of a path: that of its last component.\<close>

definition path_extension :: "string \<Rightarrow> string" where
  "path_extension p = getExtension (rev (takeWhile (\<lambda>c. c \<noteq> CHR ''/'') (rev p)))"

definition mime_types :: "(string \<times> string) list" where
  "mime_types =
    [(''.html'', ''text/html; charset=utf-8''), (''.htm'', ''text/html; charset=utf-8''),
     (''.css'', ''text/css; charset=utf-8''), (''.js'', ''application/javascript; charset=utf-8''),
     (''.mjs'', ''application/javascript; charset=utf-8''), (''.json'', ''application/json; charset=utf-8''),
     (''.svg'', ''image/svg+xml''), (''.png'', ''image/png''), (''.jpg'', ''image/jpeg''), (''.jpeg'', ''image/jpeg''),
     (''.gif'', ''image/gif''), (''.ico'', ''image/x-icon''), (''.webp'', ''image/webp''),
     (''.woff'', ''font/woff''), (''.woff2'', ''font/woff2''), (''.ttf'', ''font/ttf''),
     (''.txt'', ''text/plain; charset=utf-8''), (''.md'', ''text/markdown; charset=utf-8''),
     (''.spec'', ''text/plain; charset=utf-8''), (''.cpt'', ''text/plain; charset=utf-8''),
     (''.xml'', ''application/xml''), (''.pdf'', ''application/pdf''), (''.map'', ''application/json'')]"

definition mimeTypeFor :: "string \<Rightarrow> string" where
  "mimeTypeFor path =
     (case map_of mime_types (toLower (path_extension path)) of None \<Rightarrow> ''application/octet-stream'' | Some t \<Rightarrow> t)"

text \<open>\<open>FileUtil::joinPath\<close>, the \<open>/\<close> of POSIX \<open>std::filesystem::path\<close>: an absolute right side replaces the left.\<close>

definition joinPath :: "string \<Rightarrow> string \<Rightarrow> string" where
  "joinPath p1 p2 =
     (if p2 \<noteq> [] \<and> hd p2 = CHR ''/'' then p2
      else if p1 = [] \<or> last p1 = CHR ''/'' then p1 @ p2
      else p1 @ ''/'' @ p2)"

definition serve_asset :: "HttpRequest \<Rightarrow> StaticAsset \<Rightarrow> HttpResponse" where
  "serve_asset rq a =
     (if header rq ''if-none-match'' [] = sa_etag a
      then set_header ''ETag'' (sa_etag a)
             (new_response\<lparr>hp_statusCode := 304, hp_headers := omap_erase ''Content-Type'' (hp_headers new_response)\<rparr>)
      else set_header ''Cache-Control'' ''no-cache'' (set_header ''ETag'' (sa_etag a)
             (text_response 200 (sa_content a) (sa_contentType a))))"

definition find_asset :: "(string, StaticAsset) omap \<Rightarrow> string \<Rightarrow> StaticAsset option" where
  "find_asset assets path =
     (case omap_get assets path of
        Some a \<Rightarrow> Some a
      | None \<Rightarrow> if path = [] \<or> last path = CHR ''/'' then omap_get assets (path @ ''index.html'') else None)"

definition directory_file :: "files \<Rightarrow> string \<Rightarrow> string \<Rightarrow> string" where
  "directory_file fl dir rel =
     (let full = joinPath dir rel in if fl_isDirectory fl full then joinPath full ''index.html'' else full)"

fun serve_directories :: "files \<Rightarrow> string \<Rightarrow> (string \<times> string) list \<Rightarrow> HttpResponse option" where
  "serve_directories fl path [] = None"
| "serve_directories fl path ((prefix, dir) # ds) =
     (if \<not> startsWith path prefix \<and> path @ ''/'' \<noteq> prefix then serve_directories fl path ds
      else let rel = (if length prefix \<le> length path then drop (length prefix) path else [])
           in if contains rel ''..'' then Some (error_response 403 ''Forbidden'' [])
              else let full = directory_file fl dir rel
                   in if \<not> fl_isFile fl full then serve_directories fl path ds
                      else Some (set_header ''Cache-Control'' ''no-cache''
                                  (text_response 200 (fl_read fl full) (mimeTypeFor full))))"

definition serveStatic :: "files \<Rightarrow> 'w server \<Rightarrow> HttpRequest \<Rightarrow> HttpResponse option" where
  "serveStatic fl sv rq =
     (case find_asset (sv_assets sv) (hq_path rq) of
        Some a \<Rightarrow> Some (serve_asset rq a)
      | None \<Rightarrow> serve_directories fl (hq_path rq) (sv_directories sv))"

section \<open>Dispatching a request\<close>

definition preflight :: "HttpRequest \<Rightarrow> HttpResponse" where
  "preflight rq =
     set_header ''Access-Control-Max-Age'' ''600''
      (set_header ''Access-Control-Allow-Headers''
         (header rq ''access-control-request-headers'' ''Content-Type, Authorization'')
       (set_header ''Access-Control-Allow-Methods'' ''GET, POST, PUT, PATCH, DELETE, OPTIONS'' noContent))"

definition find_handler :: "'w server \<Rightarrow> HttpRequest \<Rightarrow> ('w handler \<times> (string, string) omap) option \<times> bool" where
  "find_handler sv rq =
     (case matchRoute (sv_routes sv) rq of
        (None, mismatch) \<Rightarrow>
          if hq_method rq = ''HEAD'' then matchRoute (sv_routes sv) (rq\<lparr>hq_method := ''GET''\<rparr>) else (None, mismatch)
      | found \<Rightarrow> found)"

definition not_found :: "HttpRequest \<Rightarrow> HttpResponse" where
  "not_found rq = error_response 404 ''Not Found'' (hq_method rq @ '' '' @ hq_path rq)"

definition unmatched :: "files \<Rightarrow> 'w server \<Rightarrow> HttpRequest \<Rightarrow> 'w \<Rightarrow> (http_exception + HttpResponse) \<times> 'w" where
  "unmatched fl sv rq w =
     (case (if hq_method rq = ''GET'' \<or> hq_method rq = ''HEAD'' then serveStatic fl sv rq else None) of
        Some r \<Rightarrow> (Inr r, w)
      | None \<Rightarrow> (case sv_fallback sv of Some f \<Rightarrow> f rq w | None \<Rightarrow> (Inr (not_found rq), w)))"

definition exception_response :: "http_exception \<Rightarrow> HttpResponse" where
  "exception_response e = (case e of
      Invalid_argument m \<Rightarrow> error_response 400 m []
    | Json_parse_error m \<Rightarrow> error_response 400 ''Invalid JSON'' m
    | Other_exception m \<Rightarrow> error_response 500 ''Internal Server Error'' m)"

definition finish_response :: "'w server \<Rightarrow> HttpRequest \<Rightarrow> HttpResponse \<Rightarrow> HttpResponse" where
  "finish_response sv rq r =
     (let r1 = (if hc_enableCors (sv_config sv) \<and> hp_handled r then set_header ''Access-Control-Allow-Origin'' ''*'' r else r)
      in if hq_method rq = ''HEAD'' then r1\<lparr>hp_body := []\<rparr> else r1)"

definition denied_response :: "'w server \<Rightarrow> HttpRequest \<Rightarrow> HttpResponse \<Rightarrow> HttpResponse" where
  "denied_response sv rq denied =
     (let r1 = (if hc_enableCors (sv_config sv) then set_header ''Access-Control-Allow-Origin'' ''*'' denied else denied)
      in if hq_method rq = ''HEAD'' then r1\<lparr>hp_body := []\<rparr> else r1)"

definition route_request :: "files \<Rightarrow> 'w server \<Rightarrow> HttpRequest \<Rightarrow> 'w \<Rightarrow> (http_exception + HttpResponse) \<times> 'w" where
  "route_request fl sv rq w =
     (case find_handler sv rq of
        (Some (h, params), mismatch) \<Rightarrow> h (rq\<lparr>hq_pathParams := params\<rparr>) w
      | (None, mismatch) \<Rightarrow>
          if mismatch then (Inr (error_response 405 ''Method Not Allowed'' []), w) else unmatched fl sv rq w)"

definition dispatch :: "files \<Rightarrow> 'w server \<Rightarrow> HttpRequest \<Rightarrow> 'w \<Rightarrow> HttpResponse \<times> 'w" where
  "dispatch fl sv rq w =
     (if hc_enableCors (sv_config sv) \<and> hq_method rq = ''OPTIONS''
      then (finish_response sv rq (preflight rq), w)
      else case (case sv_filter sv of None \<Rightarrow> None | Some f \<Rightarrow> f rq) of
        Some denied \<Rightarrow> (denied_response sv rq denied, w)
      | None \<Rightarrow>
          (case route_request fl sv rq w of
             (Inr r, w') \<Rightarrow> (finish_response sv rq r, w')
           | (Inl e, w') \<Rightarrow> (finish_response sv rq (exception_response e), w')))"

end
