(* ===== verification/HttpAuth.thy ===== *)
theory HttpAuth
  imports HttpServer "HOL-Library.Word"
begin

unbundle bit_operations_syntax

text \<open>
  The bearer token policy of \<open>src/src/server/auth.h\<close>. \<open>authorize\<close> is the request filter that
  \<open>TestHub::initialize\<close> installs: it gives the response that denies a request, or nothing.
\<close>

record AuthConfig =
  ac_token :: string
  ac_protectReads :: bool

definition auth_enabled :: "AuthConfig \<Rightarrow> bool" where
  "auth_enabled cfg = (ac_token cfg \<noteq> [])"

definition isReadMethod :: "string \<Rightarrow> bool" where
  "isReadMethod m = (m = ''GET'' \<or> m = ''HEAD'')"

definition isProtectedPath :: "string \<Rightarrow> bool" where
  "isProtectedPath path = (startsWith path ''/api/'' \<or> path = ''/ws'' \<or> startsWith path ''/ws/'')"

definition is_websocket :: "HttpRequest \<Rightarrow> bool" where
  "is_websocket rq = (toLower (header rq ''upgrade'' []) = ''websocket'')"

definition requiresAuth :: "AuthConfig \<Rightarrow> HttpRequest \<Rightarrow> bool" where
  "requiresAuth cfg rq =
     (if \<not> auth_enabled cfg then False
      else if \<not> isProtectedPath (hq_path rq) then False
      else if hq_path rq = ''/api/v1/health'' then False
      else if hq_method rq = ''OPTIONS'' then False
      else if (isReadMethod (hq_method rq) \<or> is_websocket rq) \<and> \<not> ac_protectReads cfg then False
      else True)"

definition extractToken :: "HttpRequest \<Rightarrow> string" where
  "extractToken rq =
     (let auth = header rq ''authorization'' []; x = header rq ''x-auth-token'' []
      in if auth \<noteq> [] then
           if startsWith (toLower auth) ''bearer '' then trim (drop 7 auth) else []
         else if x \<noteq> [] then trim x
         else if isReadMethod (hq_method rq) \<or> is_websocket rq then query rq ''access_token'' []
         else [])"

definition constantTimeEquals :: "string \<Rightarrow> string \<Rightarrow> bool" where
  "constantTimeEquals a b =
     (foldl (\<lambda>diff (x, y). diff OR (of_char x XOR of_char y))
        (if length a \<noteq> length b then 1 else (0 :: 8 word)) (zip a b) = 0)"

definition authorize :: "AuthConfig \<Rightarrow> HttpRequest \<Rightarrow> HttpResponse option" where
  "authorize cfg rq =
     (if \<not> requiresAuth cfg rq then None
      else let provided = extractToken rq
           in if provided \<noteq> [] \<and> constantTimeEquals provided (ac_token cfg) then None
              else Some (set_header ''WWW-Authenticate'' (''Bearer realm='' @ c_quote # ''TestHub'' @ [c_quote])
                (error_response 401 (if provided = [] then ''Authentication required'' else ''Invalid token'') [])))"

text \<open>The filter that is installed when a token is configured.\<close>

definition install_auth :: "AuthConfig \<Rightarrow> 'w server \<Rightarrow> 'w server" where
  "install_auth cfg sv = (if auth_enabled cfg then setRequestFilter (Some (authorize cfg)) sv else sv)"

section \<open>Facts\<close>

lemma xor_zero_iff: "(u XOR v :: 8 word) = 0 \<longleftrightarrow> u = v"
proof
  assume "u XOR v = 0"
  then have "(u XOR v) XOR v = 0 XOR v" by (rule arg_cong)
  then show "u = v" by (simp add: xor.assoc)
qed simp

lemma or_zero_iff: "(u OR v :: 8 word) = 0 \<longleftrightarrow> u = 0 \<and> v = 0"
  by (rule or_eq_0_iff)

lemma or_fold_zero:
  "foldl (\<lambda>diff (x, y). diff OR (of_char x XOR of_char y)) d ps = (0 :: 8 word) \<longleftrightarrow>
     d = 0 \<and> (\<forall>(x, y) \<in> set ps. of_char x = (of_char y :: 8 word))"
proof (induction ps arbitrary: d)
  case (Cons p ps)
  obtain x y where p: "p = (x, y)" by (cases p)
  show ?case
    unfolding p foldl_Cons prod.case Cons.IH or_zero_iff xor_zero_iff by simp
qed simp

lemma of_char_word_inject: "of_char x = (of_char y :: 8 word) \<longleftrightarrow> x = y"
proof
  assume e: "of_char x = (of_char y :: 8 word)"
  have "unat (of_char c :: 8 word) = (of_char c :: nat)" for c :: char
  proof -
    have "(of_char c :: 8 word) = of_nat (of_char c)" by (cases c) (simp add: of_char_def)
    then show ?thesis by (simp add: unat_of_nat take_bit_nat_eq_self)
  qed
  with e have "(of_char x :: nat) = of_char y" by metis
  then show "x = y" by (simp add: of_char_eq_iff)
qed simp

lemma constantTimeEquals_eq: "constantTimeEquals a b \<longleftrightarrow> a = b"
proof -
  have "(\<forall>(x, y) \<in> set (zip a b). x = y) \<longleftrightarrow> a = b" if "length a = length b"
    using that by (induction a b rule: list_induct2) auto
  then show ?thesis
    by (auto simp: constantTimeEquals_def or_fold_zero of_char_word_inject split: if_splits)
qed

end
