(* ===== verification/HttpConnection.thy ===== *)
theory HttpConnection
  imports HttpAuth
begin

text \<open>
  \<open>HttpServer::handleConnection\<close>: requests are read and answered one after the other until one of them
  ends the connection, a WebSocket endpoint takes the socket over, a send fails or the server stops.
  Reading does not depend on how the bytes are cut into packets, so neither does what is answered.
\<close>

section \<open>The loop over a connection\<close>

text \<open>What a connection uses of the server around it: the flag \<open>stopping_\<close>, sending, and the clock.\<close>

record 'w net_env =
  ne_stopping :: "'w \<Rightarrow> bool"
  ne_send :: "string \<Rightarrow> 'w \<Rightarrow> bool \<times> 'w"
  ne_clock :: "'w \<Rightarrow> TimePoint"
  ne_files :: files

datatype conn_end = Closed_here | Handed_over

definition send_response :: "'w net_env \<Rightarrow> HttpResponse \<Rightarrow> bool \<Rightarrow> 'w \<Rightarrow> bool \<times> 'w" where
  "send_response env r keep w = ne_send env (serialize (ne_clock env w) r keep) w"

definition send_each :: "'w net_env \<Rightarrow> string list \<Rightarrow> 'w \<Rightarrow> 'w" where
  "send_each env xs w = foldl (\<lambda>w x. snd (ne_send env x w)) w xs"

definition fail_request :: "'w net_env \<Rightarrow> read_error \<Rightarrow> 'w \<Rightarrow> conn_end \<times> 'w" where
  "fail_request env e w =
     (Closed_here, if fst e \<noteq> 0 then snd (send_response env (error_response (fst e) (snd e) []) False w) else w)"

definition upgrade_request :: "'w net_env \<Rightarrow> 'w server \<Rightarrow> HttpRequest \<Rightarrow> 'w \<Rightarrow> conn_end \<times> 'w" where
  "upgrade_request env sv rq w =
     (case omap_get (sv_upgrades sv) (hq_path rq) of
        None \<Rightarrow> (Closed_here, snd (send_response env
          (error_response 404 (''No WebSocket endpoint at '' @ hq_path rq) []) False w))
      | Some up \<Rightarrow>
          (case (case sv_filter sv of None \<Rightarrow> None | Some f \<Rightarrow> f rq) of
             Some denied \<Rightarrow> (Closed_here, snd (send_response env denied False w))
           | None \<Rightarrow> let (taken, w1) = up rq w in (if taken then Handed_over else Closed_here, w1)))"

text \<open>One request: the end of the connection, or the state after the answer.\<close>

definition answer :: "'w net_env \<Rightarrow> 'w server \<Rightarrow> HttpRequest \<Rightarrow> 'w \<Rightarrow> conn_end option \<times> 'w" where
  "answer env sv rq w =
     (if is_websocket rq then (let (e, w1) = upgrade_request env sv rq w in (Some e, w1))
      else let (r, w1) = dispatch (ne_files env) sv rq w
           in if \<not> hp_handled r then (Some Handed_over, w1)
              else let keep = (keepAlive rq \<and> \<not> ne_stopping env w1); (ok, w2) = send_response env r keep w1
                   in (if \<not> ok \<or> \<not> keep then Some Closed_here else None, w2))"

definition net_bytes :: "net_event list \<Rightarrow> nat" where
  "net_bytes evs = sum_list (map (\<lambda>e. case e of Chunk c \<Rightarrow> length c | _ \<Rightarrow> 0) evs)"

lemma net_bytes_simps [simp]:
  "net_bytes [] = 0" "net_bytes (Chunk c # es) = length c + net_bytes es"
  "net_bytes (Silence # es) = net_bytes es" "net_bytes (Closed # es) = net_bytes es"
  by (simp_all add: net_bytes_def)

lemma read_head_bytes:
  "read_head limit buf first evs = Inr (head, rest, evs1) \<Longrightarrow> length rest + net_bytes evs1 < length buf + net_bytes evs"
proof (induction evs arbitrary: buf first)
  case Nil
  then show ?case
    by (auto simp: read_head.simps [of limit buf] head_end_def crlf_def split: option.splits dest: break_at_length)
next
  case (Cons e es)
  show ?case
  proof (cases "break_at head_end buf")
    case None
    with Cons.prems obtain c where e: "e = Chunk c" and r: "read_head limit (buf @ c) False es = Inr (head, rest, evs1)"
      by (auto simp: read_head.simps [of limit buf] split: net_event.splits if_splits)
    from Cons.IH [OF r] show ?thesis by (simp add: e)
  next
    case (Some hr)
    then obtain h r where hr: "break_at head_end buf = Some (h, r)" by (cases hr) simp
    with Cons.prems have "rest = r" "evs1 = e # es" by (simp_all add: read_head.simps [of limit buf])
    with break_at_length [OF hr] show ?thesis by (simp add: head_end_def crlf_def)
  qed
qed

lemma read_body_bytes:
  "read_body n body evs = Inr (b, evs1) \<Longrightarrow> length b + net_bytes evs1 = length body + net_bytes evs"
proof (induction evs arbitrary: body)
  case Nil
  then show ?case by (simp add: read_body.simps [of n body] split: if_splits)
next
  case (Cons e es)
  show ?case
  proof (cases "n \<le> length body")
    case True
    with Cons.prems show ?thesis by (simp add: read_body.simps [of n body])
  next
    case False
    with Cons.prems obtain c where e: "e = Chunk c" and r: "read_body n (body @ c) es = Inr (b, evs1)"
      by (auto simp: read_body.simps [of n body] split: net_event.splits)
    from Cons.IH [OF r] show ?thesis by (simp add: e)
  qed
qed

lemma readRequest_bytes:
  "readRequest cfg rq buf evs = (Inr (rq', buf', evs'), sent) \<Longrightarrow>
     length buf' + net_bytes evs' < length buf + net_bytes evs"
  by (fastforce simp: readRequest_def Let_def split: sum.splits if_splits
      dest: read_head_bytes read_body_bytes)

text \<open>The number of requests read is \<open>requestCount_\<close>'s growth.\<close>

function handleConnection ::
  "'w net_env \<Rightarrow> 'w server \<Rightarrow> string \<Rightarrow> string \<Rightarrow> net_event list \<Rightarrow> nat \<Rightarrow> 'w \<Rightarrow> conn_end \<times> nat \<times> 'w" where
  "handleConnection env sv remote buf evs count w =
     (if ne_stopping env w then (Closed_here, count, w)
      else case readRequest (sv_config sv) (new_request remote) buf evs of
        (Inl e, sent) \<Rightarrow> (let (c, w1) = fail_request env e (send_each env sent w) in (c, count, w1))
      | (Inr (rq, buf', evs'), sent) \<Rightarrow>
          (case answer env sv rq (send_each env sent w) of
             (Some c, w1) \<Rightarrow> (c, count + 1, w1)
           | (None, w1) \<Rightarrow> handleConnection env sv remote buf' evs' (count + 1) w1))"
  by pat_completeness auto
termination
  by (relation "measure (\<lambda>(env, sv, remote, buf, evs, count, w). length buf + net_bytes evs)")
    (auto dest: readRequest_bytes [OF sym] readRequest_bytes)

declare handleConnection.simps [simp del]

end
