(* ===== verification/HttpFacts.thy ===== *)
theory HttpFacts
  imports HttpConnection
begin

text \<open>
  What the HTTP server promises: requests do not depend on how their bytes arrive and are answered in
  order; the best route is chosen; no protected handler runs without the token; and what the guards
  on paths miss.
\<close>

section \<open>Reading is independent of packets\<close>

lemma break_at_append: "break_at d s = Some (a, b) \<Longrightarrow> break_at d (s @ t) = Some (a, b @ t)"
proof (induction d s arbitrary: a b rule: break_at.induct)
  case (1 d)
  then show ?case by (cases t) (auto split: if_splits)
next
  case (2 d c cs)
  show ?case
  proof (cases "is_prefix d (c # cs)")
    case True
    then obtain r where r: "c # cs = d @ r" by (auto simp: is_prefix_iff)
    then have p: "is_prefix d ((c # cs) @ t)" by simp
    from r have "drop (length d) ((c # cs) @ t) = r @ t" "drop (length d) (c # cs) = r" by simp_all
    moreover have "break_at d (c # (cs @ t)) = Some ([], drop (length d) (c # (cs @ t)))" using p by simp
    ultimately show ?thesis using True "2.prems" by simp
  next
    case False
    with "2.prems" obtain a' where a: "a = c # a'" and b: "break_at d cs = Some (a', b)" by auto
    have "\<not> is_prefix d (c # (cs @ t))"
    proof
      assume "is_prefix d (c # (cs @ t))"
      then obtain r where r: "(c # cs) @ t = d @ r" by (auto simp: is_prefix_iff)
      from break_at_length [OF b] have "length d \<le> length (c # cs)" by simp
      with r have "c # cs = d @ drop (length d) (c # cs)"
        by (metis append_eq_conv_conj append_take_drop_id take_append take_all_iff append_Nil2 diff_is_0_eq take_0)
      with False show False by (metis is_prefix_self)
    qed
    with "2.IH" [OF False b] show ?thesis by (simp add: a)
  qed
qed

lemma break_at_prefix_None:
  assumes "break_at d (x @ y) = Some (h, r)" and "break_at d x = None"
  shows "length x < length h + length d"
proof (rule ccontr)
  assume "\<not> ?thesis"
  then have l: "length (h @ d) \<le> length x" by simp
  from break_at_SomeD [OF assms(1)] have "x @ y = (h @ d) @ r" by simp
  with l have "x = h @ d @ drop (length (h @ d)) x"
    by (metis append.assoc append_eq_append_conv_if append_take_drop_id)
  with assms(2) show False by (metis break_at_None)
qed

lemma read_head_chunks:
  assumes "break_at head_end (buf @ concat chunks) = Some (h, rest)" and "length h + 3 \<le> limit"
  shows "\<exists>k r. read_head limit buf first (map Chunk chunks @ later) = Inr (h @ crlf, r, map Chunk (drop k chunks) @ later)
    \<and> r @ concat (drop k chunks) = rest"
  using assms(1)
proof (induction chunks arbitrary: buf first)
  case Nil
  then show ?case by (intro exI [of _ 0] exI [of _ rest]) (simp add: read_head.simps [of limit buf])
next
  case (Cons c cs)
  show ?case
  proof (cases "break_at head_end buf")
    case (Some hr)
    then obtain h' r' where hr: "break_at head_end buf = Some (h', r')" by (cases hr) simp
    from break_at_append [OF hr, of "concat (c # cs)"] Cons.prems have "h' = h" "r' @ concat (c # cs) = rest" by simp_all
    with hr show ?thesis
      by (intro exI [of _ 0] exI [of _ r']) (simp add: read_head.simps [of limit buf])
  next
    case None
    have small: "\<not> (break_at head_end (buf @ c) = None \<and> length (buf @ c) > limit)"
    proof
      assume a: "break_at head_end (buf @ c) = None \<and> length (buf @ c) > limit"
      from Cons.prems have "break_at head_end ((buf @ c) @ concat cs) = Some (h, rest)" by simp
      from break_at_prefix_None [OF this] a assms(2) show False by (simp add: head_end_def crlf_def)
    qed
    from Cons.prems have "break_at head_end ((buf @ c) @ concat cs) = Some (h, rest)" by simp
    from Cons.IH [OF this, of False] obtain k r
      where "read_head limit (buf @ c) False (map Chunk cs @ later) = Inr (h @ crlf, r, map Chunk (drop k cs) @ later)"
        "r @ concat (drop k cs) = rest" by blast
    with None small show ?thesis
      by (intro exI [of _ "Suc k"] exI [of _ r]) (simp add: read_head.simps [of limit buf])
  qed
qed

lemma read_body_chunks:
  assumes "n \<le> length (body @ concat chunks)"
  shows "\<exists>k b. read_body n body (map Chunk chunks @ later) = Inr (b, map Chunk (drop k chunks) @ later)
    \<and> b @ concat (drop k chunks) = body @ concat chunks \<and> n \<le> length b"
  using assms
proof (induction chunks arbitrary: body)
  case Nil
  then show ?case by (intro exI [of _ 0] exI [of _ body]) (simp add: read_body.simps [of n body])
next
  case (Cons c cs)
  show ?case
  proof (cases "n \<le> length body")
    case True
    then show ?thesis by (intro exI [of _ 0] exI [of _ body]) (simp add: read_body.simps [of n body])
  next
    case False
    from Cons.prems have "n \<le> length ((body @ c) @ concat cs)" by simp
    from Cons.IH [OF this] obtain k b
      where "read_body n (body @ c) (map Chunk cs @ later) = Inr (b, map Chunk (drop k cs) @ later)"
        "b @ concat (drop k cs) = (body @ c) @ concat cs" "n \<le> length b" by blast
    with False show ?thesis
      by (intro exI [of _ "Suc k"] exI [of _ b]) (simp add: read_body.simps [of n body])
  qed
qed

text \<open>
  The first request of a byte string, when it is complete and within the limits, with the bytes that
  follow it: what a reader that had the whole string at once would see.
\<close>

definition first_request :: "HttpServerConfig \<Rightarrow> string \<Rightarrow> string \<Rightarrow> (HttpRequest \<times> string) option" where
  "first_request cfg remote bytes =
     (case break_at head_end bytes of
        None \<Rightarrow> None
      | Some (h, rest) \<Rightarrow>
          if length h + 3 > hc_maxHeaderBytes cfg then None
          else case parseRequestHead (h @ crlf) (new_request remote) of
            Inl e \<Rightarrow> None
          | Inr rq \<Rightarrow>
              (case content_length rq of
                 Inl e \<Rightarrow> None
               | Inr n \<Rightarrow>
                   if n > hc_maxBodyBytes cfg \<or> n > length rest then None
                   else Some (rq\<lparr>hq_body := take n rest\<rparr>, drop n rest)))"

lemma readRequest_chunks:
  assumes "first_request cfg remote (buf @ concat chunks) = Some (rq, rest)"
  shows "\<exists>k b sent. readRequest cfg (new_request remote) buf (map Chunk chunks @ later)
      = (Inr (rq, b, map Chunk (drop k chunks) @ later), sent)
    \<and> b @ concat (drop k chunks) = rest \<and> set sent \<subseteq> {continue_line}
    \<and> (toLower (header rq ''expect'' []) \<noteq> ''100-continue'' \<longrightarrow> sent = [])"
proof -
  from assms obtain h r0 rq1 n where h: "break_at head_end (buf @ concat chunks) = Some (h, r0)"
      and hl: "length h + 3 \<le> hc_maxHeaderBytes cfg" and p: "parseRequestHead (h @ crlf) (new_request remote) = Inr rq1"
      and n: "content_length rq1 = Inr n" "n \<le> hc_maxBodyBytes cfg" "n \<le> length r0"
      and rq: "rq = rq1\<lparr>hq_body := take n r0\<rparr>" "rest = drop n r0"
    by (auto simp: first_request_def split: option.splits sum.splits if_splits)
  from read_head_chunks [OF h hl, of "buf = []" later] obtain k r
    where rh: "read_head (hc_maxHeaderBytes cfg) buf (buf = []) (map Chunk chunks @ later)
        = Inr (h @ crlf, r, map Chunk (drop k chunks) @ later)"
      and r: "r @ concat (drop k chunks) = r0" by blast
  from n(3) r have "n \<le> length (r @ concat (drop k chunks))" by simp
  from read_body_chunks [OF this, of later] obtain k' b
    where rb: "read_body n r (map Chunk (drop k chunks) @ later) = Inr (b, map Chunk (drop k' (drop k chunks)) @ later)"
      and b: "b @ concat (drop k' (drop k chunks)) = r0" "n \<le> length b" using r by auto
  have "take n r0 = take n b" "drop n b @ concat (drop k' (drop k chunks)) = drop n r0"
    using b by (auto simp: b(1) [symmetric] simp del: b(1))
  with rh p n rb rq show ?thesis
    by (intro exI [of _ "k' + k"] exI [of _ "drop n b"])
      (auto simp: readRequest_def Let_def continue_wanted_def header_def)
qed

text \<open>
  C99. A complete request within the limits is read as the same request with the same bytes left for
  the next one, however the network cuts the bytes into packets, and nothing but a 100-continue is sent
  meanwhile.
\<close>

theorem reading_independent_of_packets:
  assumes "first_request cfg remote (concat chunks) = Some (rq, rest)"
  shows "\<exists>k b sent. readRequest cfg (new_request remote) [] (map Chunk chunks @ later)
      = (Inr (rq, b, map Chunk (drop k chunks) @ later), sent)
    \<and> b @ concat (drop k chunks) = rest \<and> set sent \<subseteq> {continue_line}"
  using readRequest_chunks [of cfg remote "[]" chunks] assms by fastforce

definition small_config :: HttpServerConfig where
  "small_config = \<lparr>hc_maxHeaderBytes = 100, hc_maxBodyBytes = 10, hc_enableCors = True\<rparr>"

definition sample_bytes :: string where
  "sample_bytes = ''POST /t HTTP/1.1'' @ crlf @ ''Content-Length: 2'' @ crlf @ crlf @ ''{}GET''"

theorem reading_independent_of_packets_witness:
  "\<exists>rq k b sent. readRequest small_config (new_request []) [] (map Chunk [take 9 sample_bytes, drop 9 sample_bytes] @ [Silence])
      = (Inr (rq, b, map Chunk (drop k [take 9 sample_bytes, drop 9 sample_bytes]) @ [Silence]), sent)
    \<and> hq_body rq = ''{}'' \<and> b @ concat (drop k [take 9 sample_bytes, drop 9 sample_bytes]) = ''GET''"
proof -
  have "map_option (\<lambda>(rq, rest). (hq_body rq, rest)) (first_request small_config [] sample_bytes) = Some (''{}'', ''GET'')"
    by code_simp
  then obtain rq where f: "first_request small_config [] (concat [take 9 sample_bytes, drop 9 sample_bytes]) = Some (rq, ''GET'')"
      and b: "hq_body rq = ''{}''" by auto
  from reading_independent_of_packets [OF f, of "[Silence]"] b show ?thesis by blast
qed

section \<open>Answers in order\<close>

fun take_requests :: "HttpServerConfig \<Rightarrow> string \<Rightarrow> nat \<Rightarrow> string \<Rightarrow> (HttpRequest list \<times> string) option" where
  "take_requests cfg remote 0 bytes = Some ([], bytes)"
| "take_requests cfg remote (Suc n) bytes =
     (case first_request cfg remote bytes of
        None \<Rightarrow> None
      | Some (rq, rest) \<Rightarrow> map_option (\<lambda>(rqs, r). (rq # rqs, r)) (take_requests cfg remote n rest))"

text \<open>The state after answering the requests one after the other, if none of them ends the connection.\<close>

fun answer_all :: "'w net_env \<Rightarrow> 'w server \<Rightarrow> HttpRequest list \<Rightarrow> 'w \<Rightarrow> 'w option" where
  "answer_all env sv [] w = Some w"
| "answer_all env sv (rq # rqs) w =
     (case answer env sv rq w of (None, w1) \<Rightarrow> answer_all env sv rqs w1 | (Some c, w1) \<Rightarrow> None)"

lemma handleConnection_requests:
  assumes "take_requests (sv_config sv) remote n (buf @ concat chunks) = Some (rqs, rest)"
    and "answer_all env sv rqs w = Some w'" and "\<forall>x. \<not> ne_stopping env x"
    and "\<forall>rq \<in> set rqs. toLower (header rq ''expect'' []) \<noteq> ''100-continue''"
  shows "\<exists>k b. handleConnection env sv remote buf (map Chunk chunks @ later) count w
      = handleConnection env sv remote b (map Chunk (drop k chunks) @ later) (count + length rqs) w'
    \<and> b @ concat (drop k chunks) = rest"
  using assms(1,2,4)
proof (induction n arbitrary: buf chunks rqs count w)
  case 0
  then show ?case by (intro exI [of _ 0] exI [of _ buf]) simp
next
  case (Suc n)
  from Suc.prems(1) obtain rq rest1 rqs1 where f: "first_request (sv_config sv) remote (buf @ concat chunks) = Some (rq, rest1)"
      and t: "take_requests (sv_config sv) remote n rest1 = Some (rqs1, rest)" and rqs: "rqs = rq # rqs1"
    by (auto split: option.splits)
  from readRequest_chunks [OF f, of later] Suc.prems(3) rqs obtain k b
    where r: "readRequest (sv_config sv) (new_request remote) buf (map Chunk chunks @ later)
        = (Inr (rq, b, map Chunk (drop k chunks) @ later), [])"
      and b: "b @ concat (drop k chunks) = rest1" by fastforce
  from Suc.prems(2) rqs obtain w1 where a: "answer env sv rq w = (None, w1)" "answer_all env sv rqs1 w1 = Some w'"
    by (auto split: prod.splits option.splits)
  from Suc.IH [of b "drop k chunks" rqs1 w1 "count + 1"] t b a(2) Suc.prems(3) rqs obtain k' b'
    where "handleConnection env sv remote b (map Chunk (drop k chunks) @ later) (count + 1) w1
        = handleConnection env sv remote b' (map Chunk (drop k' (drop k chunks)) @ later) (count + 1 + length rqs1) w'"
      "b' @ concat (drop k' (drop k chunks)) = rest" by auto
  then show ?case using r a(1) assms(3) rqs
    by (intro exI [of _ "k' + k"] exI [of _ b'])
      (simp add: handleConnection.simps [of env sv remote buf] send_each_def)
qed

text \<open>
  C99. Requests that arrive on one connection, pipelined and cut into packets in any way, are answered
  in their order, each as if it had arrived alone, and the connection goes on with the bytes after them.
\<close>

theorem pipelined_requests_in_order:
  assumes "take_requests (sv_config sv) remote n (concat chunks) = Some (rqs, rest)"
    and "answer_all env sv rqs w = Some w'" and "\<forall>x. \<not> ne_stopping env x"
    and "\<forall>rq \<in> set rqs. toLower (header rq ''expect'' []) \<noteq> ''100-continue''"
  shows "\<exists>k b. handleConnection env sv remote [] (map Chunk chunks @ later) count w
      = handleConnection env sv remote b (map Chunk (drop k chunks) @ later) (count + length rqs) w'
    \<and> b @ concat (drop k chunks) = rest"
  using handleConnection_requests [of sv remote n "[]" chunks] assms by simp

text \<open>A server whose only handler counts its calls, and a network that takes everything.\<close>

definition counting_server :: "nat server" where
  "counting_server = addRoute ''POST'' ''/t'' (\<lambda>rq w. (Inr (text_response 200 (hq_body rq) ''t''), w + 1)) (new_server small_config)"

definition quiet_env :: "nat net_env" where
  "quiet_env = \<lparr>ne_stopping = (\<lambda>w. False), ne_send = (\<lambda>x w. (True, w)), ne_clock = (\<lambda>w. 0),
     ne_files = \<lparr>fl_isDirectory = (\<lambda>p. False), fl_isFile = (\<lambda>p. False), fl_read = (\<lambda>p. [])\<rparr>\<rparr>"

definition two_requests :: string where
  "two_requests = ''POST /t HTTP/1.1'' @ crlf @ ''Content-Length: 2'' @ crlf @ crlf @ ''{}''
     @ ''POST /t HTTP/1.1'' @ crlf @ crlf"

lemma two_requests_answered:
  "map_option (\<lambda>(rqs, rest). (length rqs, rest, list_all (\<lambda>rq. toLower (header rq ''expect'' []) \<noteq> ''100-continue'') rqs,
       answer_all quiet_env counting_server rqs 0))
     (take_requests small_config [] 2 two_requests) = Some (2, [], True, Some 2)"
  by code_simp

theorem pipelined_requests_in_order_witness:
  "\<exists>k b. handleConnection quiet_env counting_server [] [] (map Chunk [take 9 two_requests, drop 9 two_requests] @ [Closed]) 0 0
      = handleConnection quiet_env counting_server [] b (map Chunk (drop k [take 9 two_requests, drop 9 two_requests]) @ [Closed]) 2 2
    \<and> b @ concat (drop k [take 9 two_requests, drop 9 two_requests]) = []"
proof -
  have cfg: "sv_config counting_server = small_config"
    by (simp add: counting_server_def addRoute_def new_server_def)
  from two_requests_answered obtain rqs
    where t: "take_requests (sv_config counting_server) [] 2 (concat [take 9 two_requests, drop 9 two_requests]) = Some (rqs, [])"
      and a: "answer_all quiet_env counting_server rqs 0 = Some 2" "length rqs = 2"
        "\<forall>rq \<in> set rqs. toLower (header rq ''expect'' []) \<noteq> ''100-continue''"
    by (auto simp: cfg list_all_iff)
  have "\<forall>x. \<not> ne_stopping quiet_env x" by (simp add: quiet_env_def)
  from pipelined_requests_in_order [OF t a(1) this a(3), of "[Closed]" 0] show ?thesis
    unfolding a(2) add_0_left .
qed

section \<open>The route chosen\<close>

definition best_route :: "string \<Rightarrow> string list \<Rightarrow> 'h route list \<Rightarrow> 'h \<Rightarrow> (string, string) omap \<Rightarrow> nat \<Rightarrow> bool" where
  "best_route m segs routes h p s =
     (\<exists>before r after. routes = before @ r # after \<and> rt_handler r = h \<and> rt_method r = m \<and> route_score r segs = Some (p, s)
       \<and> (\<forall>r' \<in> set before. \<forall>p' s'. rt_method r' = m \<and> route_score r' segs = Some (p', s') \<longrightarrow> s' < s)
       \<and> (\<forall>r' \<in> set after. \<forall>p' s'. rt_method r' = m \<and> route_score r' segs = Some (p', s') \<longrightarrow> s' \<le> s))"

lemma best_route_later:
  assumes "best_route m segs rs h p s" and "\<And>p' s'. rt_method r = m \<Longrightarrow> route_score r segs = Some (p', s') \<Longrightarrow> s' \<le> s"
  shows "best_route m segs (rs @ [r]) h p s"
proof -
  from assms(1) obtain before q after where "rs = before @ q # after" "rt_handler q = h" "rt_method q = m" "route_score q segs = Some (p, s)"
      "\<forall>r' \<in> set before. \<forall>p' s'. rt_method r' = m \<and> route_score r' segs = Some (p', s') \<longrightarrow> s' < s"
      "\<forall>r' \<in> set after. \<forall>p' s'. rt_method r' = m \<and> route_score r' segs = Some (p', s') \<longrightarrow> s' \<le> s"
    by (auto simp: best_route_def)
  with assms(2) show ?thesis
    unfolding best_route_def by (intro exI [of _ before] exI [of _ q] exI [of _ "after @ [r]"]) auto
qed

lemma best_route_all:
  "best_route m segs rs h p s \<Longrightarrow> r' \<in> set rs \<Longrightarrow> rt_method r' = m \<Longrightarrow> route_score r' segs = Some (p', s') \<Longrightarrow> s' \<le> s"
  by (fastforce simp: best_route_def)

lemma best_route_new:
  assumes "rt_method r = m" and "route_score r segs = Some (p, s)"
    and "\<And>r' p' s'. r' \<in> set rs \<Longrightarrow> rt_method r' = m \<Longrightarrow> route_score r' segs = Some (p', s') \<Longrightarrow> s' < s"
  shows "best_route m segs (rs @ [r]) (rt_handler r) p s"
  unfolding best_route_def using assms by (intro exI [of _ rs] exI [of _ r] exI [of _ "[]"]) auto

lemma consider_routes:
  "case foldl (consider_route m segs) (None, False) rs of
     (Some (h, p, s), mismatch) \<Rightarrow> best_route m segs rs h p s
   | (None, mismatch) \<Rightarrow> (\<forall>r \<in> set rs. rt_method r = m \<longrightarrow> route_score r segs = None)
       \<and> (mismatch \<longleftrightarrow> (\<exists>r \<in> set rs. route_score r segs \<noteq> None))"
proof (induction rs rule: rev_induct)
  case (snoc r rs)
  obtain best mm where acc: "foldl (consider_route m segs) (None, False) rs = (best, mm)"
    by (cases "foldl (consider_route m segs) (None, False) rs")
  have step: "foldl (consider_route m segs) (None, False) (rs @ [r]) = consider_route m segs (best, mm) r"
    by (simp add: acc)
  have old: "case best of None \<Rightarrow> (\<forall>r \<in> set rs. rt_method r = m \<longrightarrow> route_score r segs = None)
       \<and> (mm \<longleftrightarrow> (\<exists>r \<in> set rs. route_score r segs \<noteq> None)) | Some (h, p, s) \<Rightarrow> best_route m segs rs h p s"
    using snoc by (cases best) (auto simp: acc)
  show ?case
  proof (cases "route_score r segs")
    case None
    with old show ?thesis unfolding step
      by (cases best) (auto simp: consider_route_def intro: best_route_later)
  next
    case (Some ps)
    then obtain p s where ps: "route_score r segs = Some (p, s)" by (cases ps) simp
    show ?thesis
    proof (cases "rt_method r = m")
      case False
      with ps old show ?thesis unfolding step
        by (cases best) (auto simp: consider_route_def intro: best_route_later)
    next
      case m: True
      show ?thesis
      proof (cases best)
        case None
        with old have "best_route m segs (rs @ [r]) (rt_handler r) p s"
          using ps m by (intro best_route_new) auto
        with None ps m show ?thesis unfolding step by (simp add: consider_route_def)
      next
        case (Some b)
        then obtain h q t where b: "best = Some (h, q, t)" by (cases b) auto
        with old have br: "best_route m segs rs h q t" by simp
        show ?thesis
        proof (cases "s > t")
          case True
          have "best_route m segs (rs @ [r]) (rt_handler r) p s"
            using best_route_all [OF br] True ps m by (intro best_route_new) (auto intro: le_less_trans)
          with True ps m b show ?thesis unfolding step by (simp add: consider_route_def)
        next
          case False
          have "best_route m segs (rs @ [r]) h q t"
            using False ps by (intro best_route_later [OF br]) auto
          with False ps m b show ?thesis unfolding step by (simp add: consider_route_def)
        qed
      qed
    qed
  qed
qed simp

text \<open>
  C99. A request goes to the first of the routes of its method with the highest score (literal segments
  count most), with the parameters that route binds. Without such a route the answer is that the method is
  not allowed exactly when some route matches the path.
\<close>

theorem matchRoute_best:
  "case matchRoute routes rq of
     (Some (h, p), mismatch) \<Rightarrow> \<not> mismatch \<and> (\<exists>s. best_route (hq_method rq) (splitPath (hq_path rq)) routes h p s)
   | (None, mismatch) \<Rightarrow>
       (\<forall>r \<in> set routes. rt_method r = hq_method rq \<longrightarrow> route_score r (splitPath (hq_path rq)) = None)
       \<and> (mismatch \<longleftrightarrow> (\<exists>r \<in> set routes. route_score r (splitPath (hq_path rq)) \<noteq> None))"
  using consider_routes [where m = "hq_method rq" and segs = "splitPath (hq_path rq)" and rs = routes]
  by (auto simp: matchRoute_def split: prod.splits option.splits)

definition sample_routes :: "nat route list" where
  "sample_routes = [make_route ''GET'' ''/t/{id}'' 10, make_route ''GET'' ''/t/new'' 11, make_route ''GET'' ''/t/*'' 12]"

theorem matchRoute_best_witness:
  "\<exists>s. best_route ''GET'' [''t'', ''new''] sample_routes 11 [] s"
proof -
  let ?rq = "(new_request [])\<lparr>hq_method := ''GET'', hq_path := ''/t/new''\<rparr>"
  have m: "matchRoute sample_routes ?rq = (Some (11, []), False)" "splitPath ''/t/new'' = [''t'', ''new'']"
    by code_simp+
  have sel: "hq_method ?rq = ''GET''" "hq_path ?rq = ''/t/new''" by simp_all
  from matchRoute_best [of sample_routes ?rq] show ?thesis unfolding m sel by simp
qed

end
