(* ===== verification/HttpExchange.thy ===== *)
theory HttpExchange
  imports HttpClient HttpFacts
begin

text \<open>
  Client and server speak the same protocol: the requests the client writes are read by the server as
  they were meant, and the responses the server writes are read by the client, in whatever packets they arrive.
\<close>

section \<open>Lines\<close>

definition clean :: "string \<Rightarrow> bool" where
  "clean s = (CHR 0x0D \<notin> set s \<and> CHR 0x0A \<notin> set s)"

lemma clean_simps [simp]:
  "clean []" "clean (c # s) \<longleftrightarrow> c \<noteq> CHR 0x0D \<and> c \<noteq> CHR 0x0A \<and> clean s" "clean (s @ t) \<longleftrightarrow> clean s \<and> clean t"
  by (auto simp: clean_def)

definition block :: "string list \<Rightarrow> string" where
  "block ls = concat (map (\<lambda>l. l @ crlf) ls)"

lemma block_simps [simp]: "block [] = []" "block (l # ls) = l @ crlf @ block ls" "block (ls @ ms) = block ls @ block ms"
  by (simp_all add: block_def)

lemma break_at_skip:
  "c \<notin> set l \<Longrightarrow> break_at (c # d) (l @ s) = map_option (\<lambda>(a, b). (l @ a, b)) (break_at (c # d) s)"
proof (induction l)
  case (Cons x l)
  then show ?case by (cases "break_at (c # d) s") auto
qed (cases "break_at (c # d) s", auto)

lemma break_at_char: "c \<notin> set l \<Longrightarrow> break_at [c] (l @ c # s) = Some (l, s)"
  by (simp add: break_at_skip)

lemma break_at_crlf: "clean l \<Longrightarrow> break_at crlf (l @ crlf @ s) = Some (l, s)"
  by (simp add: crlf_def clean_def break_at_skip)

lemma break_at_crlf_none: "clean l \<Longrightarrow> break_at crlf l = None"
  using break_at_skip [of "CHR 0x0D" l "[CHR 0x0A]" "[]"] by (simp add: crlf_def clean_def)

lemma next_line_crlf: "clean l \<Longrightarrow> next_line (l @ crlf @ s) = Some (l @ [CHR 0x0D], s)"
  using break_at_char [of "CHR 0x0A" "l @ [CHR 0x0D]" s]
  by (auto simp: next_line_def crlf_def clean_def)

lemma strip_cr_line [simp]: "strip_cr (l @ [CHR 0x0D]) = l"
  by (simp add: strip_cr_def)

lemma head_ends_at_blank_line:
  assumes "ls \<noteq> []" and "list_all (\<lambda>l. clean l \<and> l \<noteq> []) ls"
  shows "\<exists>h. break_at head_end (block ls @ crlf @ body) = Some (h, body) \<and> h @ crlf = block ls"
  using assms
proof (induction ls)
  case (Cons l ls)
  then have l: "clean l" "l \<noteq> []" and ls: "list_all (\<lambda>l. clean l \<and> l \<noteq> []) ls" by simp_all
  show ?case
  proof (cases ls)
    case Nil
    with l show ?thesis
      by (intro exI [of _ l]) (simp add: head_end_def crlf_def clean_def break_at_skip)
  next
    case (Cons l' ls')
    with ls Cons.IH obtain h where h: "break_at head_end (block ls @ crlf @ body) = Some (h, body)" "h @ crlf = block ls" by auto
    from Cons ls obtain c t where c: "l' = c # t" "c \<noteq> CHR 0x0D" by (cases l') auto
    have "break_at head_end (crlf @ block ls @ crlf @ body) = Some (crlf @ h, body)"
      using h(1) c Cons by (simp add: head_end_def crlf_def)
    then have "break_at head_end (block (l # ls) @ crlf @ body) = Some (l @ crlf @ h, body)"
      using l by (simp add: head_end_def crlf_def clean_def break_at_skip)
    with h(2) show ?thesis by (intro exI [of _ "l @ crlf @ h"]) simp
  qed
qed simp

section \<open>Header fields\<close>

definition field :: "string \<times> string \<Rightarrow> string" where
  "field kv = fst kv @ '': '' @ snd kv"

definition field_ok :: "string \<times> string \<Rightarrow> bool" where
  "field_ok kv = (clean (fst kv) \<and> clean (snd kv) \<and> CHR '':'' \<notin> set (fst kv) \<and> trim (fst kv) = fst kv \<and> trim (snd kv) = snd kv)"

lemma header_line_field: "header_line k v = field (k, v) @ crlf"
  by (simp add: header_line_def field_def)

lemma header_lines_block: "concat (map (\<lambda>(k, v). header_line k v) kvs) = block (map field kvs)"
  by (induction kvs) (auto simp: header_line_field block_def)

lemma field_lines: "concat (map (\<lambda>(k, v). field (k, v) @ crlf) kvs) = block (map field kvs)"
  by (induction kvs) (auto simp: block_def)

lemma trim_blank: "trim (CHR '' '' # s) = trim s"
  by (simp add: trim_def c_isspace_def)

lemma field_parts:
  "field_ok kv \<Longrightarrow> clean (field kv) \<and> field kv \<noteq> [] \<and> break_at '':'' (field kv) = Some (fst kv, CHR '' '' # snd kv)
    \<and> trim (fst kv) = fst kv \<and> trim (CHR '' '' # snd kv) = snd kv"
  using break_at_char [of "CHR '':''" "fst kv" "CHR '' '' # snd kv"]
  by (auto simp: field_def field_ok_def trim_blank)

lemma server_reads_fields:
  "list_all field_ok kvs \<Longrightarrow> header_lines (block (map field kvs)) rq =
     Inr (rq\<lparr>hq_headers := foldl (\<lambda>hs kv. add_header (toLower (fst kv)) (snd kv) hs) (hq_headers rq) kvs\<rparr>)"
proof (induction kvs arbitrary: rq)
  case Nil
  show ?case by (simp add: header_lines.simps next_line_def)
next
  case (Cons kv kvs)
  then have f: "field_ok kv" by simp
  with Cons show ?case
    using field_parts [OF f] by (simp add: header_lines.simps [of "field kv @ crlf @ _"] next_line_crlf)
qed

text \<open>What the client sees of a head: its lines without the last line end.\<close>

lemma client_reads_fields:
  "list_all field_ok kvs \<Longrightarrow> kvs \<noteq> [] \<Longrightarrow> s @ crlf = block (map field kvs) \<Longrightarrow>
    client_headers s hs = foldl (\<lambda>hs kv. omap_put (toLower (fst kv)) (snd kv) hs) hs kvs"
proof (induction kvs arbitrary: s hs)
  case (Cons kv kvs)
  then have f: "field_ok kv" by simp
  note p = field_parts [OF f]
  show ?case
  proof (cases kvs)
    case Nil
    with Cons.prems(3) have s: "s = field kv" by simp
    show ?thesis
      using p Nil by (simp add: s client_headers.simps [of "field kv"] client_headers.simps [of "[]"] break_at_crlf_none)
  next
    case (Cons kv' kvs')
    then obtain t where t: "block (map field kvs) = t @ crlf" "t \<noteq> []"
    proof -
      from Cons obtain ys z where z: "kvs = ys @ [z]" using rev_exhaust [of kvs] by blast
      have "field z \<noteq> []" by (simp add: field_def)
      with that [of "block (map field ys) @ field z"] show ?thesis by (simp add: z)
    qed
    with Cons.prems(3) have s: "s = field kv @ crlf @ t" by simp
    have "client_headers s hs = client_headers t (omap_put (toLower (fst kv)) (snd kv) hs)"
      using p by (simp add: s client_headers.simps [of "field kv @ crlf @ t"] break_at_crlf)
    also have "\<dots> = foldl (\<lambda>hs kv. omap_put (toLower (fst kv)) (snd kv) hs) (omap_put (toLower (fst kv)) (snd kv) hs) kvs"
      using Cons.IH [of t] Cons.prems(1) Cons t by simp
    finally show ?thesis by simp
  qed
qed simp

text \<open>With the names of the fields distinct, both sides look up the same values.\<close>

definition field_names :: "(string \<times> string) list \<Rightarrow> string list" where
  "field_names kvs = map (\<lambda>kv. toLower (fst kv)) kvs"

lemma client_lookup:
  "distinct (field_names kvs) \<Longrightarrow> map_of (foldl (\<lambda>hs kv. omap_put (toLower (fst kv)) (snd kv) hs) [] kvs)
     = map_of (map (\<lambda>kv. (toLower (fst kv), snd kv)) kvs)"
proof (induction kvs rule: rev_induct)
  case (snoc x xs)
  then have "toLower (fst x) \<notin> fst ` set (map (\<lambda>kv. (toLower (fst kv), snd kv)) xs)"
    by (simp add: field_names_def image_image)
  then have "map_of (map (\<lambda>kv. (toLower (fst kv), snd kv)) xs) (toLower (fst x)) = None"
    by (simp only: map_of_eq_None_iff not_False_eq_True)
  with snoc show ?case
    by (auto simp: field_names_def omap_get_put map_add_def fun_eq_iff split: option.splits)
qed simp

lemma server_lookup:
  "distinct (field_names kvs) \<Longrightarrow> foldl (\<lambda>hs kv. add_header (toLower (fst kv)) (snd kv) hs) [] kvs
     = foldl (\<lambda>hs kv. omap_put (toLower (fst kv)) (snd kv) hs) [] kvs"
proof (induction kvs rule: rev_induct)
  case (snoc x xs)
  then have d: "distinct (field_names xs)" "toLower (fst x) \<notin> fst ` set (map (\<lambda>kv. (toLower (fst kv), snd kv)) xs)"
    by (simp_all add: field_names_def image_image)
  then have "map_of (foldl (\<lambda>hs kv. omap_put (toLower (fst kv)) (snd kv) hs) [] xs) (toLower (fst x)) = None"
    by (simp only: client_lookup map_of_eq_None_iff not_False_eq_True)
  with snoc.IH [OF d(1)] show ?case by (simp add: add_header_def)
qed simp

lemma field_value:
  "distinct (field_names kvs) \<Longrightarrow> kv \<in> set kvs \<Longrightarrow> map_of (map (\<lambda>kv. (toLower (fst kv), snd kv)) kvs) (toLower (fst kv)) = Some (snd kv)"
  by (rule map_of_is_SomeI) (auto simp: field_names_def comp_def)

lemma no_field:
  "n \<notin> set (field_names kvs) \<Longrightarrow> map_of (map (\<lambda>kv. (toLower (fst kv), snd kv)) kvs) n = None"
  by (auto simp: field_names_def map_of_eq_None_iff image_iff)

section \<open>The request\<close>

definition word_ok :: "string \<Rightarrow> bool" where
  "word_ok w = (w \<noteq> [] \<and> list_all (\<lambda>c. \<not> c_isspace c) w)"

lemma next_word_first: "word_ok w \<Longrightarrow> next_word (w @ CHR '' '' # s) = Some (w, CHR '' '' # s)"
  by (cases w) (auto simp: next_word_def word_ok_def Let_def list_all_iff c_isspace_def takeWhile_append dropWhile_append)

lemma next_word_last: "word_ok w \<Longrightarrow> next_word w = Some (w, [])"
  by (cases w) (auto simp: next_word_def word_ok_def Let_def list_all_iff takeWhile_all)

lemma next_word_blank: "next_word (CHR '' '' # s) = next_word s"
  by (simp add: next_word_def c_isspace_def)

lemma word_clean: "word_ok w \<Longrightarrow> clean w"
  by (auto simp: word_ok_def clean_def list_all_iff c_isspace_def)

definition start_line :: "string \<Rightarrow> string \<Rightarrow> string" where
  "start_line meth path = meth @ '' '' @ path @ '' HTTP/1.1''"

lemma check_path_slash: "hq_path rq = CHR ''/'' # s \<Longrightarrow> check_path rq = Inr rq"
  by (simp add: check_path_def)

lemma urlDecode_slash: "urlDecode (CHR ''/'' # s) = CHR ''/'' # urlDecode s"
  by (cases s rule: urlDecode.cases) (auto split: list.splits)

lemma set_target_path: "\<exists>p qs. set_target (CHR ''/'' # t) rq = rq\<lparr>hq_rawTarget := CHR ''/'' # t, hq_path := CHR ''/'' # p, hq_queryParams := qs\<rparr>"
proof (cases "break_at ''?'' (CHR ''/'' # t)")
  case None
  then show ?thesis by (intro exI [of _ "urlDecode t"] exI [of _ "hq_queryParams rq"]) (simp add: set_target_def urlDecode_slash del: urlDecode.simps)
next
  case (Some ab)
  then obtain a b where ab: "break_at ''?'' (CHR ''/'' # t) = Some (a, b)" by (cases ab) simp
  then obtain a' where "a = CHR ''/'' # a'" by (auto split: option.splits)
  with ab show ?thesis
    by (intro exI [of _ "urlDecode a'"] exI [of _ "parseQueryString b"]) (simp add: set_target_def urlDecode_slash del: urlDecode.simps)
qed

lemma request_line_start:
  assumes "word_ok meth" and "word_ok (CHR ''/'' # t)"
  shows "\<exists>p qs. request_line (start_line meth (CHR ''/'' # t)) rq
    = Inr (rq\<lparr>hq_method := meth, hq_version := ''HTTP/1.1'', hq_rawTarget := CHR ''/'' # t, hq_path := CHR ''/'' # p, hq_queryParams := qs\<rparr>)"
proof -
  let ?rq = "rq\<lparr>hq_method := meth, hq_version := ''HTTP/1.1''\<rparr>"
  from set_target_path [of t ?rq] obtain p qs
    where st: "set_target (CHR ''/'' # t) ?rq = ?rq\<lparr>hq_rawTarget := CHR ''/'' # t, hq_path := CHR ''/'' # p, hq_queryParams := qs\<rparr>" by blast
  have "word_ok ''HTTP/1.1''" by (simp add: word_ok_def c_isspace_def)
  then have "request_line (start_line meth (CHR ''/'' # t)) rq = check_path (set_target (CHR ''/'' # t) ?rq)"
    using next_word_first [OF assms(1)] next_word_first [OF assms(2)] next_word_last
    by (simp add: request_line_def start_line_def next_word_blank Let_def)
  with check_path_slash [of "set_target (CHR ''/'' # t) ?rq" p] st show ?thesis by auto
qed

definition request_fields :: "string \<Rightarrow> ParsedUrl \<Rightarrow> (string, string) omap \<Rightarrow> string \<Rightarrow> (string \<times> string) list" where
  "request_fields meth u headers body =
     [(''Host'', pu_host u @ (if pu_port u = 80 then [] else '':'' @ to_string (pu_port u))),
      (''User-Agent'', ''TestHub''), (''Accept'', ''*/*''), (''Connection'', ''close'')] @ headers
     @ (if body \<noteq> [] \<or> meth = ''POST'' \<or> meth = ''PUT'' \<or> meth = ''PATCH'' then
          (if \<not> list_ex (\<lambda>(k, v). toLower k = ''content-type'') headers \<and> body \<noteq> []
           then [(''Content-Type'', ''application/octet-stream'')] else [])
          @ [(''Content-Length'', to_string (int (length body)))]
        else [])"

lemma lower_names [simp]:
  "toLower ''Host'' = ''host''" "toLower ''User-Agent'' = ''user-agent''" "toLower ''Accept'' = ''accept''"
  "toLower ''Connection'' = ''connection''" "toLower ''Content-Type'' = ''content-type''"
  "toLower ''Content-Length'' = ''content-length''" "toLower ''Date'' = ''date''" "toLower ''Server'' = ''server''"
  "map c_tolower ''content-length'' = ''content-length''" "map c_tolower ''transfer-encoding'' = ''transfer-encoding''"
  "toLower [] = []"
  by code_simp+

lemma request_field_names:
  "set (field_names (request_fields meth u headers body))
    \<subseteq> {''host'', ''user-agent'', ''accept'', ''connection'', ''content-type''} \<union> set (field_names headers)
      \<union> (if body \<noteq> [] \<or> meth = ''POST'' \<or> meth = ''PUT'' \<or> meth = ''PATCH'' then {''content-length''} else {})"
  by (auto simp: request_fields_def field_names_def)

lemma request_bytes_lines:
  "request_bytes meth u headers body
    = block (start_line meth (pu_path u) # map field (request_fields meth u headers body)) @ crlf @ body"
  by (simp add: request_bytes_def request_fields_def start_line_def header_line_field field_lines)

lemma clean_digits: "clean (dec_of_nat n)"
  using dec_of_nat_digits [of n] by (auto simp: clean_def c_isdigit_def)

lemma trim_digits: "trim (dec_of_nat n) = dec_of_nat n"
proof -
  have "\<not> c_isspace c" if "c \<in> set (dec_of_nat n)" for c
    using dec_of_nat_digits [of n] that by (meson digit_not_space)
  then show ?thesis by (intro trim_id) simp_all
qed

lemma length_field_ok: "field_ok (''Content-Length'', to_string (int n))"
  by (simp add: field_ok_def to_string_def clean_digits trim_digits) (simp add: trim_def c_isspace_def)

lemma fixed_fields_ok:
  "field_ok (''User-Agent'', ''TestHub'')" "field_ok (''Accept'', ''*/*'')" "field_ok (''Connection'', ''close'')"
  "field_ok (''Content-Type'', ''application/octet-stream'')" "field_ok (''Connection'', ''keep-alive'')" "field_ok (''Server'', ''TestHub'')"
  by (simp_all add: field_ok_def trim_def c_isspace_def)

definition request_readable :: "string \<Rightarrow> ParsedUrl \<Rightarrow> (string, string) omap \<Rightarrow> string \<Rightarrow> bool" where
  "request_readable meth u headers body =
     (word_ok meth \<and> word_ok (pu_path u) \<and> hd (pu_path u) = CHR ''/''
      \<and> list_all field_ok (request_fields meth u headers body) \<and> distinct (field_names (request_fields meth u headers body))
      \<and> ''transfer-encoding'' \<notin> set (field_names headers) \<and> ''content-length'' \<notin> set (field_names headers)
      \<and> length body < 2 ^ 63)"

lemma header_get: "header rq n [] = (case map_of (hq_headers rq) (map c_tolower n) of None \<Rightarrow> [] | Some v \<Rightarrow> v)"
  by (simp add: header_def get_or_def)

lemma read_request_head:
  assumes ok: "request_readable meth u headers body"
  shows "\<exists>p qs. parseRequestHead (block (start_line meth (pu_path u) # map field (request_fields meth u headers body))) rq
    = Inr (rq\<lparr>hq_method := meth, hq_version := ''HTTP/1.1'', hq_rawTarget := pu_path u, hq_path := CHR ''/'' # p, hq_queryParams := qs,
        hq_headers := foldl (\<lambda>hs kv. add_header (toLower (fst kv)) (snd kv) hs) (hq_headers rq) (request_fields meth u headers body)\<rparr>)"
proof -
  let ?fs = "request_fields meth u headers body"
  from ok have w: "word_ok meth" "word_ok (pu_path u)" and fs: "list_all field_ok ?fs"
    by (simp_all add: request_readable_def)
  from ok obtain t where t: "pu_path u = CHR ''/'' # t"
    by (cases "pu_path u") (auto simp: request_readable_def word_ok_def)
  from w have "clean (start_line meth (pu_path u))" by (simp add: start_line_def word_clean)
  then have n: "next_line (block (start_line meth (pu_path u) # map field ?fs)) = Some (start_line meth (pu_path u) @ [CHR 0x0D], block (map field ?fs))"
    by (simp add: next_line_crlf)
  from w(2) t request_line_start [OF w(1), of t rq] obtain p qs where
    "request_line (start_line meth (pu_path u)) rq
      = Inr (rq\<lparr>hq_method := meth, hq_version := ''HTTP/1.1'', hq_rawTarget := pu_path u, hq_path := CHR ''/'' # p, hq_queryParams := qs\<rparr>)"
    by auto
  with n show ?thesis
    by (intro exI [of _ p] exI [of _ qs]) (simp add: parseRequestHead_def server_reads_fields [OF fs])
qed

lemma request_length:
  assumes ok: "request_readable meth u headers body"
    and hs: "map_of (hq_headers rq) = map_of (map (\<lambda>kv. (toLower (fst kv), snd kv)) (request_fields meth u headers body))"
  shows "content_length rq = Inr (length body)"
proof -
  let ?fs = "request_fields meth u headers body"
  have te: "map_of (hq_headers rq) ''transfer-encoding'' = None"
    using ok request_field_names [of meth u headers body] unfolding hs
    by (intro no_field) (auto simp: request_readable_def split: if_splits)
  show ?thesis
  proof (cases "body \<noteq> [] \<or> meth = ''POST'' \<or> meth = ''PUT'' \<or> meth = ''PATCH''")
    case True
    then have "(''Content-Length'', to_string (int (length body))) \<in> set ?fs" by (auto simp: request_fields_def)
    with field_value [of ?fs] ok have "map_of (hq_headers rq) ''content-length'' = Some (to_string (int (length body)))"
      unfolding hs by (force simp: request_readable_def)
    moreover have "stoll (to_string (int (length body))) = Some (int (length body))"
      using ok by (simp add: stoll_def read_signed_to_string request_readable_def)
    moreover have "to_string (int (length body)) \<noteq> []" by (simp add: to_string_def)
    ultimately show ?thesis by (simp add: content_length_def header_get del: list.map)
  next
    case False
    then have "map_of (hq_headers rq) ''content-length'' = None"
      using ok request_field_names [of meth u headers body] unfolding hs
      by (intro no_field) (auto simp: request_readable_def split: if_splits)
    with te False show ?thesis by (simp add: content_length_def header_get contains_iff del: list.map)
  qed
qed

lemma first_request_of_client:
  assumes ok: "request_readable meth u headers body"
    and size: "length (request_bytes meth u headers body) \<le> hc_maxHeaderBytes cfg + length body"
    and body: "length body \<le> hc_maxBodyBytes cfg"
  shows "\<exists>rq. first_request cfg remote (request_bytes meth u headers body @ after) = Some (rq, after)
    \<and> hq_method rq = meth \<and> hq_rawTarget rq = pu_path u \<and> hq_body rq = body
    \<and> map_of (hq_headers rq) = map_of (map (\<lambda>kv. (toLower (fst kv), snd kv)) (request_fields meth u headers body))"
proof -
  let ?fs = "request_fields meth u headers body"
  let ?ls = "start_line meth (pu_path u) # map field ?fs"
  have "list_all (\<lambda>l. clean l \<and> l \<noteq> []) ?ls"
    using ok by (auto simp: request_readable_def list_all_iff start_line_def word_clean field_parts)
  from head_ends_at_blank_line [OF _ this, of "body @ after"] obtain h
    where h: "break_at head_end (block ?ls @ crlf @ body @ after) = Some (h, body @ after)" "h @ crlf = block ?ls" by auto
  from size have "length (h @ crlf) + length crlf \<le> hc_maxHeaderBytes cfg"
    unfolding h(2) by (simp add: request_bytes_lines)
  then have hl: "length h + 3 \<le> hc_maxHeaderBytes cfg" by (simp add: crlf_def)
  from read_request_head [OF ok, of "new_request remote"] obtain p qs
    where p: "parseRequestHead (block ?ls) (new_request remote)
      = Inr (new_request remote\<lparr>hq_method := meth, hq_version := ''HTTP/1.1'', hq_rawTarget := pu_path u, hq_path := CHR ''/'' # p, hq_queryParams := qs,
        hq_headers := foldl (\<lambda>hs kv. add_header (toLower (fst kv)) (snd kv) hs) [] ?fs\<rparr>)" (is "_ = Inr ?rq")
    by (auto simp: new_request_def)
  have m: "map_of (hq_headers ?rq) = map_of (map (\<lambda>kv. (toLower (fst kv), snd kv)) ?fs)"
    using ok by (simp add: request_readable_def server_lookup client_lookup)
  from request_length [OF ok m] have n: "content_length ?rq = Inr (length body)" .
  have "first_request cfg remote (request_bytes meth u headers body @ after) = Some (?rq\<lparr>hq_body := body\<rparr>, after)"
    using h hl p n body by (simp add: first_request_def request_bytes_lines)
  with m show ?thesis by (intro exI [of _ "?rq\<lparr>hq_body := body\<rparr>"]) simp
qed

text \<open>
  C99. What the client sends is what the server reads: for a request whose method and path are words
  and whose header fields are well formed and distinct, the server, receiving the bytes in any packets, reads the
  same method, target, header fields and body, and is left with exactly the bytes after it.
\<close>

theorem client_request_understood:
  assumes "request_readable meth u headers body"
    and "length (request_bytes meth u headers body) \<le> hc_maxHeaderBytes cfg + length body"
    and "length body \<le> hc_maxBodyBytes cfg"
    and "concat chunks = request_bytes meth u headers body @ after"
  shows "\<exists>rq k b sent. readRequest cfg (new_request remote) [] (map Chunk chunks @ later) = (Inr (rq, b, map Chunk (drop k chunks) @ later), sent)
    \<and> b @ concat (drop k chunks) = after \<and> hq_method rq = meth \<and> hq_rawTarget rq = pu_path u \<and> hq_body rq = body
    \<and> (\<forall>kv \<in> set (request_fields meth u headers body). header rq (toLower (fst kv)) [] = snd kv)"
proof -
  from first_request_of_client [OF assms(1-3), of remote after] obtain rq
    where f: "first_request cfg remote ([] @ concat chunks) = Some (rq, after)"
      and rq: "hq_method rq = meth" "hq_rawTarget rq = pu_path u" "hq_body rq = body"
      and m: "map_of (hq_headers rq) = map_of (map (\<lambda>kv. (toLower (fst kv), snd kv)) (request_fields meth u headers body))"
    by (auto simp: assms(4))
  have "header rq (toLower (fst kv)) [] = snd kv" if "kv \<in> set (request_fields meth u headers body)" for kv
    using field_value [OF _ that] assms(1) by (simp add: header_get m request_readable_def flip: toLower_def)
  with readRequest_chunks [OF f, of later] rq show ?thesis by blast
qed

definition sample_url :: ParsedUrl where
  "sample_url = \<lparr>pu_scheme = ''http'', pu_host = ''h'', pu_port = 80, pu_path = ''/t''\<rparr>"

definition wide_config :: HttpServerConfig where
  "wide_config = small_config\<lparr>hc_maxHeaderBytes := 200\<rparr>"

lemma sample_readable: "request_readable ''POST'' sample_url [(''X-A'', ''b'')] ''{}''"
proof -
  have "field_ok (''Host'', ''h'')" "field_ok (''X-A'', ''b'')" "toLower ''X-A'' = ''x-a''" by code_simp+
  then show ?thesis
    using length_field_ok [of 2]
    by (simp add: request_readable_def request_fields_def sample_url_def word_ok_def field_names_def c_isspace_def fixed_fields_ok)
qed

theorem client_request_understood_witness:
  "\<exists>rq k b sent. readRequest wide_config (new_request []) [] (map Chunk [request_bytes ''POST'' sample_url [(''X-A'', ''b'')] ''{}''] @ [Closed])
      = (Inr (rq, b, map Chunk (drop k [request_bytes ''POST'' sample_url [(''X-A'', ''b'')] ''{}'']) @ [Closed]), sent)
    \<and> hq_body rq = ''{}'' \<and> hq_rawTarget rq = ''/t''"
proof -
  have "length (request_bytes ''POST'' sample_url [(''X-A'', ''b'')] ''{}'') \<le> hc_maxHeaderBytes wide_config + length ''{}''"
    by code_simp
  moreover have "length ''{}'' \<le> hc_maxBodyBytes wide_config" by code_simp
  ultimately show ?thesis
    using client_request_understood [OF sample_readable, of wide_config "[request_bytes ''POST'' sample_url [(''X-A'', ''b'')] ''{}'']" "[]" "[]" "[Closed]"]
    by (simp only: concat.simps append_Nil2 simp_thms) (simp add: sample_url_def, blast)
qed

end
