(* ===== verification/HttpReply.thy ===== *)
theory HttpReply
  imports HttpExchange
begin

text \<open>
  The other direction: the responses the server serialises are what the client reads, in any packets.
\<close>

section \<open>The date\<close>

lemma clean_fmt0: "clean (fmt0 w i)"
  by (auto simp: fmt0_def pad_zeros_def clean_digits) (auto simp: clean_def)

lemma clean_to_string: "clean (to_string i)"
  by (simp add: to_string_def clean_digits)

lemma weekday_facts:
  assumes "0 \<le> w" and "w < 7"
  shows "clean (weekday_name w) \<and> weekday_name w \<noteq> [] \<and> \<not> c_isspace (hd (weekday_name w))"
proof -
  from assms have "w \<in> {0, 1, 2, 3, 4, 5, 6}" by auto
  then show ?thesis by (auto simp: weekday_name_def c_isspace_def)
qed

lemma clean_month:
  assumes "1 \<le> m" and "m \<le> 12"
  shows "clean (month_name m)"
proof -
  from assms have "m = 1 \<or> m = 2 \<or> m = 3 \<or> m = 4 \<or> m = 5 \<or> m = 6 \<or> m = 7 \<or> m = 8 \<or> m = 9 \<or> m = 10 \<or> m = 11 \<or> m = 12" by presburger
  then show ?thesis by (auto simp: month_name_def)
qed

lemma date_field_ok: "field_ok (''Date'', httpDate now)"
proof -
  let ?u = "gmtime (to_time_t now)"
  have w: "0 \<le> tm_wday ?u" "tm_wday ?u < 7" by (auto simp: gmtime_def Let_def split: prod.splits)
  have m: "1 \<le> tm_mon ?u" "tm_mon ?u \<le> 12" using valid_tm_gmtime [of "to_time_t now"] by (auto simp: valid_tm_def valid_date_def)
  note parts = weekday_facts [OF w] clean_month [OF m]
  then have "clean (httpDate now)" by (simp add: httpDate_def Let_def clean_fmt0 clean_to_string)
  moreover have "trim (httpDate now) = httpDate now"
    using parts by (intro trim_id) (simp_all add: httpDate_def Let_def c_isspace_def)
  moreover have "trim ''Date'' = ''Date''" by code_simp
  ultimately show ?thesis by (simp add: field_ok_def)
qed

section \<open>The fields of a response\<close>

definition reply_fields :: "TimePoint \<Rightarrow> HttpResponse \<Rightarrow> bool \<Rightarrow> (string \<times> string) list" where
  "reply_fields now r keep =
     hp_headers r
     @ (if has_header ''date'' r then [] else [(''Date'', httpDate now)])
     @ (if has_header ''server'' r then [] else [(''Server'', ''TestHub'')])
     @ (if has_header ''content-length'' r \<or> bodyless r then []
        else [(''Content-Length'', to_string (int (length (hp_body r))))])
     @ (if has_header ''connection'' r then [] else [(''Connection'', if keep then ''keep-alive'' else ''close'')])"

definition status_line :: "HttpResponse \<Rightarrow> string" where
  "status_line r = ''HTTP/1.1 '' @ to_string (hp_statusCode r) @ '' '' @ reasonPhrase (hp_statusCode r)"

lemma serialize_lines:
  "serialize now r keep = block (status_line r # map field (reply_fields now r keep)) @ crlf @ (if bodyless r then [] else hp_body r)"
  by (simp add: serialize_def reply_fields_def status_line_def header_line_field field_lines)

lemma has_header_name: "has_header n r \<longleftrightarrow> n \<in> set (field_names (hp_headers r))"
  by (force simp: has_header_def field_names_def list_ex_iff)

definition reply_readable :: "HttpResponse \<Rightarrow> bool" where
  "reply_readable r =
     (100 \<le> hp_statusCode r \<and> hp_statusCode r \<le> 999 \<and> list_all field_ok (hp_headers r) \<and> distinct (field_names (hp_headers r))
      \<and> \<not> has_header ''content-length'' r \<and> \<not> has_header ''transfer-encoding'' r \<and> length (hp_body r) < 2 ^ 64)"

lemma reply_fields_facts:
  assumes "reply_readable r"
  shows "list_all field_ok (reply_fields now r keep)" "distinct (field_names (reply_fields now r keep))"
    "''transfer-encoding'' \<notin> set (field_names (reply_fields now r keep))" "reply_fields now r keep \<noteq> []"
    "\<not> bodyless r \<Longrightarrow> (''Content-Length'', to_string (int (length (hp_body r)))) \<in> set (reply_fields now r keep)"
proof -
  have names: "field_names (xs @ ys) = field_names xs @ field_names ys" "field_names [] = []"
    "field_names ((k, v) # xs) = toLower k # field_names xs" for xs ys k v
    by (simp_all add: field_names_def)
  show "list_all field_ok (reply_fields now r keep)"
    using assms by (auto simp: reply_fields_def reply_readable_def date_field_ok fixed_fields_ok length_field_ok)
  show "distinct (field_names (reply_fields now r keep))"
    using assms by (auto simp: reply_fields_def reply_readable_def names has_header_name)
  show "''transfer-encoding'' \<notin> set (field_names (reply_fields now r keep))"
    using assms by (auto simp: reply_fields_def reply_readable_def names has_header_name)
  show "reply_fields now r keep \<noteq> []"
    by (auto simp: reply_fields_def has_header_def)
  show "\<not> bodyless r \<Longrightarrow> (''Content-Length'', to_string (int (length (hp_body r)))) \<in> set (reply_fields now r keep)"
    using assms by (auto simp: reply_fields_def reply_readable_def)
qed

lemma clean_reason: "clean (reasonPhrase code)"
  by (simp add: reasonPhrase_def)

lemma three_digits:
  assumes "100 \<le> i" and "i \<le> 999"
  shows "length (to_string i) = 3"
proof -
  let ?n = "nat i"
  from assms have n: "100 \<le> ?n" "?n \<le> 999" by linarith+
  then have "?n div 10 div 10 < 10" "\<not> ?n < 10" "\<not> ?n div 10 < 10" by linarith+
  then have "length (dec_of_nat ?n) = 3"
    unfolding dec_of_nat.simps [of ?n] dec_of_nat.simps [of "?n div 10"] dec_of_nat.simps [of "?n div 10 div 10"] by simp
  with assms show ?thesis by (simp add: to_string_def)
qed

section \<open>Reading the response\<close>

lemma readUntil_chunks:
  assumes "enough (buf @ concat chunks)"
  shows "\<exists>k b. readUntil enough buf (map Chunk chunks @ later) = Inr (b, map Chunk (drop k chunks) @ later)
    \<and> b @ concat (drop k chunks) = buf @ concat chunks \<and> enough b"
  using assms
proof (induction chunks arbitrary: buf)
  case Nil
  then show ?case by (intro exI [of _ 0] exI [of _ buf]) (simp add: readUntil.simps [of enough buf])
next
  case (Cons c cs)
  show ?case
  proof (cases "enough buf")
    case True
    then show ?thesis by (intro exI [of _ 0] exI [of _ buf]) (simp add: readUntil.simps [of enough buf])
  next
    case False
    from Cons.prems have "enough ((buf @ c) @ concat cs)" by simp
    from Cons.IH [OF this] obtain k b
      where "readUntil enough (buf @ c) (map Chunk cs @ later) = Inr (b, map Chunk (drop k cs) @ later)"
        "b @ concat (drop k cs) = (buf @ c) @ concat cs" "enough b" by blast
    with False show ?thesis
      by (intro exI [of _ "Suc k"] exI [of _ b]) (simp add: readUntil.simps [of enough buf])
  qed
qed

lemma readUntil_head:
  assumes "break_at head_end (concat chunks) = Some (h, rest)"
  shows "\<exists>k r buf. readUntil (\<lambda>b. break_at head_end b \<noteq> None) [] (map Chunk chunks @ later) = Inr (buf, map Chunk (drop k chunks) @ later)
    \<and> break_at head_end buf = Some (h, r) \<and> r @ concat (drop k chunks) = rest"
proof -
  from assms have "break_at head_end ([] @ concat chunks) \<noteq> None" by simp
  from readUntil_chunks [of "\<lambda>b. break_at head_end b \<noteq> None", OF this, of later] obtain k b
    where u: "readUntil (\<lambda>b. break_at head_end b \<noteq> None) [] (map Chunk chunks @ later) = Inr (b, map Chunk (drop k chunks) @ later)"
      and b: "b @ concat (drop k chunks) = concat chunks" "break_at head_end b \<noteq> None" by auto
  from b(2) obtain h' r where r: "break_at head_end b = Some (h', r)" by auto
  from break_at_append [OF r, of "concat (drop k chunks)"] assms have "h' = h" "r @ concat (drop k chunks) = rest"
    unfolding b(1) by simp_all
  with u r show ?thesis by blast
qed

lemma read_reply_body:
  assumes "map_of (cr_headers c) ''transfer-encoding'' = None"
    and "map_of (cr_headers c) ''content-length'' = Some (to_string (int (length body)))"
    and "length body < 2 ^ 64" and "r @ concat chunks = body @ after"
  shows "read_response_body r (map Chunk chunks @ later) c = c\<lparr>cr_ok := True, cr_body := body\<rparr>"
proof -
  have len: "strtoull10 (to_string (int (length body))) = length body"
    using assms(3) by (simp add: strtoull10_def read_signed_to_string)
  have "length body \<le> length (r @ concat chunks)" by (simp only: assms(4)) simp
  from readUntil_chunks [of "\<lambda>b. length body \<le> length b", OF this, of later] obtain k b
    where u: "readUntil (\<lambda>b. length body \<le> length b) r (map Chunk chunks @ later) = Inr (b, map Chunk (drop k chunks) @ later)"
      and b: "b @ concat (drop k chunks) = body @ after" "length body \<le> length b" by (auto simp: assms(4))
  from b have "take (length body) b = body"
    by (metis append_eq_append_conv_if append_eq_conv_conj take_append)
  with assms(1,2) u show ?thesis by (simp add: read_response_body_def len)
qed

lemma status_line_facts:
  assumes "reply_readable r"
  shows "clean (status_line r)" "12 \<le> length (status_line r)" "take 5 (status_line r) = ''HTTP/''"
    "atoi (take 3 (drop 9 (status_line r))) = hp_statusCode r"
proof -
  from assms have l: "length (to_string (hp_statusCode r)) = 3" by (simp add: reply_readable_def three_digits)
  show "clean (status_line r)" by (simp add: status_line_def clean_to_string clean_reason)
  show "12 \<le> length (status_line r)" "take 5 (status_line r) = ''HTTP/''" by (simp_all add: status_line_def l)
  have "take 3 (drop 9 (status_line r)) = to_string (hp_statusCode r)" by (simp add: status_line_def l)
  then show "atoi (take 3 (drop 9 (status_line r))) = hp_statusCode r" by (simp add: atoi_def read_signed_to_string)
qed

lemma block_split: "kvs \<noteq> [] \<Longrightarrow> \<exists>t. block (map field kvs) = t @ crlf"
  by (cases kvs rule: rev_cases) auto

lemma read_reply_head:
  assumes ok: "reply_readable r" and body: "concat chunks = serialize now r keep @ after"
  shows "\<exists>k b. read_response meth (map Chunk chunks @ later) =
      (let c = (no_response [])\<lparr>cr_status := hp_statusCode r,
           cr_headers := foldl (\<lambda>hs kv. omap_put (toLower (fst kv)) (snd kv) hs) [] (reply_fields now r keep)\<rparr>
       in if bodyless_response meth (hp_statusCode r) then c\<lparr>cr_ok := True\<rparr>
          else read_response_body b (map Chunk (drop k chunks) @ later) c)
    \<and> b @ concat (drop k chunks) = (if bodyless r then [] else hp_body r) @ after"
proof -
  let ?fs = "reply_fields now r keep"
  let ?ls = "status_line r # map field ?fs"
  note line = status_line_facts [OF ok]
  have fs: "list_all field_ok ?fs" "?fs \<noteq> []" by (rule reply_fields_facts [OF ok])+
  from block_split [OF fs(2)] obtain t where t: "block (map field ?fs) = t @ crlf" by blast
  have "list_all (\<lambda>l. clean l \<and> l \<noteq> []) ?ls"
    using line(1,2) fs(1) by (auto simp: list_all_iff field_parts)
  from head_ends_at_blank_line [OF _ this, of "(if bodyless r then [] else hp_body r) @ after"] obtain h
    where h: "break_at head_end (concat chunks) = Some (h, (if bodyless r then [] else hp_body r) @ after)" "h @ crlf = block ?ls"
    by (auto simp: body serialize_lines)
  from h(2) t have ht: "h = status_line r @ crlf @ t" by simp
  have ch: "client_headers t [] = foldl (\<lambda>hs kv. omap_put (toLower (fst kv)) (snd kv) hs) [] ?fs"
    using client_reads_fields [OF fs t [symmetric]] .
  from readUntil_head [OF h(1), of later] obtain k b buf
    where u: "readUntil (\<lambda>b. break_at head_end b \<noteq> None) [] (map Chunk chunks @ later) = Inr (buf, map Chunk (drop k chunks) @ later)"
      and b: "break_at head_end buf = Some (h, b)" "b @ concat (drop k chunks) = (if bodyless r then [] else hp_body r) @ after" by blast
  have "break_at crlf h = Some (status_line r, t)" using break_at_crlf [OF line(1)] ht by simp
  with u b line ch show ?thesis
    by (intro exI [of _ k] exI [of _ b]) (simp add: read_response_def Let_def)
qed

text \<open>
  C99. What the server serialises is what the client reads: for a response with a three-digit status
  and well-formed, distinct header fields that set neither length nor transfer encoding, the client, receiving the bytes
  in any packets, reads the same status, header fields and body, the body empty where the status or the method forbid one.
\<close>

theorem server_response_understood:
  assumes "reply_readable r" and "concat chunks = serialize now r keep @ after"
  shows "cr_ok (read_response meth (map Chunk chunks @ later)) \<and> cr_status (read_response meth (map Chunk chunks @ later)) = hp_statusCode r
    \<and> cr_body (read_response meth (map Chunk chunks @ later)) = (if bodyless_response meth (hp_statusCode r) then [] else hp_body r)
    \<and> (\<forall>kv \<in> set (reply_fields now r keep).
         omap_get (cr_headers (read_response meth (map Chunk chunks @ later))) (toLower (fst kv)) = Some (snd kv))"
proof -
  let ?fs = "reply_fields now r keep"
  let ?c = "(no_response [])\<lparr>cr_status := hp_statusCode r, cr_headers := foldl (\<lambda>hs kv. omap_put (toLower (fst kv)) (snd kv) hs) [] ?fs\<rparr>"
  note d = reply_fields_facts [OF assms(1)]
  have m: "map_of (cr_headers ?c) = map_of (map (\<lambda>kv. (toLower (fst kv), snd kv)) ?fs)" using d(2) by (simp add: client_lookup)
  from m field_value [OF d(2)] have f: "\<forall>kv \<in> set ?fs. omap_get (cr_headers ?c) (toLower (fst kv)) = Some (snd kv)" by simp
  from read_reply_head [OF assms, of meth later] obtain k b
    where e: "read_response meth (map Chunk chunks @ later) =
        (if bodyless_response meth (hp_statusCode r) then ?c\<lparr>cr_ok := True\<rparr> else read_response_body b (map Chunk (drop k chunks) @ later) ?c)"
      and b: "b @ concat (drop k chunks) = (if bodyless r then [] else hp_body r) @ after" by (auto simp: Let_def)
  show ?thesis
  proof (cases "bodyless_response meth (hp_statusCode r)")
    case True
    with e f show ?thesis by (simp add: no_response_def)
  next
    case False
    then have nb: "\<not> bodyless r" by (auto simp: bodyless_response_def bodyless_def)
    from field_value [OF d(2) d(5) [OF nb]] have cl: "map_of (cr_headers ?c) ''content-length'' = Some (to_string (int (length (hp_body r))))"
      unfolding m by simp
    from no_field [OF d(3)] have te: "map_of (cr_headers ?c) ''transfer-encoding'' = None" unfolding m .
    have "read_response_body b (map Chunk (drop k chunks) @ later) ?c = ?c\<lparr>cr_ok := True, cr_body := hp_body r\<rparr>"
      using assms(1) b nb by (intro read_reply_body [OF te cl]) (simp_all add: reply_readable_def)
    with False e f show ?thesis by simp
  qed
qed

definition sample_reply :: HttpResponse where
  "sample_reply = \<lparr>hp_statusCode = 200, hp_body = ''{}'', hp_headers = [(''X-A'', ''b'')], hp_handled = True\<rparr>"

theorem server_response_understood_witness:
  "cr_body (read_response ''GET'' (map Chunk [serialize 0 sample_reply True] @ [Closed])) = ''{}''
    \<and> cr_status (read_response ''GET'' (map Chunk [serialize 0 sample_reply True] @ [Closed])) = 200"
proof -
  have "field_ok (''X-A'', ''b'')" "toLower ''X-A'' = ''x-a''" by code_simp+
  then have ok: "reply_readable sample_reply" by (simp add: reply_readable_def sample_reply_def has_header_def field_names_def)
  have "concat [serialize 0 sample_reply True] = serialize 0 sample_reply True @ []" by simp
  from server_response_understood [OF ok this, of "''GET''" "[Closed]"] show ?thesis
    by (simp add: sample_reply_def bodyless_response_def)
qed

end
