(* ===== verification/EventBus.thy ===== *)
theory EventBus
  imports Types
begin

text \<open>
  \<open>src/src/event/event_bus.cpp\<close>. A publisher first writes the history and then the queue, under two
  mutexes; the dispatcher takes one event at a time, looks up the handlers that match it and calls them. Each
  critical section is one function on the state of the bus, and \<open>bus_step\<close> interleaves the sections of
  any number of publishers, subscribers and the dispatcher.
\<close>

section \<open>State and operations\<close>

record 'h handler_entry =
  he_id :: string
  he_pattern :: string
  he_handler :: 'h

text \<open>
  What the dispatcher thread is doing: waiting, holding an event it took from the queue, or delivering one
  to the handlers that are left.
\<close>

datatype 'h dispatcher = Waiting | Took Event | Delivering Event "'h handler_entry list"

record 'h event_bus =
  eb_handlers :: "'h handler_entry list"
  eb_counter :: nat
  eb_queue :: "Event list"
  eb_dispatcher :: "'h dispatcher"
  eb_history :: "Event list"
  eb_historyLimit :: nat
  eb_published :: nat

definition new_bus :: "'h event_bus" where
  "new_bus = \<lparr>eb_handlers = [], eb_counter = 0, eb_queue = [], eb_dispatcher = Waiting, eb_history = [],
     eb_historyLimit = 500, eb_published = 0\<rparr>"

definition bus_matches :: "string \<Rightarrow> string \<Rightarrow> bool" where
  "bus_matches pat ty =
     (if pat = ''*'' \<or> pat = ty then True
      else if 2 \<le> length pat \<and> last pat = CHR ''*'' \<and> pat ! (length pat - 2) = CHR ''.''
      then take (length pat - 1) ty = take (length pat - 1) pat
      else False)"

definition subscribe :: "string \<Rightarrow> 'h \<Rightarrow> 'h event_bus \<Rightarrow> string \<times> 'h event_bus" where
  "subscribe eventType h b =
     (let i = ''handler_'' @ to_string (int (eb_counter b + 1))
      in (i, b\<lparr>eb_counter := eb_counter b + 1,
               eb_handlers := eb_handlers b @ [\<lparr>he_id = i, he_pattern = eventType, he_handler = h\<rparr>]\<rparr>))"

definition unsubscribe :: "string \<Rightarrow> 'h event_bus \<Rightarrow> 'h event_bus" where
  "unsubscribe handlerId b = b\<lparr>eb_handlers := filter (\<lambda>e. he_id e \<noteq> handlerId) (eb_handlers b)\<rparr>"

text \<open>\<open>pop_front\<close> while the history is longer than its limit.\<close>

fun trim_front :: "nat \<Rightarrow> 'a list \<Rightarrow> 'a list" where
  "trim_front n [] = []"
| "trim_front n (x # xs) = (if length (x # xs) > n then trim_front n xs else x # xs)"

definition publish_history :: "Event \<Rightarrow> 'h event_bus \<Rightarrow> 'h event_bus" where
  "publish_history e b =
     b\<lparr>eb_published := eb_published b + 1, eb_history := trim_front (eb_historyLimit b) (eb_history b @ [e])\<rparr>"

definition publish_queue :: "Event \<Rightarrow> 'h event_bus \<Rightarrow> 'h event_bus" where
  "publish_queue e b = b\<lparr>eb_queue := eb_queue b @ [e]\<rparr>"

definition dispatch_take :: "'h event_bus \<Rightarrow> 'h event_bus option" where
  "dispatch_take b =
     (case (eb_dispatcher b, eb_queue b) of
        (Waiting, e # q) \<Rightarrow> Some (b\<lparr>eb_queue := q, eb_dispatcher := Took e\<rparr>)
      | _ \<Rightarrow> None)"

definition targets_of :: "Event \<Rightarrow> 'h event_bus \<Rightarrow> 'h handler_entry list" where
  "targets_of e b = filter (\<lambda>h. bus_matches (he_pattern h) (ev_type e)) (eb_handlers b)"

definition dispatch_targets :: "'h event_bus \<Rightarrow> 'h event_bus option" where
  "dispatch_targets b =
     (case eb_dispatcher b of Took e \<Rightarrow> Some (b\<lparr>eb_dispatcher := Delivering e (targets_of e b)\<rparr>) | _ \<Rightarrow> None)"

text \<open>The next handler to call with the event; what it throws is swallowed.\<close>

definition dispatch_call :: "'h event_bus \<Rightarrow> ('h handler_entry \<times> Event \<times> 'h event_bus) option" where
  "dispatch_call b =
     (case eb_dispatcher b of
        Delivering e (h # hs) \<Rightarrow> Some (h, e, b\<lparr>eb_dispatcher := Delivering e hs\<rparr>)
      | _ \<Rightarrow> None)"

definition dispatch_done :: "'h event_bus \<Rightarrow> 'h event_bus option" where
  "dispatch_done b =
     (case eb_dispatcher b of Delivering e [] \<Rightarrow> Some (b\<lparr>eb_dispatcher := Waiting\<rparr>) | _ \<Rightarrow> None)"

text \<open>What \<open>waitForIdle\<close> waits for.\<close>

definition bus_idle :: "'h event_bus \<Rightarrow> bool" where
  "bus_idle b = (eb_queue b = [] \<and> (case eb_dispatcher b of Waiting \<Rightarrow> True | _ \<Rightarrow> False))"

fun recent_loop :: "nat \<Rightarrow> string \<Rightarrow> Event list \<Rightarrow> Event list \<Rightarrow> Event list" where
  "recent_loop limit testId out [] = out"
| "recent_loop limit testId out (e # es) =
     (if \<not> length out < limit then out
      else if testId \<noteq> [] \<and> ev_testId e \<noteq> testId then recent_loop limit testId out es
      else recent_loop limit testId (out @ [e]) es)"

definition recentEvents :: "nat \<Rightarrow> string \<Rightarrow> 'h event_bus \<Rightarrow> Event list" where
  "recentEvents limit testId b = rev (recent_loop limit testId [] (rev (eb_history b)))"

definition setHistoryLimit :: "nat \<Rightarrow> 'h event_bus \<Rightarrow> 'h event_bus" where
  "setHistoryLimit limit b =
     (let n = max 1 limit in b\<lparr>eb_historyLimit := n, eb_history := trim_front n (eb_history b)\<rparr>)"

text \<open>After its wait, \<open>clear\<close> drops the handlers and the history; events still queued stay.\<close>

definition clear_handlers :: "'h event_bus \<Rightarrow> 'h event_bus" where
  "clear_handlers b = b\<lparr>eb_handlers := []\<rparr>"

definition clear_history :: "'h event_bus \<Rightarrow> 'h event_bus" where
  "clear_history b = b\<lparr>eb_history := []\<rparr>"

definition getHandlerCount :: "string \<Rightarrow> 'h event_bus \<Rightarrow> nat" where
  "getHandlerCount eventType b =
     (if eventType = [] then length (eb_handlers b)
      else length (filter (\<lambda>h. he_pattern h = eventType) (eb_handlers b)))"

section \<open>Interleavings\<close>

text \<open>
  The bus with what happened so far: the events queued, in order; for each event looked up the handlers
  it was looked up for; the calls made; and the publishers between their two sections.
\<close>

record 'h bus_system =
  bs_bus :: "'h event_bus"
  bs_queued :: "Event list"
  bs_looked_up :: "(Event \<times> 'h handler_entry list) list"
  bs_calls :: "('h handler_entry \<times> Event) list"
  bs_publishing :: "Event list"

definition new_bus_system :: "'h bus_system" where
  "new_bus_system = \<lparr>bs_bus = new_bus, bs_queued = [], bs_looked_up = [], bs_calls = [], bs_publishing = []\<rparr>"

inductive bus_step :: "'h bus_system \<Rightarrow> 'h bus_system \<Rightarrow> bool" where
  bs_subscribe: "subscribe t h (bs_bus s) = (i, b) \<Longrightarrow> bus_step s (s\<lparr>bs_bus := b\<rparr>)"
| bs_unsubscribe: "bus_step s (s\<lparr>bs_bus := unsubscribe i (bs_bus s)\<rparr>)"
| bs_publish: "bus_step s (s\<lparr>bs_bus := publish_history e (bs_bus s), bs_publishing := e # bs_publishing s\<rparr>)"
| bs_enqueue: "e \<in> set (bs_publishing s) \<Longrightarrow>
    bus_step s (s\<lparr>bs_bus := publish_queue e (bs_bus s), bs_publishing := remove1 e (bs_publishing s), bs_queued := bs_queued s @ [e]\<rparr>)"
| bs_take: "dispatch_take (bs_bus s) = Some b \<Longrightarrow> bus_step s (s\<lparr>bs_bus := b\<rparr>)"
| bs_targets: "dispatch_targets (bs_bus s) = Some b \<Longrightarrow> eb_dispatcher b = Delivering e hs \<Longrightarrow>
    bus_step s (s\<lparr>bs_bus := b, bs_looked_up := bs_looked_up s @ [(e, hs)]\<rparr>)"
| bs_call: "dispatch_call (bs_bus s) = Some (h, e, b) \<Longrightarrow> bus_step s (s\<lparr>bs_bus := b, bs_calls := bs_calls s @ [(h, e)]\<rparr>)"
| bs_done: "dispatch_done (bs_bus s) = Some b \<Longrightarrow> bus_step s (s\<lparr>bs_bus := b\<rparr>)"
| bs_limit: "bus_step s (s\<lparr>bs_bus := setHistoryLimit n (bs_bus s)\<rparr>)"
| bs_clear_handlers: "bus_step s (s\<lparr>bs_bus := clear_handlers (bs_bus s)\<rparr>)"
| bs_clear_history: "bus_step s (s\<lparr>bs_bus := clear_history (bs_bus s)\<rparr>)"

inductive bus_reachable :: "'h bus_system \<Rightarrow> bool" where
  br_new: "bus_reachable new_bus_system"
| br_step: "bus_reachable s \<Longrightarrow> bus_step s s' \<Longrightarrow> bus_reachable s'"

section \<open>Delivery\<close>

fun in_hand :: "'h dispatcher \<Rightarrow> Event list" where
  "in_hand (Took e) = [e]"
| "in_hand d = []"

fun pending_calls :: "'h dispatcher \<Rightarrow> ('h handler_entry \<times> Event) list" where
  "pending_calls (Delivering e hs) = map (\<lambda>h. (h, e)) hs"
| "pending_calls d = []"

definition calls_of :: "(Event \<times> 'h handler_entry list) list \<Rightarrow> ('h handler_entry \<times> Event) list" where
  "calls_of xs = concat (map (\<lambda>(e, hs). map (\<lambda>h. (h, e)) hs) xs)"

definition bus_ok :: "'h bus_system \<Rightarrow> bool" where
  "bus_ok s =
     (bs_queued s = map fst (bs_looked_up s) @ in_hand (eb_dispatcher (bs_bus s)) @ eb_queue (bs_bus s)
      \<and> bs_calls s @ pending_calls (eb_dispatcher (bs_bus s)) = calls_of (bs_looked_up s)
      \<and> (\<forall>(e, hs) \<in> set (bs_looked_up s). \<forall>h \<in> set hs. bus_matches (he_pattern h) (ev_type e))
      \<and> eb_published (bs_bus s) = length (bs_queued s) + length (bs_publishing s))"

lemma length_remove1_mem: "x \<in> set xs \<Longrightarrow> Suc (length (remove1 x xs)) = length xs"
  by (induction xs) auto

lemmas bus_defs = subscribe_def unsubscribe_def publish_history_def publish_queue_def dispatch_take_def dispatch_targets_def
  dispatch_call_def dispatch_done_def setHistoryLimit_def clear_handlers_def clear_history_def targets_of_def Let_def

lemma bus_step_ok:
  assumes "bus_step s s'" and "bus_ok s"
  shows "bus_ok s'"
  using assms
proof (cases rule: bus_step.cases)
  case (bs_enqueue e)
  from length_remove1_mem [OF bs_enqueue(2)] bs_enqueue assms(2) show ?thesis by (simp add: bus_ok_def bus_defs)
next
  case (bs_take b)
  with assms(2) show ?thesis
    by (auto simp: bus_ok_def bus_defs split: dispatcher.splits list.splits)
next
  case (bs_targets b e hs)
  with assms(2) show ?thesis
    by (auto simp: bus_ok_def bus_defs calls_of_def split: dispatcher.splits)
next
  case (bs_call h e b)
  with assms(2) show ?thesis
    by (auto simp: bus_ok_def bus_defs split: dispatcher.splits list.splits)
next
  case (bs_done b)
  with assms(2) show ?thesis
    by (auto simp: bus_ok_def bus_defs split: dispatcher.splits list.splits)
qed (auto simp: bus_ok_def bus_defs)

lemma bus_reachable_ok: "bus_reachable s \<Longrightarrow> bus_ok s"
proof (induction rule: bus_reachable.induct)
  case br_new
  show ?case by (simp add: bus_ok_def new_bus_system_def new_bus_def calls_of_def)
qed (rule bus_step_ok)

text \<open>
  C99. In every interleaving of publishers, subscribers and the dispatcher, events are looked up in the
  order in which they were queued, none is lost or looked up twice, and the calls made are those of the looked-up
  events in order, each to handlers whose pattern matches, up to those the dispatcher still has to make. When the bus
  is idle and nobody is publishing, every published event has been delivered.
\<close>

theorem bus_delivers_in_order:
  assumes "bus_reachable s"
  shows "(\<exists>waiting. bs_queued s = map fst (bs_looked_up s) @ waiting)
    \<and> (\<exists>owed. bs_calls s @ owed = calls_of (bs_looked_up s))
    \<and> (\<forall>(h, e) \<in> set (bs_calls s). bus_matches (he_pattern h) (ev_type e))
    \<and> (bus_idle (bs_bus s) \<and> bs_publishing s = [] \<longrightarrow>
        bs_queued s = map fst (bs_looked_up s) \<and> bs_calls s = calls_of (bs_looked_up s)
        \<and> eb_published (bs_bus s) = length (bs_looked_up s))"
proof -
  from bus_reachable_ok [OF assms] have ok: "bus_ok s" .
  have "set (bs_calls s) \<subseteq> set (calls_of (bs_looked_up s))"
    using ok by (metis bus_ok_def set_append Un_upper1)
  then have "\<forall>(h, e) \<in> set (bs_calls s). bus_matches (he_pattern h) (ev_type e)"
    using ok by (fastforce simp: bus_ok_def calls_of_def)
  moreover have "in_hand (eb_dispatcher (bs_bus s)) = [] \<and> pending_calls (eb_dispatcher (bs_bus s)) = [] \<and> eb_queue (bs_bus s) = []"
    if "bus_idle (bs_bus s)" using that by (auto simp: bus_idle_def split: dispatcher.splits)
  ultimately show ?thesis using ok by (auto simp: bus_ok_def)
qed

definition published_once :: "unit bus_system" where
  "published_once = new_bus_system\<lparr>bs_bus := publish_history \<lparr>ev_type = ''test.started'', ev_testId = ''t'', ev_timestamp = 0, ev_data = []\<rparr> new_bus,
     bs_publishing := [\<lparr>ev_type = ''test.started'', ev_testId = ''t'', ev_timestamp = 0, ev_data = []\<rparr>]\<rparr>"

theorem bus_delivers_in_order_witness: "\<exists>owed. bs_calls published_once @ owed = calls_of (bs_looked_up published_once)"
proof -
  have "bus_reachable published_once"
    unfolding published_once_def
    using br_step [OF br_new bs_publish [of new_bus_system "\<lparr>ev_type = ''test.started'', ev_testId = ''t'', ev_timestamp = 0, ev_data = []\<rparr>"]]
    by (simp add: new_bus_system_def)
  from bus_delivers_in_order [OF this] show ?thesis by blast
qed

section \<open>History\<close>

lemma trim_front_drop: "trim_front n xs = drop (length xs - n) xs"
proof (induction xs)
  case (Cons x xs)
  then show ?case by (auto simp: Suc_diff_le)
qed simp

lemma recent_loop_take:
  "recent_loop limit testId out es =
    out @ take (limit - length out) (filter (\<lambda>e. testId = [] \<or> ev_testId e = testId) es)"
  by (induction es arbitrary: out) (auto simp: Suc_diff_Suc take_Cons')

text \<open>
  C99. The recent events are the last ones of the test asked for, in order of publication, at most as
  many as asked for.
\<close>

theorem recentEvents_last:
  "recentEvents limit testId b =
    (let es = filter (\<lambda>e. testId = [] \<or> ev_testId e = testId) (eb_history b) in drop (length es - limit) es)"
  by (simp add: recentEvents_def recent_loop_take rev_take Let_def rev_filter [symmetric])

end
