(* ===== verification/CallbackNotifier.thy ===== *)
theory CallbackNotifier
  imports HttpClient ResultStore EventBus
begin

text \<open>
  \<open>src/src/notify/callback_notifier.cpp\<close>: when a test with a callback URL ends, a job is queued, and a
  worker posts a summary, retrying with exponential backoff. The critical sections are functions on the state,
  and \<open>notifier_step\<close> interleaves them. Durations are milliseconds of the steady clock.
\<close>

section \<open>Configuration and state\<close>

record CallbackConfig =
  cb_enabled :: bool
  cb_timeoutMs :: int
  cb_maxAttempts :: int
  cb_retryBackoffMs :: int
  cb_publicBaseUrl :: string

definition default_CallbackConfig :: CallbackConfig where
  "default_CallbackConfig = \<lparr>cb_enabled = True, cb_timeoutMs = 10000, cb_maxAttempts = 3, cb_retryBackoffMs = 1000, cb_publicBaseUrl = []\<rparr>"

record job =
  jb_testId :: string
  jb_url :: string
  jb_eventType :: string
  jb_attempt :: int
  jb_due :: int

record CallbackStats =
  cs_pending :: nat
  cs_delivered :: nat
  cs_failed :: nat
  cs_attempts :: nat

definition no_stats :: CallbackStats where
  "no_stats = \<lparr>cs_pending = 0, cs_delivered = 0, cs_failed = 0, cs_attempts = 0\<rparr>"

record notifier =
  nf_config :: CallbackConfig
  nf_jobs :: "job list"
  nf_running :: bool
  nf_stats :: CallbackStats

definition new_notifier :: notifier where
  "new_notifier = \<lparr>nf_config = default_CallbackConfig, nf_jobs = [], nf_running = False, nf_stats = no_stats\<rparr>"

definition strip_slashes :: "string \<Rightarrow> string" where
  "strip_slashes s = rev (dropWhile (\<lambda>c. c = CHR ''/'') (rev s))"

definition configure :: "CallbackConfig \<Rightarrow> notifier \<Rightarrow> notifier" where
  "configure cfg nf =
     nf\<lparr>nf_config := cfg\<lparr>cb_maxAttempts := max 1 (cb_maxAttempts cfg), cb_retryBackoffMs := max 0 (cb_retryBackoffMs cfg),
        cb_timeoutMs := (if cb_timeoutMs cfg \<le> 0 then 10000 else cb_timeoutMs cfg),
        cb_publicBaseUrl := strip_slashes (cb_publicBaseUrl cfg)\<rparr>\<rparr>"

definition start_notifier :: "notifier \<Rightarrow> notifier" where
  "start_notifier nf = (if nf_running nf \<or> \<not> cb_enabled (nf_config nf) then nf else nf\<lparr>nf_running := True\<rparr>)"

text \<open>\<open>stop\<close> joins the worker between its two sections; this is the one that empties the queue.\<close>

definition stop_flag :: "notifier \<Rightarrow> notifier" where
  "stop_flag nf = nf\<lparr>nf_running := False\<rparr>"

definition drop_jobs :: "notifier \<Rightarrow> notifier" where
  "drop_jobs nf = nf\<lparr>nf_jobs := [], nf_stats := (nf_stats nf)\<lparr>cs_pending := 0\<rparr>\<rparr>"

section \<open>Accepting a job\<close>

definition callback_job :: "(string \<Rightarrow> TestRecord option) \<Rightarrow> int \<Rightarrow> string \<Rightarrow> string \<Rightarrow> job option" where
  "callback_job getRecord now testId eventType =
     (case getRecord testId of
        None \<Rightarrow> None
      | Some r \<Rightarrow>
          if rq_callbackUrl (re_request r) = [] then None
          else Some \<lparr>jb_testId = testId, jb_url = rq_callbackUrl (re_request r), jb_eventType = eventType,
                     jb_attempt = 0, jb_due = now\<rparr>)"

definition count_pending :: "notifier \<Rightarrow> notifier option" where
  "count_pending nf =
     (if \<not> nf_running nf then None else Some (nf\<lparr>nf_stats := (nf_stats nf)\<lparr>cs_pending := cs_pending (nf_stats nf) + 1\<rparr>\<rparr>))"

definition schedule_job :: "job \<Rightarrow> notifier \<Rightarrow> notifier" where
  "schedule_job j nf = nf\<lparr>nf_jobs := nf_jobs nf @ [j]\<rparr>"

definition enqueue_callback ::
  "(string \<Rightarrow> TestRecord option) \<Rightarrow> int \<Rightarrow> string \<Rightarrow> string \<Rightarrow> notifier \<Rightarrow> bool \<times> notifier" where
  "enqueue_callback getRecord now testId eventType nf =
     (case callback_job getRecord now testId eventType of
        None \<Rightarrow> (False, nf)
      | Some j \<Rightarrow> (case count_pending nf of None \<Rightarrow> (False, nf) | Some nf1 \<Rightarrow> (True, schedule_job j nf1)))"

text \<open>The events that enqueue: every end of a test, and a cancellation while queued.\<close>

definition wants_callback :: "Event \<Rightarrow> bool" where
  "wants_callback e =
     (ev_type e = ''test.completed'' \<or> ev_type e = ''test.cancelled'' \<and> omap_get (ev_data e) ''stage'' = Some ''queued'')"

section \<open>The worker\<close>

text \<open>\<open>std::min_element\<close>: the first of the earliest.\<close>

fun earliest :: "job list \<Rightarrow> job option" where
  "earliest [] = None"
| "earliest (j # js) = (case earliest js of None \<Rightarrow> Some j | Some k \<Rightarrow> if jb_due k < jb_due j then Some k else Some j)"

definition take_due :: "int \<Rightarrow> notifier \<Rightarrow> (job \<times> notifier) option" where
  "take_due now nf =
     (case earliest (nf_jobs nf) of
        None \<Rightarrow> None
      | Some j \<Rightarrow> if jb_due j \<le> now \<and> nf_running nf then Some (j, nf\<lparr>nf_jobs := remove1 j (nf_jobs nf)\<rparr>) else None)"

definition one_less_pending :: "CallbackStats \<Rightarrow> CallbackStats" where
  "one_less_pending s = s\<lparr>cs_pending := cs_pending s - 1\<rparr>"

definition forget_job :: "notifier \<Rightarrow> notifier" where
  "forget_job nf = nf\<lparr>nf_stats := one_less_pending (nf_stats nf)\<rparr>"

definition begin_attempt :: "job \<Rightarrow> notifier \<Rightarrow> job \<times> notifier" where
  "begin_attempt j nf =
     (j\<lparr>jb_attempt := jb_attempt j + 1\<rparr>, nf\<lparr>nf_stats := (nf_stats nf)\<lparr>cs_attempts := cs_attempts (nf_stats nf) + 1\<rparr>\<rparr>)"

definition isRetryableStatus :: "int \<Rightarrow> bool" where
  "isRetryableStatus status = (status = 429 \<or> (500 \<le> status \<and> status < 600))"

definition delivered_ok :: "HttpClientResponse \<Rightarrow> bool" where
  "delivered_ok r = (cr_ok r \<and> 200 \<le> cr_status r \<and> cr_status r < 300)"

definition retryable :: "HttpClientResponse \<Rightarrow> bool" where
  "retryable r = (\<not> cr_ok r \<or> isRetryableStatus (cr_status r))"

text \<open>The loop that doubles the wait, without the bound of \<open>int\<close>.\<close>

fun doubled :: "nat \<Rightarrow> int \<Rightarrow> int" where
  "doubled 0 b = b"
| "doubled (Suc n) b = doubled n (b * 2)"

definition backoff :: "CallbackConfig \<Rightarrow> int \<Rightarrow> int" where
  "backoff cfg attempt = doubled (nat (attempt - 1)) (cb_retryBackoffMs cfg)"

datatype job_end = Delivered | Retry job | Gave_up

definition job_outcome :: "CallbackConfig \<Rightarrow> bool \<Rightarrow> int \<Rightarrow> job \<Rightarrow> HttpClientResponse \<Rightarrow> job_end" where
  "job_outcome cfg running now j r =
     (if delivered_ok r then Delivered
      else if retryable r \<and> jb_attempt j < cb_maxAttempts cfg \<and> running
      then Retry (j\<lparr>jb_due := now + backoff cfg (jb_attempt j)\<rparr>)
      else Gave_up)"

definition end_job :: "job_end \<Rightarrow> notifier \<Rightarrow> notifier" where
  "end_job e nf = (case e of
      Delivered \<Rightarrow> nf\<lparr>nf_stats := one_less_pending ((nf_stats nf)\<lparr>cs_delivered := cs_delivered (nf_stats nf) + 1\<rparr>)\<rparr>
    | Retry j \<Rightarrow> schedule_job j nf
    | Gave_up \<Rightarrow> nf\<lparr>nf_stats := one_less_pending ((nf_stats nf)\<lparr>cs_failed := cs_failed (nf_stats nf) + 1\<rparr>)\<rparr>)"

section \<open>What is posted and published\<close>

definition failed_scenario_json :: "SpecResult \<Rightarrow> ScenarioResult \<Rightarrow> Json" where
  "failed_scenario_json sp sc =
     jobject ([(''spec'', JStr (sp_specFile sp)), (''scenario'', JStr (sc_scenarioName sc))] @
       opt (sc_dataRowIndex sc \<ge> 0) ''data_row_index'' (JInt (sc_dataRowIndex sc)) @
       [(''state'', JState (sc_state sc)), (''error'', JStr (sc_errorMessage sc))])"

definition failed_scenarios :: "TestRecord \<Rightarrow> Json list" where
  "failed_scenarios r =
     (if re_hasResult r
      then concat (map (\<lambda>sp. map (failed_scenario_json sp)
             (filter (\<lambda>sc. sc_state sc = FAILED \<or> sc_state sc = TEST_ERROR) (sp_scenarioResults sp)))
           (tr_specResults (re_result r)))
      else [])"

definition callback_links :: "string \<Rightarrow> string \<Rightarrow> Json" where
  "callback_links baseUrl testId =
     (let base = baseUrl @ ''/api/v1/tests/'' @ testId
      in jobject [(''status'', JStr base), (''result'', JStr (base @ ''/result'')),
           (''report_junit'', JStr (base @ ''/report?format=junit'')), (''report_html'', JStr (base @ ''/report?format=html'')),
           (''ui'', JStr (baseUrl @ ''/'' @ [CHR 0x23] @ ''/tests/'' @ testId))])"

definition buildPayload :: "TimePoint \<Rightarrow> TestRecord \<Rightarrow> string \<Rightarrow> string \<Rightarrow> Json" where
  "buildPayload now r eventType baseUrl =
     (let rq = re_request r; st = re_status r; res = re_result r; has = re_hasResult r
      in jobject [(''event'', JStr eventType), (''test_id'', JStr (rq_id rq)), (''name'', JStr (rq_name rq)),
           (''state'', JState (ts_state st)), (''submitted_by'', JStr (rq_submittedBy rq)),
           (''environment'', JStr (rq_environment rq)), (''spec_files'', strings_json (rq_specFiles rq)),
           (''tags'', strings_json (rq_tags rq)), (''metadata'', string_map_json (rq_metadata rq)),
           (''total_scenarios'', JInt (ts_totalScenarios st)), (''executed_scenarios'', JInt (ts_executedScenarios st)),
           (''passed_scenarios'', JInt (ts_passedScenarios st)), (''failed_scenarios'', JInt (ts_failedScenarios st)),
           (''skipped_scenarios'', JInt (ts_skippedScenarios st)), (''submit_time'', JTime (ts_submitTime st)),
           (''start_time'', JTime (ts_startTime st)), (''end_time'', JTime (ts_endTime st)),
           (''duration'', JSecs (if has then tr_totalDuration res else 0)),
           (''errors'', strings_json (if has then tr_errors res else ts_errors st)),
           (''warnings'', strings_json (if has then tr_warnings res else ts_warnings st)),
           (''failed_scenarios_detail'', JArr (failed_scenarios r)),
           (''links'', callback_links baseUrl (rq_id rq)), (''sent_at'', JTime now)])"

definition callback_headers :: "job \<Rightarrow> (string, string) omap" where
  "callback_headers j = omap_of_list [(''X-TestHub-Event'', jb_eventType j), (''X-TestHub-Test-Id'', jb_testId j),
     (''X-TestHub-Attempt'', to_string (jb_attempt j))]"

definition callback_body :: "TimePoint \<Rightarrow> CallbackConfig \<Rightarrow> TestRecord \<Rightarrow> job \<Rightarrow> string" where
  "callback_body now cfg r j =
     dump (- 1) (jset (buildPayload now r (jb_eventType j) (cb_publicBaseUrl cfg)) ''attempt'' (JInt (jb_attempt j)))"

definition failure_detail :: "HttpClientResponse \<Rightarrow> string" where
  "failure_detail r = (if cr_ok r then ''HTTP '' @ to_string (cr_status r) else cr_error r)"

definition callback_event :: "job \<Rightarrow> HttpClientResponse \<Rightarrow> job_end \<Rightarrow> (string \<times> string \<times> (string \<times> string) list) list" where
  "callback_event j r e = (case e of
      Delivered \<Rightarrow> [(''callback.delivered'', jb_testId j, [(''url'', jb_url j), (''status'', to_string (cr_status r)),
        (''attempts'', to_string (jb_attempt j))])]
    | Retry k \<Rightarrow> []
    | Gave_up \<Rightarrow> [(''callback.failed'', jb_testId j, [(''url'', jb_url j), (''error'', failure_detail r),
        (''attempts'', to_string (jb_attempt j)), (''status'', to_string (cr_status r))])])"

text \<open>
  \<open>process\<close>, run from its first section to its last with no other step between: what the interleaving below splits.
\<close>

definition process_job ::
  "(ParsedUrl \<Rightarrow> string \<Rightarrow> 'w \<Rightarrow> (string + net_event list) \<times> 'w) \<Rightarrow> (string \<Rightarrow> TestRecord option) \<Rightarrow> TimePoint \<Rightarrow> int
   \<Rightarrow> job \<Rightarrow> notifier \<Rightarrow> 'w \<Rightarrow> (string \<times> string \<times> (string \<times> string) list) list \<times> notifier \<times> 'w" where
  "process_job exchange getRecord now tick j nf w =
     (case getRecord (jb_testId j) of
        None \<Rightarrow> ([], forget_job nf, w)
      | Some r \<Rightarrow>
          (case begin_attempt j nf of
             (j1, nf1) \<Rightarrow>
               (case http_post exchange (jb_url j1) (callback_body now (nf_config nf) r j1) ''application/json; charset=utf-8''
                       (callback_headers j1) w of
                  (resp, w1) \<Rightarrow>
                    let e = job_outcome (nf_config nf) (nf_running nf) tick j1 resp
                    in (callback_event j1 resp e, end_job e nf1, w1))))"

end
