(* ===== verification/CallbackFacts.thy ===== *)
theory CallbackFacts
  imports CallbackNotifier
begin

text \<open>
  The notifier in every interleaving of accepting threads, the worker and its shutdown: what happens to
  accepted callbacks and how often they are posted.
\<close>

section \<open>Interleavings\<close>

datatype worker = Between_jobs | Holding job | Posting job

text \<open>
  The notifier, the jobs counted but not yet queued, the worker, and how many callbacks were accepted
  and dropped (because the test was removed or the notifier stopped).
\<close>

record notifier_system =
  ns_notifier :: notifier
  ns_counted :: "job list"
  ns_worker :: worker
  ns_accepted :: nat
  ns_dropped :: nat

definition started_system :: "CallbackConfig \<Rightarrow> notifier_system" where
  "started_system cfg = \<lparr>ns_notifier = start_notifier (configure cfg new_notifier), ns_counted = [], ns_worker = Between_jobs,
     ns_accepted = 0, ns_dropped = 0\<rparr>"

inductive notifier_step :: "notifier_system \<Rightarrow> notifier_system \<Rightarrow> bool" where
  nt_accept: "callback_job getRecord now i t = Some j \<Longrightarrow> count_pending (ns_notifier s) = Some nf \<Longrightarrow>
    notifier_step s (s\<lparr>ns_notifier := nf, ns_counted := j # ns_counted s, ns_accepted := ns_accepted s + 1\<rparr>)"
| nt_schedule: "j \<in> set (ns_counted s) \<Longrightarrow>
    notifier_step s (s\<lparr>ns_notifier := schedule_job j (ns_notifier s), ns_counted := remove1 j (ns_counted s)\<rparr>)"
| nt_take: "ns_worker s = Between_jobs \<Longrightarrow> take_due now (ns_notifier s) = Some (j, nf) \<Longrightarrow>
    notifier_step s (s\<lparr>ns_notifier := nf, ns_worker := Holding j\<rparr>)"
| nt_forget: "ns_worker s = Holding j \<Longrightarrow>
    notifier_step s (s\<lparr>ns_notifier := forget_job (ns_notifier s), ns_worker := Between_jobs, ns_dropped := ns_dropped s + 1\<rparr>)"
| nt_begin: "ns_worker s = Holding j \<Longrightarrow> begin_attempt j (ns_notifier s) = (j1, nf) \<Longrightarrow>
    notifier_step s (s\<lparr>ns_notifier := nf, ns_worker := Posting j1\<rparr>)"
| nt_end: "ns_worker s = Posting j \<Longrightarrow> e = job_outcome (nf_config (ns_notifier s)) running now j r \<Longrightarrow>
    notifier_step s (s\<lparr>ns_notifier := end_job e (ns_notifier s), ns_worker := Between_jobs\<rparr>)"
| nt_stop: "notifier_step s (s\<lparr>ns_notifier := stop_flag (ns_notifier s)\<rparr>)"
| nt_drop: "\<not> nf_running (ns_notifier s) \<Longrightarrow> ns_worker s = Between_jobs \<Longrightarrow> ns_counted s = [] \<Longrightarrow>
    notifier_step s (s\<lparr>ns_notifier := drop_jobs (ns_notifier s), ns_dropped := ns_dropped s + length (nf_jobs (ns_notifier s))\<rparr>)"

inductive notifier_reachable :: "CallbackConfig \<Rightarrow> notifier_system \<Rightarrow> bool" for cfg where
  nr_start: "notifier_reachable cfg (started_system cfg)"
| nr_step: "notifier_reachable cfg s \<Longrightarrow> notifier_step s s' \<Longrightarrow> notifier_reachable cfg s'"

section \<open>Accounting\<close>

fun worker_jobs :: "worker \<Rightarrow> job list" where
  "worker_jobs Between_jobs = []"
| "worker_jobs (Holding j) = [j]"
| "worker_jobs (Posting j) = [j]"

definition live_jobs :: "notifier_system \<Rightarrow> job list" where
  "live_jobs s = nf_jobs (ns_notifier s) @ ns_counted s @ worker_jobs (ns_worker s)"

definition attempts_of :: "job list \<Rightarrow> int" where
  "attempts_of js = sum_list (map jb_attempt js)"

lemma attempts_of_simps [simp]:
  "attempts_of [] = 0" "attempts_of (j # js) = jb_attempt j + attempts_of js"
  "attempts_of (xs @ ys) = attempts_of xs + attempts_of ys"
  by (simp_all add: attempts_of_def)

lemma attempts_of_remove1: "j \<in> set js \<Longrightarrow> attempts_of (remove1 j js) = attempts_of js - jb_attempt j"
  by (induction js) auto

definition job_bounds :: "int \<Rightarrow> notifier_system \<Rightarrow> bool" where
  "job_bounds n s =
     ((\<forall>j \<in> set (nf_jobs (ns_notifier s)) \<union> set (ns_counted s). 0 \<le> jb_attempt j \<and> jb_attempt j < n)
      \<and> (case ns_worker s of Between_jobs \<Rightarrow> True
         | Holding j \<Rightarrow> 0 \<le> jb_attempt j \<and> jb_attempt j < n
         | Posting j \<Rightarrow> 0 \<le> jb_attempt j \<and> jb_attempt j \<le> n))"

definition finished_jobs :: "notifier_system \<Rightarrow> nat" where
  "finished_jobs s = cs_delivered (nf_stats (ns_notifier s)) + cs_failed (nf_stats (ns_notifier s)) + ns_dropped s"

definition notifier_ok :: "int \<Rightarrow> notifier_system \<Rightarrow> bool" where
  "notifier_ok n s =
     (1 \<le> n \<and> cb_maxAttempts (nf_config (ns_notifier s)) = n \<and> job_bounds n s
      \<and> cs_pending (nf_stats (ns_notifier s)) = length (live_jobs s)
      \<and> ns_accepted s = finished_jobs s + length (live_jobs s)
      \<and> int (cs_attempts (nf_stats (ns_notifier s))) \<le> n * int (finished_jobs s) + attempts_of (live_jobs s))"

lemma earliest_mem: "earliest js = Some j \<Longrightarrow> j \<in> set js"
  by (induction js arbitrary: j) (auto split: option.splits if_splits)

lemma take_dueD: "take_due now nf = Some (j, nf') \<Longrightarrow> j \<in> set (nf_jobs nf) \<and> nf' = nf\<lparr>nf_jobs := remove1 j (nf_jobs nf)\<rparr>"
  by (auto simp: take_due_def split: option.splits if_splits dest: earliest_mem)

lemma callback_job_attempt: "callback_job getRecord now i t = Some j \<Longrightarrow> jb_attempt j = 0"
  by (auto simp: callback_job_def split: option.splits if_splits)

lemma attempts_bound: "\<forall>j \<in> set js. jb_attempt j \<le> n \<Longrightarrow> attempts_of js \<le> n * int (length js)"
  by (induction js) (auto simp: algebra_simps)

lemma bounded_jobs: "job_bounds n s \<Longrightarrow> \<forall>j \<in> set (live_jobs s). jb_attempt j \<le> n"
  by (auto simp: job_bounds_def live_jobs_def intro: less_imp_le split: worker.splits)

lemmas ok_defs = notifier_ok_def job_bounds_def finished_jobs_def live_jobs_def

lemma notifier_step_ok:
  assumes "notifier_step s s'" and ok: "notifier_ok n s"
  shows "notifier_ok n s'"
  using assms(1)
proof (cases rule: notifier_step.cases)
  case (nt_accept getRecord now i t j nf)
  then show ?thesis using ok callback_job_attempt [OF nt_accept(2)]
    by (auto simp: ok_defs count_pending_def split: if_splits)
next
  case (nt_schedule j)
  then show ?thesis using ok length_remove1_mem [OF nt_schedule(2)] set_remove1_subset [of j "ns_counted s"]
    by (auto simp: ok_defs schedule_job_def attempts_of_remove1)
next
  case (nt_take now j nf)
  then have j: "j \<in> set (nf_jobs (ns_notifier s))" "nf = (ns_notifier s)\<lparr>nf_jobs := remove1 j (nf_jobs (ns_notifier s))\<rparr>"
    using take_dueD by auto
  then show ?thesis using ok nt_take(1,2) length_remove1_mem [OF j(1)] set_remove1_subset [of j "nf_jobs (ns_notifier s)"]
    by (auto simp: ok_defs attempts_of_remove1)
next
  case (nt_forget j)
  then show ?thesis using ok by (auto simp: ok_defs forget_job_def one_less_pending_def algebra_simps)
next
  case (nt_begin j j1 nf)
  then show ?thesis using ok by (auto simp: ok_defs begin_attempt_def)
next
  case (nt_end j e running now r)
  then show ?thesis using ok
    by (auto simp: ok_defs job_outcome_def end_job_def schedule_job_def one_less_pending_def algebra_simps)
next
  case nt_stop
  then show ?thesis using ok by (auto simp: ok_defs stop_flag_def)
next
  case nt_drop
  have "attempts_of (nf_jobs (ns_notifier s)) \<le> n * int (length (nf_jobs (ns_notifier s)))"
    using bounded_jobs [of n s] ok by (intro attempts_bound) (simp add: notifier_ok_def live_jobs_def)
  then show ?thesis using ok nt_drop by (auto simp: ok_defs drop_jobs_def algebra_simps)
qed

lemma notifier_reachable_ok: "notifier_reachable cfg s \<Longrightarrow> notifier_ok (max 1 (cb_maxAttempts cfg)) s"
proof (induction rule: notifier_reachable.induct)
  case nr_start
  show ?case
    by (simp add: ok_defs started_system_def start_notifier_def configure_def new_notifier_def no_stats_def)
qed (rule notifier_step_ok)

text \<open>
  C99. In every interleaving each accepted callback is delivered, given up, dropped or still pending, the
  statistics count exactly those, and no callback is posted more often than configured.
\<close>

theorem callbacks_accounted:
  assumes "notifier_reachable cfg s"
  shows "ns_accepted s = cs_delivered (nf_stats (ns_notifier s)) + cs_failed (nf_stats (ns_notifier s)) + ns_dropped s
      + cs_pending (nf_stats (ns_notifier s))
    \<and> cs_pending (nf_stats (ns_notifier s)) = length (live_jobs s)
    \<and> int (cs_attempts (nf_stats (ns_notifier s))) \<le> max 1 (cb_maxAttempts cfg) * int (ns_accepted s)"
proof -
  let ?n = "max 1 (cb_maxAttempts cfg)"
  from notifier_reachable_ok [OF assms] have ok: "notifier_ok ?n s" .
  then have "job_bounds ?n s" by (simp add: notifier_ok_def)
  note bounded_jobs [OF this]
  then have "attempts_of (live_jobs s) \<le> ?n * int (length (live_jobs s))" by (rule attempts_bound)
  with ok show ?thesis by (simp add: notifier_ok_def finished_jobs_def algebra_simps)
qed

text \<open>One accepted callback, queued.\<close>

definition sample_notified :: TestRecord where
  "sample_notified = default_TestRecord\<lparr>re_request := default_TestRequest\<lparr>rq_callbackUrl := ''http://ci/done''\<rparr>\<rparr>"

definition sample_job :: job where
  "sample_job = \<lparr>jb_testId = ''t'', jb_url = ''http://ci/done'', jb_eventType = ''test.completed'', jb_attempt = 0, jb_due = 0\<rparr>"

theorem callbacks_accounted_witness:
  "\<exists>s. ns_accepted s = 1 \<and> cs_pending (nf_stats (ns_notifier s)) = 1 \<and> length (live_jobs s) = 1
    \<and> cs_attempts (nf_stats (ns_notifier s)) \<le> 3"
proof -
  let ?s = "started_system default_CallbackConfig"
  have j: "callback_job (\<lambda>i. Some sample_notified) 0 ''t'' ''test.completed'' = Some sample_job"
    by (simp add: callback_job_def sample_notified_def sample_job_def default_TestRecord_def)
  have run: "nf_running (ns_notifier ?s)"
    by (simp add: started_system_def start_notifier_def configure_def new_notifier_def default_CallbackConfig_def)
  then obtain nf where nf: "count_pending (ns_notifier ?s) = Some nf" by (simp add: count_pending_def)
  let ?t = "?s\<lparr>ns_notifier := nf, ns_counted := sample_job # ns_counted ?s, ns_accepted := ns_accepted ?s + 1\<rparr>"
  have r: "notifier_reachable default_CallbackConfig ?t"
    by (rule nr_step [OF nr_start nt_accept [OF j nf]])
  have l: "length (live_jobs ?t) = 1" "ns_accepted ?t = 1"
    using nf by (auto simp: live_jobs_def count_pending_def started_system_def start_notifier_def configure_def new_notifier_def
        split: if_splits)
  note a = callbacks_accounted [OF r]
  have m: "max 1 (cb_maxAttempts default_CallbackConfig) = 3" by (simp add: default_CallbackConfig_def)
  from a have "int (cs_attempts (nf_stats (ns_notifier ?t))) \<le> 3"
    unfolding l(2) m by linarith
  then have "cs_attempts (nf_stats (ns_notifier ?t)) \<le> 3" by linarith
  moreover from a l(1) have "cs_pending (nf_stats (ns_notifier ?t)) = 1" by argo
  ultimately show ?thesis using l by blast
qed

lemma backoff_doubles: "backoff cfg attempt = cb_retryBackoffMs cfg * 2 ^ nat (attempt - 1)"
proof -
  have "doubled n b = b * 2 ^ n" for n b by (induction n arbitrary: b) simp_all
  then show ?thesis by (simp add: backoff_def)
qed

text \<open>
  An accepting thread that was interrupted between its two sections while the notifier stopped leaves a
  job that is queued but not counted.
\<close>

lemma late_schedule_uncounted:
  "cs_pending (nf_stats (schedule_job j (drop_jobs nf))) = 0 \<and> nf_jobs (schedule_job j (drop_jobs nf)) = [j]"
  by (simp add: schedule_job_def drop_jobs_def)

end
