(* ===== verification/HttpGuards.thy ===== *)
theory HttpGuards
  imports HttpFacts
begin

text \<open>
  Who may do what: what the token filter guarantees about the handlers that run, what it and the check
  of static paths miss.
\<close>

section \<open>The token\<close>

lemma same_server_parts [simp]:
  "find_handler (setRequestFilter f sv) rq = find_handler sv rq"
  "unmatched fl (setRequestFilter f sv) rq w = unmatched fl sv rq w"
  "finish_response (setRequestFilter f sv) rq r = finish_response sv rq r"
  "denied_response (setRequestFilter f sv) rq r = denied_response sv rq r"
  "sv_config (setRequestFilter f sv) = sv_config sv"
  "sv_filter (setRequestFilter f sv) = f"
  by (simp_all add: find_handler_def unmatched_def finish_response_def denied_response_def setRequestFilter_def
      serveStatic_def split: option.split prod.split)

lemma same_routing [simp]: "route_request fl (setRequestFilter f sv) rq w = route_request fl sv rq w"
  by (simp add: route_request_def split: option.split prod.split)

definition denial :: "HttpRequest \<Rightarrow> HttpResponse" where
  "denial rq = set_header ''WWW-Authenticate'' (''Bearer realm='' @ c_quote # ''TestHub'' @ [c_quote])
     (error_response 401 (if extractToken rq = [] then ''Authentication required'' else ''Invalid token'') [])"

lemma authorize_eq:
  "authorize cfg rq = (if requiresAuth cfg rq \<and> extractToken rq \<noteq> ac_token cfg then Some (denial rq) else None)"
  by (auto simp: authorize_def denial_def constantTimeEquals_eq requiresAuth_def auth_enabled_def Let_def)

lemma denial_status: "hp_statusCode (denied_response sv rq (denial rq)) = 401"
  by (simp add: denied_response_def denial_def error_response_def json_response_def set_header_def Let_def)

text \<open>
  C99. With a token configured, a request that needs one and does not carry exactly that token is
  answered with 401 and reaches no handler; every other request is answered as without authentication.
\<close>

theorem token_decides:
  assumes "sv_filter sv = None"
  shows "hp_statusCode (denied_response sv rq (denial rq)) = 401 \<and>
    dispatch fl (install_auth cfg sv) rq w =
      (if requiresAuth cfg rq \<and> extractToken rq \<noteq> ac_token cfg then (denied_response sv rq (denial rq), w)
       else dispatch fl sv rq w)"
proof -
  have "hq_method rq \<noteq> ''OPTIONS''" if "requiresAuth cfg rq"
    using that by (auto simp: requiresAuth_def split: if_splits)
  moreover have "\<not> requiresAuth cfg rq" if "\<not> auth_enabled cfg"
    using that by (simp add: requiresAuth_def)
  ultimately show ?thesis
    using assms
    by (auto simp: denial_status dispatch_def install_auth_def authorize_eq split: prod.split sum.split)
qed

definition secret_auth :: AuthConfig where
  "secret_auth = \<lparr>ac_token = ''s3cret'', ac_protectReads = False\<rparr>"

definition post_tests :: HttpRequest where
  "post_tests = (new_request [])\<lparr>hq_method := ''POST'', hq_path := ''/api/v1/tests''\<rparr>"

theorem token_decides_witness:
  "dispatch (ne_files quiet_env) (install_auth secret_auth counting_server) post_tests 0
    = (denied_response counting_server post_tests (denial post_tests), 0)"
proof -
  have f: "sv_filter counting_server = None" by (simp add: counting_server_def addRoute_def new_server_def)
  have r: "requiresAuth secret_auth post_tests" "extractToken post_tests \<noteq> ac_token secret_auth" by code_simp+
  from token_decides [OF f, of post_tests "ne_files quiet_env" secret_auth 0] r show ?thesis by simp
qed

section \<open>A path the filter does not see\<close>

lemma split_path_slash: "splitPath (CHR ''/'' # p) = splitPath p"
  by (simp add: splitPath_def)

lemma matchRoute_path:
  "splitPath (hq_path rq') = splitPath (hq_path rq) \<Longrightarrow> hq_method rq' = hq_method rq \<Longrightarrow>
   matchRoute routes rq' = matchRoute routes rq"
  by (simp add: matchRoute_def)

lemma find_handler_path:
  assumes "splitPath (hq_path rq') = splitPath (hq_path rq)" and "hq_method rq' = hq_method rq"
  shows "find_handler sv rq' = find_handler sv rq"
proof -
  have g: "matchRoute (sv_routes sv) (rq'\<lparr>hq_method := ''GET''\<rparr>) = matchRoute (sv_routes sv) (rq\<lparr>hq_method := ''GET''\<rparr>)"
    by (rule matchRoute_path) (simp_all add: assms)
  show ?thesis unfolding find_handler_def assms(2) matchRoute_path [OF assms] g by (rule refl)
qed

text \<open>
  C99. The filter tests the text of the path and the router its segments: with one more slash in front,
  any request under \<open>/api/\<close> reaches the same handler with the same parameters and needs no token.
\<close>

theorem double_slash_needs_no_token:
  assumes "startsWith (hq_path rq) ''/api/''"
  shows "\<not> requiresAuth cfg (rq\<lparr>hq_path := CHR ''/'' # hq_path rq\<rparr>)
    \<and> find_handler sv (rq\<lparr>hq_path := CHR ''/'' # hq_path rq\<rparr>) = find_handler sv rq"
proof -
  from assms obtain r where p: "hq_path rq = ''/api/'' @ r"
    by (metis append_take_drop_id startsWith_def)
  have "\<not> isProtectedPath (CHR ''/'' # ''/api/'' @ r)"
    by (simp add: isProtectedPath_def startsWith_def)
  with p show ?thesis
    by (auto simp: requiresAuth_def intro!: find_handler_path split_path_slash)
qed

theorem double_slash_needs_no_token_witness:
  "requiresAuth secret_auth post_tests \<and>
   \<not> requiresAuth secret_auth (post_tests\<lparr>hq_path := CHR ''/'' # hq_path post_tests\<rparr>)"
proof -
  have "requiresAuth secret_auth post_tests" "startsWith (hq_path post_tests) ''/api/''" by code_simp+
  with double_slash_needs_no_token [of post_tests secret_auth] show ?thesis by blast
qed

section \<open>Files outside the web directory\<close>

text \<open>
  C99. A server that serves a directory at the root answers a request for two slashes and the rest of an
  absolute path with the contents of that file, wherever it lies: a path is only searched for two dots.
\<close>

theorem absolute_path_escapes:
  assumes "fl_isFile fl (CHR ''/'' # p)" and "\<not> fl_isDirectory fl (CHR ''/'' # p)" and "\<not> contains (CHR ''/'' # p) ''..''"
  shows "map_option hp_body (serveStatic fl (serveDirectory ''/'' dir (new_server cfg))
      (rq\<lparr>hq_path := CHR ''/'' # CHR ''/'' # p\<rparr>)) = Some (fl_read fl (CHR ''/'' # p))"
  using assms
  by (simp add: serveStatic_def serveDirectory_def new_server_def find_asset_def directory_file_def joinPath_def
      startsWith_def text_response_def set_header_def Let_def)

theorem absolute_path_escapes_witness:
  "map_option hp_body (serveStatic \<lparr>fl_isDirectory = (\<lambda>p. False), fl_isFile = (\<lambda>p. p = ''/etc/passwd''), fl_read = (\<lambda>p. ''root'')\<rparr>
     (serveDirectory ''/'' ''/srv/web'' (new_server small_config)) (post_tests\<lparr>hq_path := ''//etc/passwd''\<rparr>)) = Some ''root''"
proof -
  let ?fl = "\<lparr>fl_isDirectory = (\<lambda>p. False), fl_isFile = (\<lambda>p. p = ''/etc/passwd''), fl_read = (\<lambda>p :: string. ''root'')\<rparr>"
  have "\<not> contains ''/etc/passwd'' ''..''" by code_simp
  with absolute_path_escapes [of ?fl "''etc/passwd''" "''/srv/web''" small_config post_tests] show ?thesis by simp
qed

end
