(* ===== verification/ByteCodes.thy ===== *)
theory ByteCodes
  imports Prelude "HOL-Library.Word"
begin

unbundle bit_operations_syntax

text \<open>
  \<open>src/src/util/base64.h\<close> and \<open>src/src/util/sha1.h\<close> on 32-bit words. A string is its bytes.
\<close>

abbreviation shl :: "32 word \<Rightarrow> nat \<Rightarrow> 32 word" where
  "shl w n \<equiv> push_bit n w"

abbreviation shr :: "32 word \<Rightarrow> nat \<Rightarrow> 32 word" where
  "shr w n \<equiv> drop_bit n w"

section \<open>Base64\<close>

definition base64_table :: string where
  "base64_table = ''ABCDEFGHIJKLMNOPQRSTUVWXYZabcdefghijklmnopqrstuvwxyz0123456789+/''"

definition table_char :: "32 word \<Rightarrow> char" where
  "table_char v = base64_table ! unat (v AND 63)"

fun encode :: "string \<Rightarrow> string" where
  "encode (a # b # c # rest) =
     (let v = shl (of_char a) 16 OR shl (of_char b) 8 OR of_char c
      in [table_char (shr v 18), table_char (shr v 12), table_char (shr v 6), table_char v] @ encode rest)"
| "encode [a, b] =
     (let v = shl (of_char a) 16 OR shl (of_char b) 8
      in [table_char (shr v 18), table_char (shr v 12), table_char (shr v 6), CHR ''=''])"
| "encode [a] =
     (let v = shl (of_char a) 16
      in [table_char (shr v 18), table_char (shr v 12), CHR ''='', CHR ''=''])"
| "encode [] = []"

definition sextet :: "char \<Rightarrow> nat option" where
  "sextet c =
     (let n = (of_char c :: nat) in
      if 65 \<le> n \<and> n \<le> 90 then Some (n - 65)
      else if 97 \<le> n \<and> n \<le> 122 then Some (n - 97 + 26)
      else if 48 \<le> n \<and> n \<le> 57 then Some (n - 48 + 52)
      else if c = CHR ''+'' \<or> c = CHR ''-'' then Some 62
      else if c = CHR ''/'' \<or> c = CHR ''_'' then Some 63
      else None)"

definition low_byte :: "32 word \<Rightarrow> char" where
  "low_byte w = char_of (unat (w AND 255))"

fun decode_loop :: "32 word \<Rightarrow> nat \<Rightarrow> string \<Rightarrow> string" where
  "decode_loop buf bits [] = []"
| "decode_loop buf bits (c # s) =
     (if c = CHR ''='' then []
      else case sextet c of
        None \<Rightarrow> decode_loop buf bits s
      | Some v \<Rightarrow>
          (let buf' = shl buf 6 OR of_nat v; bits' = bits + 6
           in if bits' \<ge> 8 then low_byte (shr buf' (bits' - 8)) # decode_loop buf' (bits' - 8) s
              else decode_loop buf' bits' s))"

definition decode :: "string \<Rightarrow> string" where
  "decode s = decode_loop 0 0 s"

section \<open>SHA-1\<close>

definition rotl :: "32 word \<Rightarrow> nat \<Rightarrow> 32 word" where
  "rotl v n = (shl v n OR shr v (32 - n))"

text \<open>\<open>bitLen\<close> is computed in 64 bits.\<close>

definition length_bytes :: "string \<Rightarrow> string" where
  "length_bytes input =
     (let bitLen = (of_nat (length input) * 8 :: 64 word)
      in map (\<lambda>i. char_of (unat (drop_bit (i * 8) bitLen AND 255))) [7, 6, 5, 4, 3, 2, 1, 0])"

function pad_zero :: "string \<Rightarrow> string" where
  "pad_zero msg = (if length msg mod 64 = 56 then msg else pad_zero (msg @ [CHR 0x00]))"
  by auto
termination
proof (relation "measure (\<lambda>msg. let m = length msg mod 64 in if m \<le> 56 then 56 - m else 120 - m)")
  fix msg :: string
  assume n: "length msg mod 64 \<noteq> 56"
  define m where "m = length msg mod 64"
  have "Suc (length msg) mod 64 = (if Suc m = 64 then 0 else Suc m)" by (simp add: mod_Suc m_def)
  moreover have "m < 64" "m \<noteq> 56" using n by (simp_all add: m_def)
  ultimately show "(msg @ [CHR 0x00], msg) \<in> measure (\<lambda>msg. let m = length msg mod 64 in if m \<le> 56 then 56 - m else 120 - m)"
    by (auto simp: Let_def m_def [symmetric])
qed simp

declare pad_zero.simps [simp del]

definition pad_message :: "string \<Rightarrow> string" where
  "pad_message input = pad_zero (input @ [CHR 0x80]) @ length_bytes input"

definition be_word :: "string \<Rightarrow> 32 word" where
  "be_word bs = shl (of_char (bs ! 0)) 24 OR shl (of_char (bs ! 1)) 16 OR shl (of_char (bs ! 2)) 8 OR of_char (bs ! 3)"

text \<open>The message schedule, last word first: \<open>w[i - 3]\<close> is the third of the words so far.\<close>

fun schedule_from :: "nat \<Rightarrow> 32 word list \<Rightarrow> 32 word list" where
  "schedule_from 0 ws = ws"
| "schedule_from (Suc n) ws =
     schedule_from n (rotl (ws ! 2 XOR ws ! 7 XOR ws ! 13 XOR ws ! 15) 1 # ws)"

definition schedule :: "string \<Rightarrow> 32 word list" where
  "schedule chunk = rev (schedule_from 64 (rev (map (\<lambda>i. be_word (drop (i * 4) chunk)) [0..<16])))"

type_synonym sha_state = "32 word \<times> 32 word \<times> 32 word \<times> 32 word \<times> 32 word"

definition sha_f :: "nat \<Rightarrow> 32 word \<Rightarrow> 32 word \<Rightarrow> 32 word \<Rightarrow> 32 word" where
  "sha_f i b c d =
     (if i < 20 then (b AND c) OR (NOT b AND d)
      else if i < 40 then b XOR c XOR d
      else if i < 60 then (b AND c) OR (b AND d) OR (c AND d)
      else b XOR c XOR d)"

definition sha_k :: "nat \<Rightarrow> 32 word" where
  "sha_k i = (if i < 20 then 0x5A827999 else if i < 40 then 0x6ED9EBA1 else if i < 60 then 0x8F1BBCDC else 0xCA62C1D6)"

definition sha_round :: "sha_state \<Rightarrow> nat \<times> 32 word \<Rightarrow> sha_state" where
  "sha_round st iw =
     (case st of (a, b, c, d, e) \<Rightarrow> case iw of (i, w) \<Rightarrow>
        (rotl a 5 + sha_f i b c d + e + sha_k i + w, a, rotl b 30, c, d))"

definition add_state :: "sha_state \<Rightarrow> sha_state \<Rightarrow> sha_state" where
  "add_state h s = (case h of (h0, h1, h2, h3, h4) \<Rightarrow> case s of (a, b, c, d, e) \<Rightarrow> (h0 + a, h1 + b, h2 + c, h3 + d, h4 + e))"

definition sha_chunk :: "sha_state \<Rightarrow> string \<Rightarrow> sha_state" where
  "sha_chunk h chunk = add_state h (foldl sha_round h (zip [0..<80] (schedule chunk)))"

fun sha_chunks :: "sha_state \<Rightarrow> string \<Rightarrow> sha_state" where
  "sha_chunks h msg = (if msg = [] then h else sha_chunks (sha_chunk h (take 64 msg)) (drop 64 msg))"

declare sha_chunks.simps [simp del]

definition sha_init :: sha_state where
  "sha_init = (0x67452301, 0xEFCDAB89, 0x98BADCFE, 0x10325476, 0xC3D2E1F0)"

definition word_bytes :: "32 word \<Rightarrow> string" where
  "word_bytes h = [low_byte (shr h 24), low_byte (shr h 16), low_byte (shr h 8), low_byte h]"

definition digest :: "string \<Rightarrow> string" where
  "digest input =
     (case sha_chunks sha_init (pad_message input) of (h0, h1, h2, h3, h4) \<Rightarrow> concat (map word_bytes [h0, h1, h2, h3, h4]))"

definition hex_nibble :: "nat \<Rightarrow> char" where
  "hex_nibble n = ''0123456789abcdef'' ! n"

definition sha1_hex :: "string \<Rightarrow> string" where
  "sha1_hex input = concat (map (\<lambda>c. let n = (of_char c :: nat) in [hex_nibble (n div 16), hex_nibble (n mod 16)]) (digest input))"

section \<open>Facts\<close>

lemma pad_zero_length: "length (pad_zero msg) mod 64 = 56"
proof (induction msg rule: pad_zero.induct)
  case (1 msg)
  then show ?case by (cases "length msg mod 64 = 56") (simp_all add: pad_zero.simps [of msg])
qed

lemma pad_message_blocks: "length (pad_message input) mod 64 = 0"
proof -
  have "(length (pad_zero (input @ [CHR 0x80])) mod 64 + 8) mod 64 = 0" by (simp add: pad_zero_length)
  then show ?thesis by (simp add: pad_message_def length_bytes_def mod_add_left_eq Let_def add.commute [of 8])
qed

lemma of_char_word: "(of_char c :: 32 word) = of_nat (of_char c)"
  by (cases c) (simp add: of_char_def)

lemma unat_of_char [simp]: "unat (of_char c :: 32 word) = (of_char c :: nat)"
proof -
  have "(of_char c :: nat) < 256" by simp
  then have "(of_char c :: nat) < 2 ^ 32" by (rule less_le_trans) simp
  then show ?thesis by (simp add: of_char_word unat_of_nat take_bit_nat_eq_self)
qed

lemma of_char_bits: "bit (of_char c :: 32 word) n \<Longrightarrow> n < 8"
proof -
  assume b: "bit (of_char c :: 32 word) n"
  have "take_bit 8 (of_char c :: nat) = of_char c" by (rule take_bit_nat_eq_self) simp
  moreover from b have "bit (of_char c :: nat) n" by (simp add: of_char_word bit_of_nat_iff_bit bit_of_nat_iff)
  ultimately show "n < 8" by (metis bit_take_bit_iff)
qed

lemma table_sextets: "list_all (\<lambda>(n, c). sextet c = Some n \<and> c \<noteq> CHR ''='') (zip [0..<64] base64_table)"
  by (simp add: base64_table_def sextet_def upt_rec)

lemma table_nth: "n < 64 \<Longrightarrow> sextet (base64_table ! n) = Some n \<and> base64_table ! n \<noteq> CHR ''=''"
proof -
  assume "n < 64"
  moreover have "length base64_table = 64" by (simp add: base64_table_def)
  ultimately have "(n, base64_table ! n) \<in> set (zip [0..<64] base64_table)"
    by (auto simp: in_set_zip intro!: exI [of _ n])
  with table_sextets show ?thesis by (auto simp: list_all_iff)
qed

lemma unat_and_63: "unat (v AND 63 :: 32 word) < 64"
proof -
  have "v AND 63 \<le> (63 :: 32 word)" by (rule word_and_le1)
  then show ?thesis by (simp add: word_le_nat_alt)
qed

definition push6 :: "32 word \<Rightarrow> 32 word \<Rightarrow> 32 word" where
  "push6 buf v = (shl buf 6 OR (v AND 63))"

lemma decode_pad: "decode_loop buf bits (CHR ''='' # s) = []"
  by simp

lemma decode_table_char:
  "decode_loop buf bits (table_char v # s) =
     (if bits \<ge> 2 then low_byte (shr (push6 buf v) (bits - 2)) # decode_loop (push6 buf v) (bits - 2) s
      else decode_loop (push6 buf v) (bits + 6) s)"
  by (auto simp: table_char_def table_nth unat_and_63 push6_def Let_def)

lemma small_masks: "63 = (mask 6 :: 32 word)" "255 = (mask 8 :: 32 word)"
  by (simp_all add: mask_eq_exp_minus_1)

lemma below_8_cases: "(n :: nat) < 8 \<Longrightarrow> n = 0 \<or> n = 1 \<or> n = 2 \<or> n = 3 \<or> n = 4 \<or> n = 5 \<or> n = 6 \<or> n = 7"
  by arith

lemma byte_eqI:
  assumes "\<And>n. n = 0 \<or> n = 1 \<or> n = 2 \<or> n = 3 \<or> n = 4 \<or> n = 5 \<or> n = 6 \<or> n = 7 \<Longrightarrow> bit w n = bit (u :: 32 word) n"
  shows "low_byte w = low_byte u"
proof -
  have "w AND 255 = u AND 255"
    unfolding small_masks
  proof (rule bit_word_eqI)
    fix n
    show "bit (w AND mask 8) n = bit (u AND mask 8) n"
      using assms [of n] below_8_cases [of n] by (auto simp: bit_and_iff bit_mask_iff)
  qed
  then show ?thesis by (simp add: low_byte_def)
qed

lemma low_byte_of_char [simp]: "low_byte (of_char c) = c"
proof -
  have "(of_char c :: 32 word) AND mask 8 = of_char c"
    by (rule bit_word_eqI) (auto simp: bit_and_iff bit_mask_iff dest: of_char_bits)
  then show ?thesis by (simp add: low_byte_def small_masks)
qed

lemma decoded_bytes:
  "low_byte (shr (push6 (push6 buf (shr v 18)) (shr v 12)) 4) = low_byte (shr v 16)"
  "low_byte (shr (push6 (push6 b (shr v 12)) (shr v 6)) 2) = low_byte (shr v 8)"
  "low_byte (push6 (push6 b (shr v 6)) v) = low_byte v"
  unfolding push6_def small_masks
  by (intro byte_eqI, elim disjE, auto simp: bit_simps)+

lemma packed_bytes:
  "low_byte (shr (shl (of_char a) 16 OR shl (of_char b) 8 OR of_char c) 16) = a"
  "low_byte (shr (shl (of_char a) 16 OR shl (of_char b) 8 OR of_char c) 8) = b"
  "low_byte (shl (of_char a) 16 OR shl (of_char b) 8 OR of_char c) = c"
  "low_byte (shr (shl (of_char a) 16 OR shl (of_char b) 8) 16) = a"
  "low_byte (shr (shl (of_char a) 16 OR shl (of_char b) 8) 8) = b"
  "low_byte (shr (shl (of_char a) 16) 16) = a"
  by (rule trans [OF byte_eqI low_byte_of_char], elim disjE, auto simp: bit_simps dest: of_char_bits)+

lemma decode_groups:
  "\<exists>buf'. decode_loop buf 0 ([table_char (shr v 18), table_char (shr v 12), table_char (shr v 6), table_char v] @ s)
     = low_byte (shr v 16) # low_byte (shr v 8) # low_byte v # decode_loop buf' 0 s"
  "decode_loop buf 0 [table_char (shr v 18), table_char (shr v 12), table_char (shr v 6), CHR ''='']
     = [low_byte (shr v 16), low_byte (shr v 8)]"
  "decode_loop buf 0 [table_char (shr v 18), table_char (shr v 12), CHR ''='', CHR ''=''] = [low_byte (shr v 16)]"
  by (auto simp: decode_table_char decode_pad decoded_bytes simp del: decode_loop.simps(2))

lemma decode_encode_loop: "decode_loop buf 0 (encode s) = s"
proof (induction s arbitrary: buf rule: encode.induct)
  case (1 a b c rest)
  show ?case unfolding encode.simps Let_def
    using decode_groups(1) [of buf "shl (of_char a) 16 OR shl (of_char b) 8 OR of_char c" "encode rest"]
    unfolding packed_bytes 1 [OF refl] by blast
next
  case (2 a b)
  show ?case unfolding encode.simps Let_def decode_groups packed_bytes by (rule refl)
next
  case (3 a)
  show ?case unfolding encode.simps Let_def decode_groups packed_bytes by (rule refl)
qed simp

text \<open>
  C99. Decoding what \<open>Base64::encode\<close> wrote gives the bytes back, for every length, padding included.
\<close>

theorem base64_roundtrip: "decode (encode s) = s"
  by (simp add: decode_def decode_encode_loop)

end
