(* ===== verification/WebSocket.thy ===== *)
theory WebSocket
  imports ByteCodes HttpServer
begin

unbundle bit_operations_syntax

text \<open>
  \<open>src/src/server/websocket_server.cpp\<close>: frames, the handshake, the loop that reads one connection,
  and broadcasting. The socket of a connection is known by its id; sending on it and everything else outside
  is a state \<open>'w\<close>. What a reader receives is the list of the bytes that arrive until the connection ends.
\<close>

section \<open>Frames\<close>

definition byte :: "nat \<Rightarrow> char" where
  "byte n = char_of (n mod 256)"

definition computeAcceptKey :: "string \<Rightarrow> string" where
  "computeAcceptKey clientKey = encode (digest (clientKey @ ''258EAFA5-E914-47DA-95CA-C5AB0DC85B11''))"

definition length_field :: "nat \<Rightarrow> nat \<Rightarrow> string" where
  "length_field flag len =
     (if len < 126 then [byte (flag + len)]
      else if len \<le> 0xFFFF then [byte (flag + 126), byte (len div 256), byte len]
      else byte (flag + 127) # map (\<lambda>i. byte (len div 256 ^ i)) [7, 6, 5, 4, 3, 2, 1, 0])"

definition encodeFrame :: "string \<Rightarrow> nat \<Rightarrow> string" where
  "encodeFrame payload opcode = byte (128 + opcode mod 16) # length_field 0 (length payload) @ payload"

record frame =
  fm_fin :: bool
  fm_opcode :: nat
  fm_payload :: string

definition take_exact :: "nat \<Rightarrow> string \<Rightarrow> (string \<times> string) option" where
  "take_exact n s = (if n \<le> length s then Some (take n s, drop n s) else None)"

definition be_nat :: "string \<Rightarrow> nat" where
  "be_nat bs = foldl (\<lambda>v c. v * 256 + of_char c) 0 bs"

definition read_length :: "nat \<Rightarrow> string \<Rightarrow> (nat \<times> string) option" where
  "read_length len7 s =
     (if len7 = 126 then map_option (\<lambda>(e, r). (be_nat e, r)) (take_exact 2 s)
      else if len7 = 127 then map_option (\<lambda>(e, r). (be_nat e, r)) (take_exact 8 s)
      else Some (len7, s))"

definition xor_char :: "char \<Rightarrow> char \<Rightarrow> char" where
  "xor_char a b = char_of (unat (of_char a XOR of_char b :: 8 word))"

definition unmask :: "string \<Rightarrow> string \<Rightarrow> string" where
  "unmask mk payload = map (\<lambda>i. xor_char (payload ! i) (mk ! (i mod 4))) [0..<length payload]"

definition max_message :: nat where
  "max_message = 4 * 1024 * 1024"

text \<open>One frame and the bytes after it; \<open>None\<close> is the \<open>break\<close> of the reader: the stream ended, or the frame is too long.\<close>

definition read_frame :: "string \<Rightarrow> (frame \<times> string) option" where
  "read_frame s =
     (case take_exact 2 s of
        None \<Rightarrow> None
      | Some (hd2, s1) \<Rightarrow>
          let b0 = (of_char (hd2 ! 0) :: nat); b1 = (of_char (hd2 ! 1) :: nat)
          in case read_length (b1 mod 128) s1 of
               None \<Rightarrow> None
             | Some (len, s2) \<Rightarrow>
                 if len > max_message then None
                 else (case (if 128 \<le> b1 then take_exact 4 s2 else Some ([], s2)) of
                         None \<Rightarrow> None
                       | Some (mk, s3) \<Rightarrow>
                           (case take_exact len s3 of
                              None \<Rightarrow> None
                            | Some (p, s4) \<Rightarrow>
                                Some (\<lparr>fm_fin = (128 \<le> b0), fm_opcode = b0 mod 16,
                                       fm_payload = (if 128 \<le> b1 then unmask mk p else p)\<rparr>, s4))))"

section \<open>Connections\<close>

record connection =
  wc_id :: int
  wc_open :: bool
  wc_patterns :: "string list"
  wc_testId :: string

record 'w ws_env =
  we_send :: "int \<Rightarrow> string \<Rightarrow> 'w \<Rightarrow> bool \<times> 'w"
  we_stopping :: "'w \<Rightarrow> bool"
  we_now :: "'w \<Rightarrow> TimePoint"
  we_message :: "(int \<Rightarrow> Json \<Rightarrow> 'w \<Rightarrow> 'w) option"

definition matchesPattern :: "string \<Rightarrow> string \<Rightarrow> bool" where
  "matchesPattern pat ty =
     (if pat = ''*'' \<or> pat = ty then True
      else if 2 \<le> length pat \<and> last pat = CHR ''*'' \<and> pat ! (length pat - 2) = CHR ''.''
      then take (length pat - 1) ty = take (length pat - 1) pat
      else False)"

definition matchesFilter :: "connection \<Rightarrow> Event \<Rightarrow> bool" where
  "matchesFilter c e =
     (if wc_testId c \<noteq> [] \<and> ev_testId e \<noteq> [] \<and> ev_testId e \<noteq> wc_testId c then False
      else if wc_patterns c = [] then True
      else list_ex (\<lambda>p. matchesPattern p (ev_type e)) (wc_patterns c))"

definition sendRaw :: "'w ws_env \<Rightarrow> connection \<Rightarrow> string \<Rightarrow> 'w \<Rightarrow> bool \<times> connection \<times> 'w" where
  "sendRaw env c fr w =
     (if \<not> wc_open c then (False, c, w)
      else case we_send env (wc_id c) fr w of (ok, w1) \<Rightarrow> (ok, if ok then c else c\<lparr>wc_open := False\<rparr>, w1))"

section \<open>Reading a connection\<close>

definition subscription_ack :: "Json \<Rightarrow> connection \<Rightarrow> Json" where
  "subscription_ack msg c =
     jobject [(''type'', JStr ''subscribed''), (''events'', jget msg ''events''), (''test_id'', JStr (wc_testId c))]"

definition subscribe_filter :: "Json \<Rightarrow> connection \<Rightarrow> connection" where
  "subscribe_filter msg c =
     c\<lparr>wc_patterns := map (asString []) (filter isString (asArray (jget msg ''events''))),
       wc_testId := (if isString (jget msg ''test_id'') then asString [] (jget msg ''test_id'') else wc_testId c)\<rparr>"

definition pong_json :: "TimePoint \<Rightarrow> Json" where
  "pong_json now = jobject [(''type'', JStr ''pong''), (''server_time'', JTime now)]"

definition text_frame :: "Json \<Rightarrow> string" where
  "text_frame j = encodeFrame (dump (- 1) j) 1"

definition handle_text :: "'w ws_env \<Rightarrow> connection \<Rightarrow> string \<Rightarrow> 'w \<Rightarrow> connection \<times> 'w" where
  "handle_text env c payload w =
     (let msg = fst (tryParse payload)
      in if \<not> isObject msg then (c, w)
         else let action = asString (asString [] (jget msg ''type'')) (jget msg ''action'')
         in if action = ''subscribe'' then
              let c1 = subscribe_filter msg c in snd (sendRaw env c1 (text_frame (subscription_ack msg c1)) w)
            else if action = ''unsubscribe'' then (c\<lparr>wc_patterns := [], wc_testId := []\<rparr>, w)
            else if action = ''ping'' then snd (sendRaw env c (text_frame (pong_json (we_now env w))) w)
            else (c, case we_message env of None \<Rightarrow> w | Some f \<Rightarrow> f (wc_id c) msg w))"

record reader =
  rd_fragmented :: string
  rd_opcode :: nat

definition new_reader :: reader where
  "new_reader = \<lparr>rd_fragmented = [], rd_opcode = 0\<rparr>"

text \<open>A complete message: only text is looked at.\<close>

definition handle_message :: "'w ws_env \<Rightarrow> nat \<Rightarrow> string \<Rightarrow> connection \<Rightarrow> 'w \<Rightarrow> connection \<times> 'w" where
  "handle_message env opcode payload c w = (if opcode \<noteq> 1 then (c, w) else handle_text env c payload w)"

text \<open>One frame: whether the peer closed, the connection and the reader after it.\<close>

definition handle_frame :: "'w ws_env \<Rightarrow> frame \<Rightarrow> connection \<Rightarrow> reader \<Rightarrow> 'w \<Rightarrow> bool \<times> connection \<times> reader \<times> 'w" where
  "handle_frame env f c rd w =
     (if fm_opcode f = 8 then (True, c, rd, w)
      else if fm_opcode f = 9 then
        (case sendRaw env c (encodeFrame (fm_payload f) 10) w of (ok, c1, w1) \<Rightarrow> (False, c1, rd, w1))
      else if fm_opcode f = 10 then (False, c, rd, w)
      else if fm_opcode f = 0 then
        (let whole = rd_fragmented rd @ fm_payload f
         in if \<not> fm_fin f then (False, c, rd\<lparr>rd_fragmented := whole\<rparr>, w)
            else case handle_message env (rd_opcode rd) whole c w of (c1, w1) \<Rightarrow> (False, c1, rd\<lparr>rd_fragmented := []\<rparr>, w1))
      else if fm_opcode f = 1 \<or> fm_opcode f = 2 then
        (if \<not> fm_fin f then (False, c, \<lparr>rd_fragmented = fm_payload f, rd_opcode = fm_opcode f\<rparr>, w)
         else case handle_message env (fm_opcode f) (fm_payload f) c w of (c1, w1) \<Rightarrow> (False, c1, rd, w1))
      else (False, c, rd, w))"

lemma take_exact_length: "take_exact n s = Some (a, b) \<Longrightarrow> length b = length s - n \<and> n \<le> length s"
  by (auto simp: take_exact_def split: if_splits)

lemma read_length_shorter: "read_length n s = Some (len, r) \<Longrightarrow> length r \<le> length s"
  by (auto simp: read_length_def dest: take_exact_length split: if_splits)

lemma read_frame_shorter: "read_frame s = Some (f, r) \<Longrightarrow> length r < length s"
  by (fastforce simp: read_frame_def Let_def split: option.splits if_splits
      dest: take_exact_length read_length_shorter)

text \<open>The loop ends with the close that answers the peer's (\<open>True\<close>), or without one.\<close>

function readerLoop :: "'w ws_env \<Rightarrow> string \<Rightarrow> connection \<Rightarrow> reader \<Rightarrow> 'w \<Rightarrow> bool \<times> connection \<times> 'w" where
  "readerLoop env s c rd w =
     (if \<not> wc_open c \<or> we_stopping env w then (False, c, w)
      else case read_frame s of
        None \<Rightarrow> (False, c, w)
      | Some (f, rest) \<Rightarrow>
          (case handle_frame env f c rd w of
             (byPeer, c1, rd1, w1) \<Rightarrow> if byPeer then (True, c1, w1) else readerLoop env rest c1 rd1 w1))"
  by pat_completeness auto
termination
  by (relation "measure (\<lambda>(env, s, c, rd, w). length s)") (auto dest: read_frame_shorter)

declare readerLoop.simps [simp del]

section \<open>The server\<close>

record ws_server =
  wv_connections :: "(int, connection) omap"
  wv_nextId :: int

definition new_ws_server :: ws_server where
  "new_ws_server = \<lparr>wv_connections = [], wv_nextId = 1\<rparr>"

definition event_patterns :: "string \<Rightarrow> string list" where
  "event_patterns events = (if events = [] then [] else filter (\<lambda>t. t \<noteq> []) (map trim (split1 events CHR '','')))"

definition switching_protocols :: "string \<Rightarrow> string" where
  "switching_protocols key =
     ''HTTP/1.1 101 Switching Protocols'' @ crlf @ ''Upgrade: websocket'' @ crlf @ ''Connection: Upgrade'' @ crlf
     @ ''Sec-WebSocket-Accept: '' @ computeAcceptKey key @ crlf @ crlf"

definition welcome_json :: "int \<Rightarrow> TimePoint \<Rightarrow> Json" where
  "welcome_json i now = jobject [(''type'', JStr ''welcome''), (''connection_id'', JInt i), (''server_time'', JTime now)]"

definition bad_handshake :: HttpResponse where
  "bad_handshake = set_header ''Sec-WebSocket-Version'' ''13'' (error_response 400 ''Invalid WebSocket handshake'' [])"

text \<open>\<open>raw\<close> sends on the socket that is being upgraded. The result says whether the socket was taken over.\<close>

definition handleUpgrade ::
  "'w ws_env \<Rightarrow> (string \<Rightarrow> 'w \<Rightarrow> bool \<times> 'w) \<Rightarrow> HttpRequest \<Rightarrow> ws_server \<Rightarrow> 'w \<Rightarrow> bool \<times> ws_server \<times> 'w" where
  "handleUpgrade env raw rq wv w =
     (let key = header rq ''sec-websocket-key'' []
      in if key = [] \<or> header rq ''sec-websocket-version'' [] \<noteq> ''13''
         then (False, wv, snd (raw (serialize (we_now env w) bad_handshake False) w))
         else case raw (switching_protocols key) w of
           (ok, w1) \<Rightarrow>
             if \<not> ok then (False, wv, w1)
             else let i = wv_nextId wv;
                      c = \<lparr>wc_id = i, wc_open = True, wc_patterns = event_patterns (query rq ''events'' []),
                           wc_testId = query rq ''test_id'' []\<rparr>;
                      (ok2, c1, w2) = sendRaw env c (text_frame (welcome_json i (we_now env w1))) w1
                  in (True, \<lparr>wv_connections = omap_put i c1 (wv_connections wv), wv_nextId = i + 1\<rparr>, w2))"

definition closeConnection :: "'w ws_env \<Rightarrow> bool \<Rightarrow> connection \<Rightarrow> ws_server \<Rightarrow> 'w \<Rightarrow> ws_server \<times> 'w" where
  "closeConnection env sendClose c wv w =
     (wv\<lparr>wv_connections := omap_erase (wc_id c) (wv_connections wv)\<rparr>,
      if wc_open c \<and> sendClose then snd (we_send env (wc_id c) (encodeFrame [CHR 0x03, CHR 0xE8] 8) w) else w)"

definition put_connection :: "connection \<Rightarrow> ws_server \<Rightarrow> ws_server" where
  "put_connection c wv = wv\<lparr>wv_connections := omap_put (wc_id c) c (wv_connections wv)\<rparr>"

text \<open>Sending one frame to one of the connections of the snapshot.\<close>

definition send_or_close :: "'w ws_env \<Rightarrow> string \<Rightarrow> ws_server \<times> 'w \<Rightarrow> connection \<Rightarrow> ws_server \<times> 'w" where
  "send_or_close env fr st c =
     (case sendRaw env c fr (snd st) of
        (ok, c1, w1) \<Rightarrow> if ok then (fst st, w1) else closeConnection env False c1 (fst st) w1)"

definition event_frame :: "Event \<Rightarrow> string" where
  "event_frame e = text_frame (jset (event_json e) ''type'' (JStr ''event''))"

definition broadcastEvent :: "'w ws_env \<Rightarrow> Event \<Rightarrow> ws_server \<Rightarrow> 'w \<Rightarrow> ws_server \<times> 'w" where
  "broadcastEvent env e wv w =
     foldl (send_or_close env (event_frame e)) (wv, w) (filter (\<lambda>c. matchesFilter c e) (map snd (wv_connections wv)))"

definition broadcast :: "'w ws_env \<Rightarrow> Json \<Rightarrow> ws_server \<Rightarrow> 'w \<Rightarrow> ws_server \<times> 'w" where
  "broadcast env msg wv w = foldl (send_or_close env (text_frame msg)) (wv, w) (map snd (wv_connections wv))"

definition ws_send :: "'w ws_env \<Rightarrow> int \<Rightarrow> Json \<Rightarrow> ws_server \<Rightarrow> 'w \<Rightarrow> bool \<times> ws_server \<times> 'w" where
  "ws_send env i msg wv w =
     (case omap_get (wv_connections wv) i of
        None \<Rightarrow> (False, wv, w)
      | Some c \<Rightarrow> (case sendRaw env c (text_frame msg) w of (ok, c1, w1) \<Rightarrow> (ok, put_connection c1 wv, w1)))"

definition connectionCount :: "ws_server \<Rightarrow> nat" where
  "connectionCount wv = length (wv_connections wv)"

definition stop_ws :: "'w ws_env \<Rightarrow> ws_server \<Rightarrow> 'w \<Rightarrow> ws_server \<times> 'w" where
  "stop_ws env wv w = foldl (\<lambda>st c. closeConnection env True c (fst st) (snd st)) (wv, w) (map snd (wv_connections wv))"

end
