(* ===== verification/WebSocketFacts.thy ===== *)
theory WebSocketFacts
  imports WebSocket
begin

unbundle bit_operations_syntax

text \<open>
  What the WebSocket server promises: frames are read as they were written, a fragmented message is the
  whole message, and an event goes once to each connection that asked for it.
\<close>

section \<open>Frames\<close>

text \<open>A frame as RFC 6455 lays it out; an empty mask is an unmasked frame.\<close>

definition frame_bytes :: "bool \<Rightarrow> nat \<Rightarrow> string \<Rightarrow> string \<Rightarrow> string" where
  "frame_bytes fin opcode mk payload =
     byte ((if fin then 128 else 0) + opcode) # length_field (if mk = [] then 0 else 128) (length payload)
     @ mk @ (if mk = [] then payload else unmask mk payload)"

lemma of_char_byte [simp]: "(of_char (byte n) :: nat) = n mod 256"
  by (simp add: byte_def)

lemma of_char_8_word: "(of_char c :: 8 word) = of_nat (of_char c)"
  by (cases c) (simp add: of_char_def)

lemma of_char_xor_char: "(of_char (xor_char a b) :: 8 word) = of_char a XOR of_char b"
proof -
  have "unat (w :: 8 word) < 2 ^ LENGTH(8)" for w by (rule unsigned_less)
  then have "unat (w :: 8 word) < 256" for w by simp
  then show ?thesis by (simp add: of_char_8_word xor_char_def)
qed

lemma xor_char_twice [simp]: "xor_char (xor_char a m) m = a"
proof -
  have "unat (of_char a :: 8 word) = (of_char a :: nat)"
    by (simp add: of_char_8_word unat_of_nat take_bit_nat_eq_self)
  then show ?thesis by (simp add: xor_char_def [of "xor_char a m"] of_char_xor_char xor.assoc)
qed

lemma length_unmask [simp]: "length (unmask mk p) = length p"
  by (simp add: unmask_def)

lemma unmask_twice [simp]: "unmask mk (unmask mk p) = p"
  by (rule nth_equalityI) (simp_all add: unmask_def)

lemma three_bytes:
  assumes "n < 256 ^ 3"
  shows "((n div 256 ^ 2 mod 256) * 256 + n div 256 mod 256) * 256 + n mod 256 = (n :: nat)"
proof -
  have "n div 256 ^ 2 = n div 256 div 256" by (simp add: div_mult2_eq [symmetric] power2_eq_square)
  moreover have "n div 256 div 256 < 256"
    using assms by (simp add: less_mult_imp_div_less power3_eq_cube)
  moreover have "(n div 256 div 256) * 256 + n div 256 mod 256 = n div 256" by simp
  ultimately show ?thesis by simp
qed

lemma read_length_field:
  assumes "len \<le> max_message" and "flag = 0 \<or> flag = 128"
  shows "\<exists>b s. length_field flag len = b # s \<and> (128 \<le> (of_char b :: nat)) = (flag = 128)
    \<and> (\<forall>r. read_length (of_char b mod 128) (s @ r) = Some (len, r))"
proof -
  consider "len < 126" | "126 \<le> len" "len \<le> 0xFFFF" | "0xFFFF < len" by linarith
  then show ?thesis
  proof cases
    case 1
    then have "(flag + len) mod 256 = flag + len" "(flag + len) mod 128 = len" using assms(2) by auto
    with 1 assms(2) show ?thesis by (auto simp: length_field_def read_length_def)
  next
    case 2
    have "len div 256 mod 256 * 256 + len mod 256 = len" using 2(2) by (simp add: less_mult_imp_div_less)
    then have "be_nat [byte (len div 256), byte len] = len" by (simp add: be_nat_def)
    with 2 assms(2) show ?thesis
      by (intro exI [of _ "byte (flag + 126)"] exI [of _ "[byte (len div 256), byte len]"])
        (auto simp: length_field_def read_length_def take_exact_def)
  next
    case 3
    from assms(1) have l: "len < 256 ^ 3" by (simp add: max_message_def)
    let ?s = "map (\<lambda>i. byte (len div 256 ^ i)) [7, 6, 5, 4, 3, 2, 1, 0]"
    have high: "len div 256 ^ i = 0" if "3 \<le> i" for i
    proof -
      have "(256 :: nat) ^ 3 \<le> 256 ^ i" using that by (rule power_increasing) simp
      with l show ?thesis by simp
    qed
    have "len div 65536 < 256" using l by (simp add: less_mult_imp_div_less)
    then have "be_nat ?s = len"
      using three_bytes [OF l] high [of 3] high [of 4] high [of 5] high [of 6] high [of 7]
      by (simp add: be_nat_def)
    define t where "t = ?s"
    have t: "be_nat t = len" "length t = 8" using \<open>be_nat ?s = len\<close> by (simp_all add: t_def)
    have lf: "length_field flag len = byte (flag + 127) # t" using 3 by (simp add: length_field_def t_def)
    have b: "(of_char (byte (flag + 127)) :: nat) = flag + 127" "(flag + 127) mod 128 = 127"
      "(128 \<le> flag + 127) = (flag = 128)" using assms(2) by auto
    have "read_length 127 (t @ r) = Some (len, r)" for r
      using t by (simp add: read_length_def take_exact_def)
    with lf show ?thesis
      by (intro exI [of _ "byte (flag + 127)"] exI [of _ t]) (simp add: b del: of_char_byte)
  qed
qed

lemma read_frame_facts:
  assumes "opcode < 16" and "length payload \<le> max_message" and "mk = [] \<or> length mk = 4"
  shows "read_frame (frame_bytes fin opcode mk payload @ rest)
      = Some (\<lparr>fm_fin = fin, fm_opcode = opcode, fm_payload = payload\<rparr>, rest)
    \<and> encodeFrame payload opcode = frame_bytes True opcode [] payload"
proof
  let ?flag = "if mk = [] then 0 else 128 :: nat"
  have "?flag = 0 \<or> ?flag = 128" by simp
  from read_length_field [OF assms(2) this] obtain b s
    where f: "length_field ?flag (length payload) = b # s" and b: "(128 \<le> (of_char b :: nat)) = (mk \<noteq> [])"
      and r: "\<And>r. read_length (of_char b mod 128) (s @ r) = Some (length payload, r)"
    by (auto split: if_splits)
  have m16: "(128 + opcode) mod 16 = opcode" using assms(1) by presburger
  let ?b0 = "byte ((if fin then 128 else 0) + opcode)"
  let ?p = "if mk = [] then payload else unmask mk payload"
  have b0: "(of_char ?b0 :: nat) = (if fin then 128 else 0) + opcode" "(128 \<le> (of_char ?b0 :: nat)) = fin"
    "(of_char ?b0 :: nat) mod 16 = opcode" using assms(1) m16 by auto
  have s: "frame_bytes fin opcode mk payload @ rest = ?b0 # b # s @ mk @ ?p @ rest"
    unfolding frame_bytes_def f by simp
  have t: "take_exact 2 (?b0 # b # s @ mk @ ?p @ rest) = Some ([?b0, b], s @ mk @ ?p @ rest)"
    by (simp add: take_exact_def)
  have m: "(if 128 \<le> (of_char b :: nat) then take_exact 4 (mk @ ?p @ rest) else Some ([], mk @ ?p @ rest)) = Some (mk, ?p @ rest)"
    using b assms(3) by (auto simp: take_exact_def)
  have p: "take_exact (length payload) (?p @ rest) = Some (?p, rest)"
    by (simp add: take_exact_def)
  show "read_frame (frame_bytes fin opcode mk payload @ rest)
      = Some (\<lparr>fm_fin = fin, fm_opcode = opcode, fm_payload = payload\<rparr>, rest)"
    unfolding s read_frame_def t using b0(2,3) b r m p assms(2) by (simp add: Let_def del: of_char_byte)
next
  show "encodeFrame payload opcode = frame_bytes True opcode [] payload"
    using assms(1) by (simp add: encodeFrame_def frame_bytes_def)
qed

text \<open>
  C99. Every frame up to the limit, masked or not, is read back as its final flag, opcode and payload,
  and leaves exactly the bytes after it; the server's own frames have this layout.
\<close>

theorem read_frame_bytes:
  assumes "opcode < 16" and "length payload \<le> max_message" and "mk = [] \<or> length mk = 4"
  shows "read_frame (frame_bytes fin opcode mk payload @ rest)
      = Some (\<lparr>fm_fin = fin, fm_opcode = opcode, fm_payload = payload\<rparr>, rest)
    \<and> encodeFrame payload opcode = frame_bytes True opcode [] payload"
  using read_frame_facts [OF assms] .

theorem read_frame_bytes_witness:
  "read_frame (encodeFrame ''hi'' 1 @ ''x'') = Some (\<lparr>fm_fin = True, fm_opcode = 1, fm_payload = ''hi''\<rparr>, ''x'')"
proof -
  have "length ''hi'' \<le> max_message" by (simp add: max_message_def)
  with read_frame_bytes [of 1 "''hi''" "[]" True "''x''"] show ?thesis by simp
qed

section \<open>Fragmented messages\<close>

fun run_frames :: "'w ws_env \<Rightarrow> frame list \<Rightarrow> connection \<Rightarrow> reader \<Rightarrow> 'w \<Rightarrow> bool \<times> connection \<times> reader \<times> 'w" where
  "run_frames env [] c rd w = (False, c, rd, w)"
| "run_frames env (f # fs) c rd w =
     (if \<not> wc_open c \<or> we_stopping env w then (False, c, rd, w)
      else case handle_frame env f c rd w of
        (byPeer, c1, rd1, w1) \<Rightarrow> if byPeer then (True, c1, rd1, w1) else run_frames env fs c1 rd1 w1)"

text \<open>A message cut into parts: the first part carries the opcode, the last one the final flag.\<close>

fun fragments :: "nat \<Rightarrow> string list \<Rightarrow> frame list" where
  "fragments k [] = []"
| "fragments k [p] = [\<lparr>fm_fin = True, fm_opcode = k, fm_payload = p\<rparr>]"
| "fragments k (p # q # ps) = \<lparr>fm_fin = False, fm_opcode = k, fm_payload = p\<rparr> # fragments 0 (q # ps)"

lemma run_continuations:
  assumes "wc_open c" and "\<not> we_stopping env w" and "ps \<noteq> []"
  shows "run_frames env (fragments 0 ps) c \<lparr>rd_fragmented = x, rd_opcode = k\<rparr> w
    = (case handle_message env k (x @ concat ps) c w of (c1, w1) \<Rightarrow> (False, c1, \<lparr>rd_fragmented = [], rd_opcode = k\<rparr>, w1))"
  using assms
proof (induction "0 :: nat" ps arbitrary: x rule: fragments.induct)
  case (2 p)
  then show ?case by (simp add: handle_frame_def split: prod.split)
next
  case (3 p q ps)
  then show ?case by (simp add: handle_frame_def)
qed simp

text \<open>
  C99. A text message cut into any number of fragments is handled once, as the whole text, when its last
  fragment arrives, and leaves no fragment behind.
\<close>

theorem fragments_handled_whole:
  assumes "wc_open c" and "\<not> we_stopping env w" and "2 \<le> length parts"
  shows "run_frames env (fragments 1 parts) c rd w =
    (case handle_text env c (concat parts) w of (c1, w1) \<Rightarrow> (False, c1, \<lparr>rd_fragmented = [], rd_opcode = 1\<rparr>, w1))"
proof -
  from assms(3) obtain p q ps where parts: "parts = p # q # ps"
    by (metis One_nat_def Suc_1 Suc_le_length_iff)
  then show ?thesis
    using assms(1,2) run_continuations [of c env w "q # ps" p 1]
    by (simp add: handle_frame_def handle_message_def)
qed

text \<open>
  The opcode of a finished message is kept: a continuation frame that continues nothing is taken for
  another text message.
\<close>

lemma stray_continuation_is_text:
  "handle_frame env \<lparr>fm_fin = True, fm_opcode = 0, fm_payload = p\<rparr> c \<lparr>rd_fragmented = [], rd_opcode = 1\<rparr> w =
    (case handle_text env c p w of (c1, w1) \<Rightarrow> (False, c1, \<lparr>rd_fragmented = [], rd_opcode = 1\<rparr>, w1))"
  by (simp add: handle_frame_def handle_message_def)

text \<open>Reading the bytes of frames is running the frames.\<close>

lemma readerLoop_frames:
  assumes "list_all (\<lambda>f. fm_opcode f < 16 \<and> length (fm_payload f) \<le> max_message) fs" and "length mk = 4"
  shows "readerLoop env (concat (map (\<lambda>f. frame_bytes (fm_fin f) (fm_opcode f) mk (fm_payload f)) fs) @ rest) c rd w =
    (case run_frames env fs c rd w of
       (byPeer, c1, rd1, w1) \<Rightarrow> if byPeer then (True, c1, w1) else readerLoop env rest c1 rd1 w1)"
  using assms(1)
proof (induction fs arbitrary: c rd w)
  case (Cons f fs)
  let ?b = "concat (map (\<lambda>f. frame_bytes (fm_fin f) (fm_opcode f) mk (fm_payload f)) fs) @ rest"
  from Cons.prems have "fm_opcode f < 16" "length (fm_payload f) \<le> max_message" by simp_all
  from read_frame_facts [OF this, of mk "fm_fin f" ?b] assms(2)
  have "read_frame (frame_bytes (fm_fin f) (fm_opcode f) mk (fm_payload f) @ ?b) = Some (f, ?b)" by simp
  with Cons show ?case
    by (cases "wc_open c \<and> \<not> we_stopping env w")
      (auto simp: readerLoop.simps [of env "frame_bytes (fm_fin f) (fm_opcode f) mk (fm_payload f) @ ?b"]
        readerLoop.simps [of env rest] split: prod.split)
qed simp

section \<open>Broadcasting\<close>

text \<open>A network that notes what is sent, on which the sends of some connections fail.\<close>

definition noting_env :: "int set \<Rightarrow> (int \<times> string) list ws_env" where
  "noting_env broken = \<lparr>we_send = (\<lambda>i fr w. if i \<in> broken then (False, w) else (True, w @ [(i, fr)])),
     we_stopping = (\<lambda>w. False), we_now = (\<lambda>w. 0), we_message = None\<rparr>"

definition ws_ok :: "ws_server \<Rightarrow> bool" where
  "ws_ok wv = (omap_ok (wv_connections wv) \<and> (\<forall>(i, c) \<in> set (wv_connections wv). wc_id c = i))"

definition reaches :: "int set \<Rightarrow> connection \<Rightarrow> bool" where
  "reaches broken c = (wc_open c \<and> wc_id c \<notin> broken)"

lemma send_or_close_noting:
  "send_or_close (noting_env broken) fr (wv, w) c =
     (if reaches broken c then (wv, w @ [(wc_id c, fr)])
      else (wv\<lparr>wv_connections := omap_erase (wc_id c) (wv_connections wv)\<rparr>, w))"
  by (simp add: send_or_close_def sendRaw_def noting_env_def reaches_def closeConnection_def)

lemma send_all_noting:
  "foldl (send_or_close (noting_env broken) fr) (wv, w) cs =
     (wv\<lparr>wv_connections := filter (\<lambda>(i, c). i \<notin> wc_id ` set (filter (\<lambda>c. \<not> reaches broken c) cs)) (wv_connections wv)\<rparr>,
      w @ map (\<lambda>c. (wc_id c, fr)) (filter (reaches broken) cs))"
proof (induction cs arbitrary: wv w)
  case (Cons c cs)
  show ?case
    by (auto simp: send_or_close_noting Cons omap_erase_def case_prod_unfold)
qed simp

text \<open>
  C99. An event is sent exactly once, in order of their ids, to the open connections whose subscription
  it matches; the connections on which that fails are dropped, and no others.
\<close>

theorem broadcast_reaches_subscribers:
  assumes "ws_ok wv"
  shows "broadcastEvent (noting_env broken) e wv w =
    (wv\<lparr>wv_connections := filter (\<lambda>(i, c). \<not> matchesFilter c e \<or> reaches broken c) (wv_connections wv)\<rparr>,
     w @ map (\<lambda>c. (wc_id c, event_frame e))
       (filter (\<lambda>c. matchesFilter c e \<and> reaches broken c) (map snd (wv_connections wv))))"
proof -
  let ?cs = "filter (\<lambda>c. matchesFilter c e) (map snd (wv_connections wv))"
  have ids: "\<And>i c. (i, c) \<in> set (wv_connections wv) \<Longrightarrow> wc_id c = i"
    and d: "distinct (map fst (wv_connections wv))"
    using assms omap_ok_distinct by (auto simp: ws_ok_def)
  have "i \<in> wc_id ` set (filter (\<lambda>c. \<not> reaches broken c) ?cs) \<longleftrightarrow> matchesFilter c e \<and> \<not> reaches broken c"
    if m: "(i, c) \<in> set (wv_connections wv)" for i c
  proof
    assume "i \<in> wc_id ` set (filter (\<lambda>c. \<not> reaches broken c) ?cs)"
    then obtain j c' where c': "(j, c') \<in> set (wv_connections wv)" "wc_id c' = i" "matchesFilter c' e" "\<not> reaches broken c'"
      by auto
    with ids have "(i, c') \<in> set (wv_connections wv)" by blast
    from eq_key_imp_eq_value [OF d m this] have "c' = c" by simp
    with c' show "matchesFilter c e \<and> \<not> reaches broken c" by simp
  next
    assume "matchesFilter c e \<and> \<not> reaches broken c"
    with m have "c \<in> set (filter (\<lambda>c. \<not> reaches broken c) ?cs)" by force
    with ids [OF m] show "i \<in> wc_id ` set (filter (\<lambda>c. \<not> reaches broken c) ?cs)" by blast
  qed
  then have f: "filter (\<lambda>(i, c). i \<notin> wc_id ` set (filter (\<lambda>c. \<not> reaches broken c) ?cs)) (wv_connections wv)
      = filter (\<lambda>(i, c). \<not> matchesFilter c e \<or> reaches broken c) (wv_connections wv)"
    by (intro filter_cong) auto
  show ?thesis
    unfolding broadcastEvent_def send_all_noting f by (simp add: conj_commute)
qed

text \<open>Two connections, one of which listens to the events of one test.\<close>

definition sample_ws :: ws_server where
  "sample_ws = \<lparr>wv_connections = [(1, \<lparr>wc_id = 1, wc_open = True, wc_patterns = [''test.*''], wc_testId = []\<rparr>),
     (2, \<lparr>wc_id = 2, wc_open = True, wc_patterns = [], wc_testId = ''t2''\<rparr>),
     (3, \<lparr>wc_id = 3, wc_open = True, wc_patterns = [], wc_testId = []\<rparr>)], wv_nextId = 4\<rparr>"

definition sample_event :: Event where
  "sample_event = \<lparr>ev_type = ''test.started'', ev_testId = ''t1'', ev_timestamp = 0, ev_data = []\<rparr>"

theorem broadcast_reaches_subscribers_witness:
  "snd (broadcastEvent (noting_env {3}) sample_event sample_ws []) = [(1, event_frame sample_event)]"
proof -
  have "ws_ok sample_ws" by (simp add: ws_ok_def sample_ws_def omap_ok_def)
  from broadcast_reaches_subscribers [OF this] show ?thesis
    by (simp add: sample_ws_def matchesFilter_def matchesPattern_def sample_event_def reaches_def)
qed

theorem fragments_handled_whole_witness:
  "run_frames (noting_env {}) (fragments 1 [''tr'', ''ue'']) \<lparr>wc_id = 1, wc_open = True, wc_patterns = [], wc_testId = []\<rparr> new_reader []
    = (False, \<lparr>wc_id = 1, wc_open = True, wc_patterns = [], wc_testId = []\<rparr>, \<lparr>rd_fragmented = [], rd_opcode = 1\<rparr>, [])"
proof -
  let ?c = "\<lparr>wc_id = 1, wc_open = True, wc_patterns = [], wc_testId = []\<rparr>"
  have "\<not> isObject (fst (tryParse ''true''))" by code_simp
  then have "handle_text (noting_env {}) ?c (concat [''tr'', ''ue'']) [] = (?c, [])"
    by (simp add: handle_text_def)
  moreover have "wc_open ?c" "\<not> we_stopping (noting_env {}) []" by (simp_all add: noting_env_def)
  ultimately show ?thesis
    using fragments_handled_whole [of ?c "noting_env {}" "[]" "[''tr'', ''ue'']" new_reader] by simp
qed

end
