(* ===== verification/RunnerTypes.thy ===== *)
theory RunnerTypes
  imports Types SpecModel
begin

text \<open>
  \<open>src/src/runner/runner.h\<close>: what the engine sends to a runner and gets back. A step's result
  is the \<open>StepResult\<close> of the domain types.
\<close>

record ExecutionContext =
  xc_testId :: string
  xc_specFile :: string
  xc_specName :: string
  xc_scenarioName :: string
  xc_tags :: "string list"
  xc_dataRow :: "(string, string) omap"
  xc_environment :: "(string, string) omap"

definition default_ExecutionContext :: ExecutionContext where
  "default_ExecutionContext = \<lparr>xc_testId = [], xc_specFile = [], xc_specName = [], xc_scenarioName = [],
     xc_tags = [], xc_dataRow = [], xc_environment = []\<rparr>"

record StepExecutionRequest =
  sq_stepText :: string
  sq_parameterizedText :: string
  sq_args :: "StepArg list"
  sq_context :: ExecutionContext
  sq_timeoutMs :: int

datatype HookType =
  BeforeSuite | AfterSuite | BeforeSpec | AfterSpec | BeforeScenario | AfterScenario | BeforeStep | AfterStep

fun hookTypeToString :: "HookType \<Rightarrow> string" where
  "hookTypeToString BeforeSuite = ''before_suite''"
| "hookTypeToString AfterSuite = ''after_suite''"
| "hookTypeToString BeforeSpec = ''before_spec''"
| "hookTypeToString AfterSpec = ''after_spec''"
| "hookTypeToString BeforeScenario = ''before_scenario''"
| "hookTypeToString AfterScenario = ''after_scenario''"
| "hookTypeToString BeforeStep = ''before_step''"
| "hookTypeToString AfterStep = ''after_step''"

record HookResult =
  hr_success :: bool
  hr_errorMessage :: string
  hr_stackTrace :: string
  hr_duration :: seconds
  hr_messages :: "string list"

definition default_HookResult :: HookResult where
  "default_HookResult = \<lparr>hr_success = True, hr_errorMessage = [], hr_stackTrace = [], hr_duration = 0, hr_messages = []\<rparr>"

definition default_hasStep :: "StepValue list \<Rightarrow> string \<Rightarrow> bool" where
  "default_hasStep steps parameterizedText = list_ex (\<lambda>s. sv_parameterizedStepText s = parameterizedText) steps"

end
