(* ===== verification/TestQueue.thy ===== *)
theory TestQueue
  imports Types "HOL-Library.Word"
begin

text \<open>
  \<open>src/src/engine/test_queue.h\<close>: the queue of submitted tests, a deque kept by descending
  priority and, within a priority, in order of arrival. Every method is one critical section
  of the queue's mutex, so a method is one function on the state; what it publishes on the
  event bus is returned beside the new state. The local-time stamp of a task id comes from
  the C library and the host's time zone and is the parameter \<open>stamp\<close>. The contract, one
  FIFO lane per priority, is the locale \<open>priority_lanes\<close>, interpreted on this queue.
\<close>

section \<open>State and operations\<close>

record TestTask =
  tk_request :: TestRequest
  tk_submitTime :: TimePoint
  tk_sequence :: nat

record test_queue =
  q_items :: "TestTask list"
  q_closed :: bool
  q_sequence :: nat
  q_idCounter :: "32 word"

text \<open>An event as \<open>publishEvent\<close> gets it: its type, the test id and the data.\<close>

type_synonym publication = "string \<times> string \<times> (string, string) omap"

definition empty_queue :: test_queue where
  "empty_queue = \<lparr>q_items = [], q_closed = False, q_sequence = 0, q_idCounter = 0\<rparr>"

abbreviation task_id :: "TestTask \<Rightarrow> string" where
  "task_id t \<equiv> rq_id (tk_request t)"

abbreviation task_priority :: "TestTask \<Rightarrow> Priority" where
  "task_priority t \<equiv> rq_priority (tk_request t)"

text \<open>The id \<open>test-<stamp>-<counter mod 1000>\<close>.\<close>

definition generateTaskId :: "(TimePoint \<Rightarrow> string) \<Rightarrow> TimePoint \<Rightarrow> test_queue \<Rightarrow> test_queue \<times> string" where
  "generateTaskId stamp tp q =
     (let c = q_idCounter q + 1
      in (q\<lparr>q_idCounter := c\<rparr>,
          ''test-'' @ stamp tp @ ''-'' @ pad_zeros 3 (dec_of_nat (unat c mod 1000))))"

definition insert_task :: "TestTask \<Rightarrow> TestTask list \<Rightarrow> TestTask list" where
  "insert_task t items =
     (let stays = (\<lambda>x. \<not> priorityValue (task_priority x) < priorityValue (task_priority t))
      in takeWhile stays items @ t # dropWhile stays items)"

definition queue_event :: "string \<Rightarrow> test_queue \<Rightarrow> string \<Rightarrow> publication" where
  "queue_event taskId q action =
     (''queue.updated'', taskId,
      omap_of_list [(''queue_size'', dec_of_nat (length (q_items q))), (''action'', action)])"

definition new_task :: "(TimePoint \<Rightarrow> string) \<Rightarrow> TimePoint \<Rightarrow> TestRequest \<Rightarrow> test_queue
    \<Rightarrow> test_queue \<times> TestTask" where
  "new_task stamp now request q =
     (let q1 = q\<lparr>q_sequence := q_sequence q + 1\<rparr>;
          (q2, taskId) = (if rq_id request = [] then generateTaskId stamp now q1 else (q1, rq_id request))
      in (q2, \<lparr>tk_request = request\<lparr>rq_id := taskId\<rparr>, tk_submitTime = now, tk_sequence = q_sequence q2\<rparr>))"

definition enqueue :: "(TimePoint \<Rightarrow> string) \<Rightarrow> TimePoint \<Rightarrow> TestRequest \<Rightarrow> test_queue
    \<Rightarrow> test_queue \<times> string \<times> publication list" where
  "enqueue stamp now request q =
     (let (q2, task) = new_task stamp now request q;
          q3 = q2\<lparr>q_items := insert_task task (q_items q2)\<rparr>
      in (q3, task_id task, [queue_event (task_id task) q3 ''enqueued'']))"

definition dequeue :: "test_queue \<Rightarrow> (TestTask \<times> test_queue) option" where
  "dequeue q = (case q_items q of [] \<Rightarrow> None | t # ts \<Rightarrow> Some (t, q\<lparr>q_items := ts\<rparr>))"

text \<open>
  \<open>waitAndDequeue\<close> once its wait is over: the wait ends when the queue is closed, when it has
  an item, or at the timeout, and in each case the front item is taken if there is one.
\<close>

definition wait_over :: "bool \<Rightarrow> test_queue \<Rightarrow> bool" where
  "wait_over timed_out q = (q_closed q \<or> q_items q \<noteq> [] \<or> timed_out)"

definition waitAndDequeue :: "bool \<Rightarrow> test_queue \<Rightarrow> (TestTask \<times> test_queue) option option" where
  "waitAndDequeue timed_out q = (if wait_over timed_out q then Some (dequeue q) else None)"

fun remove_first :: "('a \<Rightarrow> bool) \<Rightarrow> 'a list \<Rightarrow> 'a list" where
  "remove_first P [] = []"
| "remove_first P (x # xs) = (if P x then xs else x # remove_first P xs)"

definition queue_contains :: "string \<Rightarrow> test_queue \<Rightarrow> bool" where
  "queue_contains taskId q = list_ex (\<lambda>t. task_id t = taskId) (q_items q)"

definition cancel_queued :: "string \<Rightarrow> test_queue \<Rightarrow> test_queue \<times> bool \<times> publication list" where
  "cancel_queued taskId q =
     (if queue_contains taskId q
      then (let q' = q\<lparr>q_items := remove_first (\<lambda>t. task_id t = taskId) (q_items q)\<rparr>
            in (q', True, [queue_event taskId q' ''cancelled'']))
      else (q, False, []))"

fun position_from :: "int \<Rightarrow> string \<Rightarrow> TestTask list \<Rightarrow> int" where
  "position_from idx taskId [] = -1"
| "position_from idx taskId (t # ts) = (if task_id t = taskId then idx else position_from (idx + 1) taskId ts)"

definition position :: "string \<Rightarrow> test_queue \<Rightarrow> int" where
  "position taskId q = position_from 0 taskId (q_items q)"

definition queue_size :: "test_queue \<Rightarrow> nat" where
  "queue_size q = length (q_items q)"

definition clear_queue :: "test_queue \<Rightarrow> test_queue" where
  "clear_queue q = q\<lparr>q_items := []\<rparr>"

definition close_queue :: "test_queue \<Rightarrow> test_queue" where
  "close_queue q = q\<lparr>q_closed := True\<rparr>"

definition reopen_queue :: "test_queue \<Rightarrow> test_queue" where
  "reopen_queue q = q\<lparr>q_closed := False\<rparr>"

definition getTaskIds :: "test_queue \<Rightarrow> string list" where
  "getTaskIds q = map task_id (q_items q)"

section \<open>The contract: one FIFO lane per priority\<close>

locale priority_lanes =
  fixes inv :: "'q \<Rightarrow> bool"
    and put :: "'a \<Rightarrow> 'q \<Rightarrow> 'q"
    and pop :: "'q \<Rightarrow> ('a \<times> 'q) option"
    and lane :: "'q \<Rightarrow> 'p::linorder \<Rightarrow> 'a list"
    and prio :: "'a \<Rightarrow> 'p"
  assumes inv_put: "inv q \<Longrightarrow> inv (put x q)"
    and lane_put: "inv q \<Longrightarrow> lane (put x q) p = lane q p @ (if prio x = p then [x] else [])"
    and inv_pop: "inv q \<Longrightarrow> pop q = Some (x, q') \<Longrightarrow> inv q'"
    and pop_None: "inv q \<Longrightarrow> pop q = None \<longleftrightarrow> (\<forall>p. lane q p = [])"
    and pop_lane: "inv q \<Longrightarrow> pop q = Some (x, q') \<Longrightarrow>
      lane q p = (if prio x = p then x # lane q' p else lane q' p)"
    and pop_highest: "inv q \<Longrightarrow> pop q = Some (x, q') \<Longrightarrow> prio x < p \<Longrightarrow> lane q p = []"
    and lane_mem: "x \<in> set (lane q p) \<Longrightarrow> prio x = p"
begin

text \<open>The tasks served by \<open>n\<close> pops in a row.\<close>

primrec served :: "nat \<Rightarrow> 'q \<Rightarrow> 'a list" where
  "served 0 q = []"
| "served (Suc n) q = (case pop q of None \<Rightarrow> [] | Some (x, q') \<Rightarrow> x # served n q')"

lemma served_lane: "inv q \<Longrightarrow> \<exists>rest. lane q p = filter (\<lambda>x. prio x = p) (served n q) @ rest"
proof (induction n arbitrary: q)
  case (Suc n)
  show ?case
  proof (cases "pop q")
    case (Some xq)
    then obtain x q' where pop: "pop q = Some (x, q')" by (cases xq) simp
    with Suc obtain rest where "lane q' p = filter (\<lambda>x. prio x = p) (served n q') @ rest"
      using inv_pop by blast
    with pop pop_lane [OF Suc.prems pop, of p] show ?thesis by simp
  qed simp
qed simp

lemma served_member: "inv q \<Longrightarrow> x \<in> set (served n q) \<Longrightarrow> x \<in> set (lane q (prio x))"
  using served_lane [of q "prio x" n] by auto

lemma served_sorted: "inv q \<Longrightarrow> sorted_wrt (\<lambda>a b. prio b \<le> prio a) (served n q)"
proof (induction n arbitrary: q)
  case (Suc n)
  show ?case
  proof (cases "pop q")
    case (Some xq)
    then obtain x q' where pop: "pop q = Some (x, q')" by (cases xq) simp
    have "prio y \<le> prio x" if "y \<in> set (served n q')" for y
    proof (rule ccontr)
      assume "\<not> prio y \<le> prio x"
      then have "lane q (prio y) = []" using pop_highest [OF Suc.prems pop] by simp
      moreover have "y \<in> set (lane q' (prio y))"
        using served_member [OF inv_pop [OF Suc.prems pop] that] .
      ultimately show False using pop_lane [OF Suc.prems pop, of "prio y"] by (auto split: if_splits)
    qed
    with pop Suc.IH [OF inv_pop [OF Suc.prems pop]] show ?thesis by simp
  qed simp
qed simp

text \<open>A task put into the queue does not change what is served before it.\<close>

lemma put_after_pop:
  assumes "inv q" and "pop q = Some (y, q')" and "prio x \<le> prio y" and "pop (put x q) = Some (z, q'')"
  shows "z = y"
proof -
  have "lane (put x q) (prio y) = y # lane q' (prio y) @ (if prio x = prio y then [x] else [])"
    using assms by (simp add: lane_put pop_lane [OF assms(1,2)])
  moreover have "lane (put x q) (prio z) = z # lane q'' (prio z)"
    using pop_lane [OF inv_put [OF assms(1)] assms(4), of "prio z"] by simp
  moreover have "prio z = prio y"
  proof (rule antisym)
    show "prio z \<le> prio y"
    proof (rule ccontr)
      assume "\<not> prio z \<le> prio y"
      then have "lane q (prio z) = []" "prio z \<noteq> prio x"
        using pop_highest [OF assms(1,2)] assms(3) by auto
      then show False using calculation(2) by (simp add: lane_put [OF assms(1)])
    qed
    show "prio y \<le> prio z"
      using pop_highest [OF inv_put [OF assms(1)] assms(4), of "prio y"] calculation(1) by force
  qed
  ultimately show ?thesis by simp
qed

end

section \<open>The queue keeps the contract\<close>

definition queue_ok :: "test_queue \<Rightarrow> bool" where
  "queue_ok q = (sorted_wrt (\<lambda>a b. task_priority b \<le> task_priority a) (q_items q)
     \<and> sorted_wrt (\<lambda>a b. task_priority a = task_priority b \<longrightarrow> tk_sequence a < tk_sequence b) (q_items q)
     \<and> (\<forall>t \<in> set (q_items q). tk_sequence t \<le> q_sequence q))"

lemma priorityValue_less [simp]: "priorityValue p < priorityValue p' \<longleftrightarrow> p < p'"
  by (simp add: less_Priority_def)

lemma insert_task_eq:
  "insert_task t items = takeWhile (\<lambda>x. task_priority t \<le> task_priority x) items
     @ t # dropWhile (\<lambda>x. task_priority t \<le> task_priority x) items"
  by (simp add: insert_task_def not_less Let_def)

lemma set_insert_task [simp]: "set (insert_task t items) = insert t (set items)"
  unfolding insert_task_eq by (metis Un_insert_right list.simps(15) set_append takeWhile_dropWhile_id)

lemma length_insert_task [simp]: "length (insert_task t items) = Suc (length items)"
  unfolding insert_task_eq by (metis add_Suc_right length_Cons length_append takeWhile_dropWhile_id)

definition by_priority :: "TestTask list \<Rightarrow> bool" where
  "by_priority items = sorted_wrt (\<lambda>a b. task_priority b \<le> task_priority a) items"

lemma by_priority_takeWhile:
  "by_priority items \<Longrightarrow> takeWhile (\<lambda>x. p \<le> task_priority x) items = filter (\<lambda>x. p \<le> task_priority x) items"
  "by_priority items \<Longrightarrow> dropWhile (\<lambda>x. p \<le> task_priority x) items = filter (\<lambda>x. task_priority x < p) items"
  unfolding by_priority_def
  by (induction items) (auto simp: not_le filter_empty_conv intro!: filter_True [symmetric] filter_False [symmetric]
      dest: leD order_trans)

lemma insert_task_filter:
  "by_priority items \<Longrightarrow> insert_task t items =
     filter (\<lambda>x. task_priority t \<le> task_priority x) items @ t # filter (\<lambda>x. task_priority x < task_priority t) items"
  by (simp add: insert_task_eq by_priority_takeWhile)

lemma by_priority_insert: "by_priority items \<Longrightarrow> by_priority (insert_task t items)"
  unfolding insert_task_filter
  by (auto simp: by_priority_def sorted_wrt_append sorted_wrt_filter)

abbreviation lane_of :: "test_queue \<Rightarrow> Priority \<Rightarrow> TestTask list" where
  "lane_of q p \<equiv> filter (\<lambda>t. task_priority t = p) (q_items q)"

lemma filter_lane: "filter (\<lambda>x. task_priority x = p) (filter (\<lambda>x. R (task_priority x)) xs)
    = (if R p then filter (\<lambda>x. task_priority x = p) xs else [])"
  by (induction xs) auto

interpretation tq: priority_lanes "\<lambda>q. by_priority (q_items q)"
    "\<lambda>t q. q\<lparr>q_items := insert_task t (q_items q)\<rparr>" dequeue lane_of task_priority
proof
  fix q :: test_queue and t :: TestTask and p :: Priority
  assume ok: "by_priority (q_items q)"
  then show "by_priority (q_items (q\<lparr>q_items := insert_task t (q_items q)\<rparr>))"
    by (simp add: by_priority_insert)
  show "lane_of (q\<lparr>q_items := insert_task t (q_items q)\<rparr>) p
      = lane_of q p @ (if task_priority t = p then [t] else [])"
    using filter_lane [of p "\<lambda>x. task_priority t \<le> x"] filter_lane [of p "\<lambda>x. x < task_priority t"]
    by (cases "task_priority t" p rule: linorder_cases)
       (auto simp: insert_task_filter [OF ok] simp del: filter_filter)
qed (auto simp: dequeue_def by_priority_def filter_empty_conv split: list.splits)

text \<open>Every way the queue is used keeps the order and the sequence numbers.\<close>

datatype queue_op = Enq TimePoint TestRequest | Deq | CancelOp string | Clear | Close | Reopen

fun queue_step :: "(TimePoint \<Rightarrow> string) \<Rightarrow> queue_op \<Rightarrow> test_queue \<Rightarrow> test_queue" where
  "queue_step stamp (Enq now rq) q = fst (enqueue stamp now rq q)"
| "queue_step stamp Deq q = (case dequeue q of None \<Rightarrow> q | Some (t, q') \<Rightarrow> q')"
| "queue_step stamp (CancelOp i) q = fst (cancel_queued i q)"
| "queue_step stamp Clear q = clear_queue q"
| "queue_step stamp Close q = close_queue q"
| "queue_step stamp Reopen q = reopen_queue q"

lemma sorted_wrt_remove_first: "sorted_wrt R xs \<Longrightarrow> sorted_wrt R (remove_first P xs)"
proof (induction xs)
  case (Cons x xs)
  have "set (remove_first P xs) \<subseteq> set xs" by (induction xs) auto
  with Cons show ?case by auto
qed simp

lemma set_remove_first: "set (remove_first P xs) \<subseteq> set xs"
  by (induction xs) auto

lemma new_task_facts:
  assumes "new_task stamp now rq q = (q2, task)"
  shows "q_items q2 = q_items q" "tk_sequence task = q_sequence q + 1"
    "q_sequence q2 = q_sequence q + 1" "task_priority task = rq_priority rq"
    "rq_id rq \<noteq> [] \<Longrightarrow> tk_request task = rq"
  using assms by (auto simp: new_task_def generateTaskId_def Let_def split: if_splits)

lemma enqueue_items:
  obtains task where "q_items (fst (enqueue stamp now rq q)) = insert_task task (q_items q)"
    "task_priority task = rq_priority rq" "tk_sequence task = q_sequence q + 1"
    "q_sequence (fst (enqueue stamp now rq q)) = q_sequence q + 1"
    "rq_id rq \<noteq> [] \<Longrightarrow> tk_request task = rq"
proof -
  obtain q2 task where t: "new_task stamp now rq q = (q2, task)" by (cases "new_task stamp now rq q")
  show ?thesis
    using new_task_facts [OF t] by (intro that [of task]) (simp_all add: enqueue_def t Let_def)
qed

definition in_sequence :: "TestTask list \<Rightarrow> bool" where
  "in_sequence = sorted_wrt (\<lambda>a b. task_priority a = task_priority b \<longrightarrow> tk_sequence a < tk_sequence b)"

lemma queue_ok_alt: "queue_ok q \<longleftrightarrow>
    by_priority (q_items q) \<and> in_sequence (q_items q) \<and> (\<forall>t \<in> set (q_items q). tk_sequence t \<le> q_sequence q)"
  by (simp add: queue_ok_def by_priority_def in_sequence_def)

lemma in_sequence_insert:
  assumes "by_priority items" "in_sequence items" "\<forall>x \<in> set items. tk_sequence x < tk_sequence t"
  shows "in_sequence (insert_task t items)"
  using assms unfolding insert_task_filter [OF assms(1)]
  by (auto simp: in_sequence_def sorted_wrt_append sorted_wrt_filter)

lemma queue_ok_step: "queue_ok q \<Longrightarrow> queue_ok (queue_step stamp oper q)"
proof (cases oper)
  case (Enq now rq)
  assume ok: "queue_ok q"
  obtain task where it: "q_items (fst (enqueue stamp now rq q)) = insert_task task (q_items q)"
    and sq: "tk_sequence task = q_sequence q + 1"
      "q_sequence (fst (enqueue stamp now rq q)) = q_sequence q + 1"
    using enqueue_items [of stamp now rq q] by blast
  from ok have newer: "\<forall>x \<in> set (q_items q). tk_sequence x < tk_sequence task"
    unfolding queue_ok_alt sq by force
  from ok have "by_priority (insert_task task (q_items q))" "in_sequence (insert_task task (q_items q))"
    using newer by (simp_all add: queue_ok_alt by_priority_insert in_sequence_insert)
  moreover from ok have "\<forall>x \<in> set (insert_task task (q_items q)). tk_sequence x \<le> q_sequence q + 1"
    by (auto simp: queue_ok_alt sq)
  ultimately show ?thesis
    unfolding queue_ok_alt Enq queue_step.simps it sq by blast
next
  case (CancelOp i)
  then show "queue_ok q \<Longrightarrow> ?thesis"
    using set_remove_first [of _ "q_items q"]
    by (auto simp: queue_ok_def cancel_queued_def Let_def sorted_wrt_remove_first)
qed (auto simp: queue_ok_def dequeue_def clear_queue_def close_queue_def reopen_queue_def split: list.splits)

definition queue_run :: "(TimePoint \<Rightarrow> string) \<Rightarrow> queue_op list \<Rightarrow> test_queue" where
  "queue_run stamp ops = foldl (\<lambda>q oper. queue_step stamp oper q) empty_queue ops"

lemma queue_run_ok: "queue_ok (queue_run stamp ops)"
proof (induction ops rule: rev_induct)
  case Nil
  then show ?case by (simp add: queue_run_def queue_ok_def empty_queue_def)
next
  case (snoc x xs)
  then show ?case by (simp add: queue_run_def queue_ok_step)
qed

text \<open>
  C7. Whatever was enqueued, cancelled and taken before, the task that is taken next has the
  highest priority in the queue and, among those, is the one that was submitted first.
\<close>

theorem dequeue_order:
  assumes "dequeue (queue_run stamp ops) = Some (t, q')" and "u \<in> set (q_items q')"
  shows "task_priority u < task_priority t \<or>
    (task_priority u = task_priority t \<and> tk_sequence t < tk_sequence u)"
  using assms queue_run_ok [of stamp ops]
  by (cases "q_items (queue_run stamp ops)") (force simp: dequeue_def queue_ok_def)+

theorem dequeue_order_witness:
  "let q = queue_run (\<lambda>_. []) [Enq 0 default_TestRequest, Enq 1 (default_TestRequest\<lparr>rq_priority := HIGH\<rparr>)]
   in \<exists>t q' u. dequeue q = Some (t, q') \<and> u \<in> set (q_items q') \<and>
     (task_priority u < task_priority t \<or> (task_priority u = task_priority t \<and> tk_sequence t < tk_sequence u))"
proof -
  let ?q = "queue_run (\<lambda>_. []) [Enq 0 default_TestRequest, Enq 1 (default_TestRequest\<lparr>rq_priority := HIGH\<rparr>)]"
  have "length (q_items ?q) = 2"
    by (simp add: queue_run_def empty_queue_def enqueue_def new_task_def generateTaskId_def Let_def)
  then obtain t u ts where "q_items ?q = t # u # ts"
    by (metis (no_types) Suc_1 length_Suc_conv One_nat_def)
  then have "dequeue ?q = Some (t, ?q\<lparr>q_items := u # ts\<rparr>)" by (simp add: dequeue_def)
  with dequeue_order [OF this, of u] show ?thesis
    unfolding Let_def by (intro exI [of _ t] exI [of _ "?q\<lparr>q_items := u # ts\<rparr>"] exI [of _ u]) simp
qed

text \<open>
  A task with a fresh id is queued behind every task of the same or a higher priority, and
  before every task of a lower one: its position is the number of the former.
\<close>

lemma enqueue_position:
  assumes "queue_ok q" and "rq_id rq \<noteq> []" and "\<not> queue_contains (rq_id rq) q"
  shows "position (rq_id rq) (fst (enqueue stamp now rq q))
    = int (length (filter (\<lambda>t. rq_priority rq \<le> task_priority t) (q_items q)))"
proof -
  have pos: "position_from i (task_id t) (xs @ t # ys) = i + int (length xs)"
    if "\<forall>x \<in> set xs. task_id x \<noteq> task_id t" for i t xs ys
    using that by (induction xs arbitrary: i) auto
  obtain task where it: "q_items (fst (enqueue stamp now rq q)) = insert_task task (q_items q)"
    and rq: "tk_request task = rq"
    using assms(2) enqueue_items [of stamp now rq q] by metis
  let ?xs = "filter (\<lambda>t. rq_priority rq \<le> task_priority t) (q_items q)"
  have "\<forall>x \<in> set ?xs. task_id x \<noteq> task_id task"
    using assms(3) by (auto simp: queue_contains_def list_ex_iff rq)
  from pos [OF this, of 0] show ?thesis
    using assms(1) by (simp add: position_def it insert_task_filter queue_ok_alt rq)
qed

lemma enqueue_position_witness:
  "position ''b'' (fst (enqueue (\<lambda>_. []) 5 (default_TestRequest\<lparr>rq_id := ''b''\<rparr>)
     (queue_run (\<lambda>_. []) [Enq 0 (default_TestRequest\<lparr>rq_id := ''a''\<rparr>)]))) = 1"
proof -
  let ?q = "queue_run (\<lambda>_. []) [Enq 0 (default_TestRequest\<lparr>rq_id := ''a''\<rparr>)]"
  have items: "map task_id (q_items ?q) = [''a'']" "map task_priority (q_items ?q) = [NORMAL]"
    by (simp_all add: queue_run_def empty_queue_def enqueue_def insert_task_def default_TestRequest_def Let_def new_task_def)
  then show ?thesis
    using enqueue_position [OF queue_run_ok, of "default_TestRequest\<lparr>rq_id := ''b''\<rparr>"
        "\<lambda>_. []" "[Enq 0 (default_TestRequest\<lparr>rq_id := ''a''\<rparr>)]" "\<lambda>_. []" 5]
    by (auto simp: queue_contains_def default_TestRequest_def)
qed

text \<open>\<open>n\<close> dequeues in a row, as the worker makes them when nothing else is submitted.\<close>

primrec dequeue_n :: "nat \<Rightarrow> test_queue \<Rightarrow> TestTask list" where
  "dequeue_n 0 q = []"
| "dequeue_n (Suc n) q = (case dequeue q of None \<Rightarrow> [] | Some (t, q') \<Rightarrow> t # dequeue_n n q')"

lemma dequeue_n_served: "dequeue_n n q = tq.served n q"
  by (induction n arbitrary: q) (auto split: option.splits)


end
