(* ===== verification/RunnerPool.thy ===== *)
theory RunnerPool
  imports RunnerTypes JsonConvert TestQueue
begin

text \<open>
  \<open>src/src/runner/runner_bridge.cpp\<close> and \<open>runner_bridge.h\<close>: the pool of runner processes. The
  pool's data are guarded by one mutex; a function here is one block of code that holds it, or
  the composition of such blocks with the calls to a runner between them. A runner is a value
  of type \<open>'r\<close>, and what it does goes through the parameter \<open>runners\<close>, acting on a world
  \<open>'w\<close>: the processes, their pipes and the factory of an embedder are not part of the code
  here. A condition variable is the condition under which its wait ends. The environment
  variable and the search for bundled scripts are arguments; quoting is that of POSIX systems.
\<close>

section \<open>Configuration\<close>

record RunnerConfig =
  rg_language :: string
  rg_command :: string
  rg_workingDir :: string
  rg_env :: "(string, string) omap"
  rg_connectionTimeoutMs :: int
  rg_requestTimeoutMs :: int
  rg_autoRestart :: bool
  rg_maxRestarts :: int
  rg_mockDelayMs :: int
  rg_poolSize :: int

definition default_RunnerConfig :: RunnerConfig where
  "default_RunnerConfig = \<lparr>rg_language = ''mock'', rg_command = [], rg_workingDir = [], rg_env = [],
     rg_connectionTimeoutMs = 15000, rg_requestTimeoutMs = 60000, rg_autoRestart = True, rg_maxRestarts = 5,
     rg_mockDelayMs = 0, rg_poolSize = 1\<rparr>"

definition pool_limit :: int where
  "pool_limit = 64"

definition needs_quotes :: "string \<Rightarrow> bool" where
  "needs_quotes s = list_ex (\<lambda>c. c \<in> set ([CHR '' '', CHR 0x09, CHR 0x22, CHR 0x27, CHR ''$'', CHR 0x60, CHR 0x5C])) s"

definition quoteShell :: "string \<Rightarrow> string" where
  "quoteShell s =
     (if \<not> needs_quotes s then s
      else CHR 0x27 # concat (map (\<lambda>c. if c = CHR 0x27 then [CHR 0x27, CHR 0x5C, CHR 0x27, CHR 0x27] else [c]) s) @ [CHR 0x27])"

text \<open>\<open>env_cmd\<close> is the value of \<open>TESTHUB_RUNNER_CMD\<close>, \<open>located\<close> the path of a bundled script or nothing.\<close>

definition defaultCommandForLanguage :: "string \<Rightarrow> (string \<Rightarrow> string) \<Rightarrow> string \<Rightarrow> string" where
  "defaultCommandForLanguage env_cmd located language =
     (if env_cmd \<noteq> [] then env_cmd
      else if language = ''python'' \<or> language = ''py''
      then (let script = located ''runners/python/testhub_runner.py''
            in if script \<noteq> [] then ''python3'' @ '' '' @ quoteShell script else ''python3'' @ '' -m testhub_runner'')
      else if language = ''node'' \<or> language = ''js'' \<or> language = ''javascript'' \<or> language = ''nodejs''
      then (let script = located ''runners/node/testhub_runner.js''
            in if script \<noteq> [] then ''node '' @ quoteShell script else ''node testhub_runner.js'')
      else if language = ''mock'' \<or> language = ''none'' \<or> language = [] then []
      else ''testhub-runner-'' @ language)"

text \<open>Which runner \<open>createRunner\<close> makes, before it exists.\<close>

datatype runner_choice =
    From_factory
  | Mock int
  | Process string string "(string, string) omap" int

definition createRunner :: "bool \<Rightarrow> string \<Rightarrow> (string \<Rightarrow> string) \<Rightarrow> RunnerConfig \<Rightarrow> nat \<Rightarrow> nat \<Rightarrow> runner_choice" where
  "createRunner factory env_cmd located c slotIndex slots =
     (if factory then From_factory
      else if (rg_language c = ''mock'' \<or> rg_language c = ''none'' \<or> rg_language c = []) \<and> rg_command c = []
      then Mock (rg_mockDelayMs c)
      else let command = (if rg_command c = [] then defaultCommandForLanguage env_cmd located (rg_language c) else rg_command c)
        in if command = [] then Mock (rg_mockDelayMs c)
           else Process command (rg_workingDir c)
             (omap_put ''TESTHUB_RUNNER_POOL_SIZE'' (dec_of_nat slots)
               (omap_put ''TESTHUB_RUNNER_INDEX'' (dec_of_nat slotIndex) (rg_env c)))
             (rg_connectionTimeoutMs c))"

section \<open>Slots and the pool\<close>

record 'r slot =
  sl_index :: nat
  sl_runner :: "'r option"
  sl_state :: RunnerState
  sl_restartCount :: int
  sl_lastError :: string
  sl_startedAt :: TimePoint
  sl_lastHeartbeat :: TimePoint
  sl_stepsExecuted :: nat
  sl_users :: nat
  sl_restarting :: bool

definition new_slot :: "nat \<Rightarrow> 'r slot" where
  "new_slot i = \<lparr>sl_index = i, sl_runner = None, sl_state = DISCONNECTED, sl_restartCount = 0, sl_lastError = [],
     sl_startedAt = 0, sl_lastHeartbeat = 0, sl_stepsExecuted = 0, sl_users = 0, sl_restarting = False\<rparr>"

record 'r pool =
  po_config :: RunnerConfig
  po_slots :: "'r slot list"
  po_draining :: bool
  po_safe :: bool

definition new_pool :: "'r pool" where
  "new_pool = \<lparr>po_config = default_RunnerConfig, po_slots = [], po_draining = False, po_safe = False\<rparr>"

definition upd_slot :: "nat \<Rightarrow> ('r slot \<Rightarrow> 'r slot) \<Rightarrow> 'r pool \<Rightarrow> 'r pool" where
  "upd_slot i f p = (if i < length (po_slots p) then p\<lparr>po_slots := (po_slots p)[i := f (po_slots p ! i)]\<rparr> else p)"

definition pool_size :: "'r pool \<Rightarrow> nat" where
  "pool_size p = (if po_slots p = [] then 1 else length (po_slots p))"

section \<open>Reserving and releasing slots\<close>

definition slot_usable :: "RunnerConfig \<Rightarrow> 'r slot \<Rightarrow> bool" where
  "slot_usable c s = (sl_state s \<noteq> RUNNER_ERROR \<or> rg_autoRestart c \<and> sl_restartCount s < rg_maxRestarts c)"

text \<open>
  \<open>reserveSlots\<close> up to its wait: nothing when there is no pool, else the number of slots and
  whether it waits for the shared slot.
\<close>

definition ask_slots :: "int \<Rightarrow> 'r pool \<Rightarrow> (nat \<times> bool) option" where
  "ask_slots n0 p =
     (let n = (if n0 < 1 then 1 else nat n0) in
      if po_slots p = [] then None
      else if po_safe p then Some (n, True)
      else Some (min n (length (po_slots p)), False))"

text \<open>The end of the wait for the shared slot, and the reservation: \<open>None\<close> while it waits.\<close>

definition take_shared :: "nat \<Rightarrow> 'r pool \<Rightarrow> (nat list \<times> 'r pool) option" where
  "take_shared n p =
     (if po_draining p \<or> po_slots p = [] then None
      else Some (replicate n 0, upd_slot 0 (\<lambda>s. s\<lparr>sl_users := sl_users s + n\<rparr>) p))"

definition free_slots :: "('r slot \<Rightarrow> bool) \<Rightarrow> 'r pool \<Rightarrow> nat list" where
  "free_slots P p = map sl_index (filter (\<lambda>s. sl_users s = 0 \<and> P s) (po_slots p))"

text \<open>The predicate of the wait for exclusive slots, with the slots it chooses.\<close>

definition choose_slots :: "nat \<Rightarrow> 'r pool \<Rightarrow> nat list option" where
  "choose_slots n p =
     (if po_draining p \<or> po_slots p = [] then None
      else let usable = slot_usable (po_config p);
             connected = free_slots (\<lambda>s. usable s \<and> sl_state s = CONNECTED) p;
             freeUsable = free_slots usable p;
             freeAny = free_slots (\<lambda>s. True) p
        in if length connected \<ge> n then Some (take n connected)
           else if length freeUsable \<ge> n then Some (take n freeUsable)
           else if \<not> list_ex usable (po_slots p) \<and> length freeAny \<ge> n then Some (take n freeAny)
           else None)"

definition occupy :: "nat list \<Rightarrow> 'r pool \<Rightarrow> 'r pool" where
  "occupy chosen p = foldl (\<lambda>p i. upd_slot i (\<lambda>s. s\<lparr>sl_users := 1\<rparr>) p) p chosen"

definition take_exclusive :: "nat \<Rightarrow> 'r pool \<Rightarrow> (nat list \<times> 'r pool) option" where
  "take_exclusive n p = map_option (\<lambda>chosen. (chosen, occupy chosen p)) (choose_slots n p)"

definition take_slots :: "nat \<times> bool \<Rightarrow> 'r pool \<Rightarrow> (nat list \<times> 'r pool) option" where
  "take_slots rq p = (if snd rq then take_shared (fst rq) p else take_exclusive (fst rq) p)"

text \<open>A reservation by a thread that nothing else runs beside; \<open>None\<close> if it would wait.\<close>

definition reserveSlots :: "int \<Rightarrow> 'r pool \<Rightarrow> (nat list \<times> 'r pool) option" where
  "reserveSlots n p = (case ask_slots n p of None \<Rightarrow> Some ([], p) | Some rq \<Rightarrow> take_slots rq p)"

definition releaseSlot :: "nat \<Rightarrow> 'r pool \<Rightarrow> 'r pool" where
  "releaseSlot i p = upd_slot i (\<lambda>s. if sl_users s > 0 then s\<lparr>sl_users := sl_users s - 1\<rparr> else s) p"

definition pool_idle :: "'r pool \<Rightarrow> bool" where
  "pool_idle p = list_all (\<lambda>s. sl_users s = 0 \<and> \<not> sl_restarting s) (po_slots p)"

section \<open>Runners\<close>

record ('r, 'w) runners =
  ru_create :: "RunnerConfig \<Rightarrow> nat \<Rightarrow> nat \<Rightarrow> 'w \<Rightarrow> 'r \<times> 'w"
  ru_safe :: "'r \<Rightarrow> bool"
  ru_name :: "'r \<Rightarrow> string"
  ru_start :: "'r \<Rightarrow> 'w \<Rightarrow> string option \<times> 'w"
  ru_stop :: "'r \<Rightarrow> 'w \<Rightarrow> 'w"
  ru_alive :: "'r \<Rightarrow> 'w \<Rightarrow> bool"
  ru_pid :: "'r \<Rightarrow> 'w \<Rightarrow> int"
  ru_version :: "'r \<Rightarrow> 'w \<Rightarrow> string"
  ru_cached :: "'r \<Rightarrow> 'w \<Rightarrow> StepValue list"
  ru_steps :: "'r \<Rightarrow> 'w \<Rightarrow> StepValue list \<times> 'w"
  ru_hasStep :: "'r \<Rightarrow> string \<Rightarrow> 'w \<Rightarrow> bool \<times> 'w"
  ru_execute :: "'r \<Rightarrow> StepExecutionRequest \<Rightarrow> 'w \<Rightarrow> StepResult \<times> 'w"
  ru_hook :: "'r \<Rightarrow> HookType \<Rightarrow> ExecutionContext \<Rightarrow> 'w \<Rightarrow> HookResult \<times> 'w"

definition pool_event :: "RunnerConfig \<Rightarrow> string \<Rightarrow> string \<Rightarrow> nat \<Rightarrow> publication" where
  "pool_event c type detail i =
     (type, [], omap_of_list [(''language'', rg_language c), (''detail'', detail), (''slot'', dec_of_nat i)])"

text \<open>The two locked blocks of \<open>startSlot\<close>; the result of the start is \<open>None\<close> or the error.\<close>

definition begin_start :: "nat \<Rightarrow> 'r pool \<Rightarrow> 'r pool" where
  "begin_start i p = upd_slot i (\<lambda>s. s\<lparr>sl_state := CONNECTING, sl_restarting := True\<rparr>) p"

definition end_start :: "TimePoint \<Rightarrow> nat \<Rightarrow> 'r \<Rightarrow> string option \<Rightarrow> 'r pool \<Rightarrow> 'r pool" where
  "end_start now i r failure p = upd_slot i (\<lambda>s.
     (case failure of
        None \<Rightarrow> s\<lparr>sl_runner := Some r, sl_state := CONNECTED, sl_startedAt := now, sl_lastHeartbeat := now, sl_lastError := []\<rparr>
      | Some err \<Rightarrow> s\<lparr>sl_runner := None, sl_state := RUNNER_ERROR, sl_lastError := err\<rparr>)\<lparr>sl_restarting := False\<rparr>) p"

definition startSlot :: "('r, 'w) runners \<Rightarrow> TimePoint \<Rightarrow> nat \<Rightarrow> 'r option \<Rightarrow> 'r pool \<Rightarrow> 'w
    \<Rightarrow> bool \<times> 'r pool \<times> publication list \<times> 'w" where
  "startSlot ru now i probe p w =
     (let p1 = begin_start i p; c = po_config p;
          (r, w1) = (case probe of Some r \<Rightarrow> (r, w) | None \<Rightarrow> ru_create ru c i (length (po_slots p)) w);
          (failure, w2) = ru_start ru r w1;
          last = (case failure of
              None \<Rightarrow> pool_event c ''runner.connected'' (ru_name ru r @ '' connected'') i
            | Some err \<Rightarrow> pool_event c ''runner.error'' err i)
      in (failure = None, end_start now i r failure p1,
          [pool_event c ''runner.connecting'' (''Starting '' @ rg_language c @ '' runner'') i, last], w2))"

text \<open>The remaining slots are started by one thread each; \<open>order\<close> is the order in which they run.\<close>

definition startRest :: "('r, 'w) runners \<Rightarrow> TimePoint \<Rightarrow> nat list \<Rightarrow> 'r pool \<times> publication list \<times> 'w
    \<Rightarrow> 'r pool \<times> publication list \<times> 'w" where
  "startRest ru now order st = foldl (\<lambda>(p, pubs, w) i.
     case startSlot ru now i None p w of (ok, p', pubs', w') \<Rightarrow> (p', pubs @ pubs', w')) st order"

definition startAllSlots :: "('r, 'w) runners \<Rightarrow> TimePoint \<Rightarrow> bool \<Rightarrow> nat list \<Rightarrow> 'r pool \<Rightarrow> 'w
    \<Rightarrow> 'r pool \<times> publication list \<times> 'w" where
  "startAllSlots ru now restart order p w =
     (if po_slots p = [] then (p, [], w)
      else let p1 = (if restart
                     then p\<lparr>po_slots := map (\<lambda>s. s\<lparr>sl_restartCount := sl_restartCount s + 1\<rparr>) (po_slots p)\<rparr> else p);
               (probe, w1) = ru_create ru (po_config p1) 0 (length (po_slots p1)) w;
               (ok, p2, pubs, w2) = startSlot ru now 0 (Some probe) p1 w1
        in if ru_safe ru probe then (p2\<lparr>po_safe := True, po_slots := take 1 (po_slots p2)\<rparr>, pubs, w2)
           else if length (po_slots p2) = 1 then (p2, pubs, w2)
           else startRest ru now (filter (\<lambda>i. 1 \<le> i \<and> i < length (po_slots p2)) order) (p2, pubs, w2))"

definition stop_runners :: "('r, 'w) runners \<Rightarrow> 'r slot list \<Rightarrow> 'w \<Rightarrow> 'w" where
  "stop_runners ru ss w = foldl (\<lambda>w s. case sl_runner s of None \<Rightarrow> w | Some r \<Rightarrow> ru_stop ru r w) w ss"

definition disconnect :: "'r pool \<Rightarrow> 'r pool" where
  "disconnect p = p\<lparr>po_slots := map (\<lambda>s. s\<lparr>sl_runner := None, sl_state := DISCONNECTED\<rparr>) (po_slots p)\<rparr>"

definition stopAllSlots :: "('r, 'w) runners \<Rightarrow> 'r pool \<Rightarrow> 'w \<Rightarrow> 'r pool \<times> publication list \<times> 'w" where
  "stopAllSlots ru p w =
     (disconnect p,
      map (\<lambda>s. pool_event (po_config p) ''runner.disconnected'' ''Runner stopped'' (sl_index s))
        (filter (\<lambda>s. sl_state s \<noteq> DISCONNECTED) (po_slots p)),
      stop_runners ru (po_slots p) w)"

section \<open>Starting, stopping and restarting the pool\<close>

definition slot_started :: "'r slot \<Rightarrow> bool" where
  "slot_started s = (sl_state s = CONNECTED \<or> sl_state s = BUSY)"

definition fresh_slots :: "RunnerConfig \<Rightarrow> 'r pool \<Rightarrow> 'r pool" where
  "fresh_slots c p = p\<lparr>po_config := c, po_safe := False,
     po_slots := map new_slot [0..<nat (max 1 (min pool_limit (rg_poolSize c)))]\<rparr>"

text \<open>
  The three operations on an idle pool; while another thread holds a slot they wait, which is
  \<open>None\<close>. In each the pool is draining until the end.
\<close>

definition start_pool :: "('r, 'w) runners \<Rightarrow> TimePoint \<Rightarrow> nat list \<Rightarrow> RunnerConfig \<Rightarrow> 'r pool \<Rightarrow> 'w
    \<Rightarrow> (bool \<times> 'r pool \<times> publication list \<times> 'w) option" where
  "start_pool ru now order c p w =
     (if list_ex slot_started (po_slots p) then Some (True, p, [], w)
      else if \<not> pool_idle p then None
      else case startAllSlots ru now False order (fresh_slots c (p\<lparr>po_draining := True\<rparr>)) w of
          (p', pubs, w') \<Rightarrow>
            Some (list_ex (\<lambda>s. sl_state s = CONNECTED) (po_slots p'), p'\<lparr>po_draining := False\<rparr>, pubs, w'))"

definition startRunner :: "('r, 'w) runners \<Rightarrow> TimePoint \<Rightarrow> nat list \<Rightarrow> string \<Rightarrow> string \<Rightarrow> 'r pool \<Rightarrow> 'w
    \<Rightarrow> (bool \<times> 'r pool \<times> publication list \<times> 'w) option" where
  "startRunner ru now order language projectPath p w =
     start_pool ru now order (default_RunnerConfig\<lparr>rg_language := language, rg_workingDir := projectPath\<rparr>) p w"

definition stopRunner :: "('r, 'w) runners \<Rightarrow> 'r pool \<Rightarrow> 'w \<Rightarrow> ('r pool \<times> publication list \<times> 'w) option" where
  "stopRunner ru p w =
     (if po_slots p = [] then Some (p, [], w)
      else if \<not> pool_idle p then None
      else case stopAllSlots ru (p\<lparr>po_draining := True\<rparr>) w of
          (p', pubs, w') \<Rightarrow> Some (p'\<lparr>po_draining := False\<rparr>, pubs, w'))"

definition restartRunner :: "('r, 'w) runners \<Rightarrow> TimePoint \<Rightarrow> nat list \<Rightarrow> 'r pool \<Rightarrow> 'w
    \<Rightarrow> (bool \<times> 'r pool \<times> publication list \<times> 'w) option" where
  "restartRunner ru now order p w =
     (if po_slots p = [] then Some (False, p, [], w)
      else if \<not> pool_idle p then None
      else case stopAllSlots ru (p\<lparr>po_draining := True\<rparr>) w of
          (p1, pubs1, w1) \<Rightarrow> case startAllSlots ru now True order p1 w1 of
            (p2, pubs2, w2) \<Rightarrow> Some (list_all (\<lambda>s. sl_state s = CONNECTED) (po_slots p2),
               p2\<lparr>po_draining := False\<rparr>, pubs1 @ pubs2, w2))"

end
