(* ===== verification/RunnerUse.thy ===== *)
theory RunnerUse
  imports RunnerPool
begin

text \<open>
  The use of the runner pool (\<open>src/src/runner/runner_bridge.cpp\<close>): keeping a slot's runner
  alive, running steps and hooks on it, and the status report. \<open>bound\<close> is the slot that the
  calling thread's session holds, if it has one; without one the call reserves a slot for
  itself. \<open>None\<close> is a call that waits: for a slot, or for another thread to finish restarting it.
\<close>

section \<open>Keeping a runner alive\<close>

abbreviation slot_at :: "'r pool \<Rightarrow> nat \<Rightarrow> 'r slot" where
  "slot_at p i \<equiv> po_slots p ! i"

definition slot_alive :: "('r, 'w) runners \<Rightarrow> 'w \<Rightarrow> 'r slot \<Rightarrow> bool" where
  "slot_alive ru w s = (case sl_runner s of None \<Rightarrow> False | Some r \<Rightarrow> ru_alive ru r w)"

definition limit_error :: "RunnerConfig \<Rightarrow> string" where
  "limit_error c = ''Runner restart limit reached ('' @ to_string (rg_maxRestarts c) @ '')''"

definition refuse_restart :: "nat \<Rightarrow> 'r pool \<Rightarrow> 'r pool" where
  "refuse_restart i p = upd_slot i (\<lambda>s. if sl_state s \<noteq> DISCONNECTED
     then s\<lparr>sl_state := RUNNER_ERROR, sl_lastError := ''Runner is not alive''\<rparr> else s) p"

definition begin_restart :: "nat \<Rightarrow> 'r pool \<Rightarrow> 'r pool" where
  "begin_restart i p = upd_slot i (\<lambda>s. s\<lparr>sl_restartCount := sl_restartCount s + 1, sl_restarting := True,
     sl_runner := None, sl_state := CONNECTING\<rparr>) p"

definition can_restart :: "RunnerConfig \<Rightarrow> 'r slot \<Rightarrow> bool" where
  "can_restart c s = (rg_autoRestart c \<and> sl_restartCount s < rg_maxRestarts c)"

definition ensureAlive :: "('r, 'w) runners \<Rightarrow> TimePoint \<Rightarrow> nat \<Rightarrow> 'r pool \<Rightarrow> 'w
    \<Rightarrow> (bool \<times> 'r pool \<times> publication list \<times> 'w) option" where
  "ensureAlive ru now i p w =
     (let s = slot_at p i; c = po_config p in
      if sl_restarting s then None
      else if slot_alive ru w s then Some (True, p, [], w)
      else if \<not> rg_autoRestart c then Some (False, refuse_restart i p, [], w)
      else if sl_restartCount s \<ge> rg_maxRestarts c
      then Some (False, upd_slot i (\<lambda>s. s\<lparr>sl_state := RUNNER_ERROR, sl_lastError := limit_error c\<rparr>) p,
                 if sl_lastError s \<noteq> limit_error c then [pool_event c ''runner.error'' (limit_error c) i] else [], w)
      else Some (startSlot ru now i None (begin_restart i p)
                   (case sl_runner s of None \<Rightarrow> w | Some r \<Rightarrow> ru_stop ru r w)))"

section \<open>Steps and hooks\<close>

definition failed_step :: "StepExecutionRequest \<Rightarrow> string \<Rightarrow> StepResult" where
  "failed_step rq message = StepResult (sq_stepText rq) (sq_parameterizedText rq) TEST_ERROR message [] 0 1 [] [] False"

definition failed_hook :: "string \<Rightarrow> HookResult" where
  "failed_hook message = default_HookResult\<lparr>hr_success := False, hr_errorMessage := message\<rparr>"

definition slot_failure :: "'r slot \<Rightarrow> string" where
  "slot_failure s = (if sl_lastError s = [] then ''Runner not connected'' else sl_lastError s)"

text \<open>After a call to the runner: its heartbeat, and an error if it did not survive the call.\<close>

definition after_call :: "('r, 'w) runners \<Rightarrow> TimePoint \<Rightarrow> nat \<Rightarrow> nat \<Rightarrow> 'r \<Rightarrow> string \<Rightarrow> 'r pool \<Rightarrow> 'w
    \<Rightarrow> 'r pool \<times> publication list" where
  "after_call ru now i steps r err p w =
     (let died = (if err = [] then ''Runner died'' else err);
          p1 = upd_slot i (\<lambda>s. s\<lparr>sl_lastHeartbeat := now, sl_stepsExecuted := sl_stepsExecuted s + steps\<rparr>) p
      in if ru_alive ru r w then (p1, [])
         else (upd_slot i (\<lambda>s. s\<lparr>sl_state := RUNNER_ERROR, sl_lastError := died\<rparr>) p1,
               [pool_event (po_config p) ''runner.error'' died i]))"

definition step_timeout_for :: "RunnerConfig \<Rightarrow> StepExecutionRequest \<Rightarrow> StepExecutionRequest" where
  "step_timeout_for c rq = (if sq_timeoutMs rq \<le> 0 then rq\<lparr>sq_timeoutMs := rg_requestTimeoutMs c\<rparr> else rq)"

definition step_on_slot :: "('r, 'w) runners \<Rightarrow> TimePoint \<Rightarrow> StepExecutionRequest \<Rightarrow> nat \<Rightarrow> 'r pool \<Rightarrow> 'w
    \<Rightarrow> (StepResult \<times> 'r pool \<times> publication list \<times> 'w) option" where
  "step_on_slot ru now rq i p w =
     (case ensureAlive ru now i p w of
        None \<Rightarrow> None
      | Some (ok, p1, pubs, w1) \<Rightarrow>
          if \<not> ok then Some (failed_step rq (slot_failure (slot_at p1 i)), p1, pubs, w1)
          else let r = the (sl_runner (slot_at p1 i));
                   (res, w2) = ru_execute ru r (step_timeout_for (po_config p1) rq) w1;
                   (p2, pubs2) = after_call ru now i 1 r (sr_errorMessage res) p1 w2
               in Some (res, p2, pubs @ pubs2, w2))"

definition hook_on_slot :: "('r, 'w) runners \<Rightarrow> TimePoint \<Rightarrow> HookType \<Rightarrow> ExecutionContext \<Rightarrow> nat \<Rightarrow> 'r pool \<Rightarrow> 'w
    \<Rightarrow> (HookResult \<times> 'r pool \<times> publication list \<times> 'w) option" where
  "hook_on_slot ru now type ctx i p w =
     (case ensureAlive ru now i p w of
        None \<Rightarrow> None
      | Some (ok, p1, pubs, w1) \<Rightarrow>
          if \<not> ok then Some (failed_hook (slot_failure (slot_at p1 i)), p1, pubs, w1)
          else let r = the (sl_runner (slot_at p1 i));
                   (res, w2) = ru_hook ru r type ctx w1;
                   (p2, pubs2) = after_call ru now i 0 r (hr_errorMessage res) p1 w2
               in Some (res, p2, pubs @ pubs2, w2))"

text \<open>\<open>boundSlot\<close>: the slot of the thread's session, if the pool still has it.\<close>

definition boundSlot :: "nat option \<Rightarrow> 'r pool \<Rightarrow> nat option" where
  "boundSlot bound p = (case bound of None \<Rightarrow> None | Some i \<Rightarrow> if i < length (po_slots p) then Some i else None)"

text \<open>Runs on the bound slot, or reserves one and releases it; without a slot the result is \<open>fallback\<close>.\<close>

definition on_some_slot :: "nat option \<Rightarrow> 'a \<Rightarrow> (nat \<Rightarrow> 'r pool \<Rightarrow> 'w \<Rightarrow> ('a \<times> 'r pool \<times> publication list \<times> 'w) option)
    \<Rightarrow> 'r pool \<Rightarrow> 'w \<Rightarrow> ('a \<times> 'r pool \<times> publication list \<times> 'w) option" where
  "on_some_slot bound fallback run p w =
     (case boundSlot bound p of
        Some i \<Rightarrow> run i p w
      | None \<Rightarrow> (case reserveSlots 1 p of
            None \<Rightarrow> None
          | Some ([], p1) \<Rightarrow> Some (fallback, p1, [], w)
          | Some (i # is, p1) \<Rightarrow> (case run i p1 w of
                None \<Rightarrow> None
              | Some (res, p2, pubs, w2) \<Rightarrow> Some (res, releaseSlot i p2, pubs, w2))))"

definition bridge_executeStep :: "('r, 'w) runners \<Rightarrow> TimePoint \<Rightarrow> nat option \<Rightarrow> StepExecutionRequest \<Rightarrow> 'r pool \<Rightarrow> 'w
    \<Rightarrow> (StepResult \<times> 'r pool \<times> publication list \<times> 'w) option" where
  "bridge_executeStep ru now bound rq p w =
     on_some_slot bound (failed_step rq ''Runner not available'') (step_on_slot ru now rq) p w"

definition bridge_runHook :: "('r, 'w) runners \<Rightarrow> TimePoint \<Rightarrow> nat option \<Rightarrow> HookType \<Rightarrow> ExecutionContext \<Rightarrow> 'r pool \<Rightarrow> 'w
    \<Rightarrow> (HookResult \<times> 'r pool \<times> publication list \<times> 'w) option" where
  "bridge_runHook ru now bound type ctx p w =
     on_some_slot bound (failed_hook ''Runner not available'') (hook_on_slot ru now type ctx) p w"

definition anyAliveRunner :: "('r, 'w) runners \<Rightarrow> 'w \<Rightarrow> 'r pool \<Rightarrow> 'r option" where
  "anyAliveRunner ru w p =
     (case find (\<lambda>s. sl_state s = CONNECTED \<and> slot_alive ru w s) (po_slots p) of None \<Rightarrow> None | Some s \<Rightarrow> sl_runner s)"

text \<open>A question to any runner, on a freshly reserved slot if none is alive.\<close>

definition ask_runner :: "('r, 'w) runners \<Rightarrow> TimePoint \<Rightarrow> 'a \<Rightarrow> ('r \<Rightarrow> 'w \<Rightarrow> 'a \<times> 'w) \<Rightarrow> 'r pool \<Rightarrow> 'w
    \<Rightarrow> ('a \<times> 'r pool \<times> publication list \<times> 'w) option" where
  "ask_runner ru now fallback ask p w =
     (case anyAliveRunner ru w p of
        Some r \<Rightarrow> (case ask r w of (a, w') \<Rightarrow> Some (a, p, [], w'))
      | None \<Rightarrow> on_some_slot None fallback (\<lambda>i p w. case ensureAlive ru now i p w of
            None \<Rightarrow> None
          | Some (ok, p1, pubs, w1) \<Rightarrow>
              if \<not> ok then Some (fallback, p1, pubs, w1)
              else (case ask (the (sl_runner (slot_at p1 i))) w1 of (a, w2) \<Rightarrow> Some (a, p1, pubs, w2))) p w)"

definition getAllSteps :: "('r, 'w) runners \<Rightarrow> TimePoint \<Rightarrow> 'r pool \<Rightarrow> 'w
    \<Rightarrow> (StepValue list \<times> 'r pool \<times> publication list \<times> 'w) option" where
  "getAllSteps ru now p w = ask_runner ru now [] (ru_steps ru) p w"

definition bridge_hasStep :: "('r, 'w) runners \<Rightarrow> TimePoint \<Rightarrow> string \<Rightarrow> 'r pool \<Rightarrow> 'w
    \<Rightarrow> (bool \<times> 'r pool \<times> publication list \<times> 'w) option" where
  "bridge_hasStep ru now t p w = ask_runner ru now True (\<lambda>r. ru_hasStep ru r t) p w"

section \<open>Status\<close>

definition isConnected :: "('r, 'w) runners \<Rightarrow> 'w \<Rightarrow> 'r pool \<Rightarrow> bool" where
  "isConnected ru w p = list_ex (\<lambda>s. slot_started s \<and> slot_alive ru w s) (po_slots p)"

definition shown_state :: "('r, 'w) runners \<Rightarrow> 'w \<Rightarrow> 'r slot \<Rightarrow> RunnerState" where
  "shown_state ru w s =
     (let alive = slot_alive ru w s; st = (if sl_state s = CONNECTED \<and> \<not> alive then RUNNER_ERROR else sl_state s)
      in if alive \<and> sl_users s > 0 then BUSY else st)"

definition shown_error :: "('r, 'w) runners \<Rightarrow> 'w \<Rightarrow> RunnerConfig \<Rightarrow> 'r slot \<Rightarrow> string" where
  "shown_error ru w c s =
     (if sl_state s = CONNECTED \<and> \<not> slot_alive ru w s \<and> sl_lastError s = []
      then (if can_restart c s then ''Runner process exited (will be restarted on next use)'' else ''Runner process exited'')
      else sl_lastError s)"

definition slot_status :: "('r, 'w) runners \<Rightarrow> 'w \<Rightarrow> RunnerConfig \<Rightarrow> 'r slot \<Rightarrow> RunnerSlotStatus" where
  "slot_status ru w c s = \<lparr>ss_index = int (sl_index s), ss_state = shown_state ru w s,
     ss_pid = (case sl_runner s of None \<Rightarrow> 0 | Some r \<Rightarrow> ru_pid ru r w),
     ss_version = (case sl_runner s of None \<Rightarrow> [] | Some r \<Rightarrow> ru_version ru r w),
     ss_restartCount = sl_restartCount s, ss_stepsExecuted = int (sl_stepsExecuted s), ss_busy = (sl_users s > 0),
     ss_lastError = shown_error ru w c s, ss_startedAt = sl_startedAt s, ss_lastHeartbeat = sl_lastHeartbeat s\<rparr>"

definition pool_state :: "nat \<Rightarrow> nat \<Rightarrow> RunnerSlotStatus list \<Rightarrow> RunnerState" where
  "pool_state alive busy ss =
     (if alive > 0 then (if busy > 0 then BUSY else CONNECTED)
      else if list_ex (\<lambda>s. ss_state s = CONNECTING) ss then CONNECTING
      else if list_ex (\<lambda>s. ss_state s = RUNNER_ERROR) ss then RUNNER_ERROR
      else DISCONNECTED)"

definition pool_error :: "'r slot list \<Rightarrow> RunnerSlotStatus list \<Rightarrow> string" where
  "pool_error slots ss =
     (case find (\<lambda>s. ss_state s = RUNNER_ERROR) ss of
        Some s \<Rightarrow> if ss_lastError s = [] then ''Runner is not alive'' else ss_lastError s
      | None \<Rightarrow> (case find (\<lambda>s. sl_lastError s \<noteq> []) slots of None \<Rightarrow> [] | Some s \<Rightarrow> sl_lastError s))"

definition getStatus_pool :: "('r, 'w) runners \<Rightarrow> string \<Rightarrow> (string \<Rightarrow> string) \<Rightarrow> 'r pool \<Rightarrow> 'w \<Rightarrow> RunnerStatus" where
  "getStatus_pool ru env_cmd located p w =
     (let c = po_config p; slots = po_slots p; ss = map (slot_status ru w c) slots;
          alive = filter (slot_alive ru w) slots; busy = filter (\<lambda>s. sl_users s > 0) alive;
          command = (if rg_command c = [] then defaultCommandForLanguage env_cmd located (rg_language c) else rg_command c);
          source = (case alive of [] \<Rightarrow> None | s # ss \<Rightarrow> sl_runner s)
      in \<lparr>rs_state = pool_state (length alive) (length busy) ss, rs_language = rg_language c,
          rs_command = (if command = [] then ''builtin:mock'' else command),
          rs_pid = (case source of None \<Rightarrow> 0 | Some r \<Rightarrow> ru_pid ru r w),
          rs_version = (case source of None \<Rightarrow> [] | Some r \<Rightarrow> ru_version ru r w),
          rs_implementedSteps = (case source of None \<Rightarrow> [] | Some r \<Rightarrow> map sv_parameterizedStepText (ru_cached ru r w)),
          rs_lastHeartbeat = foldl max 0 (map sl_lastHeartbeat slots),
          rs_startedAt = (case alive of [] \<Rightarrow> 0 | s # ss \<Rightarrow> sl_startedAt s),
          rs_restartCount = sum_list (map sl_restartCount slots), rs_lastError = pool_error slots ss,
          rs_poolSize = int (pool_size p), rs_aliveCount = int (length alive), rs_busyCount = int (length busy),
          rs_slots = ss\<rparr>)"

end
