(* ===== verification/RunnerPoolFacts.thy ===== *)
theory RunnerPoolFacts
  imports RunnerUse
begin

text \<open>
  The runner pool in every interleaving of the threads that use it: which slots a reservation
  takes, that a slot is held by one session at a time, and two ways in which a restart with
  another configuration upsets the threads that wait meanwhile.
\<close>

section \<open>Which slots a reservation takes\<close>

definition indexed :: "'r pool \<Rightarrow> bool" where
  "indexed p = (map sl_index (po_slots p) = [0..<length (po_slots p)])"

lemma indexed_nth: "indexed p \<Longrightarrow> i < length (po_slots p) \<Longrightarrow> sl_index (slot_at p i) = i"
  unfolding indexed_def by (metis add_0 length_map nth_map nth_upt)

lemma upd_slot_slots [simp]:
  "length (po_slots (upd_slot i f p)) = length (po_slots p)"
  "po_config (upd_slot i f p) = po_config p" "po_safe (upd_slot i f p) = po_safe p"
  "po_draining (upd_slot i f p) = po_draining p" "po_slots (upd_slot i f p) = [] \<longleftrightarrow> po_slots p = []"
  by (auto simp: upd_slot_def)

lemma upd_slot_nth:
  "j < length (po_slots p) \<Longrightarrow> slot_at (upd_slot i f p) j = (if j = i then f (slot_at p j) else slot_at p j)"
  by (simp add: upd_slot_def nth_list_update)

lemma indexed_iff: "indexed p \<longleftrightarrow> (\<forall>j < length (po_slots p). sl_index (slot_at p j) = j)"
  unfolding indexed_def by (subst list_eq_iff_nth_eq) simp

lemma indexed_upd: "(\<And>s. sl_index (f s) = sl_index s) \<Longrightarrow> indexed (upd_slot i f p) = indexed p"
  by (auto simp: indexed_iff upd_slot_nth)

lemma free_slots_facts:
  assumes "indexed p"
  shows "i \<in> set (free_slots P p) \<longleftrightarrow> i < length (po_slots p) \<and> sl_users (slot_at p i) = 0 \<and> P (slot_at p i)"
    and "distinct (free_slots P p)"
proof -
  have i: "distinct (map sl_index (po_slots p))" using assms by (simp add: indexed_def)
  then show "distinct (free_slots P p)" by (simp add: free_slots_def distinct_map_filter)
  have "i \<in> set (free_slots P p) \<longleftrightarrow> (\<exists>k < length (po_slots p). sl_index (slot_at p k) = i
      \<and> sl_users (slot_at p k) = 0 \<and> P (slot_at p k))"
    by (fastforce simp: free_slots_def in_set_conv_nth image_iff)
  then show "i \<in> set (free_slots P p) \<longleftrightarrow> i < length (po_slots p) \<and> sl_users (slot_at p i) = 0 \<and> P (slot_at p i)"
    using indexed_nth [OF assms] by auto
qed

definition free_now :: "'r pool \<Rightarrow> nat list \<Rightarrow> bool" where
  "free_now p is = (distinct is \<and> (\<forall>i \<in> set is. i < length (po_slots p) \<and> sl_users (slot_at p i) = 0))"

lemma choose_slots_free:
  assumes "indexed p" and "choose_slots n p = Some chosen"
  shows "length chosen = n \<and> free_now p chosen \<and> \<not> po_draining p"
proof -
  have "length (take n (free_slots P p)) = n \<and> free_now p (take n (free_slots P p))" if "n \<le> length (free_slots P p)" for P
    using that free_slots_facts [OF assms(1), where P = P] by (auto simp: free_now_def dest: in_set_takeD)
  with assms(2) show ?thesis by (auto simp: choose_slots_def Let_def split: if_splits)
qed

lemma occupy_simps [simp]:
  "occupy [] p = p" "occupy (i # is) p = occupy is (upd_slot i (\<lambda>s. s\<lparr>sl_users := 1\<rparr>) p)"
  by (simp_all add: occupy_def)

lemma occupy_frame:
  "length (po_slots (occupy is p)) = length (po_slots p)" "po_config (occupy is p) = po_config p"
  "po_safe (occupy is p) = po_safe p" "po_draining (occupy is p) = po_draining p"
  by (induction "is" arbitrary: p) simp_all

lemma occupy_nth:
  "j < length (po_slots p) \<Longrightarrow> slot_at (occupy is p) j =
     (if j \<in> set is then (slot_at p j)\<lparr>sl_users := 1\<rparr> else slot_at p j)"
proof (induction "is" arbitrary: p)
  case (Cons i "is")
  show ?case using Cons.IH [of "upd_slot i (\<lambda>s. s\<lparr>sl_users := 1\<rparr>) p"] Cons.prems by (simp add: upd_slot_nth)
qed simp

lemmas occupy_facts = occupy_frame occupy_nth

definition ready_slot :: "'r pool \<Rightarrow> nat \<Rightarrow> bool" where
  "ready_slot p i = (i < length (po_slots p) \<and> sl_users (slot_at p i) = 0 \<and> sl_state (slot_at p i) = CONNECTED)"


definition sized :: "int \<Rightarrow> RunnerConfig" where
  "sized n = default_RunnerConfig\<lparr>rg_poolSize := n\<rparr>"


section \<open>The pool and the threads that use it\<close>

datatype phase = Quiet | Draining | Working

text \<open>
  The pool, the reservations that wait, the slots that sessions hold (once per session), and how
  far the thread is that starts, stops or restarts the pool (one at a time).
\<close>

record 'r system =
  sy_pool :: "'r pool"
  sy_waiting :: "(nat \<times> bool) list"
  sy_sessions :: "nat list"
  sy_phase :: phase

definition new_system :: "'r system" where
  "new_system = \<lparr>sy_pool = new_pool, sy_waiting = [], sy_sessions = [], sy_phase = Quiet\<rparr>"

text \<open>A change to a slot by its holder, or by the thread that starts the pool.\<close>

definition may_touch :: "'r system \<Rightarrow> nat \<Rightarrow> bool" where
  "may_touch s i = (i \<in> set (sy_sessions s) \<or> sy_phase s = Working)"

definition count_restarts :: "'r pool \<Rightarrow> 'r pool" where
  "count_restarts p = p\<lparr>po_slots := map (\<lambda>s. s\<lparr>sl_restartCount := sl_restartCount s + 1\<rparr>) (po_slots p)\<rparr>"

text \<open>
  With \<open>strict\<close> no reservation of the shared slot waits while another configuration is started.
  The block after a call to a runner only asks whether that runner is alive, so a world of one
  state gives every answer.
\<close>

inductive pool_step :: "bool \<Rightarrow> 'r system \<Rightarrow> 'r system \<Rightarrow> bool" for strict where
  ps_ask: "ask_slots n (sy_pool s) = Some rq \<Longrightarrow> pool_step strict s (s\<lparr>sy_waiting := rq # sy_waiting s\<rparr>)"
| ps_grant: "rq \<in> set (sy_waiting s) \<Longrightarrow> take_slots rq (sy_pool s) = Some (chosen, p) \<Longrightarrow>
    pool_step strict s (s\<lparr>sy_pool := p, sy_waiting := remove1 rq (sy_waiting s), sy_sessions := chosen @ sy_sessions s\<rparr>)"
| ps_release: "i \<in> set (sy_sessions s) \<Longrightarrow>
    pool_step strict s (s\<lparr>sy_pool := releaseSlot i (sy_pool s), sy_sessions := remove1 i (sy_sessions s)\<rparr>)"
| ps_drain: "sy_phase s = Quiet \<Longrightarrow>
    pool_step strict s (s\<lparr>sy_pool := (sy_pool s)\<lparr>po_draining := True\<rparr>, sy_phase := Draining\<rparr>)"
| ps_fresh: "sy_phase s = Draining \<Longrightarrow> pool_idle (sy_pool s) \<Longrightarrow> \<not> strict \<or> list_all (\<lambda>rq. \<not> snd rq) (sy_waiting s) \<Longrightarrow>
    pool_step strict s (s\<lparr>sy_pool := fresh_slots c (sy_pool s), sy_phase := Working\<rparr>)"
| ps_disconnect: "sy_phase s = Draining \<Longrightarrow> pool_idle (sy_pool s) \<Longrightarrow>
    pool_step strict s (s\<lparr>sy_pool := disconnect (sy_pool s), sy_phase := Working\<rparr>)"
| ps_count: "sy_phase s = Working \<Longrightarrow> pool_step strict s (s\<lparr>sy_pool := count_restarts (sy_pool s)\<rparr>)"
| ps_safe: "sy_phase s = Working \<Longrightarrow>
    pool_step strict s (s\<lparr>sy_pool := (sy_pool s)\<lparr>po_safe := True, po_slots := take 1 (po_slots (sy_pool s))\<rparr>\<rparr>)"
| ps_finish: "sy_phase s = Working \<Longrightarrow>
    pool_step strict s (s\<lparr>sy_pool := (sy_pool s)\<lparr>po_draining := False\<rparr>, sy_phase := Quiet\<rparr>)"
| ps_begin_start: "may_touch s i \<Longrightarrow> pool_step strict s (s\<lparr>sy_pool := begin_start i (sy_pool s)\<rparr>)"
| ps_end_start: "may_touch s i \<Longrightarrow> pool_step strict s (s\<lparr>sy_pool := end_start now i r failure (sy_pool s)\<rparr>)"
| ps_begin_restart: "may_touch s i \<Longrightarrow> pool_step strict s (s\<lparr>sy_pool := begin_restart i (sy_pool s)\<rparr>)"
| ps_refuse: "may_touch s i \<Longrightarrow> pool_step strict s (s\<lparr>sy_pool := refuse_restart i (sy_pool s)\<rparr>)"
| ps_called: "may_touch s i \<Longrightarrow>
    pool_step strict s (s\<lparr>sy_pool := fst (after_call (ru :: ('r, unit) runners) now i steps r err (sy_pool s) ())\<rparr>)"

inductive pool_reachable :: "bool \<Rightarrow> 'r system \<Rightarrow> bool" for strict where
  pr_new: "pool_reachable strict new_system"
| pr_step: "pool_reachable strict s \<Longrightarrow> pool_step strict s s' \<Longrightarrow> pool_reachable strict s'"

section \<open>The invariant\<close>

text \<open>What holds in either mode: the slots are numbered and count their sessions.\<close>

definition counted :: "'r pool \<Rightarrow> nat list \<Rightarrow> bool" where
  "counted p held = (indexed p \<and> (\<forall>k < length (po_slots p). sl_users (slot_at p k) = count_list held k)
     \<and> (\<forall>i \<in> set held. i < length (po_slots p)))"

definition system_ok :: "'r system \<Rightarrow> bool" where
  "system_ok s = (counted (sy_pool s) (sy_sessions s) \<and> (sy_phase s = Working \<longrightarrow> sy_sessions s = [])
     \<and> (po_draining (sy_pool s) \<longleftrightarrow> sy_phase s \<noteq> Quiet))"

text \<open>What holds with \<open>strict\<close>: no sharing, and no wait for a shared slot, in an exclusive pool.\<close>

definition exclusive_ok :: "'r system \<Rightarrow> bool" where
  "exclusive_ok s = (po_safe (sy_pool s) \<or> distinct (sy_sessions s) \<and> list_all (\<lambda>rq. \<not> snd rq) (sy_waiting s))"

lemma counted_upd:
  assumes "counted p held" and "\<And>s. sl_users (f s) = sl_users s \<and> sl_index (f s) = sl_index s"
  shows "counted (upd_slot i f p) held"
  using assms by (auto simp: counted_def upd_slot_nth indexed_upd)

lemma counted_idle: "counted p held \<Longrightarrow> pool_idle p \<Longrightarrow> held = []"
proof (rule ccontr)
  assume c: "counted p held" "pool_idle p" and "held \<noteq> []"
  then obtain i where i: "i \<in> set held" by fastforce
  with c have "i < length (po_slots p)" "sl_users (slot_at p i) = count_list held i" by (simp_all add: counted_def)
  with c(2) have "count_list held i = 0" by (simp add: pool_idle_def list_all_length)
  with i show False by (simp add: count_list_0_iff)
qed

lemma counted_release:
  assumes "counted p held" and "i \<in> set held"
  shows "counted (releaseSlot i p) (remove1 i held)"
proof -
  have r: "releaseSlot i p = upd_slot i (\<lambda>s. if sl_users s > 0 then s\<lparr>sl_users := sl_users s - 1\<rparr> else s) p"
    by (simp add: releaseSlot_def)
  have count: "count_list (remove1 i held) k = (if k = i then count_list held k - 1 else count_list held k)" for k
    by (induction held) auto
  have "indexed (releaseSlot i p)" unfolding r using assms(1) by (subst indexed_upd) (auto simp: counted_def)
  moreover have "sl_users (slot_at (releaseSlot i p) k) = count_list (remove1 i held) k" if "k < length (po_slots p)" for k
    using that assms(1) by (auto simp: r upd_slot_nth count counted_def)
  moreover have "set (remove1 i held) \<subseteq> set held" by (rule set_remove1_subset)
  ultimately show ?thesis using assms(1) by (auto simp: counted_def r)
qed

lemma counted_exclusive:
  assumes "counted p held" and "choose_slots n p = Some chosen"
  shows "counted (occupy chosen p) (chosen @ held)" and "distinct held \<Longrightarrow> distinct (chosen @ held)"
proof -
  have f: "free_now p chosen" using choose_slots_free [OF _ assms(2)] assms(1) by (simp add: counted_def)
  have zero: "count_list held i = 0" if "i \<in> set chosen" for i
    using that f assms(1) by (force simp: free_now_def counted_def)
  then have "set chosen \<inter> set held = {}" by (auto simp: count_list_0_iff)
  then show "distinct held \<Longrightarrow> distinct (chosen @ held)" using f by (simp add: free_now_def)
  have one: "count_list chosen i = (if i \<in> set chosen then 1 else 0)" for i
  proof -
    have "distinct chosen" using f by (simp add: free_now_def)
    then show ?thesis by (induction chosen) auto
  qed
  have "indexed (occupy chosen p)"
    using assms(1) by (simp add: indexed_iff counted_def occupy_facts)
  moreover have "sl_users (slot_at (occupy chosen p) k) = count_list (chosen @ held) k" if "k < length (po_slots p)" for k
    using that zero [of k] one [of k] assms(1) by (simp add: occupy_facts counted_def)
  ultimately show "counted (occupy chosen p) (chosen @ held)"
    using assms(1) f by (auto simp: counted_def occupy_facts free_now_def)
qed

lemma count_list_replicate: "count_list (replicate n x) y = (if y = x then n else 0)"
  by (induction n) auto

lemma counted_shared:
  assumes "counted p held" and "take_shared n p = Some (chosen, p')"
  shows "counted p' (chosen @ held)"
proof -
  from assms(2) have p: "chosen = replicate n 0" "po_slots p \<noteq> []"
      and p': "p' = upd_slot 0 (\<lambda>s. s\<lparr>sl_users := sl_users s + n\<rparr>) p"
    by (auto simp: take_shared_def split: if_splits)
  have "indexed p'" unfolding p' using assms(1) by (subst indexed_upd) (auto simp: counted_def)
  then show ?thesis
    using assms(1) p by (auto simp: counted_def p' upd_slot_nth count_list_replicate)
qed

lemma take_slots_facts:
  assumes "take_slots rq p = Some (chosen, p')"
  shows "po_safe p' = po_safe p" "po_draining p' = po_draining p" "\<not> po_draining p"
  using assms
  by (auto simp: take_slots_def take_shared_def take_exclusive_def occupy_facts choose_slots_def split: if_splits)

lemma counted_take:
  "counted p held \<Longrightarrow> take_slots rq p = Some (chosen, p') \<Longrightarrow> counted p' (chosen @ held)"
  by (auto simp: take_slots_def take_exclusive_def split: if_splits intro: counted_shared counted_exclusive)

lemma counted_no_sessions: "indexed p \<Longrightarrow> (\<forall>s \<in> set (po_slots p). sl_users s = 0) \<Longrightarrow> counted p []"
  by (auto simp: counted_def)

lemma fresh_counted: "counted (fresh_slots c p) []"
  by (rule counted_no_sessions) (auto simp: fresh_slots_def indexed_iff new_slot_def)

lemma counted_nilD: "counted p [] \<Longrightarrow> indexed p \<and> (\<forall>s \<in> set (po_slots p). sl_users s = 0)"
  by (auto simp: counted_def in_set_conv_nth)

lemma map_slots_counted:
  assumes "counted p []" and "\<And>s. sl_users (f s) = sl_users s \<and> sl_index (f s) = sl_index s"
  shows "counted (p\<lparr>po_slots := map f (po_slots p)\<rparr>) []"
  using counted_nilD [OF assms(1)] assms(2) by (intro counted_no_sessions) (auto simp: indexed_iff)

lemma take_slots_counted: "counted p [] \<Longrightarrow> counted (p\<lparr>po_safe := b, po_slots := take m (po_slots p)\<rparr>) []"
  using counted_nilD [of p] by (intro counted_no_sessions) (auto simp: indexed_iff dest: in_set_takeD)

lemma slot_change:
  assumes "system_ok s" and "\<And>x. sl_users (f x) = sl_users x \<and> sl_index (f x) = sl_index x"
  shows "system_ok (s\<lparr>sy_pool := upd_slot i f (sy_pool s)\<rparr>)"
  using assms by (auto simp: system_ok_def intro: counted_upd)

lemma after_call_slots:
  "\<exists>f. fst (after_call ru now i steps r err p w) = upd_slot i f p \<and> (\<forall>s. sl_users (f s) = sl_users s \<and> sl_index (f s) = sl_index s)"
proof -
  have twice: "upd_slot i g (upd_slot i f p) = upd_slot i (\<lambda>s. g (f s)) p" for f g
    by (simp add: upd_slot_def)
  show ?thesis by (auto simp: after_call_def Let_def twice intro!: exI)
qed

lemmas slot_blocks = begin_start_def end_start_def begin_restart_def refuse_restart_def

lemma working_pool:
  "system_ok s \<Longrightarrow> sy_phase s = Working \<Longrightarrow> sy_sessions s = [] \<and> counted (sy_pool s) [] \<and> po_draining (sy_pool s)"
  by (cases "sy_sessions s = []") (simp_all add: system_ok_def)

lemma pool_step_ok: "pool_step strict s s' \<Longrightarrow> system_ok s \<Longrightarrow> system_ok s'"
proof (induction rule: pool_step.induct)
  case (ps_grant rq s chosen p)
  with take_slots_facts [OF ps_grant(2)] counted_take [OF _ ps_grant(2)] show ?case
    by (auto simp: system_ok_def)
next
  case (ps_release i s)
  then show ?case by (auto simp: system_ok_def counted_release) (simp_all add: releaseSlot_def)
next
  case (ps_drain s)
  then show ?case by (auto simp: system_ok_def counted_def indexed_def)
next
  case (ps_fresh s c)
  with counted_idle have "sy_sessions s = []" by (auto simp: system_ok_def)
  with ps_fresh fresh_counted [of c "sy_pool s"] show ?case by (simp add: system_ok_def) (simp add: fresh_slots_def)
next
  case (ps_disconnect s)
  then have c: "counted (sy_pool s) (sy_sessions s)" and d: "po_draining (sy_pool s)" by (simp_all add: system_ok_def)
  have "sy_sessions s = []" using counted_idle [OF c ps_disconnect(2)] .
  with c d show ?case by (simp add: system_ok_def disconnect_def map_slots_counted)
next
  case (ps_count s)
  have h: "sy_sessions s = []" "counted (sy_pool s) []" "po_draining (sy_pool s)"
    using working_pool [OF ps_count(2,1)] by simp_all
  then show ?case using ps_count by (simp add: system_ok_def count_restarts_def map_slots_counted)
next
  case (ps_safe s)
  have h: "sy_sessions s = []" "counted (sy_pool s) []" "po_draining (sy_pool s)"
    using working_pool [OF ps_safe(2,1)] by simp_all
  then show ?case using ps_safe by (simp add: system_ok_def take_slots_counted)
next
  case (ps_finish s)
  then show ?case by (auto simp: system_ok_def counted_def indexed_def)
next
  case (ps_end_start s i now r failure)
  then show ?case unfolding end_start_def by (intro slot_change) (auto split: option.splits)
next
  case (ps_called s i ru now steps r err)
  obtain f where "fst (after_call ru now i steps r err (sy_pool s) ()) = upd_slot i f (sy_pool s)"
    "\<forall>s. sl_users (f s) = sl_users s \<and> sl_index (f s) = sl_index s"
    using after_call_slots [of ru now i steps r err "sy_pool s" "()"] by blast
  with slot_change [OF ps_called(2), of f] show ?case by simp
qed (auto simp: slot_blocks system_ok_def intro: counted_upd slot_change [unfolded system_ok_def])

lemma exclusive_step:
  assumes "pool_step True s s'" and "system_ok s" and "exclusive_ok s"
  shows "exclusive_ok s'"
  using assms(1)
proof cases
  case (ps_ask n rq)
  then show ?thesis using assms(3) by (auto simp: exclusive_ok_def ask_slots_def Let_def split: if_splits)
next
  case (ps_grant rq chosen p)
  note safe = take_slots_facts(1) [OF ps_grant(3)]
  show ?thesis
  proof (cases "po_safe (sy_pool s)")
    case False
    with assms(3) have d: "distinct (sy_sessions s)" "list_all (\<lambda>rq. \<not> snd rq) (sy_waiting s)"
      by (simp_all add: exclusive_ok_def)
    with ps_grant(2) have "\<not> snd rq" by (auto simp: list_all_iff)
    with ps_grant(3) have "choose_slots (fst rq) (sy_pool s) = Some chosen"
      by (auto simp: take_slots_def take_exclusive_def)
    from counted_exclusive(2) [OF _ this d(1)] assms(2) have "distinct (chosen @ sy_sessions s)"
      by (simp add: system_ok_def)
    moreover have "list_all (\<lambda>rq. \<not> snd rq) (remove1 rq (sy_waiting s))"
      using d(2) set_remove1_subset [of rq "sy_waiting s"] by (auto simp: list_all_iff)
    ultimately show ?thesis unfolding ps_grant(1) exclusive_ok_def by simp
  qed (simp add: ps_grant(1) exclusive_ok_def safe)
next
  case (ps_release i)
  then show ?thesis using assms(3) by (auto simp: exclusive_ok_def releaseSlot_def distinct_remove1)
next
  case (ps_fresh c)
  have "sy_sessions s = []" using counted_idle [of "sy_pool s"] assms(2) ps_fresh(3) by (simp add: system_ok_def)
  with ps_fresh(4) show ?thesis unfolding ps_fresh(1) exclusive_ok_def by simp
next
  case (ps_called i ru now steps r err)
  obtain f where "fst (after_call ru now i steps r err (sy_pool s) ()) = upd_slot i f (sy_pool s)"
    using after_call_slots [of ru now i steps r err "sy_pool s" "()"] by blast
  then show ?thesis using assms(3) unfolding ps_called(1) exclusive_ok_def by simp
qed (use assms(3) in \<open>auto simp: exclusive_ok_def disconnect_def count_restarts_def slot_blocks end_start_def\<close>)

lemma pool_reachable_ok: "pool_reachable strict s \<Longrightarrow> system_ok s"
proof (induction rule: pool_reachable.induct)
  case pr_new
  show ?case by (simp add: system_ok_def new_system_def new_pool_def counted_def indexed_def)
qed (rule pool_step_ok)

lemma pool_reachable_exclusive: "pool_reachable True s \<Longrightarrow> exclusive_ok s"
proof (induction rule: pool_reachable.induct)
  case pr_new
  show ?case by (simp add: exclusive_ok_def new_system_def)
qed (auto intro: exclusive_step pool_reachable_ok)


section \<open>Restarting with another configuration\<close>

text \<open>A pool started from scratch: its configuration, and whether its runner is safe to share.\<close>

definition started_system :: "RunnerConfig \<Rightarrow> bool \<Rightarrow> (nat \<times> bool) list \<Rightarrow> 'r system" where
  "started_system c safe waiting = \<lparr>sy_pool = (let p = fresh_slots c new_pool
       in if safe then p\<lparr>po_safe := True, po_slots := take 1 (po_slots p)\<rparr> else p),
     sy_waiting = waiting, sy_sessions = [], sy_phase = Quiet\<rparr>"

definition draining_system :: "RunnerConfig \<Rightarrow> bool \<Rightarrow> (nat \<times> bool) list \<Rightarrow> 'r system" where
  "draining_system c safe waiting = (let s = started_system c safe waiting
     in s\<lparr>sy_pool := (sy_pool s)\<lparr>po_draining := True\<rparr>, sy_phase := Draining\<rparr>)"

lemma drain_reaches:
  "pool_reachable strict (started_system c safe ws :: 'r system) \<Longrightarrow>
   pool_reachable strict (draining_system c safe ws :: 'r system)"
  unfolding draining_system_def Let_def
  by (erule pr_step, rule ps_drain) (simp add: started_system_def)

lemma ask_reaches:
  assumes "pool_reachable strict (draining_system c safe ws :: 'r system)"
    and "ask_slots n (sy_pool (draining_system c safe ws :: 'r system)) = Some rq"
  shows "pool_reachable strict (draining_system c safe (rq # ws) :: 'r system)"
proof -
  have eq: "(draining_system c safe ws)\<lparr>sy_waiting := rq # sy_waiting (draining_system c safe ws)\<rparr>
      = (draining_system c safe (rq # ws) :: 'r system)"
    by (simp add: draining_system_def started_system_def Let_def)
  show ?thesis using pr_step [OF assms(1) ps_ask [OF assms(2)]] unfolding eq .
qed

lemma draining_idle: "pool_idle (sy_pool (draining_system c safe ws :: 'r system))"
proof -
  have "list_all (\<lambda>s. sl_users s = 0 \<and> \<not> sl_restarting s) (map (new_slot :: nat \<Rightarrow> 'r slot) ks)" for ks
    by (simp add: list_all_iff new_slot_def)
  then show ?thesis
    by (simp add: draining_system_def started_system_def Let_def pool_idle_def fresh_slots_def take_map)
      (simp add: new_slot_def)
qed

lemma finish_reaches:
  assumes "pool_reachable strict s" and "sy_phase s = Working" and "s' = s\<lparr>sy_pool := (sy_pool s)\<lparr>po_draining := False\<rparr>, sy_phase := Quiet\<rparr>"
  shows "pool_reachable strict s'"
  unfolding assms(3) by (rule pr_step [OF assms(1) ps_finish [OF assms(2)]])

lemma reconfigure_reaches:
  assumes "pool_reachable strict (draining_system c safe ws :: 'r system)" and "\<not> strict \<or> list_all (\<lambda>rq. \<not> snd rq) ws"
  shows "pool_reachable strict (started_system c' False ws :: 'r system)"
proof (rule finish_reaches)
  let ?d = "draining_system c safe ws :: 'r system"
  show "pool_reachable strict (?d\<lparr>sy_pool := fresh_slots c' (sy_pool ?d), sy_phase := Working\<rparr>)"
    using assms(2) by (intro pr_step [OF assms(1)] ps_fresh draining_idle)
      (simp_all add: draining_system_def started_system_def Let_def)
qed (auto simp: draining_system_def started_system_def fresh_slots_def new_pool_def Let_def)

lemma start_reaches: "pool_reachable strict (started_system c safe [] :: 'r system)"
proof -
  let ?n = "new_system :: 'r system"
  let ?d = "?n\<lparr>sy_pool := (sy_pool ?n)\<lparr>po_draining := True\<rparr>, sy_phase := Draining\<rparr>"
  let ?f = "?d\<lparr>sy_pool := fresh_slots c (sy_pool ?d), sy_phase := Working\<rparr>"
  have "pool_reachable strict ?d" by (rule pr_step [OF pr_new ps_drain]) (simp add: new_system_def)
  then have f: "pool_reachable strict ?f"
    by (rule pr_step [OF _ ps_fresh]) (simp_all add: new_system_def new_pool_def pool_idle_def)
  show ?thesis
  proof (cases safe)
    case False
    show ?thesis
      by (rule finish_reaches [OF f]) (simp_all add: False started_system_def new_system_def fresh_slots_def new_pool_def)
  next
    case True
    let ?s = "?f\<lparr>sy_pool := (sy_pool ?f)\<lparr>po_safe := True, po_slots := take 1 (po_slots (sy_pool ?f))\<rparr>\<rparr>"
    have s: "pool_reachable strict ?s" by (rule pr_step [OF f ps_safe]) simp
    show ?thesis
      by (rule finish_reaches [OF s])
        (simp_all add: True started_system_def new_system_def fresh_slots_def new_pool_def Let_def)
  qed
qed



text \<open>
  A reservation that waits for the shared slot takes it without asking again whether the
  pool is shared: after a restart with exclusive runners two sessions can hold one of them.
\<close>

lemma shared_wait_breaks_exclusion:
  "\<exists>s :: unit system. pool_reachable False s \<and> \<not> po_safe (sy_pool s) \<and> sy_sessions s = [0, 0]
     \<and> sl_users (slot_at (sy_pool s) 0) = 2"
proof -
  let ?ws = "[(1, True), (1, True)]"
  let ?s = "started_system (sized 1) False ?ws :: unit system"
  have ask: "ask_slots 1 (sy_pool (draining_system (sized 1) True ws :: unit system)) = Some (1, True)" for ws
    by (simp add: ask_slots_def draining_system_def started_system_def fresh_slots_def sized_def pool_limit_def new_pool_def)
  have "pool_reachable False (draining_system (sized 1) True ?ws :: unit system)"
    using ask_reaches [OF ask_reaches [OF drain_reaches [OF start_reaches] ask] ask] .
  then have s: "pool_reachable False ?s" by (rule reconfigure_reaches) simp
  define use where "use = (\<lambda>k. upd_slot 0 (\<lambda>x. x\<lparr>sl_users := sl_users x + 1\<rparr>) (sy_pool (k :: unit system)))"
  have grant: "take_slots (1, True) (sy_pool k) = Some ([0], use k)"
    if "\<not> po_draining (sy_pool k)" "po_slots (sy_pool k) \<noteq> []" for k :: "unit system"
    using that by (simp add: take_slots_def take_shared_def use_def)
  let ?t = "?s\<lparr>sy_pool := use ?s, sy_waiting := remove1 (1, True) (sy_waiting ?s), sy_sessions := [0] @ sy_sessions ?s\<rparr>"
  let ?u = "?t\<lparr>sy_pool := use ?t, sy_waiting := remove1 (1, True) (sy_waiting ?t), sy_sessions := [0] @ sy_sessions ?t\<rparr>"
  have p: "\<not> po_draining (sy_pool ?s)" "po_slots (sy_pool ?s) \<noteq> []"
    by (simp_all add: started_system_def fresh_slots_def new_pool_def sized_def pool_limit_def)
  have "(1, True) \<in> set (sy_waiting ?s)" by (simp add: started_system_def)
  from pr_step [OF s ps_grant [OF this grant [OF p]]] have t: "pool_reachable False ?t" .
  have "\<not> po_draining (sy_pool ?t)" "po_slots (sy_pool ?t) \<noteq> []" using p by (simp_all add: use_def)
  moreover have "(1, True) \<in> set (sy_waiting ?t)" by (simp add: started_system_def)
  ultimately have "pool_reachable False ?u" using pr_step [OF t ps_grant [OF _ grant]] by blast
  moreover have "sl_users (slot_at (sy_pool ?u) 0) = 2"
    by (simp add: use_def upd_slot_nth started_system_def fresh_slots_def sized_def pool_limit_def new_slot_def)
  ultimately show ?thesis
    by (intro exI [of _ ?u]) (simp add: use_def started_system_def fresh_slots_def)
qed

end
