(* ===== verification/RunnerUseFacts.thy ===== *)
theory RunnerUseFacts
  imports RunnerPoolFacts
begin

text \<open>
  One call through the runner bridge: how often a dead runner is restarted, and that a step or a
  hook leaves every slot as free as it found it.
\<close>

section \<open>Keeping a runner alive\<close>

lemma startSlot_slots:
  assumes "startSlot ru now i probe p w = (ok, p', pubs, w')" and "i < length (po_slots p)"
  shows "length (po_slots p') = length (po_slots p)" and "po_config p' = po_config p" and "po_safe p' = po_safe p"
    and "\<forall>j < length (po_slots p). j \<noteq> i \<longrightarrow> slot_at p' j = slot_at p j"
    and "sl_users (slot_at p' i) = sl_users (slot_at p i)" and "sl_index (slot_at p' i) = sl_index (slot_at p i)"
    and "sl_restartCount (slot_at p' i) = sl_restartCount (slot_at p i)" and "\<not> sl_restarting (slot_at p' i)"
    and "ok \<longleftrightarrow> sl_runner (slot_at p' i) \<noteq> None" and "ok \<longleftrightarrow> sl_state (slot_at p' i) = CONNECTED"
proof -
  from assms(1) obtain r failure where ok: "ok \<longleftrightarrow> failure = None" and p': "p' = end_start now i r failure (begin_start i p)"
    by (auto simp: startSlot_def Let_def split: prod.splits)
  show "length (po_slots p') = length (po_slots p)" and "po_config p' = po_config p" and "po_safe p' = po_safe p"
    by (simp_all add: p' end_start_def begin_start_def)
  show "\<forall>j < length (po_slots p). j \<noteq> i \<longrightarrow> slot_at p' j = slot_at p j"
    by (simp add: p' end_start_def begin_start_def upd_slot_nth)
  show "sl_users (slot_at p' i) = sl_users (slot_at p i)" and "sl_index (slot_at p' i) = sl_index (slot_at p i)"
    and "sl_restartCount (slot_at p' i) = sl_restartCount (slot_at p i)" and "\<not> sl_restarting (slot_at p' i)"
    and "ok \<longleftrightarrow> sl_runner (slot_at p' i) \<noteq> None" and "ok \<longleftrightarrow> sl_state (slot_at p' i) = CONNECTED"
    using assms(2) by (simp_all add: p' ok end_start_def begin_start_def upd_slot_nth split: option.splits)
qed

definition other_slots_same :: "nat \<Rightarrow> 'r pool \<Rightarrow> 'r pool \<Rightarrow> bool" where
  "other_slots_same i p p' = (length (po_slots p') = length (po_slots p) \<and> po_config p' = po_config p \<and> po_safe p' = po_safe p
     \<and> (\<forall>j < length (po_slots p). j \<noteq> i \<longrightarrow> slot_at p' j = slot_at p j))"

lemma upd_other_slots: "other_slots_same i p (upd_slot i f p)"
  by (simp add: other_slots_same_def upd_slot_nth)

lemma ensureAlive_facts:
  assumes "ensureAlive ru now i p w = Some (ok, p', pubs, w')" and "i < length (po_slots p)"
  shows "other_slots_same i p p' \<and> sl_users (slot_at p' i) = sl_users (slot_at p i)
    \<and> sl_restartCount (slot_at p' i) = sl_restartCount (slot_at p i) +
        (if \<not> slot_alive ru w (slot_at p i) \<and> can_restart (po_config p) (slot_at p i) then 1 else 0)
    \<and> (sl_restartCount (slot_at p i) \<le> rg_maxRestarts (po_config p) \<longrightarrow>
        sl_restartCount (slot_at p' i) \<le> rg_maxRestarts (po_config p'))
    \<and> (ok \<longrightarrow> sl_runner (slot_at p' i) \<noteq> None \<and>
        (p' = p \<and> slot_alive ru w (slot_at p i) \<or> sl_state (slot_at p' i) = CONNECTED))"
proof -
  let ?s = "slot_at p i" and ?c = "po_config p"
  from assms(1) have nr: "\<not> sl_restarting ?s" by (auto simp: ensureAlive_def Let_def split: if_splits)
  show ?thesis
  proof (cases "slot_alive ru w ?s")
    case True
    with assms nr show ?thesis
      by (auto simp: ensureAlive_def Let_def other_slots_same_def slot_alive_def split: option.splits)
  next
    case dead: False
    show ?thesis
    proof (cases "can_restart ?c ?s")
      case True
      with assms(1) nr dead have st: "startSlot ru now i None (begin_restart i p)
          (case sl_runner ?s of None \<Rightarrow> w | Some r \<Rightarrow> ru_stop ru r w) = (ok, p', pubs, w')"
        by (simp add: ensureAlive_def Let_def can_restart_def)
      have len: "i < length (po_slots (begin_restart i p))" using assms(2) by (simp add: begin_restart_def)
      note f = startSlot_slots [OF st len]
      have b: "slot_at (begin_restart i p) j = (if j = i then ?s\<lparr>sl_restartCount := sl_restartCount ?s + 1,
          sl_restarting := True, sl_runner := None, sl_state := CONNECTING\<rparr> else slot_at p j)"
        if "j < length (po_slots p)" for j
        using that by (simp add: begin_restart_def upd_slot_nth)
      have len': "length (po_slots (begin_restart i p)) = length (po_slots p)" "po_config (begin_restart i p) = ?c"
          "po_safe (begin_restart i p) = po_safe p" by (simp_all add: begin_restart_def)
      have "other_slots_same i p p'" using f(1-4) b len' by (simp add: other_slots_same_def)
      moreover have "sl_users (slot_at p' i) = sl_users ?s" "sl_restartCount (slot_at p' i) = sl_restartCount ?s + 1"
        using f(5,7) b [OF assms(2)] by simp_all
      moreover have "ok \<longrightarrow> sl_runner (slot_at p' i) \<noteq> None \<and> sl_state (slot_at p' i) = CONNECTED"
        using f(9,10) by blast
      moreover have "sl_restartCount ?s + 1 \<le> rg_maxRestarts (po_config p')"
        using True f(2) len'(2) by (simp add: can_restart_def)
      ultimately show ?thesis using dead True by simp
    next
      case False
      with assms(1) nr dead have "\<not> ok \<and> (\<exists>f. p' = upd_slot i f p \<and> (\<forall>s. sl_users (f s) = sl_users s \<and> sl_restartCount (f s) = sl_restartCount s))"
        by (auto simp: ensureAlive_def Let_def can_restart_def refuse_restart_def split: if_splits intro!: exI)
      then obtain f where f: "\<not> ok" "p' = upd_slot i f p" "\<forall>s. sl_users (f s) = sl_users s \<and> sl_restartCount (f s) = sl_restartCount s"
        by blast
      then show ?thesis using assms(2) False dead upd_other_slots [of i p f] by (simp add: upd_slot_nth)
    qed
  qed
qed

text \<open>
  C18. Making sure that a slot's runner is alive touches no other slot and no reservation, starts
  a dead runner at most once, never past the limit of restarts, and answers yes only if the slot
  has a runner that was alive or has just started.
\<close>

theorem ensureAlive_outcome:
  assumes "ensureAlive ru now i p w = Some (ok, p', pubs, w')" and "i < length (po_slots p)"
  shows "other_slots_same i p p' \<and> sl_users (slot_at p' i) = sl_users (slot_at p i)
    \<and> sl_restartCount (slot_at p' i) = sl_restartCount (slot_at p i) +
        (if \<not> slot_alive ru w (slot_at p i) \<and> can_restart (po_config p) (slot_at p i) then 1 else 0)
    \<and> (sl_restartCount (slot_at p i) \<le> rg_maxRestarts (po_config p) \<longrightarrow>
        sl_restartCount (slot_at p' i) \<le> rg_maxRestarts (po_config p'))
    \<and> (ok \<longrightarrow> sl_runner (slot_at p' i) \<noteq> None \<and>
        (p' = p \<and> slot_alive ru w (slot_at p i) \<or> sl_state (slot_at p' i) = CONNECTED))"
  using ensureAlive_facts [OF assms] .

text \<open>A pool of one runner that has exited.\<close>

definition dead_runners :: "(unit, nat) runners" where
  "dead_runners = \<lparr>ru_create = \<lambda>c i n w. ((), w), ru_safe = \<lambda>r. False, ru_name = \<lambda>r. ''r'', ru_start = \<lambda>r w. (None, w + 1),
     ru_stop = \<lambda>r w. w, ru_alive = \<lambda>r w. 0 < w, ru_pid = \<lambda>r w. 1, ru_version = \<lambda>r w. [], ru_cached = \<lambda>r w. [],
     ru_steps = \<lambda>r w. ([], w), ru_hasStep = \<lambda>r t w. (True, w),
     ru_execute = \<lambda>r q w. (StepResult (sq_stepText q) [] PASSED [] [] 1 1 [] [] False, w),
     ru_hook = \<lambda>r t c w. (default_HookResult, w)\<rparr>"

definition exited_pool :: "unit pool" where
  "exited_pool = fresh_slots (sized 1) new_pool"

theorem ensureAlive_outcome_witness:
  "\<exists>ok p' pubs w'. ensureAlive dead_runners 5 0 exited_pool 0 = Some (ok, p', pubs, w') \<and> sl_restartCount (slot_at p' 0) = 1"
proof -
  have "ensureAlive dead_runners 5 0 exited_pool 0 \<noteq> None" by code_simp
  then obtain ok p' pubs w' where e: "ensureAlive dead_runners 5 0 exited_pool 0 = Some (ok, p', pubs, w')" by auto
  have "0 < length (po_slots exited_pool)" by code_simp
  moreover have "\<not> slot_alive dead_runners 0 (slot_at exited_pool 0)" "sl_restartCount (slot_at exited_pool 0) = 0"
      "can_restart (po_config exited_pool) (slot_at exited_pool 0)" by code_simp+
  ultimately have "sl_restartCount (slot_at p' 0) = 1" using ensureAlive_outcome [OF e] by simp
  with e show ?thesis by blast
qed

section \<open>Steps\<close>

lemma users_by_index:
  "length (po_slots p') = length (po_slots p) \<Longrightarrow> (\<And>j. j < length (po_slots p) \<Longrightarrow> sl_users (slot_at p' j) = sl_users (slot_at p j)) \<Longrightarrow>
   map sl_users (po_slots p') = map sl_users (po_slots p)"
  by (rule nth_equalityI) simp_all

lemma ensureAlive_users:
  assumes "ensureAlive ru now i p w = Some (ok, p', pubs, w')" and "i < length (po_slots p)"
  shows "map sl_users (po_slots p') = map sl_users (po_slots p)"
proof -
  have s: "other_slots_same i p p'" "sl_users (slot_at p' i) = sl_users (slot_at p i)"
    using ensureAlive_facts [OF assms] by blast+
  then have "sl_users (slot_at p' j) = sl_users (slot_at p j)" if "j < length (po_slots p)" for j
    using that by (cases "j = i") (simp_all add: other_slots_same_def)
  then show ?thesis using s(1) by (intro users_by_index) (simp_all add: other_slots_same_def)
qed

lemma upd_users: "(\<And>s. sl_users (f s) = sl_users s) \<Longrightarrow> map sl_users (po_slots (upd_slot i f p)) = map sl_users (po_slots p)"
  by (rule users_by_index) (simp_all add: upd_slot_nth)

lemma after_call_users: "map sl_users (po_slots (fst (after_call ru now i steps r err p w))) = map sl_users (po_slots p)"
proof -
  obtain f where f: "fst (after_call ru now i steps r err p w) = upd_slot i f p"
      "\<forall>s. sl_users (f s) = sl_users s \<and> sl_index (f s) = sl_index s"
    using after_call_slots [of ru now i steps r err p w] by blast
  show ?thesis unfolding f(1) using f(2) by (intro upd_users) simp
qed

lemma step_on_slot_users:
  assumes "step_on_slot ru now rq i p w = Some (res, p', pubs, w')" and "i < length (po_slots p)"
  shows "map sl_users (po_slots p') = map sl_users (po_slots p)"
proof -
  from assms(1) obtain ok p1 pubs1 w1 where e: "ensureAlive ru now i p w = Some (ok, p1, pubs1, w1)"
    by (auto simp: step_on_slot_def split: option.splits)
  have "p' = p1 \<or> (\<exists>r err w2. p' = fst (after_call ru now i 1 r err p1 w2))"
    using assms(1) e by (auto simp: step_on_slot_def Let_def split: if_splits prod.splits) (metis fst_conv)
  then have "map sl_users (po_slots p') = map sl_users (po_slots p1)" by (auto simp: after_call_users)
  with ensureAlive_users [OF e assms(2)] show ?thesis by simp
qed

lemma reserve_one_slot:
  assumes "reserveSlots 1 p = Some (i # is, p1)" and "indexed p"
  shows "is = [] \<and> i < length (po_slots p) \<and> p1 = upd_slot i (\<lambda>s. s\<lparr>sl_users := sl_users s + 1\<rparr>) p"
proof -
  from assms(1) obtain rq where rq: "ask_slots 1 p = Some rq" "take_slots rq p = Some (i # is, p1)"
    by (auto simp: reserveSlots_def split: option.splits)
  then have ne: "po_slots p \<noteq> []" and r: "rq = (1, po_safe p)"
    by (auto simp: ask_slots_def Let_def Suc_le_eq min_def split: if_splits)
  show ?thesis
  proof (cases "po_safe p")
    case True
    with rq(2) r ne show ?thesis by (auto simp: take_slots_def take_shared_def split: if_splits)
  next
    case False
    with rq(2) r have c: "choose_slots 1 p = Some (i # is)" "p1 = occupy (i # is) p"
      by (auto simp: take_slots_def take_exclusive_def)
    from choose_slots_free [OF assms(2) c(1)] have f: "is = []" "i < length (po_slots p)" "sl_users (slot_at p i) = 0"
      by (simp_all add: free_now_def)
    then show ?thesis using c(2) by (simp add: upd_slot_def)
  qed
qed

text \<open>
  C20. Running a step, with or without a session, leaves every slot with as many users as before:
  a slot reserved for the step alone is released again, whatever became of the runner.
\<close>

theorem executeStep_releases:
  assumes "bridge_executeStep ru now bound rq p w = Some (res, p', pubs, w')" and "indexed p"
  shows "map sl_users (po_slots p') = map sl_users (po_slots p)"
proof (cases "boundSlot bound p")
  case (Some i)
  with assms(1) have "step_on_slot ru now rq i p w = Some (res, p', pubs, w')" "i < length (po_slots p)"
    by (auto simp: bridge_executeStep_def on_some_slot_def boundSlot_def split: option.splits if_splits)
  then show ?thesis by (rule step_on_slot_users)
next
  case None
  show ?thesis
  proof (cases "reserveSlots 1 p")
    case reserved: (Some x)
    obtain chosen p1 where x: "x = (chosen, p1)" by (metis surj_pair)
    show ?thesis
    proof (cases chosen)
      case Nil
      with reserved x have "p1 = p"
        by (auto simp: reserveSlots_def ask_slots_def take_slots_def take_shared_def take_exclusive_def choose_slots_def Let_def
            split: option.splits if_splits)
      with assms(1) None reserved x Nil show ?thesis by (simp add: bridge_executeStep_def on_some_slot_def)
    next
      case (Cons i "is")
      note r = reserve_one_slot [OF reserved [unfolded x Cons] assms(2)]
      from assms(1) None reserved x Cons obtain p2 where
        s: "step_on_slot ru now rq i p1 w = Some (res, p2, pubs, w')" and p': "p' = releaseSlot i p2"
        by (auto simp: bridge_executeStep_def on_some_slot_def split: option.splits)
      have i1: "i < length (po_slots p1)" using r by simp
      have u: "map sl_users (po_slots p2) = map sl_users (po_slots p1)" using step_on_slot_users [OF s i1] .
      have len1: "length (po_slots p1) = length (po_slots p)" using r by simp
      have len: "length (po_slots p2) = length (po_slots p)"
        using map_eq_imp_length_eq [OF u] len1 by (rule trans)
      have u': "sl_users (slot_at p2 j) = sl_users (slot_at p1 j)" if "j < length (po_slots p)" for j
      proof -
        have "map sl_users (po_slots p2) ! j = map sl_users (po_slots p1) ! j" by (simp only: u)
        with that len len1 show ?thesis by (simp only: nth_map)
      qed
      show ?thesis
      proof (rule users_by_index)
        show "length (po_slots p') = length (po_slots p)" using len by (simp add: p' releaseSlot_def)
        fix j assume "j < length (po_slots p)"
        with u' [OF this] r len show "sl_users (slot_at p' j) = sl_users (slot_at p j)"
          by (cases "j = i") (simp_all add: p' releaseSlot_def upd_slot_nth)
      qed
    qed
  qed (use assms(1) None in \<open>simp add: bridge_executeStep_def on_some_slot_def\<close>)
qed

definition sample_step_request :: StepExecutionRequest where
  "sample_step_request = \<lparr>sq_stepText = ''pay'', sq_parameterizedText = ''pay'', sq_args = [],
     sq_context = default_ExecutionContext, sq_timeoutMs = 0\<rparr>"

theorem executeStep_releases_witness:
  "\<exists>res p' pubs w'. bridge_executeStep dead_runners 5 None sample_step_request exited_pool 0 = Some (res, p', pubs, w')
     \<and> map sl_users (po_slots p') = [0]"
proof -
  have "bridge_executeStep dead_runners 5 None sample_step_request exited_pool 0 \<noteq> None" by code_simp
  then obtain res p' pubs w' where
    e: "bridge_executeStep dead_runners 5 None sample_step_request exited_pool 0 = Some (res, p', pubs, w')" by auto
  have "indexed exited_pool" "map sl_users (po_slots exited_pool) = [0]" by code_simp+
  with executeStep_releases [OF e] e show ?thesis by simp
qed

end
