(* ===== verification/Cron.thy ===== *)
theory Cron
  imports TimeText
begin

text \<open>
  \<open>src/src/util/cron.h\<close>: five-field cron expressions in UTC. A field is a set of values kept
  as the bits of a 64-bit word. Parsing returns the error message or the expression, and
  \<open>nextAfter\<close> scans minute by minute for at most 366 days. The marking loop needs a positive
  step, which the parser guarantees; the guard makes the function total without it.
\<close>

unbundle bit_operations_syntax

section \<open>Expressions and matching\<close>

record CronExpr =
  cx_source :: string
  cx_minute :: "64 word"
  cx_hour :: "64 word"
  cx_dom :: "64 word"
  cx_month :: "64 word"
  cx_dow :: "64 word"
  cx_domAll :: bool
  cx_dowAll :: bool

definition default_CronExpr :: CronExpr where
  "default_CronExpr = \<lparr>cx_source = [], cx_minute = 0, cx_hour = 0, cx_dom = 0, cx_month = 0, cx_dow = 0,
     cx_domAll = True, cx_dowAll = True\<rparr>"

definition cron_bit :: "64 word \<Rightarrow> int \<Rightarrow> bool" where
  "cron_bit bits v = (if v < 0 \<or> v \<ge> 64 then False else bits AND push_bit (nat v) 1 \<noteq> 0)"

definition matches_tm :: "CronExpr \<Rightarrow> tm \<Rightarrow> bool" where
  "matches_tm e utc =
     (if \<not> cron_bit (cx_minute e) (tm_min utc) \<or> \<not> cron_bit (cx_hour e) (tm_hour utc) \<or> \<not> cron_bit (cx_month e) (tm_mon utc)
      then False
      else if cx_domAll e \<and> cx_dowAll e then True
      else if cx_domAll e then cron_bit (cx_dow e) (tm_wday utc)
      else if cx_dowAll e then cron_bit (cx_dom e) (tm_mday utc)
      else cron_bit (cx_dom e) (tm_mday utc) \<or> cron_bit (cx_dow e) (tm_wday utc))"

definition toUtc :: "TimePoint \<Rightarrow> tm" where
  "toUtc tp = gmtime (to_time_t tp)"

definition cron_matches :: "CronExpr \<Rightarrow> TimePoint \<Rightarrow> bool" where
  "cron_matches e tp = matches_tm e (toUtc tp)"

text \<open>One minute in ticks.\<close>

abbreviation (input) minute_ticks :: int where
  "minute_ticks \<equiv> 60000000000"

definition epochMinute :: "TimePoint \<Rightarrow> int" where
  "epochMinute tp = tp sdiv minute_ticks"

fun scan_minutes :: "CronExpr \<Rightarrow> nat \<Rightarrow> TimePoint \<Rightarrow> TimePoint" where
  "scan_minutes e 0 cursor = 0"
| "scan_minutes e (Suc n) cursor =
     (if cron_matches e cursor then cursor else scan_minutes e n (cursor + minute_ticks))"

definition scan_limit :: nat where
  "scan_limit = 366 * 24 * 60"

definition nextAfter :: "CronExpr \<Rightarrow> TimePoint \<Rightarrow> TimePoint" where
  "nextAfter e tp = scan_minutes e scan_limit (epochMinute tp * minute_ticks + minute_ticks)"

section \<open>Parsing\<close>

definition month_names :: "string list" where
  "month_names = [''JAN'', ''FEB'', ''MAR'', ''APR'', ''MAY'', ''JUN'', ''JUL'', ''AUG'', ''SEP'', ''OCT'', ''NOV'', ''DEC'']"

definition weekday_names :: "string list" where
  "weekday_names = [''SUN'', ''MON'', ''TUE'', ''WED'', ''THU'', ''FRI'', ''SAT'']"

definition expandAlias :: "string \<Rightarrow> string" where
  "expandAlias raw =
     (if hd raw \<noteq> CHR ''@'' then raw
      else if raw = ''@yearly'' \<or> raw = ''@annually'' then ''0 0 1 1 *''
      else if raw = ''@monthly'' then ''0 0 1 * *''
      else if raw = ''@weekly'' then ''0 0 * * 0''
      else if raw = ''@daily'' \<or> raw = ''@midnight'' then ''0 0 * * *''
      else if raw = ''@hourly'' then ''0 * * * *''
      else [])"

fun splitWs_loop :: "string \<Rightarrow> string \<Rightarrow> string list" where
  "splitWs_loop cur [] = (if cur \<noteq> [] then [cur] else [])"
| "splitWs_loop cur (ch # s) =
     (if c_isspace ch then (if cur \<noteq> [] then cur # splitWs_loop [] s else splitWs_loop [] s)
      else splitWs_loop (cur @ [ch]) s)"

definition splitWs :: "string \<Rightarrow> string list" where
  "splitWs s = splitWs_loop [] s"

fun index_of :: "string \<Rightarrow> nat \<Rightarrow> string list \<Rightarrow> nat option" where
  "index_of u i [] = None"
| "index_of u i (n # ns) = (if u = n then Some i else index_of u (i + 1) ns)"

definition parseName :: "string \<Rightarrow> string list \<Rightarrow> nat option" where
  "parseName tok names = index_of (map c_toupper tok) 0 names"

fun parse_digits :: "string \<Rightarrow> nat \<Rightarrow> nat option" where
  "parse_digits [] v = Some v"
| "parse_digits (ch # r) v =
     (if \<not> c_isdigit ch then None
      else let v' = v * 10 + digit_val ch in if v' > 99 then Some v' else parse_digits r v')"

definition parse_number :: "string \<Rightarrow> nat \<Rightarrow> nat \<Rightarrow> string \<Rightarrow> string + nat" where
  "parse_number tok minv maxv label =
     (if tok = [] then Inl (label @ '' is empty'')
      else case parse_digits tok 0 of
        None \<Rightarrow> Inl (label @ '' has invalid token '' @ [CHR 0x27] @ tok @ [CHR 0x27])
      | Some v \<Rightarrow> if v < minv \<or> v > maxv
          then Inl (label @ '' value '' @ tok @ '' out of range '' @ dec_of_nat minv @ ''-'' @ dec_of_nat maxv)
          else Inr v)"

definition parseInt :: "string \<Rightarrow> nat \<Rightarrow> nat \<Rightarrow> string list \<Rightarrow> nat \<Rightarrow> string \<Rightarrow> string + nat" where
  "parseInt tok minv maxv names nameBase label =
     (case parseName tok names of
        Some i \<Rightarrow> (let value = i + nameBase in
          if value < minv \<or> value > maxv then Inl (label @ '' name out of range'') else Inr value)
      | None \<Rightarrow> parse_number tok minv maxv label)"

function mark_range :: "nat \<Rightarrow> nat \<Rightarrow> nat \<Rightarrow> 64 word \<Rightarrow> 64 word" where
  "mark_range v e step bits =
     (if v \<le> e \<and> 0 < step then mark_range (v + step) e step (bits OR push_bit v 1) else bits)"
  by auto
termination by (relation "measure (\<lambda>(v, e, step, bits). Suc e - v)") auto

declare mark_range.simps [simp del]

definition parse_step :: "string option \<Rightarrow> nat \<Rightarrow> nat \<Rightarrow> string \<Rightarrow> string + nat" where
  "parse_step after_slash minv maxv label =
     (case after_slash of None \<Rightarrow> Inr 1 | Some tok \<Rightarrow> parseInt tok 1 (maxv - minv + 1) [] 0 label)"

definition parse_range :: "string \<Rightarrow> nat \<Rightarrow> nat \<Rightarrow> string list \<Rightarrow> string \<Rightarrow> string + nat \<times> nat" where
  "parse_range rng minv maxv names label =
     (let base = (if length names = 12 then 1 else 0) in
      if rng = ''*'' then Inr (minv, maxv)
      else case break_at ''-'' rng of
        Some (a, b) \<Rightarrow>
          (case parseInt a minv maxv names base label of Inl e \<Rightarrow> Inl e
           | Inr begin0 \<Rightarrow> (case parseInt b minv maxv names base label of Inl e \<Rightarrow> Inl e
             | Inr end0 \<Rightarrow> if end0 < begin0 then Inl (label @ '' range is reversed'') else Inr (begin0, end0)))
      | None \<Rightarrow> (case parseInt rng minv maxv names base label of Inl e \<Rightarrow> Inl e | Inr v \<Rightarrow> Inr (v, v)))"

text \<open>One item of a list: first and last value and the step.\<close>

definition parse_part :: "string \<Rightarrow> nat \<Rightarrow> nat \<Rightarrow> string list \<Rightarrow> string \<Rightarrow> string + nat \<times> nat \<times> nat" where
  "parse_part part minv maxv names label =
     (if part = [] then Inl (label @ '' has an empty list item'')
      else let (rng, after_slash) =
             (case break_at ''/'' part of Some (r, s) \<Rightarrow> (r, Some s) | None \<Rightarrow> (part, None))
        in case parse_step after_slash minv maxv label of Inl e \<Rightarrow> Inl e
           | Inr step \<Rightarrow> (case parse_range rng minv maxv names label of Inl e \<Rightarrow> Inl e
               | Inr (b, e) \<Rightarrow> Inr (b, e, step)))"

fun mark_parts :: "string list \<Rightarrow> nat \<Rightarrow> nat \<Rightarrow> string list \<Rightarrow> string \<Rightarrow> 64 word \<Rightarrow> string + 64 word" where
  "mark_parts [] minv maxv names label bits = Inr bits"
| "mark_parts (p # ps) minv maxv names label bits =
     (case parse_part p minv maxv names label of Inl e \<Rightarrow> Inl e
      | Inr (b, e, step) \<Rightarrow> mark_parts ps minv maxv names label (mark_range b e step bits))"

definition parseField :: "string \<Rightarrow> nat \<Rightarrow> nat \<Rightarrow> string list \<Rightarrow> string \<Rightarrow> string + 64 word" where
  "parseField field minv maxv names label =
     (if field = [] then Inl (label @ '' is empty'')
      else case mark_parts (split1 field CHR '','') minv maxv names label 0 of
        Inl e \<Rightarrow> Inl e
      | Inr bits \<Rightarrow> if bits = 0 then Inl (label @ '' matches nothing'') else Inr bits)"

definition sunday_bits :: "64 word \<Rightarrow> 64 word" where
  "sunday_bits dow =
     (let d1 = (if dow AND push_bit 7 1 \<noteq> 0 then dow OR 1 else dow)
      in if d1 AND 1 \<noteq> 0 then d1 OR push_bit 7 1 else d1)"

definition parse_fields :: "string \<Rightarrow> string list \<Rightarrow> string + CronExpr" where
  "parse_fields raw flds =
     (case parseField (flds ! 0) 0 59 [] ''minute'' of Inl e \<Rightarrow> Inl e
      | Inr mi \<Rightarrow> case parseField (flds ! 1) 0 23 [] ''hour'' of Inl e \<Rightarrow> Inl e
      | Inr ho \<Rightarrow> case parseField (flds ! 2) 1 31 [] ''day-of-month'' of Inl e \<Rightarrow> Inl e
      | Inr dm \<Rightarrow> case parseField (flds ! 3) 1 12 month_names ''month'' of Inl e \<Rightarrow> Inl e
      | Inr mo \<Rightarrow> case parseField (flds ! 4) 0 7 weekday_names ''day-of-week'' of Inl e \<Rightarrow> Inl e
      | Inr dw \<Rightarrow> Inr \<lparr>cx_source = raw, cx_minute = mi, cx_hour = ho, cx_dom = dm, cx_month = mo,
                        cx_dow = sunday_bits dw, cx_domAll = (flds ! 2 = ''*''), cx_dowAll = (flds ! 4 = ''*'')\<rparr>)"

definition parse_cron :: "string \<Rightarrow> string + CronExpr" where
  "parse_cron text =
     (let raw = trim text in
      if raw = [] then Inl ''cron expression is empty''
      else let expanded = expandAlias raw in
        if expanded = [] then Inl (''unknown cron alias: '' @ raw)
        else let flds = splitWs expanded in
          if length flds \<noteq> 5
          then Inl (''cron must have 5 fields (minute hour day month weekday), got '' @ dec_of_nat (length flds))
          else parse_fields raw flds)"

section \<open>What a parsed field denotes\<close>

lemma cron_bit_iff: "cron_bit bits v \<longleftrightarrow> 0 \<le> v \<and> v < 64 \<and> bit bits (nat v)"
  by (auto simp: cron_bit_def bit_iff_and_push_bit_not_eq_0 nat_less_iff)

lemma bit_mark_range:
  "bit (mark_range v e step bits) i \<longleftrightarrow>
   bit bits i \<or> 0 < step \<and> i < 64 \<and> v \<le> i \<and> i \<le> e \<and> (i - v) mod step = 0"
proof (induction v e step bits rule: mark_range.induct)
  case (1 v e step bits)
  show ?case
  proof (cases "v \<le> e \<and> 0 < step")
    case True
    have "v \<le> i \<and> i \<le> e \<and> (i - v) mod step = 0 \<longleftrightarrow>
        i = v \<or> v + step \<le> i \<and> i \<le> e \<and> (i - (v + step)) mod step = 0"
    proof (cases "v + step \<le> i")
      case ge: True
      then have "i - v = i - (v + step) + step" by simp
      then have "(i - v) mod step = (i - (v + step)) mod step" by (metis mod_add_self2)
      with ge True show ?thesis by auto
    next
      case lt: False
      then have "v \<le> i \<Longrightarrow> step dvd i - v \<Longrightarrow> i - v = 0" by (auto dest: dvd_imp_le)
      with lt True show ?thesis by auto
    qed
    with 1 True show ?thesis
      by (subst mark_range.simps) (auto simp: bit_or_iff bit_exp_iff)
  next
    case False
    then show ?thesis by (subst mark_range.simps) auto
  qed
qed

lemma parse_number_bounds: "parse_number tok minv maxv label = Inr v \<Longrightarrow> minv \<le> v \<and> v \<le> maxv"
  by (auto simp: parse_number_def split: if_splits option.splits)

lemma parseInt_bounds: "parseInt tok minv maxv names base label = Inr v \<Longrightarrow> minv \<le> v \<and> v \<le> maxv"
  by (auto simp: parseInt_def Let_def split: if_splits option.splits dest: parse_number_bounds)

lemma parse_step_pos: "parse_step s minv maxv label = Inr v \<Longrightarrow> 0 < v"
  by (auto simp: parse_step_def split: option.splits dest!: parseInt_bounds)

lemma parse_range_bounds:
  assumes "parse_range rng minv maxv names label = Inr (b, e)" and "minv \<le> maxv"
  shows "minv \<le> b \<and> b \<le> e \<and> e \<le> maxv"
  using assms
  by (auto simp: parse_range_def Let_def split: if_splits option.splits sum.splits dest!: parseInt_bounds)

lemma parse_part_bounds:
  assumes "parse_part p minv maxv names label = Inr (b, e, step)" and "minv \<le> maxv"
  shows "minv \<le> b \<and> b \<le> e \<and> e \<le> maxv \<and> 0 < step"
  using assms
  by (auto simp: parse_part_def split: if_splits option.splits sum.splits prod.splits
      dest!: parse_range_bounds parse_step_pos)

text \<open>The values an item stands for.\<close>

definition covers :: "string \<Rightarrow> nat \<Rightarrow> nat \<Rightarrow> string list \<Rightarrow> string \<Rightarrow> nat \<Rightarrow> bool" where
  "covers p minv maxv names label i =
     (case parse_part p minv maxv names label of Inl e \<Rightarrow> False
      | Inr (b, e, step) \<Rightarrow> b \<le> i \<and> i \<le> e \<and> (i - b) mod step = 0)"

lemma mark_parts_bits:
  assumes "mark_parts ps minv maxv names label bits = Inr out" and "minv \<le> maxv" and "maxv < 64"
  shows "bit out i \<longleftrightarrow> bit bits i \<or> (\<exists>p \<in> set ps. covers p minv maxv names label i)"
  using assms(1)
proof (induction ps arbitrary: bits)
  case (Cons p ps)
  from Cons.prems obtain b e step where p: "parse_part p minv maxv names label = Inr (b, e, step)"
    and r: "mark_parts ps minv maxv names label (mark_range b e step bits) = Inr out"
    by (auto split: sum.splits)
  have "0 < step \<and> e < 64" using parse_part_bounds [OF p assms(2)] assms(3) by simp
  with Cons.IH [OF r] show ?case
    by (auto simp: bit_mark_range covers_def p)
qed simp

lemma covers_bounds: "covers p minv maxv names label i \<Longrightarrow> minv \<le> maxv \<Longrightarrow> minv \<le> i \<and> i \<le> maxv"
  by (auto simp: covers_def split: sum.splits dest!: parse_part_bounds)

lemma parseField_bits:
  assumes "parseField field minv maxv names label = Inr bits" and "minv \<le> maxv" and "maxv < 64"
  shows "bit bits i \<longleftrightarrow> (\<exists>p \<in> set (split1 field CHR '',''). covers p minv maxv names label i)"
  using assms mark_parts_bits [OF _ assms(2,3), of "split1 field CHR '',''" names label 0 bits i]
  by (auto simp: parseField_def split: if_splits sum.splits)

text \<open>A non-empty set of values between two bounds.\<close>

definition bits_within :: "nat \<Rightarrow> nat \<Rightarrow> 64 word \<Rightarrow> bool" where
  "bits_within lo hi bits = (bits \<noteq> 0 \<and> (\<forall>i. bit bits i \<longrightarrow> lo \<le> i \<and> i \<le> hi))"

lemma parseField_within:
  assumes "parseField field minv maxv names label = Inr bits" and "minv \<le> maxv" and "maxv < 64"
  shows "bits_within minv maxv bits"
  using assms parseField_bits [OF assms] covers_bounds
  by (fastforce simp: bits_within_def parseField_def split: if_splits sum.splits)

lemma bit_mark: "k < 64 \<Longrightarrow> bit (push_bit k (1 :: 64 word)) i \<longleftrightarrow> i = k"
  by (auto simp: bit_exp_iff)

lemma nonzero_bit: "(w :: 64 word) \<noteq> 0 \<longleftrightarrow> (\<exists>i. bit w i)"
  by (metis bit_eqI bit_0_eq bot_apply bot_bool_def)

lemma bit_sunday: "bit (sunday_bits d) i \<longleftrightarrow> bit d i \<or> (i = 0 \<or> i = 7) \<and> (bit d 0 \<or> bit d 7)"
proof -
  define p where "p = push_bit 7 (1 :: 64 word)"
  have a: "w AND p = 0 \<longleftrightarrow> \<not> bit w 7" "w AND 1 = 0 \<longleftrightarrow> \<not> bit w 0" for w :: "64 word"
    using bit_iff_and_push_bit_not_eq_0 [of w 7] bit_iff_and_push_bit_not_eq_0 [of w 0] by (auto simp: p_def)
  have m: "bit p i \<longleftrightarrow> i = 7" for i unfolding p_def by (rule bit_mark) simp
  show ?thesis
    unfolding sunday_bits_def Let_def p_def [symmetric] a
    by (auto simp: bit_or_iff bit_1_iff m)
qed

lemma sunday_within: "bits_within 0 7 d \<Longrightarrow> bits_within 0 7 (sunday_bits d)"
  unfolding bits_within_def nonzero_bit bit_sunday by auto

text \<open>
  C24. Every expression the parser accepts names at least one minute, hour, day, month and
  weekday, all of them in the calendar's ranges, and treats 0 and 7 alike as Sunday.
\<close>

theorem parse_cron_ranges:
  assumes "parse_cron text = Inr e"
  shows "bits_within 0 59 (cx_minute e) \<and> bits_within 0 23 (cx_hour e) \<and> bits_within 1 31 (cx_dom e)
    \<and> bits_within 1 12 (cx_month e) \<and> bits_within 0 7 (cx_dow e) \<and> (bit (cx_dow e) 0 \<longleftrightarrow> bit (cx_dow e) 7)
    \<and> cx_source e = trim text"
proof -
  define flds where "flds = splitWs (expandAlias (trim text))"
  from assms have "parse_fields (trim text) flds = Inr e"
    by (auto simp: parse_cron_def Let_def flds_def split: if_splits)
  then obtain mi ho dm mo dw where
    f: "parseField (flds ! 0) 0 59 [] ''minute'' = Inr mi" "parseField (flds ! 1) 0 23 [] ''hour'' = Inr ho"
      "parseField (flds ! 2) 1 31 [] ''day-of-month'' = Inr dm"
      "parseField (flds ! 3) 1 12 month_names ''month'' = Inr mo"
      "parseField (flds ! 4) 0 7 weekday_names ''day-of-week'' = Inr dw"
    and e: "e = \<lparr>cx_source = trim text, cx_minute = mi, cx_hour = ho, cx_dom = dm, cx_month = mo,
      cx_dow = sunday_bits dw, cx_domAll = (flds ! 2 = ''*''), cx_dowAll = (flds ! 4 = ''*'')\<rparr>"
    unfolding parse_fields_def by (auto split: sum.splits)
  note w = f [THEN parseField_within]
  show ?thesis
    using w(1-4) sunday_within [OF w(5)] by (auto simp add: e bit_sunday)
qed

theorem parse_cron_ranges_witness:
  "bits_within 0 59 (cx_minute (projr (parse_cron ''*/15 9-17 * JAN,3 MON-FRI'')))"
proof -
  have "isl (parse_cron ''*/15 9-17 * JAN,3 MON-FRI'') = False" by code_simp
  then obtain e where e: "parse_cron ''*/15 9-17 * JAN,3 MON-FRI'' = Inr e"
    by (cases "parse_cron ''*/15 9-17 * JAN,3 MON-FRI''") auto
  from parse_cron_ranges [OF e] e show ?thesis by simp
qed

section \<open>The next match\<close>

lemma scan_minutes_cases:
  "(\<exists>i < n. scan_minutes e n c = c + int i * minute_ticks \<and> cron_matches e (c + int i * minute_ticks)
      \<and> (\<forall>j < i. \<not> cron_matches e (c + int j * minute_ticks)))
   \<or> scan_minutes e n c = 0 \<and> (\<forall>j < n. \<not> cron_matches e (c + int j * minute_ticks))"
proof (induction e n c rule: scan_minutes.induct)
  case (2 e n c)
  show ?case
  proof (cases "cron_matches e c")
    case False
    have shift: "c + minute_ticks + int j * minute_ticks = c + int (Suc j) * minute_ticks" for j by simp
    note ih = "2.IH" [OF False, unfolded shift]
    have all: "(\<forall>j < Suc i. \<not> cron_matches e (c + int j * minute_ticks))"
      if "\<forall>j < i. \<not> cron_matches e (c + int (Suc j) * minute_ticks)" for i
      using that False less_Suc_eq_0_disj by auto
    from ih show ?thesis
    proof
      assume "\<exists>i < n. scan_minutes e n (c + minute_ticks) = c + int (Suc i) * minute_ticks
          \<and> cron_matches e (c + int (Suc i) * minute_ticks)
          \<and> (\<forall>j < i. \<not> cron_matches e (c + int (Suc j) * minute_ticks))"
      then obtain i where i: "i < n" "scan_minutes e n (c + minute_ticks) = c + int (Suc i) * minute_ticks"
          "cron_matches e (c + int (Suc i) * minute_ticks)"
          "\<forall>j < i. \<not> cron_matches e (c + int (Suc j) * minute_ticks)"
        by blast
      with all [of i] False show ?thesis by (intro disjI1 exI [of _ "Suc i"]) simp
    next
      assume "scan_minutes e n (c + minute_ticks) = 0 \<and> (\<forall>j < n. \<not> cron_matches e (c + int (Suc j) * minute_ticks))"
      with all [of n] False show ?thesis by simp
    qed
  qed simp
qed simp

text \<open>The tick count of a minute.\<close>

definition minute_at :: "int \<Rightarrow> TimePoint" where
  "minute_at k = k * minute_ticks"

lemma epochMinute_nonneg: "0 \<le> tp \<Longrightarrow> epochMinute tp = tp div minute_ticks"
  by (simp add: epochMinute_def sdiv_nonneg)

lemma nextAfter_cases:
  assumes "0 \<le> tp"
  shows "(\<exists>i < scan_limit. nextAfter e tp = minute_at (tp div minute_ticks + 1 + int i)
      \<and> cron_matches e (nextAfter e tp)
      \<and> (\<forall>j < i. \<not> cron_matches e (minute_at (tp div minute_ticks + 1 + int j))))
    \<or> nextAfter e tp = 0 \<and> (\<forall>j < scan_limit. \<not> cron_matches e (minute_at (tp div minute_ticks + 1 + int j)))"
proof -
  let ?c = "epochMinute tp * minute_ticks + minute_ticks"
  have at: "?c + int j * minute_ticks = minute_at (tp div minute_ticks + 1 + int j)" for j
    unfolding minute_at_def epochMinute_nonneg [OF assms] by (simp only: distrib_right mult_1)
  have "scan_minutes e scan_limit ?c = nextAfter e tp" by (simp add: nextAfter_def)
  with scan_minutes_cases [of scan_limit e ?c] show ?thesis unfolding at by auto
qed

text \<open>
  C23. \<open>nextAfter\<close> returns the first minute after the given one that matches the expression,
  and zero only when no minute of the following 366 days matches.
\<close>

theorem nextAfter_first:
  assumes "0 \<le> tp"
  shows "(\<exists>i < 527040. nextAfter e tp = minute_at (tp div minute_ticks + 1 + int i)
      \<and> cron_matches e (nextAfter e tp)
      \<and> (\<forall>j < i. \<not> cron_matches e (minute_at (tp div minute_ticks + 1 + int j))))
    \<or> nextAfter e tp = 0 \<and> (\<forall>j < 527040. \<not> cron_matches e (minute_at (tp div minute_ticks + 1 + int j)))"
proof -
  have "scan_limit = 527040" by (simp add: scan_limit_def)
  with nextAfter_cases [OF assms] show ?thesis by simp
qed

theorem nextAfter_first_witness:
  "nextAfter default_CronExpr 0 = 0 \<or> cron_matches default_CronExpr (nextAfter default_CronExpr 0)"
  using nextAfter_first [of 0 default_CronExpr] by auto

section \<open>The daily alias\<close>

definition daily :: CronExpr where
  "daily = projr (parse_cron ''@daily'')"

lemma daily_eq:
  "daily = \<lparr>cx_source = ''@daily'', cx_minute = 1, cx_hour = 1, cx_dom = 0xFFFFFFFE, cx_month = 0x1FFE,
     cx_dow = 0xFF, cx_domAll = True, cx_dowAll = True\<rparr>"
  by code_simp

lemma one_bit_0: "cron_bit 1 v \<longleftrightarrow> v = 0"
  by (auto simp: cron_bit_iff bit_1_iff nat_eq_iff)

lemma any_month:
  assumes "1 \<le> m" and "m \<le> 12"
  shows "cron_bit 0x1FFE m"
proof -
  from assms have "m \<in> set [1..12]" by simp
  then show ?thesis by (auto simp: cron_bit_def upto_rec1)
qed

lemma daily_matches_minute:
  "cron_matches daily (minute_at k) \<longleftrightarrow> k mod 1440 = 0" if "0 \<le> k"
proof -
  have t: "to_time_t (minute_at k) = k * 60"
    using that by (simp add: to_time_t_def minute_at_def sdiv_nonneg)
  have r: "k * 60 mod 86400 = k mod 1440 * 60"
    using mod_mult_mult2 [of k 60 1440] by simp
  have h: "tm_hour (gmtime (k * 60)) = k mod 1440 div 60" "tm_min (gmtime (k * 60)) = k mod 1440 mod 60"
    using div_mult_mult2 [of 60 "k mod 1440" 60] r by (simp_all add: gmtime_def Let_def split: prod.split)
  have m: "1 \<le> tm_mon (gmtime (k * 60))" "tm_mon (gmtime (k * 60)) \<le> 12"
    using valid_tm_gmtime [of "k * 60"] by (simp_all add: valid_tm_def valid_date_def)
  have "k mod 1440 div 60 = 0 \<and> k mod 1440 mod 60 = 0 \<longleftrightarrow> k mod 1440 = 0"
    using div_mult_mod_eq [of "k mod 1440" 60] by auto
  then show ?thesis
    using any_month [OF m] h by (auto simp: cron_matches_def matches_tm_def toUtc_def t daily_eq one_bit_0)
qed

text \<open>
  The alias \<open>@daily\<close> fires next at the following midnight, UTC, from any time after the epoch.
\<close>

lemma nextAfter_daily:
  assumes "0 \<le> tp"
  shows "nextAfter (projr (parse_cron ''@daily'')) tp = minute_at (1440 * (tp div minute_ticks div 1440 + 1))"
proof -
  define m where "m = tp div minute_ticks"
  define i where "i = nat (1439 - m mod 1440)"
  have m: "0 \<le> m" using assms by (simp add: m_def pos_imp_zdiv_nonneg_iff)
  have b: "0 \<le> m mod 1440" "m mod 1440 < 1440" by simp_all
  have i: "int i = 1439 - m mod 1440" using b by (simp add: i_def)
  have sum: "m + 1 + int i = 1440 * (m div 1440 + 1)"
    using i by (simp add: minus_mod_eq_mult_div)
  have hit: "cron_matches daily (minute_at (m + 1 + int i))"
    unfolding sum using m by (subst daily_matches_minute) (simp_all add: pos_imp_zdiv_nonneg_iff)
  have lim: "i < scan_limit" using i b by (simp add: scan_limit_def)
  have miss: "\<not> cron_matches daily (minute_at (m + 1 + int j))" if "j < i" for j
  proof -
    have e: "m + 1 + int j = (m mod 1440 + 1 + int j) + 1440 * (m div 1440)"
      using mult_div_mod_eq [of 1440 m] by simp
    have "0 < m mod 1440 + 1 + int j" "m mod 1440 + 1 + int j < 1440" using that i b by linarith+
    then have "(m + 1 + int j) mod 1440 \<noteq> 0"
      unfolding e mod_mult_self2 by (simp add: mod_pos_pos_trivial)
    then show ?thesis using m by (subst daily_matches_minute) simp_all
  qed
  from nextAfter_cases [OF assms, of daily, folded m_def]
  have "nextAfter daily tp = minute_at (m + 1 + int i)"
  proof (elim disjE exE conjE)
    fix k
    assume k: "nextAfter daily tp = minute_at (m + 1 + int k)" "cron_matches daily (nextAfter daily tp)"
      "\<forall>j < k. \<not> cron_matches daily (minute_at (m + 1 + int j))"
    from k(1,2) miss hit k(3) have "k = i" by (metis linorder_neqE_nat)
    with k(1) show ?thesis by simp
  qed (use hit lim in auto)
  then show ?thesis using sum unfolding m_def daily_def by simp
qed

lemma nextAfter_daily_witness:
  "nextAfter (projr (parse_cron ''@daily'')) 1704103200000000000 = 1704153600000000000"
  using nextAfter_daily [of 1704103200000000000] by (simp add: minute_at_def)

end
