(* ===== verification/OrderedIndex.thy ===== *)
theory OrderedIndex
  imports Prelude
begin

text \<open>
  The pair of a \<open>std::map\<close> from ids and the vector of ids in order of creation, as the engine
  keeps its records (\<open>records_\<close>, \<open>order_\<close>) and the scheduler its plans (\<open>items_\<close>, \<open>order_\<close>).
  What both clients rely on is the locale \<open>ordered_index\<close>: additions go to the end, deletions
  keep the others, an update changes one row in place.
\<close>

section \<open>The contract\<close>

locale ordered_index =
  fixes inv :: "'s \<Rightarrow> bool"
    and ids :: "'s \<Rightarrow> string list"
    and get :: "'s \<Rightarrow> string \<Rightarrow> 'a option"
    and add :: "string \<Rightarrow> 'a \<Rightarrow> 's \<Rightarrow> 's"
    and del :: "string \<Rightarrow> 's \<Rightarrow> 's"
    and upd :: "string \<Rightarrow> ('a \<Rightarrow> 'a) \<Rightarrow> 's \<Rightarrow> 's"
  assumes ids_distinct: "inv s \<Longrightarrow> distinct (ids s)"
    and get_None: "inv s \<Longrightarrow> get s i = None \<longleftrightarrow> i \<notin> set (ids s)"
    and inv_add: "inv s \<Longrightarrow> get s i = None \<Longrightarrow> inv (add i x s)"
    and ids_add: "inv s \<Longrightarrow> get s i = None \<Longrightarrow> ids (add i x s) = ids s @ [i]"
    and get_add: "inv s \<Longrightarrow> get s i = None \<Longrightarrow> get (add i x s) j = (if j = i then Some x else get s j)"
    and inv_del: "inv s \<Longrightarrow> inv (del i s)"
    and ids_del: "inv s \<Longrightarrow> ids (del i s) = filter (\<lambda>j. j \<noteq> i) (ids s)"
    and get_del: "inv s \<Longrightarrow> get (del i s) j = (if j = i then None else get s j)"
    and inv_upd: "inv s \<Longrightarrow> inv (upd i f s)"
    and ids_upd: "inv s \<Longrightarrow> ids (upd i f s) = ids s"
    and get_upd: "inv s \<Longrightarrow> get (upd i f s) j = (if j = i then map_option f (get s j) else get s j)"
begin

text \<open>The rows in order, and the condition that every row satisfies.\<close>

definition rows :: "'s \<Rightarrow> 'a list" where
  "rows s = map (\<lambda>i. the (get s i)) (ids s)"

definition every :: "(string \<Rightarrow> 'a \<Rightarrow> bool) \<Rightarrow> 's \<Rightarrow> bool" where
  "every P s = (\<forall>i x. get s i = Some x \<longrightarrow> P i x)"

lemma rows_add: "inv s \<Longrightarrow> get s i = None \<Longrightarrow> rows (add i x s) = rows s @ [x]"
  by (auto simp: rows_def ids_add get_add get_None)

lemma rows_del: "inv s \<Longrightarrow> rows (del i s) = map (\<lambda>j. the (get s j)) (filter (\<lambda>j. j \<noteq> i) (ids s))"
  by (auto simp: rows_def ids_del get_del)

lemma length_upd: "inv s \<Longrightarrow> length (rows (upd i f s)) = length (rows s)"
  by (simp add: rows_def ids_upd)

lemma every_add: "inv s \<Longrightarrow> get s i = None \<Longrightarrow> every P s \<Longrightarrow> P i x \<Longrightarrow> every P (add i x s)"
  by (simp add: every_def get_add)

lemma every_del: "inv s \<Longrightarrow> every P s \<Longrightarrow> every P (del i s)"
  by (simp add: every_def get_del)

lemma every_upd: "inv s \<Longrightarrow> every P s \<Longrightarrow> (\<And>x. get s i = Some x \<Longrightarrow> P i x \<Longrightarrow> P i (f x)) \<Longrightarrow> every P (upd i f s)"
  by (auto simp: every_def get_upd split: if_splits)

text \<open>Deleting several ids at once.\<close>

definition dels :: "string list \<Rightarrow> 's \<Rightarrow> 's" where
  "dels is s = foldl (\<lambda>s i. del i s) s is"

lemma dels_facts:
  "inv s \<Longrightarrow> inv (dels is s) \<and> ids (dels is s) = filter (\<lambda>j. j \<notin> set is) (ids s)
    \<and> (\<forall>j. get (dels is s) j = (if j \<in> set is then None else get s j))"
proof (induction "is" arbitrary: s)
  case (Cons i "is")
  from Cons.IH [OF inv_del [OF Cons.prems, of i]] Cons.prems show ?case
    by (auto simp: dels_def ids_del get_del)
qed (simp add: dels_def)

end

section \<open>The map and the vector\<close>

type_synonym 'a index = "(string, 'a) omap \<times> string list"

definition ix_ok :: "'a index \<Rightarrow> bool" where
  "ix_ok ix = (omap_ok (fst ix) \<and> distinct (snd ix) \<and> set (snd ix) = set (omap_keys (fst ix)))"

definition ix_get :: "'a index \<Rightarrow> string \<Rightarrow> 'a option" where
  "ix_get ix i = map_of (fst ix) i"

definition ix_add :: "string \<Rightarrow> 'a \<Rightarrow> 'a index \<Rightarrow> 'a index" where
  "ix_add i x ix = (omap_put i x (fst ix), snd ix @ [i])"

text \<open>\<open>order.erase(std::remove(...))\<close> deletes every occurrence of the id.\<close>

definition ix_del :: "string \<Rightarrow> 'a index \<Rightarrow> 'a index" where
  "ix_del i ix = (omap_erase i (fst ix), filter (\<lambda>j. j \<noteq> i) (snd ix))"

text \<open>Writing through the iterator of an existing entry.\<close>

definition ix_upd :: "string \<Rightarrow> ('a \<Rightarrow> 'a) \<Rightarrow> 'a index \<Rightarrow> 'a index" where
  "ix_upd i f ix = (case map_of (fst ix) i of None \<Rightarrow> ix | Some x \<Rightarrow> (omap_put i (f x) (fst ix), snd ix))"

lemma set_keys_erase: "set (omap_keys (omap_erase k m)) = set (omap_keys m) - {k}"
  by (auto simp: omap_erase_def)

interpretation ixi: ordered_index ix_ok snd ix_get ix_add ix_del ix_upd
proof unfold_locales
  fix s :: "'a index" and i j :: string and x :: 'a and f :: "'a \<Rightarrow> 'a"
  assume ok: "ix_ok s"
  then have ok': "omap_ok (fst s)" "distinct (snd s)" "set (snd s) = set (omap_keys (fst s))"
    by (simp_all add: ix_ok_def)
  show "distinct (snd s)" by (rule ok'(2))
  show none: "ix_get s i = None \<longleftrightarrow> i \<notin> set (snd s)"
    by (simp only: ix_get_def ok'(3)) (simp add: map_of_eq_None_iff)
  show "ix_ok (ix_del i s)"
    using ok' by (auto simp: ix_ok_def ix_del_def omap_ok_erase set_keys_erase simp del: set_map)
  show "snd (ix_del i s) = filter (\<lambda>j. j \<noteq> i) (snd s)" by (simp add: ix_del_def)
  show "ix_get (ix_del i s) j = (if j = i then None else ix_get s j)"
    by (simp add: ix_del_def ix_get_def omap_get_erase)
  show "ix_ok (ix_upd i f s)"
  proof (cases "map_of (fst s) i")
    case (Some y)
    then have "i \<in> set (omap_keys (fst s))" by (force dest: map_of_SomeD)
    with Some ok' show ?thesis
      by (simp add: ix_ok_def ix_upd_def omap_ok_put set_keys_put insert_absorb del: set_map)
  qed (simp add: ok ix_upd_def)
  show "snd (ix_upd i f s) = snd s" by (simp add: ix_upd_def split: option.splits)
  show "ix_get (ix_upd i f s) j = (if j = i then map_option f (ix_get s j) else ix_get s j)"
    by (auto simp: ix_upd_def ix_get_def omap_get_put split: option.splits)
  assume "ix_get s i = None"
  then have i: "i \<notin> set (snd s)" using none by blast
  show "ix_ok (ix_add i x s)" using ok' i by (auto simp: ix_ok_def ix_add_def omap_ok_put set_keys_put simp del: set_map)
  show "snd (ix_add i x s) = snd s @ [i]" by (simp add: ix_add_def)
  show "ix_get (ix_add i x s) j = (if j = i then Some x else ix_get s j)"
    by (simp add: ix_add_def ix_get_def omap_get_put)
qed

lemma ix_ok_empty [simp]: "ix_ok ([], [])"
  by (simp add: ix_ok_def)

lemma ix_get_empty [simp]: "ix_get ([], ord) i = None"
  by (simp add: ix_get_def)

end
