(* ===== verification/NumberedIds.thy ===== *)
theory NumberedIds
  imports OrderedIndex TimeText
begin

text \<open>
  Generated ids: a stem and a counter modulo 1000 in three digits, as \<open>TestQueue::generateTaskId\<close>
  and \<open>Scheduler::generateId\<close> print them. With fewer than a thousand rows in the index one of
  the thousand ids of a stem is free.
\<close>

definition numbered_id :: "string \<Rightarrow> nat \<Rightarrow> string" where
  "numbered_id stem n = stem @ ''-'' @ pad_zeros 3 (dec_of_nat n)"

lemma numbered_id_inj: "inj_on (numbered_id s) {..<1000}"
proof (rule inj_onI)
  fix a b :: nat
  assume a: "a \<in> {..<1000}" and b: "b \<in> {..<1000}" and eq: "numbered_id s a = numbered_id s b"
  from eq have p: "pad_zeros 3 (dec_of_nat a) = pad_zeros 3 (dec_of_nat b)"
    unfolding numbered_id_def by (simp only: same_append_eq)
  have "(10::nat) ^ 3 = 1000" by simp
  with a b have "a < 10 ^ 3" "b < 10 ^ 3" by simp_all
  with p show "a = b"
    using padded(2) [of a 3] padded(2) [of b 3] by (metis zero_less_numeral)
qed

lemma free_number:
  assumes "length (fst ix) < 1000"
  shows "\<exists>k < 1000. ix_get ix (numbered_id s k) = None"
proof (rule ccontr)
  assume "\<not> (\<exists>k < 1000. ix_get ix (numbered_id s k) = None)"
  then have "numbered_id s ` {..<1000} \<subseteq> fst ` set (fst ix)"
    by (force simp: ix_get_def map_of_eq_None_iff)
  then have "card (numbered_id s ` {..<1000}) \<le> card (fst ` set (fst ix))"
    by (intro card_mono) simp_all
  also have "\<dots> \<le> length (fst ix)" by (metis card_length length_map set_map)
  finally show False using assms by (simp add: card_image numbered_id_inj)
qed

text \<open>A free number that a 32-bit counter reaches from any value, since 1000 numbers fit in it.\<close>

lemma free_counter:
  assumes "length (fst ix) < 1000"
  shows "\<exists>n. ix_get ix (numbered_id s (unat ((c :: 32 word) + of_nat (Suc n)) mod 1000)) = None"
proof -
  from free_number [OF assms] obtain k where k: "k < 1000" "ix_get ix (numbered_id s k) = None" by blast
  define n where "n = unat (of_nat k - c - 1)"
  have "c + of_nat (Suc n) = of_nat k" by (simp add: n_def)
  moreover have "unat (of_nat k :: 32 word) = k" using k(1) by (simp add: unat_of_nat)
  ultimately show ?thesis using k by (intro exI [of _ n]) (simp del: of_nat_Suc)
qed

end
