(* ===== verification/Scheduler.thy ===== *)
theory Scheduler
  imports Cron ResultStore NumberedIds TestQueue
begin

text \<open>
  \<open>src/src/engine/scheduler.cpp\<close> and \<open>scheduler.h\<close>: plans that submit a test whenever their cron
  expression matches the current minute. A plan and its parsed expression are a row of an
  ordered index; every method is one critical section of the scheduler's mutex, except
  \<open>tick\<close>, which takes the mutex once per plan. The two callbacks are parameters that act on a
  world \<open>'w\<close>: submitting returns a test id or the text of the exception it throws. The plans'
  directory is an association list of file names and contents in the order the file system
  lists it; the outcome of each write is a parameter.
\<close>

section \<open>State\<close>

record Schedule =
  sh_id :: string
  sh_name :: string
  sh_cron :: string
  sh_enabled :: bool
  sh_skipIfRunning :: bool
  sh_request :: TestRequest
  sh_createdAt :: TimePoint
  sh_updatedAt :: TimePoint
  sh_lastRunAt :: TimePoint
  sh_lastTestId :: string
  sh_lastError :: string
  sh_runCount :: nat
  sh_skipCount :: nat
  sh_lastFiredMinute :: int

definition default_Schedule :: Schedule where
  "default_Schedule = \<lparr>sh_id = [], sh_name = [], sh_cron = [], sh_enabled = True, sh_skipIfRunning = True,
     sh_request = default_TestRequest, sh_createdAt = 0, sh_updatedAt = 0, sh_lastRunAt = 0, sh_lastTestId = [],
     sh_lastError = [], sh_runCount = 0, sh_skipCount = 0, sh_lastFiredMinute = -1\<rparr>"

record SchedulerConfig =
  sg_enabled :: bool
  sg_intervalMs :: int
  sg_dir :: string

record SchedulerStats =
  sx_on :: bool
  sx_intervalMs :: int
  sx_count :: nat
  sx_enabledCount :: nat
  sx_ticks :: nat
  sx_fires :: nat
  sx_skips :: nat
  sx_errors :: nat

record plan =
  pl_schedule :: Schedule
  pl_expr :: CronExpr

record scheduler =
  sd_config :: SchedulerConfig
  sd_files :: "(string \<times> string) list"
  sd_items :: "plan index"
  sd_idCounter :: "32 word"
  sd_running :: bool
  sd_stopRequested :: bool
  sd_ticks :: nat
  sd_fires :: nat
  sd_skips :: nat
  sd_errors :: nat

record 'w callbacks =
  cb_submit :: "(TestRequest \<Rightarrow> 'w \<Rightarrow> (string + string) \<times> 'w) option"
  cb_isActive :: "(string \<Rightarrow> 'w \<Rightarrow> bool) option"

definition new_scheduler :: "(string \<times> string) list \<Rightarrow> scheduler" where
  "new_scheduler files = \<lparr>sd_config = \<lparr>sg_enabled = True, sg_intervalMs = 1000, sg_dir = ''data/schedules''\<rparr>,
     sd_files = files, sd_items = ([], []), sd_idCounter = 0, sd_running = False, sd_stopRequested = False,
     sd_ticks = 0, sd_fires = 0, sd_skips = 0, sd_errors = 0\<rparr>"

definition configure_scheduler :: "SchedulerConfig \<Rightarrow> scheduler \<Rightarrow> scheduler" where
  "configure_scheduler c sd =
     sd\<lparr>sd_config := (if sg_intervalMs c < 50 then c\<lparr>sg_intervalMs := 50\<rparr> else c)\<rparr>"

section \<open>Plans as JSON\<close>

definition next_run :: "bool \<Rightarrow> TimePoint \<Rightarrow> Schedule \<Rightarrow> (string \<times> Json) list" where
  "next_run includeNext now s =
     (if includeNext \<and> sh_enabled s
      then (case parse_cron (sh_cron s) of Inl e \<Rightarrow> []
            | Inr e \<Rightarrow> opt (nextAfter e now \<noteq> 0) ''next_run_at'' (JTime (nextAfter e now)))
      else [])"

definition schedule_json :: "bool \<Rightarrow> TimePoint \<Rightarrow> Schedule \<Rightarrow> Json" where
  "schedule_json includeNext now s = jobject ([(''id'', JStr (sh_id s)), (''name'', JStr (sh_name s)),
     (''cron'', JStr (sh_cron s)), (''enabled'', JBool (sh_enabled s)), (''skip_if_running'', JBool (sh_skipIfRunning s)),
     (''request'', request_json (sh_request s)), (''created_at'', JTime (sh_createdAt s)),
     (''updated_at'', JTime (sh_updatedAt s))] @
     opt (sh_lastRunAt s \<noteq> 0) ''last_run_at'' (JTime (sh_lastRunAt s)) @
     opt (sh_lastTestId s \<noteq> []) ''last_test_id'' (JStr (sh_lastTestId s)) @
     opt (sh_lastError s \<noteq> []) ''last_error'' (JStr (sh_lastError s)) @
     [(''run_count'', JInt (int (sh_runCount s))), (''skip_count'', JInt (int (sh_skipCount s)))] @
     next_run includeNext now s)"

text \<open>
  \<open>static_cast<unsigned long long>(double)\<close>; a value outside the type is undefined behaviour,
  for which the model takes 0.
\<close>

definition read_count :: "Json \<Rightarrow> nat" where
  "read_count j = (case asNumber (Fin 0) j of Fin v \<Rightarrow> if 0 \<le> v \<and> v < 2 ^ 64 then nat (floor v) else 0 | _ \<Rightarrow> 0)"

definition read_schedule :: "Json \<Rightarrow> TestRequest \<Rightarrow> Schedule" where
  "read_schedule j request =
     (let i = asString [] (jget j ''id'') in
      \<lparr>sh_id = i, sh_name = asString i (jget j ''name''), sh_cron = asString [] (jget j ''cron''),
       sh_enabled = asBool True (jget j ''enabled''), sh_skipIfRunning = asBool True (jget j ''skip_if_running''),
       sh_request = request, sh_createdAt = read_time (jget j ''created_at''),
       sh_updatedAt = read_time (jget j ''updated_at''), sh_lastRunAt = read_time (jget j ''last_run_at''),
       sh_lastTestId = asString [] (jget j ''last_test_id''), sh_lastError = asString [] (jget j ''last_error''),
       sh_runCount = read_count (jget j ''run_count''), sh_skipCount = read_count (jget j ''skip_count''),
       sh_lastFiredMinute = asInt64 (-1) (jget j ''last_fired_minute'')\<rparr>)"

definition scheduleFromJson :: "Json \<Rightarrow> string + Schedule" where
  "scheduleFromJson j =
     (if \<not> isObject j then Inl ''schedule is not an object''
      else if \<not> safeId (asString [] (jget j ''id'')) then Inl ''missing or invalid id''
      else case parse_cron (asString [] (jget j ''cron'')) of
          Inl e \<Rightarrow> Inl e
        | Inr expr \<Rightarrow>
            if isObject (jget j ''request'')
            then (case testRequestFromJson (jget j ''request'') default_TestRequest of
                Inl e \<Rightarrow> Inl (''invalid request: '' @ e)
              | Inr r \<Rightarrow> Inr (read_schedule j r))
            else Inr (read_schedule j default_TestRequest))"

section \<open>Files\<close>

definition saved_json :: "Schedule \<Rightarrow> Json" where
  "saved_json s = jset (jset (schedule_json False 0 s) ''format'' (JInt kFormatVersion))
     ''last_fired_minute'' (JInt (sh_lastFiredMinute s))"

definition saveOne :: "write_outcome \<Rightarrow> Schedule \<Rightarrow> scheduler \<Rightarrow> scheduler" where
  "saveOne outcome s sd =
     (if sg_dir (sd_config sd) = [] \<or> \<not> safeId (sh_id s) then sd
      else let final = file_name (sh_id s); tmp = final @ ''.tmp''; content = dump 2 (saved_json s)
        in case outcome of
             Write_failed None \<Rightarrow> sd
           | Write_failed (Some part) \<Rightarrow> sd\<lparr>sd_files := fs_put tmp part (sd_files sd)\<rparr>
           | Rename_failed \<Rightarrow> sd\<lparr>sd_files := fs_remove tmp (fs_put tmp content (sd_files sd))\<rparr>
           | Written \<Rightarrow> sd\<lparr>sd_files := fs_put final content (fs_remove tmp (sd_files sd))\<rparr>)"

definition delete_plan_file :: "string \<Rightarrow> scheduler \<Rightarrow> scheduler" where
  "delete_plan_file i sd =
     (if sg_dir (sd_config sd) = [] \<or> \<not> safeId i then sd
      else sd\<lparr>sd_files := fs_remove (file_name i) (sd_files sd)\<rparr>)"

definition load_plan :: "string \<times> string \<Rightarrow> plan option" where
  "load_plan f =
     (if getExtension (fst f) \<noteq> ''.json'' then None
      else case parse (snd f) of
          Some (Inr j) \<Rightarrow>
            if asInt 0 (jget j ''format'') > kFormatVersion then None
            else (case scheduleFromJson j of
                Inl e \<Rightarrow> None
              | Inr s \<Rightarrow> Some \<lparr>pl_schedule = s, pl_expr = projr (parse_cron (sh_cron s))\<rparr>)
        | _ \<Rightarrow> None)"

definition file_plan :: "plan index \<Rightarrow> plan \<Rightarrow> plan index" where
  "file_plan ix p = ix_add (sh_id (pl_schedule p)) p ix"

definition created_at :: "plan index \<Rightarrow> string \<Rightarrow> TimePoint" where
  "created_at ix i = (case ix_get ix i of None \<Rightarrow> 0 | Some p \<Rightarrow> sh_createdAt (pl_schedule p))"

definition load_plans :: "scheduler \<Rightarrow> scheduler" where
  "load_plans sd =
     (if sg_dir (sd_config sd) = [] then sd\<lparr>sd_items := ([], [])\<rparr>
      else let ix = foldl file_plan ([], []) (List.map_filter load_plan (sd_files sd))
        in sd\<lparr>sd_items := (fst ix, sort_key (created_at ix) (snd ix))\<rparr>)"

text \<open>\<open>created\<close>: the directory exists or could be created.\<close>

definition start_scheduler :: "bool \<Rightarrow> scheduler \<Rightarrow> scheduler" where
  "start_scheduler created sd =
     (if sd_running sd then sd
      else let sd1 = (if sg_dir (sd_config sd) \<noteq> [] \<and> \<not> created
                      then sd\<lparr>sd_config := (sd_config sd)\<lparr>sg_dir := []\<rparr>\<rparr> else sd);
               sd2 = load_plans sd1
        in if \<not> sg_enabled (sd_config sd2) then sd2 else sd2\<lparr>sd_stopRequested := False, sd_running := True\<rparr>)"

definition stop_scheduler :: "scheduler \<Rightarrow> scheduler" where
  "stop_scheduler sd = (if \<not> sd_running sd then sd else sd\<lparr>sd_stopRequested := True, sd_running := False\<rparr>)"

section \<open>Firing\<close>

datatype fire_kind = Fire_skipped | Fire_failed | Fire_done

definition still_active :: "'w callbacks \<Rightarrow> 'w \<Rightarrow> Schedule \<Rightarrow> bool" where
  "still_active cb w s =
     (sh_skipIfRunning s \<and> sh_lastTestId s \<noteq> [] \<and>
      (case cb_isActive cb of None \<Rightarrow> False | Some f \<Rightarrow> f (sh_lastTestId s) w))"

definition plan_request :: "Schedule \<Rightarrow> TestRequest" where
  "plan_request s =
     (let r = sh_request s
      in r\<lparr>rq_id := [], rq_submittedBy := ''schedule:'' @ sh_id s,
           rq_metadata := omap_put ''schedule_id'' (sh_id s) (rq_metadata r),
           rq_name := (if rq_name r = [] then sh_name s else rq_name r)\<rparr>)"

definition plan_event :: "string \<Rightarrow> string \<Rightarrow> Schedule \<Rightarrow> string \<Rightarrow> string \<Rightarrow> publication" where
  "plan_event type testId s key v =
     (type, testId, omap_of_list [(''schedule_id'', sh_id s), (''name'', sh_name s), (key, v)])"

text \<open>
  \<open>fireLocked\<close>: the new plan, which counter it raises, the test id and error it returns, its
  events and the new world. The argument \<open>force\<close> is unused in the code.
\<close>

definition fireLocked :: "'w callbacks \<Rightarrow> TimePoint \<Rightarrow> Schedule \<Rightarrow> 'w
    \<Rightarrow> Schedule \<times> fire_kind \<times> string \<times> string \<times> publication list \<times> 'w" where
  "fireLocked cb now s w =
     (if still_active cb w s
      then (s\<lparr>sh_skipCount := sh_skipCount s + 1, sh_lastError := []\<rparr>, Fire_skipped, [], ''previous test still running'',
            [plan_event ''schedule.skipped'' (sh_lastTestId s) s ''reason'' ''previous_still_running''], w)
      else case cb_submit cb of
          None \<Rightarrow> (let err = ''scheduler has no submit callback''
                   in (s\<lparr>sh_lastError := err\<rparr>, Fire_failed, [], err, [], w))
        | Some f \<Rightarrow> (case f (plan_request s) w of
              (Inr testId, w') \<Rightarrow>
                (s\<lparr>sh_lastTestId := testId, sh_lastRunAt := now, sh_lastError := [], sh_runCount := sh_runCount s + 1\<rparr>,
                 Fire_done, testId, [], [plan_event ''schedule.triggered'' testId s ''cron'' (sh_cron s)], w')
            | (Inl err, w') \<Rightarrow>
                (s\<lparr>sh_lastError := err, sh_lastRunAt := now\<rparr>, Fire_failed, [], err,
                 [plan_event ''schedule.error'' [] s ''error'' err], w')))"

definition count_fire :: "fire_kind \<Rightarrow> scheduler \<Rightarrow> scheduler" where
  "count_fire k sd =
     (case k of
        Fire_skipped \<Rightarrow> sd\<lparr>sd_skips := sd_skips sd + 1\<rparr>
      | Fire_failed \<Rightarrow> sd\<lparr>sd_errors := sd_errors sd + 1\<rparr>
      | Fire_done \<Rightarrow> sd\<lparr>sd_fires := sd_fires sd + 1\<rparr>)"

text \<open>Marking the minute, firing and saving a plan, as \<open>tick\<close> and \<open>fireNow\<close> do.\<close>

definition fire_plan :: "'w callbacks \<Rightarrow> write_outcome \<Rightarrow> TimePoint \<Rightarrow> string \<Rightarrow> plan \<Rightarrow> scheduler \<Rightarrow> 'w
    \<Rightarrow> scheduler \<times> string \<times> string \<times> publication list \<times> 'w" where
  "fire_plan cb outcome now i p sd w =
     (case fireLocked cb now ((pl_schedule p)\<lparr>sh_lastFiredMinute := epochMinute now\<rparr>) w of
        (s, kind, testId, err, pubs, w') \<Rightarrow>
          (saveOne outcome s (count_fire kind
             (sd\<lparr>sd_items := ix_upd i (\<lambda>p. p\<lparr>pl_schedule := s\<rparr>) (sd_items sd)\<rparr>)), testId, err, pubs, w'))"

definition due :: "TimePoint \<Rightarrow> plan \<Rightarrow> bool" where
  "due now p = (sh_enabled (pl_schedule p) \<and> sh_lastFiredMinute (pl_schedule p) \<noteq> epochMinute now \<and>
                cron_matches (pl_expr p) now)"

text \<open>One round of the loop of \<open>tick\<close>; \<open>n\<close> counts the plans fired.\<close>

definition tick_one :: "'w callbacks \<Rightarrow> (string \<Rightarrow> write_outcome) \<Rightarrow> TimePoint
    \<Rightarrow> nat \<times> scheduler \<times> publication list \<times> 'w \<Rightarrow> string \<Rightarrow> nat \<times> scheduler \<times> publication list \<times> 'w" where
  "tick_one cb outcome now st i =
     (case st of (n, sd, pubs, w) \<Rightarrow>
        case ix_get (sd_items sd) i of
          None \<Rightarrow> st
        | Some p \<Rightarrow>
            if \<not> due now p then st
            else (case fire_plan cb (outcome i) now i p sd w of
                (sd', testId, err, pubs', w') \<Rightarrow> (n + 1, sd', pubs @ pubs', w')))"

definition tick :: "'w callbacks \<Rightarrow> (string \<Rightarrow> write_outcome) \<Rightarrow> TimePoint \<Rightarrow> scheduler \<Rightarrow> 'w
    \<Rightarrow> nat \<times> scheduler \<times> publication list \<times> 'w" where
  "tick cb outcome now sd w =
     foldl (tick_one cb outcome now) (0, sd\<lparr>sd_ticks := sd_ticks sd + 1\<rparr>, [], w) (snd (sd_items sd))"

definition fireNow :: "'w callbacks \<Rightarrow> write_outcome \<Rightarrow> TimePoint \<Rightarrow> string \<Rightarrow> scheduler \<Rightarrow> 'w
    \<Rightarrow> scheduler \<times> string \<times> string \<times> publication list \<times> 'w" where
  "fireNow cb outcome now i sd w =
     (case ix_get (sd_items sd) i of
        None \<Rightarrow> (sd, [], ''Schedule not found: '' @ i, [], w)
      | Some p \<Rightarrow> fire_plan cb outcome now i p sd w)"

section \<open>Creating, changing and removing plans\<close>

text \<open>The loop of \<open>generateId\<close>: \<open>None\<close> when the thousand ids of a second are all taken.\<close>

partial_function (option) generateId :: "string \<Rightarrow> plan index \<Rightarrow> 32 word \<Rightarrow> (32 word \<times> string) option" where
  "generateId stem ix c =
     (let i = numbered_id stem (unat (c + 1) mod 1000)
      in if ix_get ix i \<noteq> None then generateId stem ix (c + 1) else Some (c + 1, i))"

declare generateId.simps [code]

definition created_event :: "Schedule \<Rightarrow> publication" where
  "created_event s = (''schedule.created'', [],
     omap_of_list [(''schedule_id'', sh_id s), (''name'', sh_name s), (''cron'', sh_cron s)])"

definition place_plan :: "write_outcome \<Rightarrow> TimePoint \<Rightarrow> Schedule \<Rightarrow> CronExpr \<Rightarrow> scheduler
    \<Rightarrow> Schedule \<times> scheduler \<times> publication list" where
  "place_plan outcome now input expr sd =
     (let s = input\<lparr>sh_name := (if sh_name input = [] then sh_id input else sh_name input),
                    sh_createdAt := now, sh_updatedAt := now, sh_cron := cx_source expr\<rparr>
      in (s, saveOne outcome s (sd\<lparr>sd_items := ix_add (sh_id s) \<lparr>pl_schedule = s, pl_expr = expr\<rparr> (sd_items sd)\<rparr>),
          [created_event s]))"

text \<open>\<open>None\<close>: the call does not return; \<open>Inl\<close>: the error, with an empty plan returned.\<close>

definition create_schedule :: "(TimePoint \<Rightarrow> string) \<Rightarrow> write_outcome \<Rightarrow> TimePoint \<Rightarrow> Schedule \<Rightarrow> scheduler
    \<Rightarrow> (string + Schedule \<times> scheduler \<times> publication list) option" where
  "create_schedule stamp outcome now input sd =
     (case parse_cron (sh_cron input) of
        Inl e \<Rightarrow> Some (Inl e)
      | Inr expr \<Rightarrow>
          if sh_id input = []
          then (case generateId (''sched-'' @ stamp now) (sd_items sd) (sd_idCounter sd) of
              None \<Rightarrow> None
            | Some (c, i) \<Rightarrow> Some (Inr (place_plan outcome now (input\<lparr>sh_id := i\<rparr>) expr (sd\<lparr>sd_idCounter := c\<rparr>))))
          else if ix_get (sd_items sd) (sh_id input) \<noteq> None then Some (Inl ''Schedule id already exists'')
          else if \<not> safeId (sh_id input) then Some (Inl ''Invalid schedule id'')
          else Some (Inr (place_plan outcome now input expr sd)))"

definition updated_event :: "string \<Rightarrow> Schedule \<Rightarrow> publication" where
  "updated_event i s = (''schedule.updated'', [], omap_of_list [(''schedule_id'', i), (''name'', sh_name s),
     (''cron'', sh_cron s), (''enabled'', if sh_enabled s then ''true'' else ''false'')])"

text \<open>The expression a patch brings: none, or one that must parse.\<close>

definition patch_expr :: "Schedule \<Rightarrow> string + CronExpr option" where
  "patch_expr patch =
     (if sh_cron patch = [] then Inr None
      else case parse_cron (sh_cron patch) of Inl e \<Rightarrow> Inl e | Inr e \<Rightarrow> Inr (Some e))"

definition patched_expr :: "Schedule \<Rightarrow> CronExpr option \<Rightarrow> plan \<Rightarrow> plan" where
  "patched_expr patch parsed p =
     (case parsed of
        None \<Rightarrow> p
      | Some e \<Rightarrow>
          if sh_cron patch \<noteq> sh_cron (pl_schedule p)
          then p\<lparr>pl_expr := e, pl_schedule := (pl_schedule p)\<lparr>sh_cron := cx_source e, sh_lastFiredMinute := -1\<rparr>\<rparr>
          else p)"

definition patched_plan :: "Schedule \<Rightarrow> bool \<Rightarrow> CronExpr option \<Rightarrow> TimePoint \<Rightarrow> plan \<Rightarrow> plan" where
  "patched_plan patch hasRequest parsed now p =
     (let s0 = pl_schedule p;
          p1 = p\<lparr>pl_schedule := s0\<lparr>sh_name := (if sh_name patch \<noteq> [] then sh_name patch else sh_name s0)\<rparr>\<rparr>;
          p2 = patched_expr patch parsed p1; s = pl_schedule p2
      in p2\<lparr>pl_schedule := s\<lparr>sh_enabled := sh_enabled patch, sh_skipIfRunning := sh_skipIfRunning patch,
              sh_request := (if hasRequest then sh_request patch else sh_request s), sh_updatedAt := now\<rparr>\<rparr>)"

definition update_schedule :: "write_outcome \<Rightarrow> TimePoint \<Rightarrow> string \<Rightarrow> Schedule \<Rightarrow> bool \<Rightarrow> scheduler
    \<Rightarrow> string + scheduler \<times> publication list" where
  "update_schedule outcome now i patch hasRequest sd =
     (case patch_expr patch of
        Inl e \<Rightarrow> Inl e
      | Inr parsed \<Rightarrow>
          (case ix_get (sd_items sd) i of
             None \<Rightarrow> Inl (''Schedule not found: '' @ i)
           | Some p \<Rightarrow>
               (let p' = patched_plan patch hasRequest parsed now p
                in Inr (saveOne outcome (pl_schedule p') (sd\<lparr>sd_items := ix_upd i (\<lambda>q. p') (sd_items sd)\<rparr>),
                        [updated_event i (pl_schedule p')]))))"

definition remove_schedule :: "string \<Rightarrow> scheduler \<Rightarrow> bool \<times> scheduler \<times> publication list" where
  "remove_schedule i sd =
     (case ix_get (sd_items sd) i of
        None \<Rightarrow> (False, sd, [])
      | Some p \<Rightarrow>
          (True, delete_plan_file i (sd\<lparr>sd_items := ix_del i (sd_items sd)\<rparr>),
           [(''schedule.deleted'', [], omap_of_list [(''schedule_id'', i), (''name'', sh_name (pl_schedule p))])]))"

section \<open>Queries\<close>

definition get_schedule :: "string \<Rightarrow> scheduler \<Rightarrow> Schedule option" where
  "get_schedule i sd = map_option pl_schedule (ix_get (sd_items sd) i)"

definition list_schedules :: "scheduler \<Rightarrow> Schedule list" where
  "list_schedules sd = List.map_filter (\<lambda>i. get_schedule i sd) (snd (sd_items sd))"

definition scheduler_stats :: "scheduler \<Rightarrow> SchedulerStats" where
  "scheduler_stats sd = \<lparr>sx_on = (sg_enabled (sd_config sd) \<and> sd_running sd), sx_intervalMs = sg_intervalMs (sd_config sd),
     sx_count = length (fst (sd_items sd)),
     sx_enabledCount = length (filter (\<lambda>(i, p). sh_enabled (pl_schedule p)) (fst (sd_items sd))),
     sx_ticks = sd_ticks sd, sx_fires = sd_fires sd, sx_skips = sd_skips sd, sx_errors = sd_errors sd\<rparr>"

end
