(* ===== verification/SchedulerFacts.thy ===== *)
theory SchedulerFacts
  imports Scheduler
begin

text \<open>
  The scheduler in every interleaving of its critical sections: the invariant of its plans, what
  one tick fires, and the round trip of a plan through its file.
\<close>

section \<open>The invariant of the plans\<close>

definition plan_ok :: "string \<Rightarrow> plan \<Rightarrow> bool" where
  "plan_ok i p = (sh_id (pl_schedule p) = i \<and> parse_cron (sh_cron (pl_schedule p)) = Inr (pl_expr p))"

definition plans_ok :: "plan index \<Rightarrow> bool" where
  "plans_ok ix = (ix_ok ix \<and> ixi.every plan_ok ix)"

lemma parse_source: "parse_cron t = Inr e \<Longrightarrow> parse_cron (cx_source e) = Inr e"
  by (auto simp: parse_cron_def Let_def parse_fields_def trim_trim split: if_splits sum.splits)

lemma plans_ok_add:
  "plans_ok ix \<Longrightarrow> ix_get ix i = None \<Longrightarrow> plan_ok i p \<Longrightarrow> plans_ok (ix_add i p ix)"
  by (simp add: plans_ok_def ixi.inv_add ixi.every_add)

lemma plans_ok_del: "plans_ok ix \<Longrightarrow> plans_ok (ix_del i ix)"
  by (simp add: plans_ok_def ixi.inv_del ixi.every_del)

lemma plans_ok_upd:
  "plans_ok ix \<Longrightarrow> (\<And>p. ix_get ix i = Some p \<Longrightarrow> plan_ok i p \<Longrightarrow> plan_ok i (f p)) \<Longrightarrow> plans_ok (ix_upd i f ix)"
  by (simp add: plans_ok_def ixi.inv_upd ixi.every_upd)

lemma plans_ok_get: "plans_ok ix \<Longrightarrow> ix_get ix i = Some p \<Longrightarrow> plan_ok i p"
  by (simp add: plans_ok_def ixi.every_def)

text \<open>Saving and counting leave the plans alone.\<close>

lemma saveOne_items [simp]: "sd_items (saveOne outcome s sd) = sd_items sd"
  by (auto simp: saveOne_def Let_def split: write_outcome.splits option.splits)

lemma count_fire_items [simp]: "sd_items (count_fire k sd) = sd_items sd"
  by (simp add: count_fire_def split: fire_kind.splits)

lemma delete_plan_file_items [simp]: "sd_items (delete_plan_file i sd) = sd_items sd"
  by (simp add: delete_plan_file_def)

text \<open>Firing changes what a plan remembers, not what it is.\<close>

definition same_plan :: "Schedule \<Rightarrow> Schedule \<Rightarrow> bool" where
  "same_plan s s' = (\<exists>run test err runs skips fired. s' = s\<lparr>sh_lastRunAt := run, sh_lastTestId := test,
     sh_lastError := err, sh_runCount := runs, sh_skipCount := skips, sh_lastFiredMinute := fired\<rparr>)"

lemma fireLocked_same:
  assumes "fireLocked cb now s w = (s', kind, testId, err, pubs, w')"
  shows "same_plan s s'" and "sh_lastFiredMinute s' = sh_lastFiredMinute s"
proof -
  have "same_plan s s' \<and> sh_lastFiredMinute s' = sh_lastFiredMinute s"
    using assms
    by (cases s) (auto simp: fireLocked_def same_plan_def Let_def split: if_splits option.splits prod.splits sum.splits)
  then show "same_plan s s'" "sh_lastFiredMinute s' = sh_lastFiredMinute s" by blast+
qed

lemma fire_plan_items:
  assumes "fire_plan cb outcome now i p sd w = (sd', testId, err, pubs, w')"
  obtains s where "same_plan (pl_schedule p) s" and "sh_lastFiredMinute s = epochMinute now"
    and "sd_items sd' = ix_upd i (\<lambda>p. p\<lparr>pl_schedule := s\<rparr>) (sd_items sd)"
proof -
  obtain s kind t e ps u where f: "fireLocked cb now ((pl_schedule p)\<lparr>sh_lastFiredMinute := epochMinute now\<rparr>) w
      = (s, kind, t, e, ps, u)" by (metis surj_pair)
  have "same_plan (pl_schedule p) s"
    using fireLocked_same(1) [OF f] by (cases "pl_schedule p") (auto simp: same_plan_def)
  moreover have "sh_lastFiredMinute s = epochMinute now" using fireLocked_same(2) [OF f] by simp
  moreover have "sd_items sd' = ix_upd i (\<lambda>p. p\<lparr>pl_schedule := s\<rparr>) (sd_items sd)"
    using assms f by (auto simp: fire_plan_def)
  ultimately show thesis by (rule that)
qed

lemma same_plan_ok: "same_plan (pl_schedule p) s \<Longrightarrow> plan_ok i p \<Longrightarrow> plan_ok i (p\<lparr>pl_schedule := s\<rparr>)"
  by (auto simp: same_plan_def plan_ok_def)

lemma fire_plan_ok:
  assumes "fire_plan cb outcome now i p sd w = (sd', testId, err, pubs, w')" and "plans_ok (sd_items sd)"
    and "ix_get (sd_items sd) i = Some p"
  shows "plans_ok (sd_items sd')"
proof -
  from assms(1) obtain s where s: "same_plan (pl_schedule p) s"
      "sd_items sd' = ix_upd i (\<lambda>p. p\<lparr>pl_schedule := s\<rparr>) (sd_items sd)"
    by (rule fire_plan_items)
  with assms show ?thesis by (auto intro!: plans_ok_upd same_plan_ok)
qed

lemma tick_one_ok:
  "tick_one cb outcome now (n, sd, pubs, w) i = (n', sd', pubs', w') \<Longrightarrow> plans_ok (sd_items sd) \<Longrightarrow> plans_ok (sd_items sd')"
  by (auto simp: tick_one_def split: option.splits if_splits prod.splits dest: fire_plan_ok)

lemma generateId_facts:
  assumes "generateId stem ix c = Some (c', i)"
  shows "ix_get ix i = None \<and> i \<noteq> []"
proof -
  have "ix_get ix (snd y) = None \<and> snd y \<noteq> []" if "generateId stem ix c = Some y" for y
  proof (rule generateId.raw_induct [where P = "\<lambda>stem ix c y. ix_get ix (snd y) = None \<and> snd y \<noteq> []", OF _ that])
    fix f :: "string \<Rightarrow> plan index \<Rightarrow> 32 word \<Rightarrow> (32 word \<times> string) option" and stem ix c y
    assume ih: "\<And>stem ix c y. f stem ix c = Some y \<Longrightarrow> ix_get ix (snd y) = None \<and> snd y \<noteq> []"
      and b: "(let i = numbered_id stem (unat (c + 1) mod 1000)
         in if ix_get ix i \<noteq> None then f stem ix (c + 1) else Some (c + 1, i)) = Some y"
    then show "ix_get ix (snd y) = None \<and> snd y \<noteq> []"
      using ih [of stem ix "c + 1" y] by (auto simp: Let_def numbered_id_def split: if_splits)
  qed
  from this [OF assms] show ?thesis by simp
qed

lemma place_plan_ok:
  assumes "place_plan outcome now input expr sd = (s, sd', pubs)" and "parse_cron t = Inr expr"
    and "plans_ok (sd_items sd)" and "ix_get (sd_items sd) (sh_id input) = None"
  shows "plans_ok (sd_items sd')"
  using assms parse_source [OF assms(2)]
  by (auto simp: place_plan_def Let_def plan_ok_def intro!: plans_ok_add)

lemma create_schedule_ok:
  assumes "create_schedule stamp outcome now input sd = Some (Inr (s, sd', pubs))" and "plans_ok (sd_items sd)"
  shows "plans_ok (sd_items sd')"
proof -
  from assms(1) obtain expr where e: "parse_cron (sh_cron input) = Inr expr"
    by (auto simp: create_schedule_def split: sum.splits)
  show ?thesis
  proof (cases "sh_id input = []")
    case True
    with assms(1) e obtain c i where g: "generateId (''sched-'' @ stamp now) (sd_items sd) (sd_idCounter sd) = Some (c, i)"
      and p: "place_plan outcome now (input\<lparr>sh_id := i\<rparr>) expr (sd\<lparr>sd_idCounter := c\<rparr>) = (s, sd', pubs)"
      by (auto simp: create_schedule_def split: option.splits)
    show ?thesis using place_plan_ok [OF p e] generateId_facts [OF g] assms(2) by simp
  next
    case False
    with assms(1) e have "place_plan outcome now input expr sd = (s, sd', pubs)" "ix_get (sd_items sd) (sh_id input) = None"
      by (auto simp: create_schedule_def split: if_splits)
    then show ?thesis using place_plan_ok e assms(2) by blast
  qed
qed

lemma update_schedule_ok:
  assumes "update_schedule outcome now i patch hasRequest sd = Inr (sd', pubs)" and "plans_ok (sd_items sd)"
  shows "plans_ok (sd_items sd')"
proof -
  from assms(1) obtain parsed p where p: "patch_expr patch = Inr parsed" "ix_get (sd_items sd) i = Some p"
      "sd_items sd' = ix_upd i (\<lambda>q. patched_plan patch hasRequest parsed now p) (sd_items sd)"
    by (auto simp: update_schedule_def Let_def split: sum.splits option.splits)
  have "parsed = Some e \<Longrightarrow> parse_cron (cx_source e) = Inr e" for e
    using p(1) parse_source [of "sh_cron patch" e] by (auto simp: patch_expr_def split: if_splits sum.splits)
  with plans_ok_get [OF assms(2) p(2)] have "plan_ok i (patched_plan patch hasRequest parsed now p)"
    by (auto simp: plan_ok_def patched_plan_def patched_expr_def Let_def split: option.splits)
  with assms(2) show ?thesis unfolding p(3) by (intro plans_ok_upd)
qed

lemma remove_schedule_ok:
  "remove_schedule i sd = (b, sd', pubs) \<Longrightarrow> plans_ok (sd_items sd) \<Longrightarrow> plans_ok (sd_items sd')"
  by (auto simp: remove_schedule_def plans_ok_del split: option.splits)

section \<open>Loading\<close>

lemma load_plan_ok: "load_plan f = Some p \<Longrightarrow> plan_ok (sh_id (pl_schedule p)) p"
  by (auto simp: load_plan_def scheduleFromJson_def read_schedule_def plan_ok_def Let_def
      split: if_splits option.splits sum.splits)

lemma file_plans_ok:
  assumes "plans_ok ix" and "list_all (\<lambda>p. plan_ok (sh_id (pl_schedule p)) p) ps"
    and "distinct (snd ix @ map (\<lambda>p. sh_id (pl_schedule p)) ps)"
  shows "plans_ok (foldl file_plan ix ps)"
  using assms
proof (induction ps arbitrary: ix)
  case (Cons p ps)
  have n: "ix_get ix (sh_id (pl_schedule p)) = None"
    using Cons.prems ixi.get_None [of ix] by (auto simp: plans_ok_def)
  then have "plans_ok (file_plan ix p)"
    using Cons.prems by (auto simp: file_plan_def intro: plans_ok_add)
  moreover have "snd (file_plan ix p) = snd ix @ [sh_id (pl_schedule p)]"
    by (simp add: file_plan_def ix_add_def)
  ultimately show ?case using Cons by simp
qed simp

lemma plans_ok_empty: "plans_ok ([], [])"
  by (simp add: plans_ok_def ix_ok_empty ixi.every_def ix_get_empty)

lemma plans_ok_reorder:
  "plans_ok ix \<Longrightarrow> plans_ok (fst ix, sort_key f (snd ix))"
  by (auto simp: plans_ok_def ix_ok_def ixi.every_def ix_get_def)

definition loadable_ids :: "scheduler \<Rightarrow> string list" where
  "loadable_ids sd = map (\<lambda>p. sh_id (pl_schedule p)) (List.map_filter load_plan (sd_files sd))"

lemma load_plans_ok:
  assumes "distinct (loadable_ids sd)"
  shows "plans_ok (sd_items (load_plans sd))"
proof -
  have "list_all (\<lambda>p. plan_ok (sh_id (pl_schedule p)) p) (List.map_filter load_plan fs)" for fs
    by (induction fs) (auto simp: List.map_filter_simps load_plan_ok split: option.splits)
  then have "plans_ok (foldl file_plan ([], []) (List.map_filter load_plan (sd_files sd)))"
    using assms by (intro file_plans_ok plans_ok_empty) (simp_all add: loadable_ids_def)
  then show ?thesis by (auto simp: load_plans_def Let_def plans_ok_empty plans_ok_reorder)
qed

section \<open>What one tick fires\<close>

lemma gmtime_by_minute:
  "\<exists>sec. gmtime t = (let k = t div 60; (y, m, d) = date_of_days (k div 1440)
     in \<lparr>tm_year = y, tm_mon = m, tm_mday = d, tm_hour = k mod 1440 div 60, tm_min = k mod 1440 mod 60,
         tm_sec = sec, tm_wday = (k div 1440 + 4) mod 7\<rparr>)"
proof -
  have f: "(60 :: int) * 1440 = 86400" "(60 :: int) * 60 = 3600" by simp_all
  have days: "t div 86400 = t div 60 div 1440" using zdiv_zmult2_eq [of 1440 t 60] unfolding f by simp
  have "t mod 86400 = 60 * (t div 60 mod 1440) + t mod 60" using zmod_zmult2_eq [of 1440 t 60] unfolding f by simp
  then have rem: "t mod 86400 div 60 = t div 60 mod 1440" by simp
  have hour: "t mod 86400 div 3600 = t mod 86400 div 60 div 60"
    using zdiv_zmult2_eq [of 60 "t mod 86400" 60] unfolding f by simp
  obtain y m d where "date_of_days (t div 60 div 1440) = (y, m, d)" by (metis prod_cases3)
  then have "gmtime t = \<lparr>tm_year = y, tm_mon = m, tm_mday = d, tm_hour = t div 60 mod 1440 div 60,
      tm_min = t div 60 mod 1440 mod 60, tm_sec = t mod 86400 mod 60, tm_wday = (t div 60 div 1440 + 4) mod 7\<rparr>
    \<and> date_of_days (t div 60 div 1440) = (y, m, d)"
    by (simp only: gmtime_def Let_def days hour rem prod.case)
  then show ?thesis by (intro exI [of _ "t mod 86400 mod 60"]) (simp only: Let_def prod.case)
qed

lemma matches_tm_cong:
  "tm_min a = tm_min b \<Longrightarrow> tm_hour a = tm_hour b \<Longrightarrow> tm_mon a = tm_mon b \<Longrightarrow> tm_mday a = tm_mday b \<Longrightarrow>
   tm_wday a = tm_wday b \<Longrightarrow> matches_tm e a = matches_tm e b"
  by (simp only: matches_tm_def)

lemma matches_by_minute: "t' div 60 = t div 60 \<Longrightarrow> matches_tm e (gmtime t') = matches_tm e (gmtime t)"
proof -
  assume m: "t' div 60 = t div 60"
  obtain a where a: "gmtime t = (let k = t div 60; (y, m, d) = date_of_days (k div 1440)
     in \<lparr>tm_year = y, tm_mon = m, tm_mday = d, tm_hour = k mod 1440 div 60, tm_min = k mod 1440 mod 60,
         tm_sec = a, tm_wday = (k div 1440 + 4) mod 7\<rparr>)" using gmtime_by_minute by blast
  obtain b where b: "gmtime t' = (let k = t' div 60; (y, m, d) = date_of_days (k div 1440)
     in \<lparr>tm_year = y, tm_mon = m, tm_mday = d, tm_hour = k mod 1440 div 60, tm_min = k mod 1440 mod 60,
         tm_sec = b, tm_wday = (k div 1440 + 4) mod 7\<rparr>)" using gmtime_by_minute by blast
  show ?thesis unfolding a b m
    by (rule matches_tm_cong) (simp_all add: Let_def split: prod.split)
qed

lemma time_t_minute: "0 \<le> tp \<Longrightarrow> to_time_t tp div 60 = epochMinute tp"
proof -
  assume tp: "0 \<le> tp"
  have f: "(1000000000 :: int) * 60 = 60000000000" by simp
  have "tp div (1000000000 * 60) = tp div 1000000000 div 60" by (rule zdiv_zmult2_eq) simp
  moreover have "tp sdiv 1000000000 = tp div 1000000000" using sdiv_nonneg [OF tp] by simp
  ultimately show ?thesis unfolding f epochMinute_nonneg [OF tp] to_time_t_def by simp
qed

lemma matches_same_minute:
  "0 \<le> now \<Longrightarrow> 0 \<le> now' \<Longrightarrow> epochMinute now' = epochMinute now \<Longrightarrow> cron_matches e now' = cron_matches e now"
  unfolding cron_matches_def toUtc_def by (rule matches_by_minute) (simp only: time_t_minute)

text \<open>
  A tick visits the plans one after the other, and no visit changes whether another is due.
\<close>

definition due_at :: "TimePoint \<Rightarrow> plan index \<Rightarrow> string \<Rightarrow> bool" where
  "due_at now ix i = (case ix_get ix i of None \<Rightarrow> False | Some p \<Rightarrow> due now p)"

lemma tick_one_facts:
  assumes "tick_one cb outcome now (n, sd, pubs, w) i = (n', sd', pubs', w')" and "plans_ok (sd_items sd)"
  shows "n' = n + (if due_at now (sd_items sd) i then 1 else 0)"
    and "due_at now (sd_items sd') j \<longleftrightarrow> due_at now (sd_items sd) j \<and> j \<noteq> i"
    and "\<not> due_at now (sd_items sd) j \<longrightarrow> ix_get (sd_items sd') j = ix_get (sd_items sd) j"
    and "snd (sd_items sd') = snd (sd_items sd)"
proof -
  have "n' = n + (if due_at now (sd_items sd) i then 1 else 0) \<and>
      (due_at now (sd_items sd') j \<longleftrightarrow> due_at now (sd_items sd) j \<and> j \<noteq> i) \<and>
      (\<not> due_at now (sd_items sd) j \<longrightarrow> ix_get (sd_items sd') j = ix_get (sd_items sd) j) \<and>
      snd (sd_items sd') = snd (sd_items sd)"
  proof (cases "due_at now (sd_items sd) i")
    case False
    then have "tick_one cb outcome now (n, sd, pubs, w) i = (n, sd, pubs, w)"
      by (auto simp: tick_one_def due_at_def split: option.splits)
    with False assms(1) show ?thesis by auto
  next
    case True
    then obtain p where p: "ix_get (sd_items sd) i = Some p" "due now p" by (auto simp: due_at_def split: option.splits)
    obtain sd1 t e ps u where f: "fire_plan cb (outcome i) now i p sd w = (sd1, t, e, ps, u)" by (metis surj_pair)
    then obtain s where s: "sh_lastFiredMinute s = epochMinute now"
        "sd_items sd1 = ix_upd i (\<lambda>p. p\<lparr>pl_schedule := s\<rparr>) (sd_items sd)"
      by (rule fire_plan_items)
    have ix: "ix_ok (sd_items sd)" using assms(2) by (simp add: plans_ok_def)
    have "n' = n + 1 \<and> sd' = sd1" using assms(1) p f by (simp add: tick_one_def)
    with True p s ixi.get_upd [OF ix] ixi.ids_upd [OF ix] show ?thesis by (auto simp: due_at_def due_def)
  qed
  then show "n' = n + (if due_at now (sd_items sd) i then 1 else 0)"
    and "due_at now (sd_items sd') j \<longleftrightarrow> due_at now (sd_items sd) j \<and> j \<noteq> i"
    and "\<not> due_at now (sd_items sd) j \<longrightarrow> ix_get (sd_items sd') j = ix_get (sd_items sd) j"
    and "snd (sd_items sd') = snd (sd_items sd)"
    by blast+
qed

lemma tick_loop_facts:
  assumes "foldl (tick_one cb outcome now) (n, sd, pubs, w) is = (n', sd', pubs', w')" and "plans_ok (sd_items sd)"
    and "distinct is"
  shows "n' = n + length (filter (due_at now (sd_items sd)) is) \<and> plans_ok (sd_items sd')
    \<and> snd (sd_items sd') = snd (sd_items sd)
    \<and> (\<forall>j. due_at now (sd_items sd') j \<longleftrightarrow> due_at now (sd_items sd) j \<and> j \<notin> set is)
    \<and> (\<forall>j. \<not> due_at now (sd_items sd) j \<longrightarrow> ix_get (sd_items sd') j = ix_get (sd_items sd) j)"
  using assms
proof (induction "is" arbitrary: n sd pubs w)
  case (Cons i "is")
  obtain n1 sd1 pubs1 w1 where o: "tick_one cb outcome now (n, sd, pubs, w) i = (n1, sd1, pubs1, w1)"
    by (metis surj_pair)
  note f = tick_one_facts [OF o Cons.prems(2)]
  have ok: "plans_ok (sd_items sd1)" using tick_one_ok [OF o Cons.prems(2)] .
  have "foldl (tick_one cb outcome now) (n1, sd1, pubs1, w1) is = (n', sd', pubs', w')"
    using Cons.prems(1) o by simp
  from Cons.IH [OF this ok] Cons.prems(3) have ih:
    "n' = n1 + length (filter (due_at now (sd_items sd1)) is)" "plans_ok (sd_items sd')"
    "snd (sd_items sd') = snd (sd_items sd1)"
    "\<And>j. due_at now (sd_items sd') j \<longleftrightarrow> due_at now (sd_items sd1) j \<and> j \<notin> set is"
    "\<And>j. \<not> due_at now (sd_items sd1) j \<Longrightarrow> ix_get (sd_items sd') j = ix_get (sd_items sd1) j" by auto
  have "filter (due_at now (sd_items sd1)) is = filter (due_at now (sd_items sd)) is"
    using Cons.prems(3) f(2) by (intro filter_cong) auto
  then have "n' = n + length (filter (due_at now (sd_items sd)) (i # is))"
    using ih(1) f(1) by simp
  moreover have "due_at now (sd_items sd') j \<longleftrightarrow> due_at now (sd_items sd) j \<and> j \<notin> set (i # is)" for j
    using ih(4) [of j] f(2) [of j] by auto
  moreover have "ix_get (sd_items sd') j = ix_get (sd_items sd) j" if "\<not> due_at now (sd_items sd) j" for j
    using that ih(5) [of j] f(2,3) [of j] by simp
  ultimately show ?case using ih(2,3) f(4) by simp
qed simp

section \<open>The step relation\<close>

text \<open>
  Every critical section is a step, and the world may change between steps. A tick is its start
  and one step for each plan. A restart is a step only when no two files hold the same plan id:
  the code would list such a plan twice.
\<close>

inductive scheduler_step :: "scheduler \<times> 'w \<Rightarrow> scheduler \<times> 'w \<Rightarrow> bool" where
  st_configure: "scheduler_step (sd, w) (configure_scheduler c sd, w)"
| st_start: "distinct (loadable_ids sd) \<Longrightarrow> scheduler_step (sd, w) (start_scheduler created sd, w)"
| st_stop: "scheduler_step (sd, w) (stop_scheduler sd, w)"
| st_tick: "scheduler_step (sd, w) (sd\<lparr>sd_ticks := sd_ticks sd + 1\<rparr>, w)"
| st_tick_one: "tick_one cb outcome now (n, sd, pubs, w) i = (n', sd', pubs', w') \<Longrightarrow> scheduler_step (sd, w) (sd', w')"
| st_fireNow: "fireNow cb outcome' now i sd w = (sd', t, e, pubs, w') \<Longrightarrow> scheduler_step (sd, w) (sd', w')"
| st_create: "create_schedule stamp outcome' now input sd = Some (Inr (s, sd', pubs)) \<Longrightarrow> scheduler_step (sd, w) (sd', w)"
| st_update: "update_schedule outcome' now i patch hasRequest sd = Inr (sd', pubs) \<Longrightarrow> scheduler_step (sd, w) (sd', w)"
| st_remove: "remove_schedule i sd = (b, sd', pubs) \<Longrightarrow> scheduler_step (sd, w) (sd', w)"
| st_world: "scheduler_step (sd, w) (sd, w')"

inductive scheduler_reachable :: "scheduler \<times> 'w \<Rightarrow> bool" where
  sr_new: "scheduler_reachable (new_scheduler files, w)"
| sr_step: "scheduler_reachable x \<Longrightarrow> scheduler_step x y \<Longrightarrow> scheduler_reachable y"

lemma start_scheduler_ok:
  assumes "distinct (loadable_ids sd)" and "plans_ok (sd_items sd)"
  shows "plans_ok (sd_items (start_scheduler created sd))"
proof (cases "sd_running sd")
  case False
  define sd1 where "sd1 = (if sg_dir (sd_config sd) \<noteq> [] \<and> \<not> created
    then sd\<lparr>sd_config := (sd_config sd)\<lparr>sg_dir := []\<rparr>\<rparr> else sd)"
  have "distinct (loadable_ids sd1)" using assms(1) by (simp add: sd1_def loadable_ids_def)
  from load_plans_ok [OF this] False show ?thesis
    by (simp add: start_scheduler_def Let_def sd1_def [symmetric])
qed (simp add: start_scheduler_def assms)

lemma scheduler_step_ok: "scheduler_step x y \<Longrightarrow> plans_ok (sd_items (fst x)) \<Longrightarrow> plans_ok (sd_items (fst y))"
proof (induction rule: scheduler_step.induct)
  case (st_fireNow cb outcome' now i sd w sd' t e pubs w')
  then show ?case by (auto simp: fireNow_def split: option.splits dest: fire_plan_ok)
qed (auto simp: configure_scheduler_def stop_scheduler_def dest: start_scheduler_ok tick_one_ok create_schedule_ok
    update_schedule_ok remove_schedule_ok)

lemma scheduler_reachable_ok: "scheduler_reachable x \<Longrightarrow> plans_ok (sd_items (fst x))"
  by (induction rule: scheduler_reachable.induct) (auto simp: new_scheduler_def plans_ok_empty intro: scheduler_step_ok)

lemma map_filter_all: "(\<And>x. x \<in> set xs \<Longrightarrow> f x = Some (g x)) \<Longrightarrow> List.map_filter f xs = map g xs"
  by (induction xs) (simp_all add: List.map_filter_simps)


text \<open>A plan for every full hour, created without a file.\<close>

definition sample_input :: Schedule where
  "sample_input = default_Schedule\<lparr>sh_id := ''p'', sh_cron := '' @hourly ''\<rparr>"

definition hourly :: CronExpr where
  "hourly = projr (parse_cron '' @hourly '')"

definition sample_plan :: "Schedule \<times> scheduler \<times> publication list" where
  "sample_plan = place_plan (Write_failed None) 0 sample_input hourly (new_scheduler [])"

definition sample_scheduler :: scheduler where
  "sample_scheduler = fst (snd sample_plan)"

lemma sample_input_facts: "parse_cron (sh_cron sample_input) = Inr hourly" "sh_id sample_input = ''p''" "safeId ''p''"
  by (code_simp, simp add: sample_input_def, code_simp)

lemma sample_scheduler_reachable: "scheduler_reachable (sample_scheduler, w)"
proof -
  have "ix_get (sd_items (new_scheduler [])) ''p'' = None" by (simp add: new_scheduler_def)
  then have c: "create_schedule (\<lambda>t. []) (Write_failed None) 0 sample_input (new_scheduler []) = Some (Inr sample_plan)"
    by (simp add: create_schedule_def sample_input_facts sample_plan_def)
  obtain s sd pubs where p: "sample_plan = (s, sd, pubs)" by (metis prod_cases3)
  have "scheduler_step (new_scheduler [], w) (sample_scheduler, w)"
    unfolding sample_scheduler_def p fst_conv snd_conv by (rule st_create [OF c [unfolded p]])
  with sr_new show ?thesis by (rule sr_step)
qed


text \<open>
  C3. A tick fires exactly the plans that are due, changes no other plan, and a second tick in
  the same minute, with whatever callbacks and after whatever the tests did, fires nothing.
\<close>

theorem tick_fires_due_once:
  assumes "scheduler_reachable (sd, w)" and "tick cb outcome now sd w = (n, sd', pubs, w')"
    and "0 \<le> now" and "0 \<le> later" and "epochMinute later = epochMinute now"
  shows "n = length (filter (due_at now (sd_items sd)) (snd (sd_items sd)))
    \<and> (\<not> due_at now (sd_items sd) j \<longrightarrow> ix_get (sd_items sd') j = ix_get (sd_items sd) j)
    \<and> fst (tick cb2 outcome2 later sd' w2) = 0"
proof -
  from scheduler_reachable_ok [OF assms(1)] have ok: "plans_ok (sd_items sd)" by simp
  then have ix: "ix_ok (sd_items sd)" by (simp add: plans_ok_def)
  note get = ixi.get_None [OF ix] and dist = ixi.ids_distinct [OF ix]
  from assms(2) have "foldl (tick_one cb outcome now) (0, sd\<lparr>sd_ticks := sd_ticks sd + 1\<rparr>, [], w) (snd (sd_items sd))
      = (n, sd', pubs, w')" by (simp add: tick_def)
  from tick_loop_facts [OF this _ dist] ok have l: "n = length (filter (due_at now (sd_items sd)) (snd (sd_items sd)))"
    "plans_ok (sd_items sd')" "snd (sd_items sd') = snd (sd_items sd)"
    "\<And>j. due_at now (sd_items sd') j \<longleftrightarrow> due_at now (sd_items sd) j \<and> j \<notin> set (snd (sd_items sd))"
    "\<And>j. \<not> due_at now (sd_items sd) j \<Longrightarrow> ix_get (sd_items sd') j = ix_get (sd_items sd) j" by auto
  have none: "\<not> due_at later (sd_items sd') j" for j
  proof -
    have "due later = due now"
      using assms(3-5) matches_same_minute [of now later] by (simp add: due_def fun_eq_iff)
    then have "due_at later (sd_items sd') j = due_at now (sd_items sd') j"
      by (simp add: due_at_def split: option.split)
    with l(4) [of j] get [of j] show ?thesis by (auto simp: due_at_def split: option.splits)
  qed
  obtain m sd2 p2 w2' where t: "tick cb2 outcome2 later sd' w2 = (m, sd2, p2, w2')" by (metis surj_pair)
  then have "foldl (tick_one cb2 outcome2 later) (0, sd'\<lparr>sd_ticks := sd_ticks sd' + 1\<rparr>, [], w2) (snd (sd_items sd'))
      = (m, sd2, p2, w2')" by (simp add: tick_def)
  from tick_loop_facts [OF this] l(2,3) dist none have "m = 0" by simp
  with l(1,5) t show ?thesis by simp
qed

definition sample_callbacks :: "nat callbacks" where
  "sample_callbacks = \<lparr>cb_submit = Some (\<lambda>r w. (Inr ''t1'', w + 1)), cb_isActive = Some (\<lambda>i w. False)\<rparr>"

theorem tick_fires_due_once_witness:
  "\<exists>sd' pubs w'. tick sample_callbacks (\<lambda>i. Write_failed None) 3600000000000 sample_scheduler 0 = (1, sd', pubs, w')
     \<and> fst (tick sample_callbacks (\<lambda>i. Write_failed None) 3601000000000 sd' w') = 0"
proof -
  obtain n sd' pubs w' where t: "tick sample_callbacks (\<lambda>i. Write_failed None) 3600000000000 sample_scheduler 0
      = (n, sd', pubs, w')" by (metis surj_pair)
  have "epochMinute 3601000000000 = epochMinute 3600000000000" by code_simp
  note f = tick_fires_due_once [OF sample_scheduler_reachable t _ _ this]
  have "n = length (filter (due_at 3600000000000 (sd_items sample_scheduler)) (snd (sd_items sample_scheduler)))"
    using f by force
  moreover have "fst (tick sample_callbacks (\<lambda>i. Write_failed None) 3601000000000 sd' w') = 0"
    using f by force
  moreover have "length (filter (due_at 3600000000000 (sd_items sample_scheduler)) (snd (sd_items sample_scheduler))) = 1"
    by code_simp
  ultimately show ?thesis using t by auto
qed

section \<open>Plans and their files\<close>

lemma read_JNull [json_simps]: "read_time JNull = 0" "asInt64 d JNull = d"
  by (code_simp, simp add: asInt64_def)

lemma read_count_JInt [json_simps]: "n < 2 ^ 64 \<Longrightarrow> read_count (JInt (int n)) = n"
  by (simp add: read_count_def JInt_def asNumber_def)

definition in64 :: "int \<Rightarrow> bool" where
  "in64 i = (- (2 ^ 63) \<le> i \<and> i < 2 ^ 63)"

lemma asInt64_JInt [json_simps]: "in64 i \<Longrightarrow> asInt64 d (JInt i) = i"
  by (simp add: asInt64_def JInt_def trunc_to_def in64_def)

definition storable_plan :: "plan \<Rightarrow> bool" where
  "storable_plan p =
     (let s = pl_schedule p in
      safeId (sh_id s) \<and> parse_cron (sh_cron s) = Inr (pl_expr p) \<and> valid_request (sh_request s) \<and>
      rq_id (sh_request s) = [] \<and> storable_time (sh_createdAt s) \<and> storable_time (sh_updatedAt s) \<and>
      storable_time (sh_lastRunAt s) \<and> sh_runCount s < 2 ^ 64 \<and> sh_skipCount s < 2 ^ 64 \<and>
      in64 (sh_lastFiredMinute s))"

lemma schedule_round:
  assumes "storable_plan p"
  shows "scheduleFromJson (saved_json (pl_schedule p)) = Inr (pl_schedule p)"
    and "asInt 0 (jget (saved_json (pl_schedule p)) ''format'') = 1"
proof -
  define s where "s = pl_schedule p"
  define j where "j = saved_json s"
  from assms have s: "safeId (sh_id s)" "parse_cron (sh_cron s) = Inr (pl_expr p)" "valid_request (sh_request s)"
      "rq_id (sh_request s) = []" "storable_time (sh_createdAt s)" "storable_time (sh_updatedAt s)"
      "storable_time (sh_lastRunAt s)" "sh_runCount s < 2 ^ 64" "sh_skipCount s < 2 ^ 64" "in64 (sh_lastFiredMinute s)"
    by (simp_all add: storable_plan_def Let_def s_def)
  have obj: "jget (JObj (asObject v)) k = jget v k" for v k
    by (cases v) (simp_all add: asObject_def jget_def)
  have flds: "jget j ''id'' = JStr (sh_id s)" "jget j ''name'' = JStr (sh_name s)" "jget j ''cron'' = JStr (sh_cron s)"
      "jget j ''enabled'' = JBool (sh_enabled s)" "jget j ''skip_if_running'' = JBool (sh_skipIfRunning s)"
      "jget j ''request'' = request_json (sh_request s)" "jget j ''created_at'' = JTime (sh_createdAt s)"
      "jget j ''updated_at'' = JTime (sh_updatedAt s)"
      "jget j ''last_run_at'' = (if sh_lastRunAt s \<noteq> 0 then JTime (sh_lastRunAt s) else JNull)"
      "jget j ''last_test_id'' = (if sh_lastTestId s \<noteq> [] then JStr (sh_lastTestId s) else JNull)"
      "jget j ''last_error'' = (if sh_lastError s \<noteq> [] then JStr (sh_lastError s) else JNull)"
      "jget j ''run_count'' = JInt (int (sh_runCount s))" "jget j ''skip_count'' = JInt (int (sh_skipCount s))"
      "jget j ''last_fired_minute'' = JInt (sh_lastFiredMinute s)" "jget j ''format'' = JInt 1"
    by (simp_all add: j_def saved_json_def obj) (simp_all add: schedule_json_def next_run_def json_simps kFormatVersion_def)
  have req: "testRequestFromJson (request_json (sh_request s)) default_TestRequest = Inr (sh_request s)"
    using request_round [OF s(3)] s(4) by simp
  have "read_schedule j (sh_request s) = s"
    using s(5-10) by (cases s) (auto simp: read_schedule_def Let_def flds json_simps)
  moreover have "isObject j" by (simp add: j_def saved_json_def jset_def isObject_def)
  ultimately have "scheduleFromJson j = Inr s"
    using s(1,2) req by (simp add: scheduleFromJson_def flds json_simps)
  moreover have "asInt 0 (jget j ''format'') = 1" by (simp add: flds json_simps in32_def)
  ultimately show "scheduleFromJson (saved_json (pl_schedule p)) = Inr (pl_schedule p)"
    and "asInt 0 (jget (saved_json (pl_schedule p)) ''format'') = 1"
    by (simp_all add: j_def s_def)
qed

lemma load_saved:
  assumes "storable_plan p" and "json_ok (saved_json (pl_schedule p))"
    and "jdepth (saved_json (pl_schedule p)) \<le> kMaxDepth"
  shows "load_plan (file_name (sh_id (pl_schedule p)), dump 2 (saved_json (pl_schedule p))) = Some p"
proof -
  have "parse (dump 2 (saved_json (pl_schedule p))) = Some (Inr (saved_json (pl_schedule p)))"
    using dump_reads [OF assms(2,3), of 2] by (simp add: parse_def skipWs_def)
  moreover have "getExtension (file_name (sh_id (pl_schedule p))) = ''.json''"
    using assms(1) by (intro extensions safeId_nonempty) (simp add: storable_plan_def Let_def)
  ultimately show ?thesis
    using assms(1) schedule_round [OF assms(1)]
    by (simp add: load_plan_def kFormatVersion_def) (simp add: storable_plan_def Let_def)
qed

lemma file_plans_get:
  "distinct (map (\<lambda>p. sh_id (pl_schedule p)) ps) \<Longrightarrow>
   ix_get (foldl file_plan ix ps) i =
     (case find (\<lambda>p. sh_id (pl_schedule p) = i) ps of None \<Rightarrow> ix_get ix i | Some p \<Rightarrow> Some p)"
proof (induction ps arbitrary: ix)
  case (Cons p ps)
  have g: "ix_get (file_plan ix p) i = (if i = sh_id (pl_schedule p) then Some p else ix_get ix i)"
    by (simp add: file_plan_def ix_add_def ix_get_def omap_get_put)
  have "sh_id (pl_schedule p) = i \<Longrightarrow> find (\<lambda>p. sh_id (pl_schedule p) = i) ps = None"
  proof -
    assume i: "sh_id (pl_schedule p) = i"
    have "sh_id (pl_schedule p) \<notin> (\<lambda>p. sh_id (pl_schedule p)) ` set ps" using Cons.prems by simp
    then show ?thesis unfolding find_None_iff i by (auto simp: image_iff)
  qed
  with Cons g show ?case by (auto split: option.split)
qed simp

lemma find_distinct: "p \<in> set ps \<Longrightarrow> distinct (map f ps) \<Longrightarrow> find (\<lambda>q. f q = f p) ps = Some p"
  by (induction ps) auto


text \<open>The plan of the sample, on an empty directory.\<close>

definition stored_plan :: plan where
  "stored_plan = \<lparr>pl_schedule = default_Schedule\<lparr>sh_id := ''p'', sh_name := ''p'', sh_cron := ''@hourly'',
     sh_createdAt := 1000000\<rparr>, pl_expr = projr (parse_cron ''@hourly'')\<rparr>"

lemma stored_plan_facts:
  "storable_plan stored_plan" "json_ok (saved_json (pl_schedule stored_plan))"
  "jdepth (saved_json (pl_schedule stored_plan)) \<le> kMaxDepth"
proof -
  have "parse_cron ''@hourly'' = Inr (projr (parse_cron ''@hourly''))" by code_simp
  then show "storable_plan stored_plan"
    using sample_input_facts(3)
    by (simp add: storable_plan_def stored_plan_def default_Schedule_def valid_default storable_time_def in64_def)
      (simp add: default_TestRequest_def)
  show "json_ok (saved_json (pl_schedule stored_plan))" by code_simp
  show "jdepth (saved_json (pl_schedule stored_plan)) \<le> kMaxDepth" by code_simp
qed


end
