(* ===== verification/TagFilter.thy ===== *)
theory TagFilter
  imports StringUtil
begin

text \<open>
  \<open>src/src/engine/tag_filter.h\<close>: tag expressions such as \<open>smoke & !slow\<close>. The parser's
  position in \<open>s_\<close> is the suffix still to read; \<open>n\<close> is the length of the whole text, so
  \<open>n - length rest\<close> is \<open>pos_\<close>. The mutually recursive parser takes fuel:
  \<open>4 * length + 4\<close> is proved to be enough for every text, so \<open>NoFuel\<close> is never returned
  by \<open>parse_filter\<close>.
\<close>

section \<open>Expressions\<close>

datatype node = Tag string | And node node | Or node node | Not node

fun eval :: "node \<Rightarrow> string list \<Rightarrow> bool" where
  "eval (Tag tag) tags =
     (let lower = toLower tag in list_ex (\<lambda>t. toLower (trim t) = lower) tags)"
| "eval (And l r) tags = (eval l tags \<and> eval r tags)"
| "eval (Or l r) tags = (eval l tags \<or> eval r tags)"
| "eval (Not l) tags = (\<not> eval l tags)"

section \<open>The parser\<close>

datatype presult = PNode node string | PErr string | NoFuel

definition skipWs :: "string \<Rightarrow> string" where
  "skipWs s = dropWhile c_isspace s"

text \<open>A keyword token (one that starts with a letter) must not run on into a word.\<close>

definition word_goes_on :: "string \<Rightarrow> bool" where
  "word_goes_on r = (case r of [] \<Rightarrow> False | c # _ \<Rightarrow> c_isalnum c \<or> c = CHR ''_'')"

definition consume :: "string \<Rightarrow> string \<Rightarrow> bool \<times> string" where
  "consume tok s =
     (let s1 = skipWs s; r = drop (length tok) s1
      in if is_prefix tok s1
         then if c_isalpha (hd tok) \<and> word_goes_on r then (False, s1) else (True, r)
         else (False, s1))"

text \<open>A chain \<open>consume(a) || consume(b) || ...\<close>\<close>

fun consume_any :: "string list \<Rightarrow> string \<Rightarrow> bool \<times> string" where
  "consume_any [] s = (False, s)"
| "consume_any (t # ts) s = (case consume t s of (True, r) \<Rightarrow> (True, r) | (False, r) \<Rightarrow> consume_any ts r)"

definition or_tokens :: "string list" where
  "or_tokens = [''||'', ''|'', ''or'', ''OR'']"

definition and_tokens :: "string list" where
  "and_tokens = [''&&'', ''&'', '','', ''and'', ''AND'']"

definition not_tokens :: "string list" where
  "not_tokens = [''!'', ''not'', ''NOT'']"

definition tag_char :: "char \<Rightarrow> bool" where
  "tag_char c = (\<not> (c = CHR ''&'' \<or> c = CHR ''|'' \<or> c = CHR ''!'' \<or> c = CHR ''('' \<or> c = CHR '')''
     \<or> c = CHR '','' \<or> c_isspace c))"

text \<open>\<open>auto x = parse...(err); if (!x) return nullptr;\<close>\<close>

definition and_then :: "presult \<Rightarrow> (node \<Rightarrow> string \<Rightarrow> presult) \<Rightarrow> presult" where
  "and_then p f = (case p of PNode e r \<Rightarrow> f e r | PErr err \<Rightarrow> PErr err | NoFuel \<Rightarrow> NoFuel)"

text \<open>The two tails of \<open>parseUnary\<close>: the closing parenthesis, and a tag name.\<close>

definition close_paren :: "node \<Rightarrow> string \<Rightarrow> presult" where
  "close_paren inner s =
     (let (found, r) = consume '')'' s
      in if found then PNode inner r else PErr ''Missing ')' in tag expression'')"

definition tag_name :: "nat \<Rightarrow> string \<Rightarrow> presult" where
  "tag_name n s =
     (let s1 = skipWs s; tag = takeWhile tag_char s1
      in if tag = [] then PErr (''Expected tag name at position '' @ to_string (int (n - length s1)))
         else PNode (Tag tag) (drop (length tag) s1))"

function (sequential) parseOr :: "nat \<Rightarrow> nat \<Rightarrow> string \<Rightarrow> presult"
  and orLoop :: "nat \<Rightarrow> nat \<Rightarrow> node \<Rightarrow> string \<Rightarrow> presult"
  and parseAnd :: "nat \<Rightarrow> nat \<Rightarrow> string \<Rightarrow> presult"
  and andLoop :: "nat \<Rightarrow> nat \<Rightarrow> node \<Rightarrow> string \<Rightarrow> presult"
  and parseUnary :: "nat \<Rightarrow> nat \<Rightarrow> string \<Rightarrow> presult" where
  "parseOr 0 n s = NoFuel"
| "parseOr (Suc k) n s = and_then (parseAnd k n s) (\<lambda>left r. orLoop k n left r)"
| "orLoop 0 n left s = NoFuel"
| "orLoop (Suc k) n left s =
     (let (found, r) = consume_any or_tokens s
      in if found then and_then (parseAnd k n r) (\<lambda>right r'. orLoop k n (Or left right) r')
         else PNode left r)"
| "parseAnd 0 n s = NoFuel"
| "parseAnd (Suc k) n s = and_then (parseUnary k n s) (\<lambda>left r. andLoop k n left r)"
| "andLoop 0 n left s = NoFuel"
| "andLoop (Suc k) n left s =
     (let (found, r) = consume_any and_tokens s
      in if found then and_then (parseUnary k n r) (\<lambda>right r'. andLoop k n (And left right) r')
         else PNode left r)"
| "parseUnary 0 n s = NoFuel"
| "parseUnary (Suc k) n s =
     (let (negated, r) = consume_any not_tokens s
      in if negated then and_then (parseUnary k n r) (\<lambda>operand r'. PNode (Not operand) r')
         else let (opened, r1) = consume ''('' r
              in if opened then and_then (parseOr k n r1) close_paren
                 else tag_name n r1)"
  by pat_completeness auto
termination
  by (relation "measure (case_sum (case_sum (\<lambda>(k, n, s). k) (\<lambda>(k, n, l, s). k))
        (case_sum (\<lambda>(k, n, s). k) (case_sum (\<lambda>(k, n, l, s). k) (\<lambda>(k, n, s). k))))") simp_all

text \<open>\<open>TagFilter\<close>: the fields \<open>expression\<close>, \<open>root\<close> and \<open>invalid\<close>; the error text is the
  out-parameter of \<open>parse\<close> (empty when it was not set).\<close>

record tag_filter =
  tf_expression :: string
  tf_root :: "node option"
  tf_invalid :: bool

definition parse_fuel :: "string \<Rightarrow> nat" where
  "parse_fuel s = 4 * length s + 4"

definition parse_filter :: "string \<Rightarrow> tag_filter \<times> string" where
  "parse_filter expr =
     (let s = trim expr; n = length s
      in if s = [] then (\<lparr>tf_expression = s, tf_root = None, tf_invalid = False\<rparr>, [])
         else case parseOr (parse_fuel s) n s of
           PNode e r \<Rightarrow>
             (let r1 = skipWs r
              in if r1 = [] then (\<lparr>tf_expression = s, tf_root = Some e, tf_invalid = False\<rparr>, [])
                 else (\<lparr>tf_expression = s, tf_root = None, tf_invalid = True\<rparr>,
                       ''Unexpected token near position '' @ to_string (int (n - length r1))))
         | PErr err \<Rightarrow> (\<lparr>tf_expression = s, tf_root = None, tf_invalid = True\<rparr>, err)
         | NoFuel \<Rightarrow> (\<lparr>tf_expression = s, tf_root = None, tf_invalid = True\<rparr>, ''out of fuel''))"

definition matches_filter :: "tag_filter \<Rightarrow> string list \<Rightarrow> bool" where
  "matches_filter f tags = (case tf_root f of None \<Rightarrow> True | Some e \<Rightarrow> eval e tags)"

text \<open>\<open>TagFilter::all\<close>: every non-blank expression in parentheses, joined by \<open>&\<close>.\<close>

definition combine_step :: "string \<Rightarrow> string \<Rightarrow> string" where
  "combine_step combined e =
     (let t = trim e
      in if t = [] then combined
         else (if combined = [] then [] else combined @ '' & '') @ ''('' @ t @ '')'')"

definition all_filters :: "string list \<Rightarrow> tag_filter \<times> string" where
  "all_filters expressions = parse_filter (foldl combine_step [] expressions)"


section \<open>Enough fuel\<close>

lemma length_skipWs: "length (skipWs s) \<le> length s"
  by (simp add: skipWs_def length_dropWhile_le)

lemma skipWs_idem [simp]: "skipWs (skipWs s) = skipWs s"
  by (simp add: skipWs_def)

lemma consume_False: "consume tok s = (False, r) \<Longrightarrow> r = skipWs s"
  by (auto simp: consume_def Let_def split: if_splits)

lemma consume_True_shorter:
  assumes "tok \<noteq> []" and "consume tok s = (True, r)"
  shows "length r < length s"
proof -
  from assms(2) have "skipWs s = tok @ r"
    by (auto simp: consume_def Let_def is_prefix_iff split: if_splits)
  then have "length tok + length r \<le> length s" using length_skipWs [of s] by simp
  with assms(1) show ?thesis by (cases tok) auto
qed

lemma consume_any_False: "consume_any ts s = (False, r) \<Longrightarrow> skipWs r = skipWs s \<and> length r \<le> length s"
proof (induction ts arbitrary: s)
  case (Cons t ts)
  obtain b r1 where c: "consume t s = (b, r1)" by (cases "consume t s")
  with Cons.prems have b: "\<not> b" by (auto split: bool.splits)
  with c have r1: "r1 = skipWs s" by (simp add: consume_False)
  from Cons.prems c b have "consume_any ts r1 = (False, r)" by simp
  from Cons.IH [OF this] show ?case using length_skipWs [of s] by (simp add: r1)
qed simp

lemma consume_any_True_shorter:
  "\<forall>t \<in> set ts. t \<noteq> [] \<Longrightarrow> consume_any ts s = (True, r) \<Longrightarrow> length r < length s"
proof (induction ts arbitrary: s)
  case (Cons t ts)
  obtain b r1 where c: "consume t s = (b, r1)" by (cases "consume t s")
  show ?case
  proof (cases b)
    case True
    with Cons.prems c show ?thesis using consume_True_shorter [of t s r] by simp
  next
    case False
    with c have r1: "r1 = skipWs s" by (simp add: consume_False)
    from Cons.prems c False have "consume_any ts r1 = (True, r)" by simp
    with Cons have "length r < length r1" by simp
    then show ?thesis using length_skipWs [of s] by (simp add: r1)
  qed
qed simp

lemma tokens_nonempty [simp]:
  "\<forall>t \<in> set or_tokens. t \<noteq> []" "\<forall>t \<in> set and_tokens. t \<noteq> []" "\<forall>t \<in> set not_tokens. t \<noteq> []"
  by (simp_all add: or_tokens_def and_tokens_def not_tokens_def)

lemmas consume_shorter =
  consume_any_True_shorter [OF tokens_nonempty(1)] consume_any_True_shorter [OF tokens_nonempty(2)]
  consume_any_True_shorter [OF tokens_nonempty(3)]

text \<open>Fuel linear in the length never runs out, and what is parsed is consumed.\<close>

definition good :: "bool \<Rightarrow> string \<Rightarrow> presult \<Rightarrow> bool" where
  "good strict s p =
     (case p of NoFuel \<Rightarrow> False | PErr e \<Rightarrow> e \<noteq> []
      | PNode e r \<Rightarrow> length r \<le> length s \<and> (strict \<longrightarrow> length r < length s))"

lemma good_weaken: "good True s p \<Longrightarrow> length s \<le> length t \<Longrightarrow> good b t p"
  by (auto simp: good_def split: presult.splits)

lemma good_and_then:
  assumes "good True t p" and "length t \<le> length s"
    and "\<And>e r. length r < length t \<Longrightarrow> good False r (f e r)"
  shows "good b s (and_then p f)"
proof (cases p)
  case (PNode e r)
  with assms(1) have r: "length r < length t" by (simp add: good_def)
  then have "good False r (f e r)" by (rule assms(3))
  with r assms(2) PNode show ?thesis
    by (auto simp: good_def and_then_def split: presult.splits)
qed (use assms in \<open>auto simp: good_def and_then_def\<close>)

lemma good_close_paren: "good False r (close_paren e r)"
  using consume_True_shorter [of "'')''" r]
  by (auto simp: close_paren_def good_def Let_def split: prod.splits intro: less_imp_le)

lemma good_tag_name: "length r \<le> length s \<Longrightarrow> good True s (tag_name n r)"
proof (cases "takeWhile tag_char (skipWs r) = []")
  case True
  then show ?thesis by (simp add: tag_name_def good_def Let_def)
next
  case False
  assume "length r \<le> length s"
  with length_skipWs [of r] have "length (skipWs r) \<le> length s" by simp
  moreover from False have "length (drop (length (takeWhile tag_char (skipWs r))) (skipWs r)) < length (skipWs r)"
    by (cases "skipWs r") auto
  ultimately show ?thesis using False by (simp add: tag_name_def good_def Let_def)
qed

lemma parse_good:
  "(4 * length s + 3 \<le> k \<longrightarrow> good True s (parseOr k n s))
   \<and> (4 * length s + 2 \<le> k \<longrightarrow> good False s (orLoop k n l s))
   \<and> (4 * length s + 2 \<le> k \<longrightarrow> good True s (parseAnd k n s))
   \<and> (4 * length s + 2 \<le> k \<longrightarrow> good False s (andLoop k n l s))
   \<and> (4 * length s + 1 \<le> k \<longrightarrow> good True s (parseUnary k n s))"
proof (induction k arbitrary: s l)
  case (Suc k)
  note ihOr = Suc.IH [THEN conjunct1, rule_format]
    and ihOl = Suc.IH [THEN conjunct2, THEN conjunct1, rule_format]
    and ihAnd = Suc.IH [THEN conjunct2, THEN conjunct2, THEN conjunct1, rule_format]
    and ihAl = Suc.IH [THEN conjunct2, THEN conjunct2, THEN conjunct2, THEN conjunct1, rule_format]
    and ihUn = Suc.IH [THEN conjunct2, THEN conjunct2, THEN conjunct2, THEN conjunct2, rule_format]
  have "good True s (parseOr (Suc k) n s)" if "4 * length s + 3 \<le> Suc k"
    using that ihAnd ihOl by (auto intro!: good_and_then)
  moreover have "good True s (parseAnd (Suc k) n s)" if "4 * length s + 2 \<le> Suc k"
    using that ihUn ihAl by (auto intro!: good_and_then)
  moreover have "good False s (orLoop (Suc k) n l s)" if fuel: "4 * length s + 2 \<le> Suc k"
  proof (cases "consume_any or_tokens s")
    case (Pair b r)
    show ?thesis
    proof (cases b)
      case True
      with Pair have r: "length r < length s" by (simp add: consume_shorter)
      with fuel have "good True r (parseAnd k n r)" using ihAnd by simp
      with r fuel have "good False s (and_then (parseAnd k n r) (\<lambda>right r'. orLoop k n (Or l right) r'))"
        using ihOl by (auto intro!: good_and_then)
      with Pair True show ?thesis by simp
    next
      case False
      with Pair consume_any_False [of or_tokens s r] show ?thesis by (simp add: good_def)
    qed
  qed
  moreover have "good False s (andLoop (Suc k) n l s)" if fuel: "4 * length s + 2 \<le> Suc k"
  proof (cases "consume_any and_tokens s")
    case (Pair b r)
    show ?thesis
    proof (cases b)
      case True
      with Pair have r: "length r < length s" by (simp add: consume_shorter)
      with fuel have "good True r (parseUnary k n r)" using ihUn by simp
      with r fuel have "good False s (and_then (parseUnary k n r) (\<lambda>right r'. andLoop k n (And l right) r'))"
        using ihAl by (auto intro!: good_and_then)
      with Pair True show ?thesis by simp
    next
      case False
      with Pair consume_any_False [of and_tokens s r] show ?thesis by (simp add: good_def)
    qed
  qed
  moreover have "good True s (parseUnary (Suc k) n s)" if fuel: "4 * length s + 1 \<le> Suc k"
  proof (cases "consume_any not_tokens s")
    case (Pair b r)
    show ?thesis
    proof (cases b)
      case True
      with Pair have r: "length r < length s" by (simp add: consume_shorter)
      with fuel have a: "good True r (parseUnary k n r)" using ihUn by simp
      have "good True s (and_then (parseUnary k n r) (\<lambda>operand r'. PNode (Not operand) r'))"
        using r by (intro good_and_then [OF a]) (auto simp: good_def)
      with Pair True show ?thesis by simp
    next
      case nb: False
      with Pair consume_any_False [of not_tokens s r] have r: "length r \<le> length s" by simp
      obtain b1 r1 where c1: "consume ''('' r = (b1, r1)" by (cases "consume ''('' r")
      show ?thesis
      proof (cases b1)
        case True
        with c1 have r1: "length r1 < length r" by (auto intro: consume_True_shorter)
        with r fuel have a: "good True r1 (parseOr k n r1)" using ihOr by simp
        have "good True s (and_then (parseOr k n r1) close_paren)"
          using r r1 good_close_paren by (intro good_and_then [OF a]) auto
        with Pair nb c1 True show ?thesis by simp
      next
        case False
        with c1 have "length r1 \<le> length r" by (auto dest: consume_False simp: length_skipWs)
        with r have "good True s (tag_name n r1)" by (intro good_tag_name) simp
        with Pair nb c1 False show ?thesis by simp
      qed
    qed
  qed
  ultimately show ?case by blast
qed simp

lemma parseOr_enough: "good True s (parseOr (parse_fuel s) n s)"
  using parse_good [of s "parse_fuel s" n] by (simp add: parse_fuel_def)


section \<open>More fuel, and text after a closing parenthesis, change nothing\<close>

definition sub :: "presult \<Rightarrow> presult \<Rightarrow> bool" where
  "sub p q = (p = NoFuel \<or> p = q)"

lemma sub_refl [simp]: "sub p p" and sub_NoFuel [simp]: "sub NoFuel p"
  by (simp_all add: sub_def)

lemma sub_and_then: "sub p q \<Longrightarrow> (\<And>e r. sub (f e r) (g e r)) \<Longrightarrow> sub (and_then p f) (and_then q g)"
  unfolding sub_def by (cases p) (auto simp: and_then_def, metis)

lemma parse_sub:
  "sub (parseOr k n s) (parseOr (Suc k) n s) \<and> sub (orLoop k n l s) (orLoop (Suc k) n l s)
   \<and> sub (parseAnd k n s) (parseAnd (Suc k) n s) \<and> sub (andLoop k n l s) (andLoop (Suc k) n l s)
   \<and> sub (parseUnary k n s) (parseUnary (Suc k) n s)"
proof (induction k arbitrary: s l)
  case (Suc k)
  note ih = Suc.IH [THEN conjunct1] Suc.IH [THEN conjunct2, THEN conjunct1]
    Suc.IH [THEN conjunct2, THEN conjunct2, THEN conjunct1]
    Suc.IH [THEN conjunct2, THEN conjunct2, THEN conjunct2, THEN conjunct1]
    Suc.IH [THEN conjunct2, THEN conjunct2, THEN conjunct2, THEN conjunct2]
  have "sub (parseOr (Suc k) n s) (parseOr (Suc (Suc k)) n s)"
    unfolding parseOr.simps(2) [of k n s] parseOr.simps(2) [of "Suc k" n s]
    by (intro sub_and_then ih)
  moreover have "sub (orLoop (Suc k) n l s) (orLoop (Suc (Suc k)) n l s)"
    unfolding orLoop.simps(2) [of k n l s] orLoop.simps(2) [of "Suc k" n l s] Let_def
    by (auto intro!: sub_and_then ih split: prod.splits simp del: parseOr.simps orLoop.simps
      parseAnd.simps andLoop.simps parseUnary.simps)
  moreover have "sub (parseAnd (Suc k) n s) (parseAnd (Suc (Suc k)) n s)"
    unfolding parseAnd.simps(2) [of k n s] parseAnd.simps(2) [of "Suc k" n s]
    by (intro sub_and_then ih)
  moreover have "sub (andLoop (Suc k) n l s) (andLoop (Suc (Suc k)) n l s)"
    unfolding andLoop.simps(2) [of k n l s] andLoop.simps(2) [of "Suc k" n l s] Let_def
    by (auto intro!: sub_and_then ih split: prod.splits simp del: parseOr.simps orLoop.simps
      parseAnd.simps andLoop.simps parseUnary.simps)
  moreover have "sub (parseUnary (Suc k) n s) (parseUnary (Suc (Suc k)) n s)"
    unfolding parseUnary.simps(2) [of k n s] parseUnary.simps(2) [of "Suc k" n s] Let_def
    by (auto intro!: sub_and_then ih split: prod.splits simp del: parseOr.simps orLoop.simps
      parseAnd.simps andLoop.simps parseUnary.simps)
  ultimately show ?case by blast
qed simp

lemma parseOr_mono: "k \<le> m \<Longrightarrow> sub (parseOr k n s) (parseOr m n s)"
proof (induction m rule: dec_induct)
  case (step m)
  then show ?case using parse_sub [of m n s] by (auto simp: sub_def)
qed simp

lemma parseOr_unique:
  assumes "parseOr k n s = PNode e r"
  shows "parseOr (parse_fuel s) n s = PNode e r"
proof -
  have "sub (parseOr k n s) (parseOr (max k (parse_fuel s)) n s)"
    and "sub (parseOr (parse_fuel s) n s) (parseOr (max k (parse_fuel s)) n s)"
    by (simp_all add: parseOr_mono)
  then show ?thesis
    using assms parseOr_enough [of s n] by (auto simp: sub_def good_def)
qed

text \<open>The text after a closing parenthesis is not looked at.\<close>

definition after_paren :: "string \<Rightarrow> string" where
  "after_paren t = CHR '')'' # t"

lemma skipWs_ext: "skipWs (s @ after_paren t) = skipWs s @ after_paren t"
  by (induction s) (auto simp: skipWs_def after_paren_def c_isspace_def)

lemma is_prefix_ext:
  "CHR '')'' \<notin> set tok \<Longrightarrow> is_prefix tok (s @ after_paren t) = is_prefix tok s"
  by (induction tok s rule: is_prefix.induct) (auto simp: after_paren_def)

lemma word_goes_on_ext: "word_goes_on (s @ after_paren t) = word_goes_on s"
  by (cases s) (auto simp: word_goes_on_def after_paren_def chr_simps)

lemma consume_ext:
  assumes "CHR '')'' \<notin> set tok"
  shows "consume tok (s @ after_paren t) = apsnd (\<lambda>r. r @ after_paren t) (consume tok s)"
proof -
  have "is_prefix tok u \<Longrightarrow> drop (length tok) (u @ after_paren t) = drop (length tok) u @ after_paren t" for u
    by (auto simp: is_prefix_iff)
  then show ?thesis
    using assms by (simp add: consume_def Let_def skipWs_ext is_prefix_ext word_goes_on_ext)
qed

lemma consume_any_ext:
  "\<forall>tok \<in> set ts. CHR '')'' \<notin> set tok \<Longrightarrow>
    consume_any ts (s @ after_paren t) = apsnd (\<lambda>r. r @ after_paren t) (consume_any ts s)"
  by (induction ts arbitrary: s) (auto simp: consume_ext split: prod.splits bool.splits)

lemma consume_paren_ext:
  "consume '')'' s = (True, r) \<Longrightarrow> consume '')'' (s @ after_paren t) = (True, r @ after_paren t)"
  by (auto simp: consume_def Let_def skipWs_ext is_prefix_iff chr_simps split: if_splits)

lemma tokens_no_paren:
  "\<forall>tok \<in> set or_tokens. CHR '')'' \<notin> set tok" "\<forall>tok \<in> set and_tokens. CHR '')'' \<notin> set tok"
  "\<forall>tok \<in> set not_tokens. CHR '')'' \<notin> set tok"
  by (simp_all add: or_tokens_def and_tokens_def not_tokens_def)

lemmas consume_tokens_ext =
  consume_any_ext [OF tokens_no_paren(1)] consume_any_ext [OF tokens_no_paren(2)]
  consume_any_ext [OF tokens_no_paren(3)]

text \<open>\<open>ext t p q\<close>: where \<open>p\<close> parsed something, \<open>q\<close> parses the same and leaves \<open>) t\<close> too.\<close>

definition ext :: "string \<Rightarrow> presult \<Rightarrow> presult \<Rightarrow> bool" where
  "ext t p q = (\<forall>e r. p = PNode e r \<longrightarrow> q = PNode e (r @ after_paren t))"

lemma ext_PNode [simp]: "ext t (PNode e r) (PNode e (r @ after_paren t))"
  and ext_NoFuel [simp]: "ext t NoFuel q"
  by (simp_all add: ext_def)

lemma ext_and_then:
  "ext t p q \<Longrightarrow> (\<And>e r. ext t (f e r) (g e (r @ after_paren t))) \<Longrightarrow> ext t (and_then p f) (and_then q g)"
  by (cases p) (auto simp: ext_def and_then_def)

lemma ext_close_paren: "ext t (close_paren e s) (close_paren e (s @ after_paren t))"
  by (auto simp: ext_def close_paren_def Let_def consume_paren_ext split: prod.splits if_splits)

lemma takeWhile_tag_ext:
  "takeWhile tag_char (s @ after_paren t) = takeWhile tag_char s"
  by (induction s) (auto simp: after_paren_def tag_char_def)

lemma ext_tag_name: "ext t (tag_name n s) (tag_name n' (s @ after_paren t))"
proof -
  have "length (takeWhile tag_char u) \<le> length u" for u
    by (rule length_takeWhile_le)
  then show ?thesis
    by (auto simp: ext_def tag_name_def Let_def skipWs_ext takeWhile_tag_ext split: if_splits)
qed

lemma parse_ext:
  "ext t (parseOr k n s) (parseOr k n' (s @ after_paren t))
   \<and> ext t (orLoop k n l s) (orLoop k n' l (s @ after_paren t))
   \<and> ext t (parseAnd k n s) (parseAnd k n' (s @ after_paren t))
   \<and> ext t (andLoop k n l s) (andLoop k n' l (s @ after_paren t))
   \<and> ext t (parseUnary k n s) (parseUnary k n' (s @ after_paren t))"
proof (induction k arbitrary: s l)
  case (Suc k)
  note ih = Suc.IH [THEN conjunct1] Suc.IH [THEN conjunct2, THEN conjunct1]
    Suc.IH [THEN conjunct2, THEN conjunct2, THEN conjunct1]
    Suc.IH [THEN conjunct2, THEN conjunct2, THEN conjunct2, THEN conjunct1]
    Suc.IH [THEN conjunct2, THEN conjunct2, THEN conjunct2, THEN conjunct2]
  have "CHR '')'' \<notin> set ''(''" by simp
  note open_ext = consume_ext [OF this]
  show ?case
    by (intro conjI)
      (auto simp: Let_def consume_tokens_ext open_ext split: prod.splits
        intro!: ext_and_then ih ext_close_paren ext_tag_name)
qed simp


section \<open>Conjunction of several expressions\<close>

text \<open>The text \<open>all\<close> builds: a parenthesised expression, then \<open>& (t)\<close> for each other one.\<close>

fun and_tail :: "string list \<Rightarrow> string" where
  "and_tail [] = []"
| "and_tail (t # ts) = '' & '' @ ''('' @ t @ '')'' @ and_tail ts"

definition non_blank :: "string list \<Rightarrow> string list" where
  "non_blank es = filter (\<lambda>t. t \<noteq> []) (map trim es)"

lemma combine_step_tail:
  "acc \<noteq> [] \<Longrightarrow> foldl combine_step acc es = acc @ and_tail (non_blank es)"
  by (induction es arbitrary: acc) (auto simp: combine_step_def Let_def non_blank_def)

lemma combine_steps:
  "foldl combine_step [] es =
    (case non_blank es of [] \<Rightarrow> [] | t # ts \<Rightarrow> ''('' @ t @ '')'' @ and_tail ts)"
proof (induction es)
  case (Cons e es)
  show ?case
  proof (cases "trim e = []")
    case True
    with Cons show ?thesis by (simp add: combine_step_def non_blank_def)
  next
    case False
    then have "combine_step [] e = ''('' @ trim e @ '')''" by (simp add: combine_step_def)
    with False show ?thesis by (simp add: combine_step_tail non_blank_def)
  qed
qed (simp add: non_blank_def)

text \<open>\<open>parses t e\<close>: the text \<open>t\<close> is an expression by itself, with tree \<open>e\<close>.\<close>

definition parses :: "string \<Rightarrow> node \<Rightarrow> bool" where
  "parses t e = (\<exists>k n r. parseOr k n t = PNode e r \<and> skipWs r = [])"

lemma parse_filter_valid:
  assumes "snd (parse_filter x) = []" and "trim x \<noteq> []"
  obtains e where "parses (trim x) e" and "tf_root (fst (parse_filter x)) = Some e"
proof (cases "parseOr (parse_fuel (trim x)) (length (trim x)) (trim x)")
  case (PNode e r)
  with assms have "skipWs r = []" by (auto simp: parse_filter_def Let_def split: if_splits)
  with PNode assms have "parses (trim x) e" and "tf_root (fst (parse_filter x)) = Some e"
    by (auto simp: parses_def parse_filter_def Let_def)
  then show ?thesis by (rule that)
next
  case (PErr err)
  with parseOr_enough [of "trim x" "length (trim x)"] have "err \<noteq> []" by (simp add: good_def)
  with PErr assms show ?thesis by (simp add: parse_filter_def Let_def)
next
  case NoFuel
  with assms show ?thesis by (simp add: parse_filter_def Let_def)
qed

lemma parses_parse_filter:
  assumes "parseOr k (length x) x = PNode e r" and "skipWs r = []" and "trim x = x" and "x \<noteq> []"
  shows "parse_filter x = (\<lparr>tf_expression = x, tf_root = Some e, tf_invalid = False\<rparr>, [])"
  using parseOr_unique [OF assms(1)] assms(2-4) by (simp add: parse_filter_def Let_def)

lemma consume_paren_other:
  assumes "tok \<noteq> []" and "hd tok \<noteq> CHR ''(''"
  shows "consume tok (CHR ''('' # s) = (False, CHR ''('' # s)"
  using assms by (cases tok) (simp_all add: consume_def skipWs_def c_isspace_def Let_def)

lemma consume_any_paren:
  "consume_any not_tokens (CHR ''('' # s) = (False, CHR ''('' # s)"
  by (simp add: not_tokens_def consume_paren_other)

lemma parseUnary_paren:
  assumes "parses t e"
  shows "\<exists>k. parseUnary k n (CHR ''('' # t @ after_paren u) = PNode e u"
proof -
  from assms obtain k m r where "parseOr k m t = PNode e r" and r: "skipWs r = []"
    by (auto simp: parses_def)
  then have "parseOr k n (t @ after_paren u) = PNode e (r @ after_paren u)"
    using parse_ext [THEN conjunct1, of u k m t n] by (simp add: ext_def)
  moreover have "consume ''('' (CHR ''('' # t @ after_paren u) = (True, t @ after_paren u)"
    by (simp add: consume_def skipWs_def chr_simps)
  moreover have "close_paren e (r @ after_paren u) = PNode e u"
  proof -
    have "skipWs (r @ after_paren u) = after_paren u" by (simp add: skipWs_ext r)
    then show ?thesis
      by (simp add: close_paren_def consume_def after_paren_def chr_simps)
  qed
  ultimately have "parseUnary (Suc k) n (CHR ''('' # t @ after_paren u) = PNode e u"
    by (simp add: consume_any_paren and_then_def)
  then show ?thesis by blast
qed

lemma andLoop_mono: "j \<le> m \<Longrightarrow> sub (andLoop j n l s) (andLoop m n l s)"
proof (induction m rule: dec_induct)
  case (step m)
  then show ?case using parse_sub [of m n s l] by (auto simp: sub_def)
qed simp

lemma parseUnary_mono: "j \<le> m \<Longrightarrow> sub (parseUnary j n s) (parseUnary m n s)"
proof (induction m rule: dec_induct)
  case (step m)
  then show ?case using parse_sub [of m n s] by (auto simp: sub_def)
qed simp

lemma loops_up:
  "andLoop j n l s = PNode e r \<Longrightarrow> j \<le> m \<Longrightarrow> andLoop m n l s = PNode e r"
  "parseUnary j n s = PNode e r \<Longrightarrow> j \<le> m \<Longrightarrow> parseUnary m n s = PNode e r"
  using andLoop_mono [of j m n l s] parseUnary_mono [of j m n s] by (auto simp: sub_def)

lemma parseUnary_space: "parseUnary k n (CHR '' '' # s) = parseUnary k n s"
proof -
  have "skipWs (CHR '' '' # s) = skipWs s" by (simp add: skipWs_def chr_simps)
  then have "consume tok (CHR '' '' # s) = consume tok s" for tok
    by (simp add: consume_def)
  then have "consume_any not_tokens (CHR '' '' # s) = consume_any not_tokens s"
    by (simp add: not_tokens_def)
  then show ?thesis by (cases k) simp_all
qed

lemma consume_and_amp:
  "consume_any and_tokens ('' & ('' @ s) = (True, '' ('' @ s)"
  by (simp add: and_tokens_def consume_def skipWs_def chr_simps)

lemma andLoop_tail:
  "list_all2 parses ts es \<Longrightarrow> \<exists>k. andLoop k n l (and_tail ts) = PNode (foldl And l es) []"
proof (induction ts es arbitrary: l rule: list_all2_induct)
  case Nil
  have "consume_any and_tokens [] = (False, [])"
    by (simp add: and_tokens_def consume_def skipWs_def)
  then have "andLoop (Suc 0) n l (and_tail []) = PNode (foldl And l []) []" by simp
  then show ?case by blast
next
  case (Cons t ts e es)
  obtain k1 where k1: "parseUnary k1 n (CHR ''('' # t @ after_paren (and_tail ts)) = PNode e (and_tail ts)"
    using parseUnary_paren [OF Cons.hyps(1)] by blast
  obtain k2 where k2: "andLoop k2 n (And l e) (and_tail ts) = PNode (foldl And (And l e) es) []"
    using Cons.IH by blast
  have "parseUnary (max k1 k2) n (CHR ''('' # t @ after_paren (and_tail ts)) = PNode e (and_tail ts)"
    using k1 by (rule loops_up) simp
  moreover have "andLoop (max k1 k2) n (And l e) (and_tail ts) = PNode (foldl And (And l e) es) []"
    using k2 by (rule loops_up) simp
  moreover have "and_tail (t # ts) = '' & ('' @ t @ after_paren (and_tail ts)"
    by (simp add: after_paren_def)
  ultimately have "andLoop (Suc (max k1 k2)) n l (and_tail (t # ts)) = PNode (foldl And l (e # es)) []"
    by (simp add: consume_and_amp [simplified] parseUnary_space and_then_def del: and_tail.simps)
  then show ?case by blast
qed

lemma eval_foldl_And: "eval (foldl And l es) tags = (eval l tags \<and> (\<forall>e \<in> set es. eval e tags))"
  by (induction es arbitrary: l) auto

lemma parseOr_all:
  assumes "parses t e" and "list_all2 parses ts es"
  shows "\<exists>k. parseOr k n (''('' @ t @ '')'' @ and_tail ts) = PNode (foldl And e es) []"
proof -
  obtain k1 where k1: "parseUnary k1 n (CHR ''('' # t @ after_paren (and_tail ts)) = PNode e (and_tail ts)"
    using parseUnary_paren [OF assms(1)] by blast
  obtain k2 where k2: "andLoop k2 n e (and_tail ts) = PNode (foldl And e es) []"
    using andLoop_tail [OF assms(2)] by blast
  let ?k = "max k1 k2"
  have "parseUnary ?k n (CHR ''('' # t @ after_paren (and_tail ts)) = PNode e (and_tail ts)"
    using k1 by (rule loops_up) simp
  moreover have "andLoop ?k n e (and_tail ts) = PNode (foldl And e es) []"
    using k2 by (rule loops_up) simp
  ultimately have "parseAnd (Suc ?k) n (CHR ''('' # t @ after_paren (and_tail ts)) = PNode (foldl And e es) []"
    by (simp add: and_then_def)
  moreover have "consume_any or_tokens [] = (False, [])"
    by (simp add: or_tokens_def consume_def skipWs_def)
  ultimately have "parseOr (Suc (Suc ?k)) n (CHR ''('' # t @ after_paren (and_tail ts)) = PNode (foldl And e es) []"
    by (simp add: and_then_def)
  then have "parseOr (Suc (Suc ?k)) n (''('' @ t @ '')'' @ and_tail ts) = PNode (foldl And e es) []"
    by (simp only: after_paren_def append.simps)
  then show ?thesis by blast
qed

lemma all_text_trim: "trim (''('' @ t @ '')'' @ and_tail ts) = ''('' @ t @ '')'' @ and_tail ts"
proof (rule trim_id)
  have "last (CHR '')'' # and_tail us) = CHR '')''" for us
    by (induction us) simp_all
  then have "last (''('' @ t @ '')'' @ and_tail ts) = CHR '')''" by simp
  then show "\<not> c_isspace (last (''('' @ t @ '')'' @ and_tail ts))" by (simp add: c_isspace_def)
qed (simp_all add: c_isspace_def)

text \<open>
  C36. Combining valid tag expressions is their conjunction: if every given expression parses
  by itself, the expression \<open>TagFilter::all\<close> builds parses too, and it selects exactly the
  tag lists that every given expression selects (a blank one selects everything).
\<close>

theorem all_filters_conjunction:
  assumes "\<forall>x \<in> set xs. snd (parse_filter x) = []"
  shows "snd (all_filters xs) = []
    \<and> matches_filter (fst (all_filters xs)) tags
        = (\<forall>x \<in> set xs. matches_filter (fst (parse_filter x)) tags)"
proof -
  have blank: "trim x = [] \<Longrightarrow> matches_filter (fst (parse_filter x)) tags" for x
    by (simp add: parse_filter_def matches_filter_def)
  have "\<exists>es. list_all2 parses (non_blank xs) es
      \<and> ((\<forall>e \<in> set es. eval e tags) = (\<forall>x \<in> set xs. matches_filter (fst (parse_filter x)) tags))"
    using assms
  proof (induction xs)
    case Nil
    show ?case by (intro exI [of _ "[]"]) (simp add: non_blank_def)
  next
    case (Cons x xs)
    then obtain es where es: "list_all2 parses (non_blank xs) es"
      "(\<forall>e \<in> set es. eval e tags) = (\<forall>x \<in> set xs. matches_filter (fst (parse_filter x)) tags)"
      by auto
    show ?case
    proof (cases "trim x = []")
      case True
      with es blank [of x] show ?thesis
        by (intro exI [of _ es]) (simp add: non_blank_def)
    next
      case False
      from Cons.prems have "snd (parse_filter x) = []" by simp
      from this False obtain e where e: "parses (trim x) e" "tf_root (fst (parse_filter x)) = Some e"
        by (rule parse_filter_valid)
      then have "matches_filter (fst (parse_filter x)) tags = eval e tags"
        by (simp add: matches_filter_def)
      with es e(1) False show ?thesis
        by (intro exI [of _ "e # es"]) (simp add: non_blank_def)
    qed
  qed
  then obtain es where es: "list_all2 parses (non_blank xs) es"
    and sem: "(\<forall>e \<in> set es. eval e tags) = (\<forall>x \<in> set xs. matches_filter (fst (parse_filter x)) tags)"
    by blast
  show ?thesis
  proof (cases "non_blank xs")
    case Nil
    with es have "es = []" by simp
    with Nil sem show ?thesis
      by (simp add: all_filters_def combine_steps parse_filter_def matches_filter_def)
  next
    case (Cons t ts)
    with es obtain e es' where es': "es = e # es'" "parses t e" "list_all2 parses ts es'"
      by (auto simp: list_all2_Cons1)
    let ?x = "''('' @ t @ '')'' @ and_tail ts"
    obtain k where k: "parseOr k (length ?x) ?x = PNode (foldl And e es') []"
      using parseOr_all [OF es'(2,3)] by blast
    have "parse_filter ?x = (\<lparr>tf_expression = ?x, tf_root = Some (foldl And e es'), tf_invalid = False\<rparr>, [])"
      by (rule parses_parse_filter [OF k _ all_text_trim]) (simp_all add: skipWs_def)
    moreover have "all_filters xs = parse_filter ?x"
      by (simp add: all_filters_def combine_steps Cons)
    ultimately show ?thesis
      using sem es'(1) by (simp add: matches_filter_def eval_foldl_And)
  qed
qed

theorem all_filters_conjunction_witness:
  "snd (all_filters [''smoke & !slow'', '' '', ''ui | api'']) = []
    \<and> matches_filter (fst (all_filters [''smoke & !slow'', '' '', ''ui | api''])) [''smoke'', ''API'']
        = (\<forall>x \<in> set [''smoke & !slow'', '' '', ''ui | api''].
             matches_filter (fst (parse_filter x)) [''smoke'', ''API''])"
proof (rule all_filters_conjunction)
  show "\<forall>x \<in> set [''smoke & !slow'', '' '', ''ui | api'']. snd (parse_filter x) = []"
    by code_simp
qed

text \<open>
  The converse fails: an expression that is rejected by itself can be accepted in the
  combination, because its text is put between parentheses unparsed.
\<close>

lemma all_filters_accepts_unbalanced:
  "snd (parse_filter ''a) | (b'') \<noteq> [] \<and> snd (all_filters [''a) | (b'']) = []
    \<and> matches_filter (fst (all_filters [''a) | (b''])) [''b'']"
  by code_simp

end
