(* ===== verification/EngineContext.thy ===== *)
theory EngineContext
  imports RunnerTypes TagFilter TestQueue
begin

text \<open>
  \<open>src/src/engine/execution_engine.h\<close> and the helpers of \<open>execution_engine.cpp\<close>: the engine's
  configuration, the context of one run, and the operations on it. Everything a run reads
  from outside (the cancel flag other threads set, the two clocks, the runner behind its
  bridge, the file system) goes through the parameter \<open>environment\<close>, whose state \<open>'w\<close> is
  threaded in the order of the code's reads, so any interference between two reads is a
  possible behaviour. Events are the list of what was published; \<open>rc_visible\<close> is the status
  that other threads see in the engine's records. Times are exact seconds.
\<close>

section \<open>Configuration and environment\<close>

record EngineConfig =
  ec_workerThreads :: int
  ec_defaultTimeoutMs :: int
  ec_stepTimeoutMs :: int
  ec_historyLimit :: nat
  ec_resultsDir :: string
  ec_environment :: "(string, string) omap"

definition default_EngineConfig :: EngineConfig where
  "default_EngineConfig = \<lparr>ec_workerThreads = 1, ec_defaultTimeoutMs = 300000, ec_stepTimeoutMs = 60000,
     ec_historyLimit = 200, ec_resultsDir = [], ec_environment = []\<rparr>"

record LoadedSpec =
  ls_path :: string
  ls_specification :: "Specification option"
  ls_errors :: "ParseError list"
  ls_warnings :: "ParseError list"

record 'w environment =
  env_cancelled :: "'w \<Rightarrow> bool \<times> 'w"
  env_clock :: "'w \<Rightarrow> seconds \<times> 'w"
  env_wall :: "'w \<Rightarrow> TimePoint \<times> 'w"
  env_step :: "StepExecutionRequest \<Rightarrow> 'w \<Rightarrow> StepResult \<times> 'w"
  env_hook :: "HookType \<Rightarrow> ExecutionContext \<Rightarrow> 'w \<Rightarrow> HookResult \<times> 'w"
  env_concurrencySafe :: "'w \<Rightarrow> bool \<times> 'w"
  env_poolSize :: "'w \<Rightarrow> int \<times> 'w"
  env_reserveSlots :: "int \<Rightarrow> 'w \<Rightarrow> int list \<times> 'w"
  env_fileExists :: "string \<Rightarrow> 'w \<Rightarrow> bool \<times> 'w"
  env_readFile :: "string \<Rightarrow> 'w \<Rightarrow> string \<times> 'w"
  env_load :: "string \<Rightarrow> 'w \<Rightarrow> (Specification option \<times> ParseError list \<times> ParseError list) \<times> 'w"
  env_isAbsolute :: "string \<Rightarrow> bool"
  env_joinPath :: "string \<Rightarrow> string \<Rightarrow> string"
  env_getDirectoryPath :: "string \<Rightarrow> string"
  env_toAbsoluteInside :: "string \<Rightarrow> string"
  env_toRelative :: "string \<Rightarrow> string"
  env_specsDir :: string

section \<open>Tags and retries\<close>

definition joinTags :: "string list \<Rightarrow> string" where
  "joinTags tags = join tags '',''"

fun retry_of_tag :: "int \<Rightarrow> string \<Rightarrow> int" where
  "retry_of_tag n tag =
     (let t1 = trim tag;
          t2 = (if length t1 \<ge> 2 \<and> hd t1 = CHR ''<'' \<and> last t1 = CHR ''>'' then butlast (tl t1) else t1);
          t = toLower t2
      in if length t > 6 \<and> (startsWith t ''retry:'' \<or> startsWith t ''retry-'')
         then (case stoi (drop 6 t) of Some v \<Rightarrow> if v > n then v else n | None \<Rightarrow> n)
         else n)"

definition retryFromTags :: "string list \<Rightarrow> int" where
  "retryFromTags tags = foldl retry_of_tag 0 tags"

definition effectiveStepRetry :: "TestRequest \<Rightarrow> string list \<Rightarrow> int" where
  "effectiveStepRetry req tags =
     (let n = max (rq_stepRetry req) (retryFromTags tags) in
      if n < 0 then 0 else if n > kMaxStepRetry then kMaxStepRetry else n)"

definition aggregateState :: "int \<Rightarrow> int \<Rightarrow> int \<Rightarrow> int \<Rightarrow> bool \<Rightarrow> TestState" where
  "aggregateState failed errored skipped scenarios cancelled =
     (if cancelled then CANCELLED
      else if errored > 0 \<and> failed = 0 then TEST_ERROR
      else if failed > 0 \<or> errored > 0 then FAILED
      else if scenarios > 0 \<and> skipped = scenarios then SKIPPED
      else PASSED)"

definition effectiveTags :: "Specification \<Rightarrow> Scenario \<Rightarrow> string list" where
  "effectiveTags s sc = foldl (\<lambda>tags t. if t \<in> set tags then tags else tags @ [t]) (sf_tags s) (sn_tags sc)"

definition name_wanted :: "string \<Rightarrow> string \<Rightarrow> bool" where
  "name_wanted lowerName want =
     (let w = toLower (trim want) in w \<noteq> [] \<and> (lowerName = w \<or> contains lowerName w))"

definition scenarioSelected :: "tag_filter \<Rightarrow> TestRequest \<Rightarrow> Specification \<Rightarrow> Scenario \<Rightarrow> bool" where
  "scenarioSelected tagFilter request s sc =
     (if \<not> matches_filter tagFilter (effectiveTags s sc) then False
      else if rq_scenarios request \<noteq> []
      then list_ex (name_wanted (toLower (sn_name sc))) (rq_scenarios request)
      else True)"

definition row_count :: "Specification \<Rightarrow> nat" where
  "row_count s = (if isDataDriven s then rowCount (sf_dataTable s) else 1)"

section \<open>The context of a run\<close>

record 'w run_ctx =
  rc_testId :: string
  rc_request :: TestRequest
  rc_deadline :: seconds
  rc_tagFilter :: tag_filter
  rc_status :: TestStatus
  rc_result :: TestResult
  rc_timedOut :: bool
  rc_failFast :: bool
  rc_visible :: TestStatus
  rc_events :: "publication list"
  rc_world :: 'w

definition publish :: "string \<Rightarrow> (string \<times> string) list \<Rightarrow> 'w run_ctx \<Rightarrow> 'w run_ctx" where
  "publish type data ctx = ctx\<lparr>rc_events := rc_events ctx @ [(type, rc_testId ctx, omap_of_list data)]\<rparr>"

definition set_status :: "(TestStatus \<Rightarrow> TestStatus) \<Rightarrow> 'w run_ctx \<Rightarrow> 'w run_ctx" where
  "set_status f ctx = ctx\<lparr>rc_status := f (rc_status ctx)\<rparr>"

definition add_error :: "string \<Rightarrow> 'w run_ctx \<Rightarrow> 'w run_ctx" where
  "add_error msg ctx = ctx\<lparr>rc_result := (rc_result ctx)\<lparr>tr_errors := tr_errors (rc_result ctx) @ [msg]\<rparr>\<rparr>"

definition add_spec_result :: "SpecResult \<Rightarrow> 'w run_ctx \<Rightarrow> 'w run_ctx" where
  "add_spec_result sr ctx =
     ctx\<lparr>rc_result := (rc_result ctx)\<lparr>tr_specResults := tr_specResults (rc_result ctx) @ [sr]\<rparr>\<rparr>"

text \<open>One read of the environment.\<close>

definition observe :: "('w \<Rightarrow> 'a \<times> 'w) \<Rightarrow> 'w run_ctx \<Rightarrow> 'a \<times> 'w run_ctx" where
  "observe read ctx = (let (a, w) = read (rc_world ctx) in (a, ctx\<lparr>rc_world := w\<rparr>))"

definition load_cancelled :: "'w environment \<Rightarrow> 'w run_ctx \<Rightarrow> bool \<times> 'w run_ctx" where
  "load_cancelled env ctx = observe (env_cancelled env) ctx"

definition should_stop :: "'w environment \<Rightarrow> 'w run_ctx \<Rightarrow> bool \<times> 'w run_ctx" where
  "should_stop env ctx =
     (let (c, ctx1) = load_cancelled env ctx in (c \<or> rc_timedOut ctx1 \<or> rc_failFast ctx1, ctx1))"

definition checkTimeout :: "'w environment \<Rightarrow> 'w run_ctx \<Rightarrow> bool \<times> 'w run_ctx" where
  "checkTimeout env ctx =
     (if rc_timedOut ctx then (True, ctx)
      else let (now, ctx1) = observe (env_clock env) ctx in
        if now \<ge> rc_deadline ctx1
        then (True, add_error ''Test timed out'' (ctx1\<lparr>rc_timedOut := True\<rparr>))
        else (False, ctx1))"

definition cancelled_or_timeout :: "'w environment \<Rightarrow> 'w run_ctx \<Rightarrow> bool \<times> 'w run_ctx" where
  "cancelled_or_timeout env ctx =
     (let (c, ctx1) = load_cancelled env ctx in if c then (True, ctx1) else checkTimeout env ctx1)"

definition stop_or_timeout :: "'w environment \<Rightarrow> bool \<Rightarrow> 'w run_ctx \<Rightarrow> bool \<times> 'w run_ctx" where
  "stop_or_timeout env b ctx =
     (if b then (True, ctx)
      else let (c, ctx1) = should_stop env ctx in if c then (True, ctx1) else checkTimeout env ctx1)"

text \<open>\<open>std::to_string\<close> of a double: six decimals.\<close>

definition round_half_even :: "rat \<Rightarrow> int" where
  "round_half_even v =
     (let q = \<lfloor>v\<rfloor>; r = v - of_int q
      in if r > 1 / 2 \<or> (r = 1 / 2 \<and> odd q) then q + 1 else q)"

definition to_string_double :: "rat \<Rightarrow> string" where
  "to_string_double v =
     (let m = round_half_even (\<bar>v\<bar> * 1000000)
      in (if v < 0 then ''-'' else []) @ to_string (m div 1000000) @ ''.'' @ pad_zeros 6 (to_string (m mod 1000000)))"

definition updateStatus :: "'w run_ctx \<Rightarrow> 'w run_ctx" where
  "updateStatus ctx =
     (let snap = rc_status ctx in
      publish ''test.progress''
        [(''progress'', to_string_double (ts_progress snap)),
         (''current_spec'', ts_currentSpec snap),
         (''current_scenario'', ts_currentScenario snap),
         (''current_step'', ts_currentStep snap),
         (''executed_scenarios'', to_string (ts_executedScenarios snap)),
         (''total_scenarios'', to_string (ts_totalScenarios snap)),
         (''passed_scenarios'', to_string (ts_passedScenarios snap)),
         (''failed_scenarios'', to_string (ts_failedScenarios snap))]
        (ctx\<lparr>rc_visible := snap\<rparr>))"

definition count_outcome :: "TestState \<Rightarrow> TestStatus \<Rightarrow> TestStatus" where
  "count_outcome st s =
     (case st of
        PASSED \<Rightarrow> s\<lparr>ts_passedScenarios := ts_passedScenarios s + 1, ts_executedScenarios := ts_executedScenarios s + 1\<rparr>
      | FAILED \<Rightarrow> s\<lparr>ts_failedScenarios := ts_failedScenarios s + 1, ts_executedScenarios := ts_executedScenarios s + 1\<rparr>
      | TEST_ERROR \<Rightarrow> s\<lparr>ts_failedScenarios := ts_failedScenarios s + 1, ts_executedScenarios := ts_executedScenarios s + 1\<rparr>
      | _ \<Rightarrow> s\<lparr>ts_skippedScenarios := ts_skippedScenarios s + 1\<rparr>)"

definition set_progress :: "TestStatus \<Rightarrow> TestStatus" where
  "set_progress s =
     (let processed = ts_executedScenarios s + ts_skippedScenarios s in
      if ts_totalScenarios s > 0
      then s\<lparr>ts_progress := min 1 (of_int processed / of_int (ts_totalScenarios s))\<rparr> else s)"

definition applyScenarioOutcome :: "ScenarioResult \<Rightarrow> 'w run_ctx \<Rightarrow> 'w run_ctx" where
  "applyScenarioOutcome sr ctx =
     (let ctx1 = set_status (\<lambda>s. set_progress (count_outcome (sc_state sr) s)) ctx;
          ctx2 = (if rq_failFast (rc_request ctx1) \<and> (sc_state sr = FAILED \<or> sc_state sr = TEST_ERROR)
                  then ctx1\<lparr>rc_failFast := True\<rparr> else ctx1)
      in updateStatus ctx2)"

section \<open>Arguments\<close>

definition csv_table :: "string \<Rightarrow> Table" where
  "csv_table content =
     (let lines = filter (\<lambda>t. t \<noteq> []) (map trim (split1 content CHR 0x0A));
          cells = map (\<lambda>t. map trim (split1 t CHR '','')) lines
      in case cells of [] \<Rightarrow> empty_table | h # rs \<Rightarrow> \<lparr>tb_headers = h, tb_rows = rs\<rparr>)"

definition arg_path :: "'w environment \<Rightarrow> string \<Rightarrow> string \<Rightarrow> string" where
  "arg_path env specDir path = (if env_isAbsolute env path then path else env_joinPath env specDir path)"

definition resolveArg :: "'w environment \<Rightarrow> (string, string) omap \<Rightarrow> string \<Rightarrow> StepArg \<Rightarrow> 'w run_ctx
    \<Rightarrow> StepArg \<times> 'w run_ctx" where
  "resolveArg env dataRow specDir a ctx =
     (case sa_type a of
        Dynamic \<Rightarrow> (case omap_get dataRow (sa_value a) of
            Some v \<Rightarrow> (a\<lparr>sa_type := Static, sa_value := v\<rparr>, ctx)
          | None \<Rightarrow> (a, ctx))
      | SpecialString \<Rightarrow>
          (let path = arg_path env specDir (sa_value a);
               (ex, ctx1) = observe (env_fileExists env path) ctx
           in if ex then (let (content, ctx2) = observe (env_readFile env path) ctx1
                          in (a\<lparr>sa_type := Static, sa_value := content\<rparr>, ctx2))
              else (a, ctx1))
      | SpecialTable \<Rightarrow>
          (let path = arg_path env specDir (sa_value a);
               (ex, ctx1) = observe (env_fileExists env path) ctx
           in if ex then (let (content, ctx2) = observe (env_readFile env path) ctx1
                          in (a\<lparr>sa_type := TableArg, sa_table := csv_table content\<rparr>, ctx2))
              else (a, ctx1))
      | _ \<Rightarrow> (a, ctx))"

fun resolveArgs :: "'w environment \<Rightarrow> (string, string) omap \<Rightarrow> string \<Rightarrow> StepArg list \<Rightarrow> 'w run_ctx
    \<Rightarrow> StepArg list \<times> 'w run_ctx" where
  "resolveArgs env dataRow specDir [] ctx = ([], ctx)"
| "resolveArgs env dataRow specDir (a # as) ctx =
     (let (a', ctx1) = resolveArg env dataRow specDir a ctx;
          (as', ctx2) = resolveArgs env dataRow specDir as ctx1
      in (a' # as', ctx2))"

end
