(* ===== verification/EngineSteps.thy ===== *)
theory EngineSteps
  imports EngineContext
begin

text \<open>
  \<open>ExecutionEngine::executeStep\<close> and \<open>executeScenario\<close>
  (\<open>src/src/engine/execution_engine.cpp\<close>). The retry loop of a step ends because every turn
  uses up one of at most \<open>1 + effectiveStepRetry\<close> attempts; concept steps recurse on the
  steps they contain.
\<close>

section \<open>One step\<close>

record attempt_state =
  at_attempts :: int
  at_state :: TestState
  at_errorMessage :: string
  at_stackTrace :: string
  at_messages :: "string list"
  at_duration :: seconds

definition first_attempt :: attempt_state where
  "first_attempt = \<lparr>at_attempts = 0, at_state = PASSED, at_errorMessage = [], at_stackTrace = [],
     at_messages = [], at_duration = 0\<rparr>"

definition ends_scenario :: "TestState \<Rightarrow> bool" where
  "ends_scenario st = (st = FAILED \<or> st = TEST_ERROR \<or> st = CANCELLED)"

definition trunc_int :: "rat \<Rightarrow> int" where
  "trunc_int v = (if v < 0 then \<lceil>v\<rceil> else \<lfloor>v\<rfloor>)"

text \<open>The step's timeout, shortened to what is left of the test's.\<close>

definition step_timeout :: "EngineConfig \<Rightarrow> seconds \<Rightarrow> int" where
  "step_timeout cfg left =
     (let remaining = trunc_int (left * 1000) in
      if remaining > 0 \<and> remaining < ec_stepTimeoutMs cfg then remaining else ec_stepTimeoutMs cfg)"

text \<open>One call of the runner: the attempt it makes.\<close>

definition run_attempt :: "'w environment \<Rightarrow> EngineConfig \<Rightarrow> StepExecutionRequest \<Rightarrow> attempt_state
    \<Rightarrow> 'w run_ctx \<Rightarrow> attempt_state \<times> 'w run_ctx" where
  "run_attempt env cfg req a ctx =
     (let (now, ctx1) = observe (env_clock env) ctx;
          req1 = req\<lparr>sq_timeoutMs := step_timeout cfg (rc_deadline ctx1 - now)\<rparr>;
          (attemptStart, ctx2) = observe (env_clock env) ctx1;
          (rr, ctx3) = observe (env_step env req1) ctx2;
          (d, ctx4) = (if sr_duration rr \<le> 0
                       then (let (later, c) = observe (env_clock env) ctx3 in (later - attemptStart, c))
                       else (sr_duration rr, ctx3))
      in (\<lparr>at_attempts = at_attempts a + 1, at_state = sr_state rr, at_errorMessage = sr_errorMessage rr,
           at_stackTrace = sr_stackTrace rr, at_messages = sr_messages rr, at_duration = at_duration a + d\<rparr>, ctx4))"

definition can_retry :: "'w environment \<Rightarrow> int \<Rightarrow> attempt_state \<Rightarrow> 'w run_ctx \<Rightarrow> bool \<times> 'w run_ctx" where
  "can_retry env maxRetries a ctx =
     (if at_state a = FAILED \<and> at_attempts a \<le> maxRetries
      then (let (c, ctx1) = load_cancelled env ctx in (\<not> c \<and> \<not> rc_timedOut ctx1, ctx1))
      else (False, ctx))"

definition stopped_attempt :: "'w environment \<Rightarrow> attempt_state \<Rightarrow> 'w run_ctx \<Rightarrow> attempt_state \<times> 'w run_ctx" where
  "stopped_attempt env a ctx =
     (if at_attempts a = 0
      then (let (c1, ctx1) = load_cancelled env ctx; (c2, ctx2) = load_cancelled env ctx1
            in (a\<lparr>at_attempts := 1, at_state := if c1 then CANCELLED else TEST_ERROR,
                  at_errorMessage := if c2 then ''Cancelled'' else ''Test timed out''\<rparr>, ctx2))
      else (a, ctx))"

function attempt_loop :: "'w environment \<Rightarrow> EngineConfig \<Rightarrow> StepExecutionRequest \<Rightarrow> int \<Rightarrow> attempt_state
    \<Rightarrow> 'w run_ctx \<Rightarrow> (attempt_state \<times> bool) \<times> 'w run_ctx" where
  "attempt_loop env cfg req maxRetries a ctx =
     (let (halted, ctx1) = cancelled_or_timeout env ctx in
      if halted then (let (a1, ctx2) = stopped_attempt env a ctx1 in ((a1, True), ctx2))
      else let (a1, ctx2) = run_attempt env cfg req a ctx1;
               (again, ctx3) = can_retry env maxRetries a1 ctx2
           in if again
              then attempt_loop env cfg req maxRetries a1
                     (publish ''step.retry''
                       [(''spec'', xc_specFile (sq_context req)), (''scenario'', xc_scenarioName (sq_context req)),
                        (''step'', sq_stepText req), (''attempt'', to_string (at_attempts a1)),
                        (''max_retries'', to_string maxRetries), (''error'', at_errorMessage a1)] ctx3)
              else ((a1, ends_scenario (at_state a1)), ctx3))"
  by pat_completeness auto
termination
proof (relation "measure (\<lambda>(env, cfg, req, m, a, ctx). nat (m + 1 - at_attempts a))")
  fix env :: "'w environment" and cfg req m a ctx and x :: "bool \<times> 'w run_ctx" and halted ctx1 y a1 ctx2 z again ctx3
  assume "(a1, ctx2) = y" "y = run_attempt env cfg req a ctx1"
    "(again, ctx3) = z" "z = can_retry env m a1 ctx2" "again"
  then have "at_attempts a1 = at_attempts a + 1" "at_attempts a1 \<le> m"
    by (auto simp: run_attempt_def can_retry_def Let_def split: prod.splits if_splits)
  then have "nat (m + 1 - at_attempts a1) < nat (m + 1 - at_attempts a)" by simp
  then show "((env, cfg, req, m, a1, c), env, cfg, req, m, a, ctx)
      \<in> measure (\<lambda>(env, cfg, req, m, a, ctx). nat (m + 1 - at_attempts a))" for c by simp
qed simp

declare attempt_loop.simps [simp del]

definition skipped_step :: "Step \<Rightarrow> StepResult" where
  "skipped_step s = StepResult (st_text s) (st_parameterizedText s) SKIPPED [] [] 0 1 [] [] False"

record concept_progress =
  cp_steps :: "StepResult list"
  cp_stop :: bool
  cp_state :: TestState
  cp_errorMessage :: string
  cp_stackTrace :: string

definition step_started :: "ExecutionContext \<Rightarrow> int \<Rightarrow> Step \<Rightarrow> 'w run_ctx \<Rightarrow> 'w run_ctx" where
  "step_started xc maxRetries step ctx =
     publish ''step.started''
       ([(''spec'', xc_specFile xc), (''scenario'', xc_scenarioName xc), (''step'', st_text step),
         (''parameterized_text'', st_parameterizedText step),
         (''is_concept'', if st_isConcept step then ''true'' else ''false'')]
        @ (if maxRetries > 0 then [(''max_retries'', to_string maxRetries)] else []))
       (set_status (\<lambda>s. s\<lparr>ts_currentStep := st_text step\<rparr>) ctx)"

definition step_completed :: "ExecutionContext \<Rightarrow> StepResult \<Rightarrow> 'w run_ctx \<Rightarrow> 'w run_ctx" where
  "step_completed xc r ctx =
     publish ''step.completed''
       ([(''spec'', xc_specFile xc), (''scenario'', xc_scenarioName xc), (''step'', sr_stepText r),
         (''state'', testStateToString (sr_state r)), (''duration'', to_string_double (sr_duration r)),
         (''attempts'', to_string (sr_attempts r))]
        @ (if sr_errorMessage r \<noteq> [] then [(''error'', sr_errorMessage r)] else []))
       ctx"

definition spec_dir :: "'w environment \<Rightarrow> string \<Rightarrow> string" where
  "spec_dir env specFile =
     (let d = env_getDirectoryPath env (env_toAbsoluteInside env specFile) in if d = [] then env_specsDir env else d)"

text \<open>A duration that was not measured (or not positive) is taken from the clock.\<close>

definition measured :: "'w environment \<Rightarrow> seconds \<Rightarrow> seconds \<Rightarrow> 'w run_ctx \<Rightarrow> seconds \<times> 'w run_ctx" where
  "measured env start d ctx =
     (if d \<le> 0 then (let (later, ctx1) = observe (env_clock env) ctx in (later - start, ctx1)) else (d, ctx))"

definition run_plain_step :: "'w environment \<Rightarrow> EngineConfig \<Rightarrow> ExecutionContext \<Rightarrow> (string, string) omap \<Rightarrow> int
    \<Rightarrow> Step \<Rightarrow> 'w run_ctx \<Rightarrow> (attempt_state \<times> bool) \<times> 'w run_ctx" where
  "run_plain_step env cfg xc dataRow maxRetries step ctx =
     (let (args, ctx1) = resolveArgs env dataRow (spec_dir env (xc_specFile xc)) (st_args step) ctx
      in attempt_loop env cfg
           \<lparr>sq_stepText = st_text step, sq_parameterizedText = st_parameterizedText step, sq_args = args,
            sq_context = xc, sq_timeoutMs = 60000\<rparr> maxRetries first_attempt ctx1)"

fun executeStep :: "'w environment \<Rightarrow> EngineConfig \<Rightarrow> ExecutionContext \<Rightarrow> (string, string) omap \<Rightarrow> Step
      \<Rightarrow> 'w run_ctx \<Rightarrow> (StepResult \<times> bool) \<times> 'w run_ctx"
and concept_loop :: "'w environment \<Rightarrow> EngineConfig \<Rightarrow> ExecutionContext \<Rightarrow> (string, string) omap \<Rightarrow> Step list
      \<Rightarrow> concept_progress \<Rightarrow> 'w run_ctx \<Rightarrow> concept_progress \<times> 'w run_ctx"
where
  "executeStep env cfg xc dataRow (Step txt ptext args line isConcept inner) ctx =
     (let step = Step txt ptext args line isConcept inner;
          maxRetries = effectiveStepRetry (rc_request ctx) (xc_tags xc);
          ctx0 = step_started xc maxRetries step ctx;
          (start, ctx1) = observe (env_clock env) ctx0;
          ((result, stop), ctx2) =
            (if isConcept
             then (let (p, c) = concept_loop env cfg xc dataRow inner
                        \<lparr>cp_steps = [], cp_stop = False, cp_state = PASSED, cp_errorMessage = [], cp_stackTrace = []\<rparr> ctx1
                   in ((StepResult txt ptext (cp_state p) (cp_errorMessage p) (cp_stackTrace p) 0 1 []
                          (cp_steps p) True, cp_stop p), c))
             else (let ((a, st), c) = run_plain_step env cfg xc dataRow maxRetries step ctx1
                   in ((StepResult txt ptext (at_state a) (at_errorMessage a) (at_stackTrace a) (at_duration a)
                          (at_attempts a) (at_messages a) [] False, st), c)));
          (d, ctx3) = measured env start (sr_duration result) ctx2;
          result1 = StepResult txt ptext (sr_state result) (sr_errorMessage result) (sr_stackTrace result) d
                      (sr_attempts result) (sr_messages result) (sr_conceptSteps result) (sr_isConcept result)
      in ((result1, stop), step_completed xc result1 ctx3))"
| "concept_loop env cfg xc dataRow [] p ctx = (p, ctx)"
| "concept_loop env cfg xc dataRow (s # ss) p ctx =
     (let (skip, ctx1) = (if cp_stop p then (True, ctx) else load_cancelled env ctx) in
      if skip then concept_loop env cfg xc dataRow ss (p\<lparr>cp_steps := cp_steps p @ [skipped_step s]\<rparr>) ctx1
      else let ((ir, innerStop), ctx2) = executeStep env cfg xc dataRow s ctx1;
               p1 = p\<lparr>cp_steps := cp_steps p @ [ir]\<rparr>;
               p2 = (if innerStop
                     then p1\<lparr>cp_stop := True, cp_state := sr_state ir, cp_errorMessage := sr_errorMessage ir,
                             cp_stackTrace := sr_stackTrace ir\<rparr>
                     else p1)
           in concept_loop env cfg xc dataRow ss p2 ctx2)"

section \<open>One scenario\<close>

text \<open>The part of the scenario's result that \<open>runSteps\<close> writes.\<close>

record scenario_progress =
  pg_state :: TestState
  pg_errorMessage :: string

definition note_stop :: "StepResult \<Rightarrow> scenario_progress \<Rightarrow> scenario_progress" where
  "note_stop sr p =
     \<lparr>pg_state = (if sr_state sr = TEST_ERROR then TEST_ERROR
                  else if pg_state p \<noteq> TEST_ERROR then FAILED else pg_state p),
      pg_errorMessage = (if pg_errorMessage p = [] then sr_errorMessage sr else pg_errorMessage p)\<rparr>"

fun runSteps :: "'w environment \<Rightarrow> EngineConfig \<Rightarrow> ExecutionContext \<Rightarrow> (string, string) omap \<Rightarrow> Step list
    \<Rightarrow> StepResult list \<Rightarrow> bool \<Rightarrow> scenario_progress \<Rightarrow> 'w run_ctx
    \<Rightarrow> (StepResult list \<times> bool \<times> scenario_progress) \<times> 'w run_ctx" where
  "runSteps env cfg xc dataRow [] outs stopFlag p ctx = ((outs, stopFlag, p), ctx)"
| "runSteps env cfg xc dataRow (s # ss) outs stopFlag p ctx =
     (let (skip, ctx1) = (if stopFlag then (True, ctx) else cancelled_or_timeout env ctx) in
      if skip then runSteps env cfg xc dataRow ss (outs @ [skipped_step s]) stopFlag p ctx1
      else let ((sr, stopScenario), ctx2) = executeStep env cfg xc dataRow s ctx1 in
        if stopScenario
        then runSteps env cfg xc dataRow ss (outs @ [sr]) True (note_stop sr p) ctx2
        else runSteps env cfg xc dataRow ss (outs @ [sr]) stopFlag p ctx2)"

definition data_row :: "Specification \<Rightarrow> int \<Rightarrow> (string, string) omap" where
  "data_row sp row =
     (if row \<ge> 0
      then foldl (\<lambda>m h. omap_put h (cell (sf_dataTable sp) (nat row) h) m) [] (tb_headers (sf_dataTable sp))
      else [])"

definition scenario_event :: "Specification \<Rightarrow> Scenario \<Rightarrow> string list \<Rightarrow> int \<Rightarrow> int \<Rightarrow> (string \<times> string) list" where
  "scenario_event sp sc tags stream row =
     [(''spec'', sf_fileName sp), (''scenario'', sn_name sc), (''tags'', joinTags tags),
      (''steps'', dec_of_nat (length (sn_steps sc)))]
     @ (if stream \<ge> 0 then [(''stream'', to_string stream)] else [])
     @ (if row \<ge> 0 then [(''data_row'', to_string row)] else [])"

definition any_skipped :: "StepResult list \<Rightarrow> bool" where
  "any_skipped rs = list_ex (\<lambda>s. sr_state s = SKIPPED) rs"

text \<open>The state once all steps and hooks have run, given the last look at the cancel flag.\<close>

definition interrupted :: "bool \<Rightarrow> bool \<Rightarrow> Step list \<Rightarrow> StepResult list \<Rightarrow> scenario_progress \<Rightarrow> scenario_progress" where
  "interrupted cancelled timedOut steps results p =
     (if cancelled \<and> pg_state p = PASSED
      then (if any_skipped results \<or> steps = [] then p\<lparr>pg_state := CANCELLED\<rparr> else p)
      else if timedOut \<and> pg_state p = PASSED
      then (if any_skipped results then p\<lparr>pg_state := TEST_ERROR, pg_errorMessage := ''Test timed out''\<rparr> else p)
      else p)"

definition before_scenario_outcome :: "HookResult \<Rightarrow> scenario_progress" where
  "before_scenario_outcome h =
     (if hr_success h then \<lparr>pg_state = PASSED, pg_errorMessage = []\<rparr>
      else \<lparr>pg_state = TEST_ERROR, pg_errorMessage = ''before_scenario hook failed: '' @ hr_errorMessage h\<rparr>)"

definition after_scenario_outcome :: "HookResult \<Rightarrow> scenario_progress \<Rightarrow> scenario_progress" where
  "after_scenario_outcome h p =
     (if \<not> hr_success h \<and> pg_state p = PASSED
      then \<lparr>pg_state = FAILED, pg_errorMessage = ''after_scenario hook failed: '' @ hr_errorMessage h\<rparr> else p)"

text \<open>The contexts, the steps and the teardown steps of a scenario, after its hook.\<close>

definition scenario_steps :: "'w environment \<Rightarrow> EngineConfig \<Rightarrow> ExecutionContext \<Rightarrow> Specification \<Rightarrow> Scenario
    \<Rightarrow> HookResult \<Rightarrow> 'w run_ctx
    \<Rightarrow> ((StepResult list \<times> StepResult list \<times> StepResult list) \<times> scenario_progress) \<times> 'w run_ctx" where
  "scenario_steps env cfg xc sp sc first ctx =
     (let ((contexts, stop1, p1), ctx1) =
             runSteps env cfg xc (xc_dataRow xc) (sf_contexts sp) [] (\<not> hr_success first) (before_scenario_outcome first) ctx;
          ((steps, stop2, p2), ctx2) = runSteps env cfg xc (xc_dataRow xc) (sn_steps sc) [] stop1 p1 ctx1;
          ((teardowns, teardownStop, p3), ctx3) = runSteps env cfg xc (xc_dataRow xc) (sf_teardowns sp) [] False p2 ctx2;
          p4 = (if teardownStop \<and> pg_state p3 = PASSED then p3\<lparr>pg_state := FAILED\<rparr> else p3)
      in (((contexts, steps, teardowns), p4), ctx3))"

definition executeScenario :: "'w environment \<Rightarrow> EngineConfig \<Rightarrow> int \<Rightarrow> Specification \<Rightarrow> Scenario \<Rightarrow> int
    \<Rightarrow> 'w run_ctx \<Rightarrow> ScenarioResult \<times> 'w run_ctx" where
  "executeScenario env cfg stream sp sc dataRowIndex ctx =
     (let tags = effectiveTags sp sc;
          dataRow = data_row sp dataRowIndex;
          event = scenario_event sp sc tags stream dataRowIndex;
          (start, ctx1) = observe (env_clock env) ctx;
          ctx2 = publish ''scenario.started'' event ctx1;
          xc = \<lparr>xc_testId = rc_testId ctx, xc_specFile = sf_fileName sp, xc_specName = sf_heading sp,
                xc_scenarioName = sn_name sc, xc_tags = tags, xc_dataRow = dataRow,
                xc_environment = ec_environment cfg\<rparr>;
          (first, ctx3) = observe (env_hook env BeforeScenario xc) ctx2;
          (((contexts, steps, teardowns), p4), ctx6) = scenario_steps env cfg xc sp sc first ctx3;
          (last_hook, ctx7) = observe (env_hook env AfterScenario xc) ctx6;
          p5 = after_scenario_outcome last_hook p4;
          (cancelled, ctx8) = load_cancelled env ctx7;
          p6 = interrupted cancelled (rc_timedOut ctx8) (sn_steps sc) steps p5;
          (finish, ctx9) = observe (env_clock env) ctx8;
          result = \<lparr>sc_scenarioName = sn_name sc, sc_tags = tags, sc_state = pg_state p6,
                    sc_contextSteps = contexts, sc_stepResults = steps, sc_teardownSteps = teardowns,
                    sc_errorMessage = pg_errorMessage p6, sc_duration = finish - start,
                    sc_dataRowIndex = dataRowIndex, sc_dataRow = dataRow, sc_lineNumber = sn_lineNumber sc\<rparr>
      in (result, publish ''scenario.completed''
            (event @ [(''state'', testStateToString (sc_state result)), (''duration'', to_string_double (sc_duration result))]
             @ (if sc_errorMessage result \<noteq> [] then [(''error'', sc_errorMessage result)] else [])) ctx9))"

end
