(* ===== verification/EngineStepFacts.thy ===== *)
theory EngineStepFacts
  imports EngineSteps
begin

text \<open>
  What holds of the execution of a step and of a scenario
  (\<open>src/src/engine/execution_engine.cpp\<close>) in every environment: bounds on attempts, when a
  scenario stops, and that a scenario never passes over a failed step.
\<close>

section \<open>What a step or scenario leaves alone\<close>

definition counters :: "TestStatus \<Rightarrow> int \<times> int \<times> int \<times> int \<times> int" where
  "counters s = (ts_totalScenarios s, ts_executedScenarios s, ts_passedScenarios s, ts_failedScenarios s,
     ts_skippedScenarios s)"

definition frame :: "'w run_ctx \<Rightarrow> 'w run_ctx \<Rightarrow> bool" where
  "frame c c' = (rc_testId c' = rc_testId c \<and> rc_request c' = rc_request c \<and> rc_deadline c' = rc_deadline c \<and>
     rc_tagFilter c' = rc_tagFilter c \<and> rc_failFast c' = rc_failFast c \<and> (rc_timedOut c \<longrightarrow> rc_timedOut c') \<and>
     counters (rc_status c') = counters (rc_status c) \<and>
     tr_specResults (rc_result c') = tr_specResults (rc_result c))"

named_theorems frame_intros \<open>operations that only change what a step may change\<close>

lemma frame_refl [simp, intro]: "frame c c"
  by (simp add: frame_def)

lemma frame_trans: "frame a b \<Longrightarrow> frame b c \<Longrightarrow> frame a c"
  by (auto simp: frame_def)

lemma frame_request: "frame c c' \<Longrightarrow> rc_request c' = rc_request c"
  by (simp add: frame_def)

lemma frame_publish [simp]: "frame c (publish t d c') \<longleftrightarrow> frame c c'"
  by (simp add: frame_def publish_def)

text \<open>
  Threading the context: \<open>keeps c x\<close> says that a result paired with a context changed no more
  than that. Its rules follow the shape of the definitions.
\<close>

definition keeps :: "'w run_ctx \<Rightarrow> 'a \<times> 'w run_ctx \<Rightarrow> bool" where
  "keeps c x = frame c (snd x)"

lemma keepsD: "keeps c x \<Longrightarrow> x = (a, c') \<Longrightarrow> frame c c'"
  by (simp add: keeps_def)

lemma keeps_Pair [intro]: "frame c c1 \<Longrightarrow> keeps c (a, c1)"
  by (simp add: keeps_def)

lemma keeps_case_ctx:
  "keeps c x \<Longrightarrow> (\<And>a c1. frame c c1 \<Longrightarrow> keeps c (g a c1)) \<Longrightarrow> keeps c (case x of (a, c1) \<Rightarrow> g a c1)"
  by (cases x) (simp add: keeps_def)

lemma keeps_case_pair: "(\<And>a b. keeps c (g a b)) \<Longrightarrow> keeps c (case p of (a, b) \<Rightarrow> g a b)"
  by (simp split: prod.splits)

lemma keeps_if: "(b \<Longrightarrow> keeps c x) \<Longrightarrow> (\<not> b \<Longrightarrow> keeps c y) \<Longrightarrow> keeps c (if b then x else y)"
  by simp

lemma keeps_option:
  "keeps c x \<Longrightarrow> (\<And>v. keeps c (y v)) \<Longrightarrow> keeps c (case ov of None \<Rightarrow> x | Some v \<Rightarrow> y v)"
  by (simp split: option.splits)

lemma keeps_observe: "frame c c1 \<Longrightarrow> keeps c (observe f c1)"
  by (auto simp: keeps_def observe_def frame_def Let_def split: prod.splits)

lemmas keeps_basic = keeps_Pair keeps_case_ctx keeps_case_pair keeps_if keeps_option keeps_observe

lemma frame_timeout: "frame c c1 \<Longrightarrow> frame c (add_error m (c1\<lparr>rc_timedOut := True\<rparr>))"
  by (simp add: frame_def add_error_def)

lemma keeps_load: "frame c c1 \<Longrightarrow> keeps c (load_cancelled env c1)"
  unfolding load_cancelled_def by (rule keeps_observe)

lemma keeps_checkTimeout: "frame c c1 \<Longrightarrow> keeps c (checkTimeout env c1)"
  unfolding checkTimeout_def Let_def by (intro keeps_basic frame_timeout) assumption+

lemma keeps_should_stop: "frame c c1 \<Longrightarrow> keeps c (should_stop env c1)"
  unfolding should_stop_def Let_def by (intro keeps_basic keeps_load) assumption+

lemma keeps_cancelled_or_timeout: "frame c c1 \<Longrightarrow> keeps c (cancelled_or_timeout env c1)"
  unfolding cancelled_or_timeout_def Let_def by (intro keeps_basic keeps_load keeps_checkTimeout) assumption+

lemma keeps_stop_or_timeout: "frame c c1 \<Longrightarrow> keeps c (stop_or_timeout env b c1)"
  unfolding stop_or_timeout_def Let_def by (intro keeps_basic keeps_should_stop keeps_checkTimeout) assumption+

lemmas keeps_reads = keeps_load keeps_checkTimeout keeps_should_stop keeps_cancelled_or_timeout keeps_stop_or_timeout

lemma keeps_resolveArg: "frame c c1 \<Longrightarrow> keeps c (resolveArg env row dir a c1)"
  unfolding resolveArg_def Let_def by (cases "sa_type a"; simp only: ArgType.case; intro keeps_basic) assumption+

lemma keeps_resolveArgs: "frame c c1 \<Longrightarrow> keeps c (resolveArgs env row dir as c1)"
proof (induction as arbitrary: c1)
  case (Cons a as)
  then show ?case
    unfolding resolveArgs.simps Let_def by (intro keeps_basic keeps_resolveArg) assumption+
qed auto

lemma keeps_measured: "frame c c1 \<Longrightarrow> keeps c (measured env s d c1)"
  unfolding measured_def Let_def by (intro keeps_basic) assumption+

section \<open>The retry loop\<close>

lemma keeps_run_attempt: "frame c c1 \<Longrightarrow> keeps c (run_attempt env cfg req a c1)"
  unfolding run_attempt_def Let_def by (intro keeps_basic) assumption+

lemma run_attempt_attempts: "run_attempt env cfg req a c = (a', c') \<Longrightarrow> at_attempts a' = at_attempts a + 1"
  by (auto simp: run_attempt_def Let_def split: prod.splits)

lemma keeps_can_retry: "frame c c1 \<Longrightarrow> keeps c (can_retry env m a c1)"
  unfolding can_retry_def Let_def by (intro keeps_basic keeps_load) assumption+

lemma can_retry_True: "can_retry env m a c = (True, c') \<Longrightarrow> at_state a = FAILED \<and> at_attempts a \<le> m"
  by (auto simp: can_retry_def split: if_splits)

lemma keeps_stopped_attempt: "frame c c1 \<Longrightarrow> keeps c (stopped_attempt env a c1)"
  unfolding stopped_attempt_def Let_def by (intro keeps_basic keeps_load) assumption+

lemma stopped_attempt_facts:
  "stopped_attempt env a c = (a', c') \<Longrightarrow> at_attempts a = 0 \<Longrightarrow> at_attempts a' = 1 \<and> at_state a' \<in> {CANCELLED, TEST_ERROR}"
  "stopped_attempt env a c = (a', c') \<Longrightarrow> at_attempts a \<noteq> 0 \<Longrightarrow> a' = a"
  by (auto simp: stopped_attempt_def Let_def split: prod.splits if_splits)

text \<open>
  What one run of the loop gives: a bounded number of attempts, a stop exactly when the state
  ends the scenario, and a failure with attempts to spare only when the run was interrupted.
\<close>

lemma attempt_loop_facts:
  assumes "0 \<le> at_attempts a" "at_attempts a \<le> m" "0 < at_attempts a \<longrightarrow> at_state a = FAILED"
    and "attempt_loop env cfg req m a c = ((a', stop), c')"
  shows "1 \<le> at_attempts a' \<and> at_attempts a' \<le> m + 1 \<and> (stop \<longleftrightarrow> ends_scenario (at_state a')) \<and> frame c c'"
  using assms
proof (induction env cfg req m a c rule: attempt_loop.induct)
  case (1 env cfg req m a c)
  obtain halted c1 where h: "cancelled_or_timeout env c = (halted, c1)" by (cases "cancelled_or_timeout env c")
  have f1: "frame c c1" using keepsD [OF keeps_cancelled_or_timeout [OF frame_refl] h] .
  obtain s1 cs where s: "stopped_attempt env a c1 = (s1, cs)" by (cases "stopped_attempt env a c1")
  obtain a1 c2 where r: "run_attempt env cfg req a c1 = (a1, c2)" by (cases "run_attempt env cfg req a c1")
  obtain again c3 where t: "can_retry env m a1 c2 = (again, c3)" by (cases "can_retry env m a1 c2")
  have f2: "frame c c2" using keepsD [OF keeps_run_attempt [OF f1] r] .
  have f3: "frame c c3" using keepsD [OF keeps_can_retry [OF f2] t] .
  have att: "at_attempts a1 = at_attempts a + 1" using r by (rule run_attempt_attempts)
  show ?case
  proof (cases halted)
    case True
    then have res: "a' = s1" "stop" "c' = cs"
      using "1.prems"(4) by (auto simp: attempt_loop.simps [of env] h s)
    show ?thesis
      using stopped_attempt_facts [OF s] "1.prems"(1-3) keepsD [OF keeps_stopped_attempt [OF f1] s] res
      by (cases "at_attempts a = 0") (auto simp: ends_scenario_def)
  next
    case go: False
    show ?thesis
    proof (cases again)
      case True
      let ?c = "publish ''step.retry'' [(''spec'', xc_specFile (sq_context req)), (''scenario'', xc_scenarioName (sq_context req)),
          (''step'', sq_stepText req), (''attempt'', to_string (at_attempts a1)),
          (''max_retries'', to_string m), (''error'', at_errorMessage a1)] c3"
      have "attempt_loop env cfg req m a1 ?c = ((a', stop), c')"
        using "1.prems"(4) go True by (simp add: attempt_loop.simps [of env cfg req m a] h r t)
      then have "1 \<le> at_attempts a' \<and> at_attempts a' \<le> m + 1 \<and> (stop \<longleftrightarrow> ends_scenario (at_state a')) \<and> frame ?c c'"
        using "1.IH" [OF h [symmetric] refl go r [symmetric] refl t [symmetric] refl True]
          can_retry_True [of env m a1 c2 c3] t True att "1.prems"(1) by simp
      with f3 show ?thesis by (meson frame_publish frame_trans)
    next
      case False
      with "1.prems" go att f3 show ?thesis
        by (auto simp: attempt_loop.simps [of env cfg req m a] h r t)
    qed
  qed
qed

section \<open>One step\<close>

text \<open>No step of this result, at any level, ended in failure, error or cancellation.\<close>

fun clean :: "StepResult \<Rightarrow> bool" where
  "clean (StepResult t p st e tr d n ms inner c) = (\<not> ends_scenario st \<and> (\<forall>r \<in> set inner. clean r))"

text \<open>No step of this result, at any level, was executed more than \<open>n\<close> times, or less than once.\<close>

fun attempts_within :: "int \<Rightarrow> StepResult \<Rightarrow> bool" where
  "attempts_within n (StepResult t p st e tr d k ms inner c) =
     (1 \<le> k \<and> k \<le> n \<and> (\<forall>r \<in> set inner. attempts_within n r))"

lemma clean_skipped [simp]: "clean (skipped_step s)"
  by (simp add: skipped_step_def ends_scenario_def)

lemma attempts_skipped [simp]: "1 \<le> n \<Longrightarrow> attempts_within n (skipped_step s)"
  by (simp add: skipped_step_def)

lemma effectiveStepRetry_range: "0 \<le> effectiveStepRetry rq tags \<and> effectiveStepRetry rq tags \<le> kMaxStepRetry"
  unfolding effectiveStepRetry_def kMaxStepRetry_def Let_def by (auto simp: max_def)

definition step_result_ok :: "TestRequest \<Rightarrow> ExecutionContext \<Rightarrow> StepResult \<Rightarrow> bool \<Rightarrow> bool" where
  "step_result_ok rq xc r stop =
     (attempts_within (1 + effectiveStepRetry rq (xc_tags xc)) r \<and> (stop \<longleftrightarrow> ends_scenario (sr_state r)) \<and>
      (\<not> stop \<longrightarrow> clean r))"

definition concept_ok :: "TestRequest \<Rightarrow> ExecutionContext \<Rightarrow> concept_progress \<Rightarrow> bool" where
  "concept_ok rq xc p =
     ((\<forall>r \<in> set (cp_steps p). attempts_within (1 + effectiveStepRetry rq (xc_tags xc)) r) \<and>
      (cp_stop p \<longleftrightarrow> ends_scenario (cp_state p)) \<and> (\<not> cp_stop p \<longrightarrow> (\<forall>r \<in> set (cp_steps p). clean r)))"

lemma keeps_run_plain_step:
  assumes "run_plain_step env cfg xc row (effectiveStepRetry (rc_request c) (xc_tags xc)) s c1 = ((a, stop), c')"
    and "frame c c1"
  shows "frame c c' \<and> 1 \<le> at_attempts a \<and> at_attempts a \<le> 1 + effectiveStepRetry (rc_request c) (xc_tags xc) \<and>
    (stop \<longleftrightarrow> ends_scenario (at_state a))"
proof -
  obtain args c2 where r: "resolveArgs env row (spec_dir env (xc_specFile xc)) (st_args s) c1 = (args, c2)"
    by (cases "resolveArgs env row (spec_dir env (xc_specFile xc)) (st_args s) c1")
  have "frame c c2" using keepsD [OF keeps_resolveArgs [OF assms(2)] r] .
  moreover from assms(1) r have "attempt_loop env cfg
       \<lparr>sq_stepText = st_text s, sq_parameterizedText = st_parameterizedText s, sq_args = args,
        sq_context = xc, sq_timeoutMs = 60000\<rparr> (effectiveStepRetry (rc_request c) (xc_tags xc)) first_attempt c2
      = ((a, stop), c')"
    by (simp add: run_plain_step_def)
  ultimately show ?thesis
    using attempt_loop_facts [of first_attempt "effectiveStepRetry (rc_request c) (xc_tags xc)" env cfg _ c2 a stop c']
      effectiveStepRetry_range [of "rc_request c" "xc_tags xc"]
    by (auto simp: first_attempt_def add.commute intro: frame_trans)
qed

lemma frame_step_started [simp]: "frame c (step_started xc m s c1) \<longleftrightarrow> frame c c1"
  by (simp add: step_started_def set_status_def frame_def publish_def counters_def)

lemma frame_step_completed [simp]: "frame c (step_completed xc r c1) \<longleftrightarrow> frame c c1"
  by (simp add: step_completed_def)

lemma executeStep_concept_loop:
  "executeStep env cfg xc row s c = ((r, stop), c') \<Longrightarrow>
     frame c c' \<and> step_result_ok (rc_request c) xc r stop"
  "concept_ok (rc_request c) xc p \<Longrightarrow> concept_loop env cfg xc row ss p c = (p', c') \<Longrightarrow>
     frame c c' \<and> concept_ok (rc_request c) xc p'"
proof (induction env cfg xc row s c and env cfg xc row ss p c
    arbitrary: r stop c' and p' c' rule: executeStep_concept_loop.induct)
  case (1 env cfg xc row tx ptext args line isConcept inner c)
  let ?s = "Step tx ptext args line isConcept inner" and ?m = "effectiveStepRetry (rc_request c) (xc_tags xc)"
  let ?c0 = "step_started xc ?m ?s c"
  let ?p0 = "\<lparr>cp_steps = [], cp_stop = False, cp_state = PASSED, cp_errorMessage = [], cp_stackTrace = []\<rparr>"
  obtain start c1 where clk: "observe (env_clock env) ?c0 = (start, c1)" by (cases "observe (env_clock env) ?c0")
  have f1: "frame c c1" using keepsD [OF keeps_observe clk, of c] by simp
  then have rq: "rc_request c1 = rc_request c" by (rule frame_request)
  show ?case
  proof (cases isConcept)
    case True
    obtain p c2 where cl: "concept_loop env cfg xc row inner ?p0 c1 = (p, c2)"
      by (cases "concept_loop env cfg xc row inner ?p0 c1")
    have "concept_ok (rc_request c1) xc ?p0" by (simp add: concept_ok_def ends_scenario_def)
    from "1.IH" [OF refl refl refl clk [symmetric] refl True this cl]
    have p: "frame c1 c2" "concept_ok (rc_request c) xc p" by (simp_all add: rq)
    have f2: "frame c c2" using f1 p(1) by (rule frame_trans)
    obtain d c3 where m: "measured env start 0 c2 = (d, c3)" by (cases "measured env start 0 c2")
    have f3: "frame c c3" using keepsD [OF keeps_measured [OF f2] m] .
    from "1.prems" True clk cl m have "r = StepResult tx ptext (cp_state p) (cp_errorMessage p) (cp_stackTrace p) d 1 []
        (cp_steps p) True" "stop = cp_stop p" "frame c c' = frame c c3"
      by (auto simp: Let_def)
    with p(2) f3 effectiveStepRetry_range [of "rc_request c" "xc_tags xc"] show ?thesis
      by (auto simp: step_result_ok_def concept_ok_def)
  next
    case False
    obtain a st c2 where rp: "run_plain_step env cfg xc row ?m ?s c1 = ((a, st), c2)"
      by (metis surj_pair)
    note a = keeps_run_plain_step [OF rp f1]
    obtain d c3 where m: "measured env start (at_duration a) c2 = (d, c3)" by (cases "measured env start (at_duration a) c2")
    have f3: "frame c c3" using keepsD [OF keeps_measured m] a by blast
    from "1.prems" False clk rp m have "r = StepResult tx ptext (at_state a) (at_errorMessage a) (at_stackTrace a) d
        (at_attempts a) (at_messages a) [] False" "stop = st" "frame c c' = frame c c3"
      by (auto simp: Let_def)
    with a f3 show ?thesis by (auto simp: step_result_ok_def)
  qed
next
  case (2 env cfg xc row p c)
  then show ?case by simp
next
  case (3 env cfg xc row s ss p c)
  obtain skip c1 where sk: "(if cp_stop p then (True, c) else load_cancelled env c) = (skip, c1)"
    by (cases "if cp_stop p then (True, c) else load_cancelled env c")
  have f1: "frame c c1" using sk keepsD [OF keeps_load [OF frame_refl], of env c] by (auto split: if_splits)
  then have rq: "rc_request c1 = rc_request c" by (rule frame_request)
  show ?case
  proof (cases skip)
    case True
    have "concept_ok (rc_request c1) xc (p\<lparr>cp_steps := cp_steps p @ [skipped_step s]\<rparr>)"
      using "3.prems"(1) effectiveStepRetry_range [of "rc_request c" "xc_tags xc"] by (auto simp: concept_ok_def rq)
    from "3.IH"(1) [OF sk [symmetric] refl True this] "3.prems"(2) sk True
    show ?thesis using f1 rq by (auto simp: Let_def intro: frame_trans)
  next
    case False
    obtain ir innerStop c2 where ex: "executeStep env cfg xc row s c1 = ((ir, innerStop), c2)" by (metis surj_pair)
    from "3.IH"(2) [OF sk [symmetric] refl False ex]
    have ir: "frame c1 c2" "step_result_ok (rc_request c) xc ir innerStop" by (simp_all add: rq)
    have f2: "frame c c2" using f1 ir(1) by (rule frame_trans)
    then have rq2: "rc_request c2 = rc_request c" by (rule frame_request)
    have nostop: "\<not> cp_stop p" using sk False by (auto split: if_splits)
    let ?p1 = "p\<lparr>cp_steps := cp_steps p @ [ir]\<rparr>"
    let ?p2 = "if innerStop then ?p1\<lparr>cp_stop := True, cp_state := sr_state ir, cp_errorMessage := sr_errorMessage ir,
        cp_stackTrace := sr_stackTrace ir\<rparr> else ?p1"
    have ok: "concept_ok (rc_request c2) xc ?p2"
      using "3.prems"(1) ir(2) nostop by (auto simp: concept_ok_def step_result_ok_def rq2)
    have "concept_loop env cfg xc row ss ?p2 c2 = (p', c')"
      using "3.prems"(2) sk False ex by (simp add: Let_def)
    from "3.IH"(3) [OF sk [symmetric] refl False ex [symmetric] refl refl refl refl ok this]
    show ?thesis using f2 rq2 by (auto intro: frame_trans)
  qed
qed

text \<open>
  C10. Whatever the runner and the other threads do, a step and every step inside a concept is
  attempted at least once and at most once more than the effective number of retries, which
  is at most five; the step stops its scenario exactly when it ends failed, in error or
  cancelled; and when it does not stop the scenario, no step inside it ended that way.
\<close>

theorem executeStep_attempts:
  "case executeStep env cfg xc row s c of ((r, stop), c') \<Rightarrow>
     attempts_within (1 + effectiveStepRetry (rc_request c) (xc_tags xc)) r \<and>
     effectiveStepRetry (rc_request c) (xc_tags xc) \<le> 5 \<and>
     stop = ends_scenario (sr_state r) \<and> (stop \<or> clean r)"
proof -
  obtain r stop c' where e: "executeStep env cfg xc row s c = ((r, stop), c')" by (metis surj_pair)
  show ?thesis
    using executeStep_concept_loop(1) [OF e] effectiveStepRetry_range [of "rc_request c" "xc_tags xc"]
    by (auto simp: e step_result_ok_def kMaxStepRetry_def)
qed

section \<open>A list of steps\<close>

lemma executeStep_text: "executeStep env cfg xc row s c = ((r, stop), c') \<Longrightarrow> sr_stepText r = st_text s"
  by (cases s) (auto simp: Let_def split: prod.splits if_splits)

lemma skipped_step_text [simp]: "sr_stepText (skipped_step s) = st_text s" "sr_state (skipped_step s) = SKIPPED"
  by (simp_all add: skipped_step_def)

lemma ends_scenario_simps [simp]:
  "ends_scenario FAILED" "ends_scenario TEST_ERROR" "ends_scenario CANCELLED"
  "\<not> ends_scenario PASSED" "\<not> ends_scenario SKIPPED"
  by (simp_all add: ends_scenario_def)

text \<open>Once a step has ended the scenario, the ones after it are skipped.\<close>

fun skips_after_stop :: "bool \<Rightarrow> StepResult list \<Rightarrow> bool" where
  "skips_after_stop b [] = True"
| "skips_after_stop b (r # rs) =
     ((\<not> b \<or> sr_state r = SKIPPED) \<and> skips_after_stop (b \<or> ends_scenario (sr_state r)) rs)"

definition some_end :: "StepResult list \<Rightarrow> bool" where
  "some_end rs = list_ex (\<lambda>r. ends_scenario (sr_state r)) rs"

lemma some_end_simps [simp]:
  "some_end [] = False" "some_end (r # rs) = (ends_scenario (sr_state r) \<or> some_end rs)"
  by (simp_all add: some_end_def)

text \<open>What a list of results says of the run of its steps.\<close>

definition steps_ok :: "bool \<Rightarrow> Step list \<Rightarrow> StepResult list \<Rightarrow> bool" where
  "steps_ok stop ss rs =
     (map sr_stepText rs = map st_text ss \<and> skips_after_stop stop rs \<and>
      (\<forall>r \<in> set rs. ends_scenario (sr_state r) \<or> clean r))"

text \<open>How the scenario's state follows from the results it had to take into account.\<close>

definition state_after :: "TestState \<Rightarrow> StepResult list \<Rightarrow> TestState" where
  "state_after st rs =
     (if st = TEST_ERROR \<or> (\<exists>r \<in> set rs. sr_state r = TEST_ERROR) then TEST_ERROR
      else if some_end rs then FAILED else st)"

lemma steps_ok_Cons:
  "steps_ok stop (s # ss) (r # rs) \<longleftrightarrow> sr_stepText r = st_text s \<and> (\<not> stop \<or> sr_state r = SKIPPED) \<and>
     (ends_scenario (sr_state r) \<or> clean r) \<and> steps_ok (stop \<or> ends_scenario (sr_state r)) ss rs"
  by (auto simp: steps_ok_def)

lemma steps_ok_Nil [simp]: "steps_ok stop [] []"
  by (simp add: steps_ok_def)

lemma state_after_Nil [simp]: "state_after st [] = st"
  by (simp add: state_after_def)

lemma state_after_Cons:
  "state_after st (r # rs) = state_after (state_after st [r]) rs"
  by (auto simp: state_after_def)

lemma state_after_quiet: "\<not> ends_scenario (sr_state r) \<Longrightarrow> state_after st [r] = st"
  by (auto simp: state_after_def)

lemma note_stop_state: "ends_scenario (sr_state r) \<Longrightarrow> pg_state (note_stop r p) = state_after (pg_state p) [r]"
  by (auto simp: note_stop_def state_after_def)

lemma clean_not_end: "clean r \<Longrightarrow> \<not> ends_scenario (sr_state r)"
  by (cases r) simp

lemma runSteps_facts:
  assumes "runSteps env cfg xc row ss outs stop p c = ((outs', stop', p'), c')"
  shows "\<exists>rs. outs' = outs @ rs \<and> steps_ok stop ss rs \<and> stop' = (stop \<or> some_end rs) \<and>
    pg_state p' = state_after (pg_state p) rs \<and> frame c c'"
  using assms
proof (induction ss arbitrary: outs stop p c)
  case (Cons s ss)
  obtain skip c1 where sk: "(if stop then (True, c) else cancelled_or_timeout env c) = (skip, c1)"
    by (cases "if stop then (True, c) else cancelled_or_timeout env c")
  have f1: "frame c c1" using sk keepsD [OF keeps_cancelled_or_timeout [OF frame_refl], of env c] by (auto split: if_splits)
  show ?case
  proof (cases skip)
    case True
    then have "runSteps env cfg xc row ss (outs @ [skipped_step s]) stop p c1 = ((outs', stop', p'), c')"
      using Cons.prems sk by simp
    from Cons.IH [OF this] obtain rs where "outs' = outs @ skipped_step s # rs" "steps_ok stop ss rs"
      "stop' = (stop \<or> some_end rs)" "pg_state p' = state_after (pg_state p) rs" "frame c1 c'"
      by auto
    then show ?thesis
      using f1 by (intro exI [of _ "skipped_step s # rs"]) (auto simp: steps_ok_Cons state_after_Cons [of _ _ rs] state_after_quiet intro: frame_trans)
  next
    case False
    with sk have nostop: "\<not> stop" by (auto split: if_splits)
    obtain r st c2 where ex: "executeStep env cfg xc row s c1 = ((r, st), c2)" by (metis surj_pair)
    from executeStep_concept_loop(1) [OF this] have f2: "frame c c2" and st: "st = ends_scenario (sr_state r)"
      and ok: "ends_scenario (sr_state r) \<or> clean r" and t: "sr_stepText r = st_text s"
      using f1 executeStep_text [OF ex] by (auto simp: step_result_ok_def intro: frame_trans)
    let ?p = "if st then note_stop r p else p"
    have "runSteps env cfg xc row ss (outs @ [r]) st ?p c2 = ((outs', stop', p'), c')"
      using Cons.prems sk False nostop ex by (cases st) simp_all
    from Cons.IH [OF this] obtain rs where rs: "outs' = outs @ r # rs" "steps_ok st ss rs"
      "stop' = (st \<or> some_end rs)" "pg_state p' = state_after (pg_state ?p) rs" "frame c2 c'"
      by auto
    have "pg_state ?p = state_after (pg_state p) [r]"
      by (simp add: st note_stop_state state_after_quiet)
    with rs show ?thesis
      using f2 st ok t nostop
      by (intro exI [of _ "r # rs"]) (auto simp: steps_ok_Cons state_after_Cons [of _ r rs] intro: frame_trans)
  qed
qed auto

end
