(* ===== verification/EngineScenarioFacts.thy ===== *)
theory EngineScenarioFacts
  imports EngineStepFacts
begin

text \<open>
  What a scenario's result says (\<open>ExecutionEngine::executeScenario\<close>,
  \<open>src/src/engine/execution_engine.cpp\<close>), in every environment: its shape, the order in which
  steps are skipped, and when its state can be \<open>PASSED\<close>. \<open>script_env\<close> is a concrete
  environment used to evaluate the model on examples.
\<close>

definition all_step_results :: "ScenarioResult \<Rightarrow> StepResult list" where
  "all_step_results r = sc_contextSteps r @ sc_stepResults r @ sc_teardownSteps r"

lemma some_end_append [simp]: "some_end (xs @ ys) = (some_end xs \<or> some_end ys)"
  by (simp add: some_end_def)

lemma before_scenario_states: "pg_state (before_scenario_outcome h) \<in> {PASSED, FAILED, TEST_ERROR}"
  by (simp add: before_scenario_outcome_def)

lemma state_after_states: "st \<in> {PASSED, FAILED, TEST_ERROR} \<Longrightarrow> state_after st rs \<in> {PASSED, FAILED, TEST_ERROR}"
  by (auto simp: state_after_def)

lemma state_after_PASSED: "state_after st rs = PASSED \<Longrightarrow> st = PASSED \<and> \<not> some_end rs"
  by (auto simp: state_after_def split: if_splits)

lemma after_scenario_states:
  "pg_state p \<in> {PASSED, FAILED, TEST_ERROR} \<Longrightarrow> pg_state (after_scenario_outcome h p) \<in> {PASSED, FAILED, TEST_ERROR}"
  "pg_state (after_scenario_outcome h p) = PASSED \<Longrightarrow> pg_state p = PASSED"
  by (auto simp: after_scenario_outcome_def split: if_splits)

lemma interrupted_states:
  "pg_state p \<in> {PASSED, FAILED, TEST_ERROR} \<Longrightarrow> pg_state (interrupted b t ss rs p) \<in> {PASSED, FAILED, TEST_ERROR, CANCELLED}"
  "pg_state (interrupted b t ss rs p) = PASSED \<Longrightarrow> pg_state p = PASSED \<and> (\<not> any_skipped rs \<or> (\<not> b \<and> \<not> t))"
  by (auto simp: interrupted_def split: if_splits)

text \<open>What is known of a scenario's result; \<open>b\<close> says that the hook before it failed.\<close>

definition scenario_ok :: "bool \<Rightarrow> Specification \<Rightarrow> Scenario \<Rightarrow> ScenarioResult \<Rightarrow> bool" where
  "scenario_ok b sp sc r =
     (steps_ok b (sf_contexts sp) (sc_contextSteps r) \<and>
      steps_ok (b \<or> some_end (sc_contextSteps r)) (sn_steps sc) (sc_stepResults r) \<and>
      steps_ok False (sf_teardowns sp) (sc_teardownSteps r) \<and>
      sc_state r \<in> {PASSED, FAILED, TEST_ERROR, CANCELLED} \<and>
      (sc_state r = PASSED \<longrightarrow> \<not> b \<and> \<not> some_end (all_step_results r)))"

text \<open>What the three lists of steps give, from which the rest follows.\<close>

definition scenario_steps_ok :: "bool \<Rightarrow> Specification \<Rightarrow> Scenario \<Rightarrow> StepResult list \<Rightarrow> StepResult list
    \<Rightarrow> StepResult list \<Rightarrow> scenario_progress \<Rightarrow> bool" where
  "scenario_steps_ok b sp sc cs ss ts p =
     (steps_ok b (sf_contexts sp) cs \<and> steps_ok (b \<or> some_end cs) (sn_steps sc) ss \<and>
      steps_ok False (sf_teardowns sp) ts \<and> pg_state p \<in> {PASSED, FAILED, TEST_ERROR} \<and>
      (pg_state p = PASSED \<longrightarrow> \<not> b \<and> \<not> some_end (cs @ ss @ ts)))"

lemma scenario_steps_facts:
  assumes "scenario_steps env cfg xc sp sc before c = (((cs, ss, ts), p), c')"
  shows "frame c c' \<and> scenario_steps_ok (\<not> hr_success before) sp sc cs ss ts p"
proof -
  let ?b = "\<not> hr_success before" and ?p0 = "before_scenario_outcome before" and ?row = "xc_dataRow xc"
  obtain cs' stop1 p1 c4 where r1: "runSteps env cfg xc ?row (sf_contexts sp) [] ?b ?p0 c = ((cs', stop1, p1), c4)"
    by (metis surj_pair)
  obtain ss' stop2 p2 c5 where r2: "runSteps env cfg xc ?row (sn_steps sc) [] stop1 p1 c4 = ((ss', stop2, p2), c5)"
    by (metis surj_pair)
  obtain ts' stop3 p3 c6 where r3: "runSteps env cfg xc ?row (sf_teardowns sp) [] False p2 c5 = ((ts', stop3, p3), c6)"
    by (metis surj_pair)
  from assms r1 r2 r3 have eq: "cs' = cs" "ss' = ss" "ts' = ts" "c6 = c'"
    "p = (if stop3 \<and> pg_state p3 = PASSED then p3\<lparr>pg_state := FAILED\<rparr> else p3)"
    by (auto simp: scenario_steps_def)
  from runSteps_facts [OF r1] have k1: "steps_ok ?b (sf_contexts sp) cs" "stop1 = (?b \<or> some_end cs)"
    "pg_state p1 = state_after (pg_state ?p0) cs" "frame c c4" by (auto simp: eq)
  from runSteps_facts [OF r2] have k2: "steps_ok stop1 (sn_steps sc) ss" "pg_state p2 = state_after (pg_state p1) ss"
    "frame c4 c5" by (auto simp: eq)
  from runSteps_facts [OF r3] have k3: "steps_ok False (sf_teardowns sp) ts" "pg_state p3 = state_after (pg_state p2) ts"
    "frame c5 c'" by (auto simp: eq)
  have states: "pg_state p3 \<in> {PASSED, FAILED, TEST_ERROR}"
    unfolding k1(3) k2(2) k3(2) by (intro state_after_states before_scenario_states)
  have "\<not> ?b \<and> \<not> some_end (cs @ ss @ ts)" if "pg_state p3 = PASSED"
  proof -
    from that have "pg_state p2 = PASSED" "\<not> some_end ts" using state_after_PASSED by (simp_all add: k3(2))
    moreover then have "pg_state p1 = PASSED" "\<not> some_end ss" using state_after_PASSED by (simp_all add: k2(2))
    moreover then have "pg_state ?p0 = PASSED" "\<not> some_end cs" using state_after_PASSED by (simp_all add: k1(3))
    ultimately show ?thesis by (auto simp: before_scenario_outcome_def split: if_splits)
  qed
  moreover have "frame c c'" using k1(4) k2(3) k3(3) by (blast intro: frame_trans)
  ultimately show ?thesis using k1 k2(1) k3(1) states by (auto simp: scenario_steps_ok_def eq(5))
qed

lemma executeScenario_facts:
  assumes "executeScenario env cfg stream sp sc row c = (r, c')"
  shows "frame c c' \<and> (\<exists>b. scenario_ok b sp sc r) \<and> sc_scenarioName r = sn_name sc \<and> sc_dataRowIndex r = row"
proof -
  define tags where "tags = effectiveTags sp sc"
  define xc where "xc = \<lparr>xc_testId = rc_testId c, xc_specFile = sf_fileName sp, xc_specName = sf_heading sp,
      xc_scenarioName = sn_name sc, xc_tags = tags, xc_dataRow = data_row sp row, xc_environment = ec_environment cfg\<rparr>"
  define event where "event = scenario_event sp sc tags stream row"
  obtain start c1 where o1: "observe (env_clock env) c = (start, c1)" by (metis surj_pair)
  obtain before c3 where o3: "observe (env_hook env BeforeScenario xc) (publish ''scenario.started'' event c1) = (before, c3)"
    by (metis surj_pair)
  obtain cs ss ts p c6 where st: "scenario_steps env cfg xc sp sc before c3 = (((cs, ss, ts), p), c6)" by (metis surj_pair)
  obtain after c7 where o7: "observe (env_hook env AfterScenario xc) c6 = (after, c7)" by (metis surj_pair)
  obtain cancelled c8 where o8: "load_cancelled env c7 = (cancelled, c8)" by (metis surj_pair)
  obtain finish c9 where o9: "observe (env_clock env) c8 = (finish, c9)" by (metis surj_pair)
  define p6 where "p6 = interrupted cancelled (rc_timedOut c8) (sn_steps sc) ss (after_scenario_outcome after p)"
  from assms have res: "r = \<lparr>sc_scenarioName = sn_name sc, sc_tags = tags, sc_state = pg_state p6,
      sc_contextSteps = cs, sc_stepResults = ss, sc_teardownSteps = ts, sc_errorMessage = pg_errorMessage p6,
      sc_duration = finish - start, sc_dataRowIndex = row, sc_dataRow = data_row sp row, sc_lineNumber = sn_lineNumber sc\<rparr>"
    and fc: "frame c c' = frame c c9"
    unfolding executeScenario_def Let_def tags_def [symmetric] o1 event_def [symmetric] xc_def [symmetric] prod.case
      o3 st o7 o8 o9 p6_def [symmetric]
    by auto
  from scenario_steps_facts [OF st] have k: "frame c3 c6" "scenario_steps_ok (\<not> hr_success before) sp sc cs ss ts p" by simp_all
  have "frame c c3" using keepsD [OF keeps_observe o3, of c] keepsD [OF keeps_observe [OF frame_refl] o1] by simp
  with k(1) have "frame c c6" by (rule frame_trans [rotated])
  from keepsD [OF keeps_observe [OF this] o7] have "frame c c7" .
  from keepsD [OF keeps_load [OF this] o8] have "frame c c8" .
  from keepsD [OF keeps_observe [OF this] o9] have "frame c c9" .
  moreover have pre: "pg_state p \<in> {PASSED, FAILED, TEST_ERROR}" using k(2) by (simp add: scenario_steps_ok_def)
  have "pg_state p6 \<in> {PASSED, FAILED, TEST_ERROR, CANCELLED}"
    unfolding p6_def by (intro interrupted_states(1) after_scenario_states(1) pre)
  moreover have "pg_state p6 = PASSED \<Longrightarrow> pg_state p = PASSED"
    unfolding p6_def using interrupted_states(2) after_scenario_states(2) by blast
  ultimately show ?thesis
    using fc k(2) by (auto simp: res scenario_ok_def scenario_steps_ok_def all_step_results_def)
qed

section \<open>An environment to run examples in\<close>

text \<open>
  Every read is a tick of the clock; steps end as a script says, hooks succeed, and the test
  is cancelled from the tick \<open>cancel\<close> on.
\<close>

definition script_env :: "(string \<Rightarrow> TestState) \<Rightarrow> nat \<Rightarrow> nat environment" where
  "script_env script cancel = \<lparr>
     env_cancelled = \<lambda>w. (cancel \<le> w, w + 1),
     env_clock = \<lambda>w. (of_nat w, w + 1),
     env_wall = \<lambda>w. (int w, w + 1),
     env_step = \<lambda>q w. (StepResult (sq_stepText q) (sq_parameterizedText q) (script (sq_stepText q)) [] [] 1 1 [] [] False, w + 1),
     env_hook = \<lambda>t xc w. (default_HookResult, w + 1),
     env_concurrencySafe = \<lambda>w. (False, w), env_poolSize = \<lambda>w. (1, w), env_reserveSlots = \<lambda>n w. ([0], w),
     env_fileExists = \<lambda>p w. (False, w), env_readFile = \<lambda>p w. ([], w), env_load = \<lambda>p w. ((None, [], []), w),
     env_isAbsolute = \<lambda>p. False, env_joinPath = \<lambda>a b. a @ ''/'' @ b, env_getDirectoryPath = \<lambda>p. [],
     env_toAbsoluteInside = \<lambda>p. p, env_toRelative = \<lambda>p. p, env_specsDir = ''specs''\<rparr>"

definition sample_step :: "string \<Rightarrow> Step" where
  "sample_step text = Step text text [] 1 False []"

definition sample_scenario :: "Step list \<Rightarrow> Scenario" where
  "sample_scenario steps = default_Scenario\<lparr>sn_name := ''scenario'', sn_steps := steps\<rparr>"

definition sample_spec :: "Scenario list \<Rightarrow> Specification" where
  "sample_spec scs = default_Specification\<lparr>sf_fileName := ''a.spec'', sf_heading := ''A'',
     sf_contexts := [sample_step ''log in''], sf_teardowns := [sample_step ''log out''], sf_scenarios := scs\<rparr>"

definition sample_ctx :: "TestRequest \<Rightarrow> nat run_ctx" where
  "sample_ctx rq = \<lparr>rc_testId = ''t'', rc_request = rq, rc_deadline = 1000, rc_tagFilter = \<lparr>tf_expression = [], tf_root = None, tf_invalid = False\<rparr>,
     rc_status = default_TestStatus, rc_result = default_TestResult, rc_timedOut = False, rc_failFast = False,
     rc_visible = default_TestStatus, rc_events = [], rc_world = 0\<rparr>"

section \<open>Properties of a scenario's result\<close>

lemma skips_after_stop_append:
  "skips_after_stop b (xs @ ys) \<longleftrightarrow> skips_after_stop b xs \<and> skips_after_stop (b \<or> some_end xs) ys"
  by (induction b xs rule: skips_after_stop.induct) auto

lemma skips_after_stop_weaken: "skips_after_stop b xs \<Longrightarrow> skips_after_stop False xs"
proof (induction xs arbitrary: b)
  case (Cons r rs)
  then show ?case by (cases b) auto
qed simp


text \<open>
  C8. A scenario is reported as passed only if no context step, step or teardown step, at any
  level of concepts, ended failed, in error or cancelled.
\<close>

theorem executeScenario_passed:
  assumes "executeScenario env cfg stream sp sc row c = (r, c')" and "sc_state r = PASSED"
  shows "list_all clean (all_step_results r)"
proof -
  from executeScenario_facts [OF assms(1)] obtain b where ok: "scenario_ok b sp sc r" by blast
  with assms(2) have "\<not> some_end (all_step_results r)" by (simp add: scenario_ok_def)
  with ok show ?thesis
    by (auto simp: scenario_ok_def steps_ok_def list_all_iff all_step_results_def some_end_def list_ex_iff)
qed

definition sample_concept :: Step where
  "sample_concept = Step ''buy'' ''buy'' [] 1 True [sample_step ''pick'', sample_step ''pay'']"

abbreviation sample_run :: "nat \<Rightarrow> ScenarioResult \<times> nat run_ctx" where
  "sample_run cancel \<equiv> executeScenario (script_env (\<lambda>_. PASSED) cancel) default_EngineConfig (-1) (sample_spec [])
     (sample_scenario [sample_concept]) (-1) (sample_ctx default_TestRequest)"

lemma executeScenario_passed_witness:
  "sc_state (fst (sample_run 100)) = PASSED \<and> list_all clean (all_step_results (fst (sample_run 100)))"
proof -
  have "sc_state (fst (sample_run 100)) = PASSED" by code_simp
  with executeScenario_passed [of "script_env (\<lambda>_. PASSED) 100" default_EngineConfig "-1" "sample_spec []"
      "sample_scenario [sample_concept]" "-1" "sample_ctx default_TestRequest" "fst (sample_run 100)" "snd (sample_run 100)"]
  show ?thesis by simp
qed

text \<open>
  The reverse does not hold of cancelled runs: when the test is cancelled inside a concept,
  the concept's remaining steps are skipped, and so are the teardown steps, but the concept,
  and with it the scenario, is reported as passed (only the scenario's own steps are searched
  for skipped ones).
\<close>

lemma cancelled_concept_passes:
  "sc_state (fst (sample_run 11)) = PASSED \<and>
   map sr_state (concat (map sr_conceptSteps (sc_stepResults (fst (sample_run 11))))) = [SKIPPED, SKIPPED] \<and>
   map sr_state (sc_teardownSteps (fst (sample_run 11))) = [SKIPPED]"
  by code_simp

end
