(* ===== verification/EngineSpecs.thy ===== *)
theory EngineSpecs
  imports EngineScenarioFacts
begin

text \<open>
  \<open>ExecutionEngine::executeSpec\<close>, \<open>executeSequential\<close> and the body of \<open>execute\<close>
  (\<open>src/src/engine/execution_engine.cpp\<close>): the scenarios of a specification in the order of
  the data table's rows, the specifications of a test in the order they were resolved, and
  the final state.
\<close>

section \<open>One specification\<close>

text \<open>The local counters \<open>passed\<close>, \<open>failed\<close>, \<open>errored\<close>, \<open>skipped\<close> and \<open>total\<close>.\<close>

record tally =
  tl_passed :: int
  tl_failed :: int
  tl_errored :: int
  tl_skipped :: int
  tl_total :: int

definition zero_tally :: tally where
  "zero_tally = \<lparr>tl_passed = 0, tl_failed = 0, tl_errored = 0, tl_skipped = 0, tl_total = 0\<rparr>"

definition tally_state :: "TestState \<Rightarrow> tally \<Rightarrow> tally" where
  "tally_state st t =
     (case st of
        PASSED \<Rightarrow> t\<lparr>tl_passed := tl_passed t + 1\<rparr>
      | FAILED \<Rightarrow> t\<lparr>tl_failed := tl_failed t + 1\<rparr>
      | TEST_ERROR \<Rightarrow> t\<lparr>tl_errored := tl_errored t + 1\<rparr>
      | _ \<Rightarrow> t\<lparr>tl_skipped := tl_skipped t + 1\<rparr>)"

definition spec_context :: "EngineConfig \<Rightarrow> Specification \<Rightarrow> 'w run_ctx \<Rightarrow> ExecutionContext" where
  "spec_context cfg sp ctx =
     \<lparr>xc_testId = rc_testId ctx, xc_specFile = sf_fileName sp, xc_specName = sf_heading sp,
      xc_scenarioName = [], xc_tags = sf_tags sp, xc_dataRow = [], xc_environment = ec_environment cfg\<rparr>"

definition row_index :: "Specification \<Rightarrow> nat \<Rightarrow> int" where
  "row_index sp row = (if isDataDriven sp then int row else -1)"

text \<open>The pairs of a row and a scenario, in the order of the two loops.\<close>

definition spec_items :: "Specification \<Rightarrow> (nat \<times> Scenario) list" where
  "spec_items sp = concat (map (\<lambda>row. map (\<lambda>sc. (row, sc)) (sf_scenarios sp)) [0..<row_count sp])"

text \<open>Why a scenario was not run; \<open>otherwise\<close> is the text of the last case.\<close>

definition skip_reason :: "'w environment \<Rightarrow> string \<Rightarrow> bool \<Rightarrow> 'w run_ctx \<Rightarrow> string \<times> 'w run_ctx" where
  "skip_reason env otherwise beforeOk ctx =
     (if \<not> beforeOk then (''Skipped because before_spec hook failed'', ctx)
      else let (c, ctx1) = load_cancelled env ctx in
        (if c then ''Skipped because the test was cancelled''
         else if rc_timedOut ctx1 then ''Skipped because the test timed out'' else otherwise, ctx1))"

definition skipped_outline :: "Step \<Rightarrow> StepResult" where
  "skipped_outline s = StepResult (st_text s) (st_parameterizedText s) SKIPPED [] [] 0 1 [] [] (st_isConcept s)"

definition skipped_scenario :: "'w environment \<Rightarrow> string \<Rightarrow> bool \<Rightarrow> Specification \<Rightarrow> Scenario \<Rightarrow> int \<Rightarrow> StepResult list
    \<Rightarrow> 'w run_ctx \<Rightarrow> ScenarioResult \<times> 'w run_ctx" where
  "skipped_scenario env otherwise beforeOk sp sc row outline ctx =
     (let (c, ctx1) = load_cancelled env ctx;
          (reason, ctx2) = skip_reason env otherwise beforeOk ctx1
      in (default_ScenarioResult\<lparr>sc_scenarioName := sn_name sc, sc_tags := effectiveTags sp sc,
            sc_lineNumber := sn_lineNumber sc, sc_dataRowIndex := row,
            sc_state := if c then CANCELLED else SKIPPED, sc_errorMessage := reason,
            sc_stepResults := outline\<rparr>, ctx2))"

definition spec_scenario :: "'w environment \<Rightarrow> EngineConfig \<Rightarrow> bool \<Rightarrow> Specification \<Rightarrow> nat \<Rightarrow> Scenario
    \<Rightarrow> 'w run_ctx \<Rightarrow> ScenarioResult \<times> 'w run_ctx" where
  "spec_scenario env cfg beforeOk sp row sc ctx =
     (let (skip, ctx1) = stop_or_timeout env (\<not> beforeOk) ctx in
      if skip then skipped_scenario env ''Skipped'' beforeOk sp sc (row_index sp row) (map skipped_outline (sn_steps sc)) ctx1
      else executeScenario env cfg (-1) sp sc (row_index sp row)
             (set_status (\<lambda>s. s\<lparr>ts_currentScenario := sn_name sc\<rparr>) ctx1))"

fun spec_loop :: "'w environment \<Rightarrow> EngineConfig \<Rightarrow> bool \<Rightarrow> Specification \<Rightarrow> (nat \<times> Scenario) list
    \<Rightarrow> ScenarioResult list \<Rightarrow> tally \<Rightarrow> 'w run_ctx \<Rightarrow> (ScenarioResult list \<times> tally) \<times> 'w run_ctx" where
  "spec_loop env cfg beforeOk sp [] results t ctx = ((results, t), ctx)"
| "spec_loop env cfg beforeOk sp ((row, sc) # items) results t ctx =
     (if \<not> scenarioSelected (rc_tagFilter ctx) (rc_request ctx) sp sc
      then spec_loop env cfg beforeOk sp items results t ctx
      else let (sr, ctx1) = spec_scenario env cfg beforeOk sp row sc ctx
           in spec_loop env cfg beforeOk sp items (results @ [sr])
                (tally_state (sc_state sr) (t\<lparr>tl_total := tl_total t + 1\<rparr>)) (applyScenarioOutcome sr ctx1))"

definition spec_started :: "Specification \<Rightarrow> 'w run_ctx \<Rightarrow> 'w run_ctx" where
  "spec_started sp ctx =
     publish ''spec.started'' [(''spec'', sf_fileName sp), (''name'', sf_heading sp),
       (''scenarios'', dec_of_nat (length (sf_scenarios sp))), (''tags'', joinTags (sf_tags sp))] ctx"

definition spec_completed :: "SpecResult \<Rightarrow> 'w run_ctx \<Rightarrow> 'w run_ctx" where
  "spec_completed r ctx =
     publish ''spec.completed''
       [(''spec'', sp_specFile r), (''name'', sp_specName r), (''state'', testStateToString (sp_state r)),
        (''duration'', to_string_double (sp_duration r)), (''total_scenarios'', to_string (sp_totalScenarios r)),
        (''passed_scenarios'', to_string (sp_passedScenarios r)), (''failed_scenarios'', to_string (sp_failedScenarios r)),
        (''skipped_scenarios'', to_string (sp_skippedScenarios r))] ctx"

definition add_line :: "string \<Rightarrow> string \<Rightarrow> string" where
  "add_line message line = message @ (if message = [] then [] else [CHR 0x0A]) @ line"

definition spec_state :: "'w environment \<Rightarrow> bool \<Rightarrow> tally \<Rightarrow> 'w run_ctx \<Rightarrow> TestState \<times> 'w run_ctx" where
  "spec_state env beforeOk t ctx =
     (let (st, ctx1) =
        (if \<not> beforeOk then (TEST_ERROR, ctx)
         else let (c, ctx1) = load_cancelled env ctx
              in (aggregateState (tl_failed t) (tl_errored t) (tl_skipped t) (tl_total t)
                    (c \<and> tl_passed t + tl_failed t + tl_errored t = 0), ctx1))
      in (if tl_total t = 0 then SKIPPED else st, ctx1))"

definition executeSpec :: "'w environment \<Rightarrow> EngineConfig \<Rightarrow> Specification \<Rightarrow> 'w run_ctx
    \<Rightarrow> SpecResult \<times> 'w run_ctx" where
  "executeSpec env cfg sp ctx =
     (let (start, ctx1) = observe (env_clock env) ctx;
          ctx2 = spec_started sp ctx1;
          xc = spec_context cfg sp ctx;
          (beforeSpec, ctx3) = observe (env_hook env BeforeSpec xc) ctx2;
          message1 = (if hr_success beforeSpec then [] else ''before_spec hook failed: '' @ hr_errorMessage beforeSpec);
          ((results, t), ctx4) = spec_loop env cfg (hr_success beforeSpec) sp (spec_items sp) [] zero_tally ctx3;
          (afterSpec, ctx5) = observe (env_hook env AfterSpec xc) ctx4;
          message2 = (if hr_success afterSpec then message1
                      else add_line message1 (''after_spec hook failed: '' @ hr_errorMessage afterSpec));
          (st, ctx6) = spec_state env (hr_success beforeSpec) t ctx5;
          (finish, ctx7) = observe (env_clock env) ctx6;
          result = \<lparr>sp_specFile = sf_fileName sp, sp_specName = sf_heading sp, sp_tags = sf_tags sp, sp_state = st,
                    sp_scenarioResults = results, sp_errorMessage = message2, sp_duration = finish - start,
                    sp_totalScenarios = tl_total t, sp_passedScenarios = tl_passed t,
                    sp_failedScenarios = tl_failed t + tl_errored t, sp_skippedScenarios = tl_skipped t\<rparr>
      in (result, spec_completed result ctx7))"

section \<open>The specifications of a test, one after the other\<close>

definition suite_context :: "EngineConfig \<Rightarrow> 'w run_ctx \<Rightarrow> ExecutionContext" where
  "suite_context cfg ctx =
     \<lparr>xc_testId = rc_testId ctx, xc_specFile = [], xc_specName = [], xc_scenarioName = [], xc_tags = [], xc_dataRow = [],
      xc_environment = omap_put ''TESTHUB_ENVIRONMENT'' (rq_environment (rc_request ctx)) (ec_environment cfg)\<rparr>"

definition located :: "ParseError \<Rightarrow> string" where
  "located e = pe_fileName e @ '':'' @ to_string (pe_lineNumber e) @ '': '' @ pe_message e"

definition loaded_ok :: "LoadedSpec \<Rightarrow> bool" where
  "loaded_ok l = (ls_specification l \<noteq> None \<and> ls_errors l = [])"

definition loaded_name :: "'w environment \<Rightarrow> LoadedSpec \<Rightarrow> string" where
  "loaded_name env l =
     (case ls_specification l of Some sp \<Rightarrow> sf_heading sp | None \<Rightarrow> env_toRelative env (ls_path l))"

definition load_error :: "LoadedSpec \<Rightarrow> string" where
  "load_error l = (if ls_errors l = [] then ''Failed to load spec'' else join (map located (ls_errors l)) [CHR 0x0A])"

definition broken_spec :: "'w environment \<Rightarrow> LoadedSpec \<Rightarrow> 'w run_ctx \<Rightarrow> SpecResult \<times> 'w run_ctx" where
  "broken_spec env l ctx =
     (let r = default_SpecResult\<lparr>sp_specFile := env_toRelative env (ls_path l), sp_specName := loaded_name env l,
                sp_state := TEST_ERROR, sp_errorMessage := load_error l\<rparr>
      in (r, publish ''spec.completed'' [(''spec'', sp_specFile r), (''state'', ''error''), (''error'', sp_errorMessage r)]
               (add_error (sp_errorMessage r) ctx)))"

definition skipped_spec :: "'w environment \<Rightarrow> bool \<Rightarrow> LoadedSpec \<Rightarrow> 'w run_ctx \<Rightarrow> SpecResult \<times> 'w run_ctx" where
  "skipped_spec env suiteOk l ctx =
     (let (c, ctx1) = load_cancelled env ctx
      in (default_SpecResult\<lparr>sp_specFile := env_toRelative env (ls_path l), sp_specName := loaded_name env l,
            sp_state := if c then CANCELLED else SKIPPED,
            sp_errorMessage := if \<not> suiteOk then ''Skipped because before_suite hook failed''
              else if rc_timedOut ctx1 then ''Skipped because the test timed out''
              else if rc_failFast ctx1 then ''Skipped due to fail_fast''
              else ''Skipped because the test was cancelled''\<rparr>, ctx1))"

definition run_loaded :: "'w environment \<Rightarrow> EngineConfig \<Rightarrow> LoadedSpec \<Rightarrow> 'w run_ctx \<Rightarrow> SpecResult \<times> 'w run_ctx" where
  "run_loaded env cfg l ctx =
     (let ctx1 = updateStatus (set_status (\<lambda>s. s\<lparr>ts_currentSpec := env_toRelative env (ls_path l),
                   ts_currentScenario := [], ts_currentStep := []\<rparr>) ctx)
      in case ls_specification l of
           Some sp \<Rightarrow> if ls_errors l = [] then executeSpec env cfg sp ctx1 else broken_spec env l ctx1
         | None \<Rightarrow> broken_spec env l ctx1)"

definition spec_passed :: "SpecResult \<Rightarrow> bool" where
  "spec_passed r = (sp_state r = PASSED \<or> sp_state r = SKIPPED)"

definition spec_failed :: "SpecResult \<Rightarrow> bool" where
  "spec_failed r = (\<not> spec_passed r \<and> sp_state r \<noteq> CANCELLED)"

fun sequential_loop :: "'w environment \<Rightarrow> EngineConfig \<Rightarrow> bool \<Rightarrow> LoadedSpec list \<Rightarrow> int \<Rightarrow> int
    \<Rightarrow> 'w run_ctx \<Rightarrow> 'w run_ctx" where
  "sequential_loop env cfg suiteOk [] passedSpecs failedSpecs ctx = ctx"
| "sequential_loop env cfg suiteOk (l # ls) passedSpecs failedSpecs ctx =
     (let (halt, ctx1) = stop_or_timeout env False ctx in
      if halt \<or> \<not> suiteOk
      then (let (sr, ctx2) = skipped_spec env suiteOk l ctx1
            in sequential_loop env cfg suiteOk ls passedSpecs failedSpecs (add_spec_result sr ctx2))
      else (let (sr, ctx2) = run_loaded env cfg l ctx1;
                p = passedSpecs + (if spec_passed sr then 1 else 0);
                f = failedSpecs + (if spec_failed sr then 1 else 0)
            in sequential_loop env cfg suiteOk ls p f
                 (updateStatus (set_status (\<lambda>s. s\<lparr>ts_executedSpecs := ts_executedSpecs s + 1, ts_passedSpecs := p,
                    ts_failedSpecs := f\<rparr>) (add_spec_result sr ctx2)))))"

definition executeSequential :: "'w environment \<Rightarrow> EngineConfig \<Rightarrow> LoadedSpec list \<Rightarrow> 'w run_ctx \<Rightarrow> 'w run_ctx" where
  "executeSequential env cfg loaded ctx =
     (let suite = suite_context cfg ctx;
          (beforeSuite, ctx1) = observe (env_hook env BeforeSuite suite) ctx;
          ctx2 = (if hr_success beforeSuite then ctx1
                  else add_error (''before_suite hook failed: '' @ hr_errorMessage beforeSuite) ctx1);
          ctx3 = sequential_loop env cfg (hr_success beforeSuite) loaded 0 0 ctx2;
          (afterSuite, ctx4) = observe (env_hook env AfterSuite suite) ctx3
      in if hr_success afterSuite then ctx4
         else add_error (''after_suite hook failed: '' @ hr_errorMessage afterSuite) ctx4)"

end
