(* ===== verification/EngineSpecFacts.thy ===== *)
theory EngineSpecFacts
  imports EngineSpecs
begin

text \<open>
  What the result of a specification and of a test says (\<open>ExecutionEngine::executeSpec\<close>,
  \<open>executeSequential\<close>): which scenarios it lists, how its counters follow from their states,
  and when it can be \<open>PASSED\<close>.
\<close>

section \<open>Counting scenarios\<close>

definition count_state :: "(TestState \<Rightarrow> bool) \<Rightarrow> ScenarioResult list \<Rightarrow> int" where
  "count_state P rs = int (length (filter (\<lambda>r. P (sc_state r)) rs))"

definition failing :: "TestState \<Rightarrow> bool" where
  "failing st = (st = FAILED \<or> st = TEST_ERROR)"

definition skipping :: "TestState \<Rightarrow> bool" where
  "skipping st = (st \<noteq> PASSED \<and> st \<noteq> FAILED \<and> st \<noteq> TEST_ERROR)"

lemma count_state_simps [simp]:
  "count_state P [] = 0" "count_state P (r # rs) = (if P (sc_state r) then 1 else 0) + count_state P rs"
  "count_state P (rs @ ss) = count_state P rs + count_state P ss"
  by (simp_all add: count_state_def)

lemma count_state_nonneg [simp]: "0 \<le> count_state P rs"
  by (simp add: count_state_def)

lemma count_state_split: "count_state (\<lambda>st. st = PASSED) rs + count_state failing rs + count_state skipping rs = int (length rs)"
  by (induction rs) (auto simp: failing_def skipping_def)

lemma count_state_failing: "count_state failing rs = count_state (\<lambda>st. st = FAILED) rs + count_state (\<lambda>st. st = TEST_ERROR) rs"
  by (induction rs) (auto simp: failing_def)

lemma count_state_0: "count_state P rs = 0 \<longleftrightarrow> (\<forall>r \<in> set rs. \<not> P (sc_state r))"
  by (induction rs) (auto simp: add_nonneg_eq_0_iff add_pos_nonneg add.commute dest: order_antisym)

section \<open>What the run of a specification leaves alone, and what it counts\<close>

definition spec_frame :: "'w run_ctx \<Rightarrow> 'w run_ctx \<Rightarrow> bool" where
  "spec_frame c c' = (rc_testId c' = rc_testId c \<and> rc_request c' = rc_request c \<and> rc_deadline c' = rc_deadline c \<and>
     rc_tagFilter c' = rc_tagFilter c \<and> (rc_failFast c \<longrightarrow> rc_failFast c') \<and> (rc_timedOut c \<longrightarrow> rc_timedOut c') \<and>
     ts_totalScenarios (rc_status c') = ts_totalScenarios (rc_status c) \<and>
     tr_specResults (rc_result c') = tr_specResults (rc_result c))"

text \<open>The counters of the status, as they grow by a list of results.\<close>

definition counted :: "'w run_ctx \<Rightarrow> ScenarioResult list \<Rightarrow> 'w run_ctx \<Rightarrow> bool" where
  "counted c rs c' =
     (ts_passedScenarios (rc_status c') = ts_passedScenarios (rc_status c) + count_state (\<lambda>st. st = PASSED) rs \<and>
      ts_failedScenarios (rc_status c') = ts_failedScenarios (rc_status c) + count_state failing rs \<and>
      ts_skippedScenarios (rc_status c') = ts_skippedScenarios (rc_status c) + count_state skipping rs \<and>
      ts_executedScenarios (rc_status c') = ts_executedScenarios (rc_status c)
        + count_state (\<lambda>st. st = PASSED) rs + count_state failing rs)"

text \<open>The fail-fast flag is raised only by a failing scenario.\<close>

definition fast :: "'w run_ctx \<Rightarrow> ScenarioResult list \<Rightarrow> 'w run_ctx \<Rightarrow> bool" where
  "fast c rs c' = (rc_failFast c' \<longrightarrow> rc_failFast c \<or> count_state failing rs > 0)"

definition progressed :: "'w run_ctx \<Rightarrow> ScenarioResult list \<Rightarrow> 'w run_ctx \<Rightarrow> bool" where
  "progressed c rs c' = (spec_frame c c' \<and> counted c rs c' \<and> fast c rs c')"

lemma frame_progressed: "frame c c' \<Longrightarrow> progressed c [] c'"
  by (auto simp: frame_def progressed_def spec_frame_def counted_def fast_def counters_def)

lemma progressed_refl [simp]: "progressed c [] c"
  by (rule frame_progressed) simp

lemma progressed_trans: "progressed a rs b \<Longrightarrow> progressed b ss c \<Longrightarrow> progressed a (rs @ ss) c"
  by (auto simp: progressed_def spec_frame_def counted_def fast_def intro: add_nonneg_pos add_pos_nonneg)

lemma progressed_frame: "progressed a rs b \<Longrightarrow> frame b c \<Longrightarrow> progressed a rs c"
  using progressed_trans [OF _ frame_progressed] by fastforce

lemma frame_progressed_trans: "frame a b \<Longrightarrow> progressed b rs c \<Longrightarrow> progressed a rs c"
  using progressed_trans [OF frame_progressed] by fastforce

lemma count_outcome_counters:
  "ts_passedScenarios (count_outcome st s) = ts_passedScenarios s + (if st = PASSED then 1 else 0)"
  "ts_failedScenarios (count_outcome st s) = ts_failedScenarios s + (if failing st then 1 else 0)"
  "ts_skippedScenarios (count_outcome st s) = ts_skippedScenarios s + (if skipping st then 1 else 0)"
  "ts_executedScenarios (count_outcome st s) = ts_executedScenarios s + (if skipping st then 0 else 1)"
  "ts_totalScenarios (count_outcome st s) = ts_totalScenarios s"
  by (cases st; simp add: count_outcome_def failing_def skipping_def)+

lemma set_progress_counters [simp]:
  "ts_passedScenarios (set_progress s) = ts_passedScenarios s" "ts_failedScenarios (set_progress s) = ts_failedScenarios s"
  "ts_skippedScenarios (set_progress s) = ts_skippedScenarios s" "ts_totalScenarios (set_progress s) = ts_totalScenarios s"
  "ts_executedScenarios (set_progress s) = ts_executedScenarios s"
  by (simp_all add: set_progress_def Let_def)

lemma frame_updateStatus [simp]: "frame c (updateStatus c1) \<longleftrightarrow> frame c c1"
  by (simp add: updateStatus_def Let_def frame_def publish_def)

lemma progressed_updateStatus [simp]: "progressed c rs (updateStatus c1) \<longleftrightarrow> progressed c rs c1"
  by (simp add: updateStatus_def Let_def publish_def progressed_def spec_frame_def counted_def fast_def)

lemma progressed_outcome: "progressed c [sr] (applyScenarioOutcome sr c)"
  unfolding applyScenarioOutcome_def Let_def progressed_updateStatus
  by (auto simp: progressed_def spec_frame_def counted_def fast_def set_status_def
      count_outcome_counters failing_def skipping_def)

section \<open>One specification\<close>

definition wanted :: "'w run_ctx \<Rightarrow> Specification \<Rightarrow> (nat \<times> Scenario) list \<Rightarrow> (nat \<times> Scenario) list" where
  "wanted c sp items = filter (\<lambda>(row, sc). scenarioSelected (rc_tagFilter c) (rc_request c) sp sc) items"

definition result_key :: "ScenarioResult \<Rightarrow> string \<times> int" where
  "result_key r = (sc_scenarioName r, sc_dataRowIndex r)"

definition item_key :: "Specification \<Rightarrow> nat \<times> Scenario \<Rightarrow> string \<times> int" where
  "item_key sp it = (sn_name (snd it), row_index sp (fst it))"

text \<open>A scenario reported as passed has no step that failed.\<close>

definition sound_result :: "ScenarioResult \<Rightarrow> bool" where
  "sound_result r = (sc_state r = PASSED \<longrightarrow> list_all clean (all_step_results r))"

lemma executeScenario_sound: "executeScenario env cfg stream sp sc row c = (r, c') \<Longrightarrow> sound_result r"
  using executeScenario_facts [of env cfg stream sp sc row c r c']
  by (auto simp: sound_result_def scenario_ok_def steps_ok_def list_all_iff all_step_results_def some_end_def list_ex_iff)

lemma skip_reason_frame: "frame c c1 \<Longrightarrow> keeps c (skip_reason env d b c1)"
  unfolding skip_reason_def Let_def by (intro keeps_basic keeps_load) assumption+

lemma skipped_scenario_facts:
  assumes "skipped_scenario env d b sp sc row outline c = (r, c')"
  shows "frame c c' \<and> sc_state r \<in> {CANCELLED, SKIPPED} \<and> result_key r = (sn_name sc, row) \<and> sound_result r"
proof -
  have "keeps c (skipped_scenario env d b sp sc row outline c)"
    unfolding skipped_scenario_def Let_def by (intro keeps_basic keeps_load skip_reason_frame) (rule frame_refl | assumption)+
  then have "frame c c'" using assms by (rule keepsD)
  with assms show ?thesis
    by (auto simp: skipped_scenario_def sound_result_def result_key_def split: prod.splits if_splits)
qed

lemma frame_set_status [simp]:
  "frame c (set_status (\<lambda>s. s\<lparr>ts_currentScenario := x\<rparr>) c1) \<longleftrightarrow> frame c c1"
  "frame c (set_status (\<lambda>s. s\<lparr>ts_currentSpec := x, ts_currentScenario := y, ts_currentStep := z\<rparr>) c1) \<longleftrightarrow> frame c c1"
  by (simp_all add: set_status_def frame_def counters_def)

lemma spec_scenario_facts:
  assumes "spec_scenario env cfg b sp row sc c = (r, c')"
  shows "frame c c' \<and> result_key r = item_key sp (row, sc) \<and> sound_result r"
proof -
  obtain skip c1 where s: "stop_or_timeout env (\<not> b) c = (skip, c1)" by (metis surj_pair)
  have f: "frame c c1" using keepsD [OF keeps_stop_or_timeout [OF frame_refl] s] .
  show ?thesis
  proof (cases skip)
    case True
    with assms s have "skipped_scenario env ''Skipped'' b sp sc (row_index sp row) (map skipped_outline (sn_steps sc)) c1 = (r, c')"
      by (simp add: spec_scenario_def)
    from skipped_scenario_facts [OF this] f show ?thesis by (auto simp: item_key_def intro: frame_trans)
  next
    case False
    let ?c = "set_status (\<lambda>s. s\<lparr>ts_currentScenario := sn_name sc\<rparr>) c1"
    from assms s False have e: "executeScenario env cfg (-1) sp sc (row_index sp row) ?c = (r, c')"
      by (simp add: spec_scenario_def)
    from executeScenario_facts [OF e] have "frame ?c c'" "result_key r = item_key sp (row, sc)"
      by (simp_all add: item_key_def result_key_def)
    moreover have "frame c ?c" using f by simp
    ultimately show ?thesis using executeScenario_sound [OF e] by (blast intro: frame_trans)
  qed
qed

text \<open>The local counters agree with the list of results.\<close>

definition tally_ok :: "tally \<Rightarrow> ScenarioResult list \<Rightarrow> bool" where
  "tally_ok t rs = (tl_passed t = count_state (\<lambda>st. st = PASSED) rs \<and> tl_failed t = count_state (\<lambda>st. st = FAILED) rs \<and>
     tl_errored t = count_state (\<lambda>st. st = TEST_ERROR) rs \<and> tl_skipped t = count_state skipping rs \<and>
     tl_total t = int (length rs))"

lemma tally_ok_zero [simp]: "tally_ok zero_tally []"
  by (simp add: tally_ok_def zero_tally_def)

lemma tally_ok_step: "tally_ok t rs \<Longrightarrow> tally_ok (tally_state (sc_state r) (t\<lparr>tl_total := tl_total t + 1\<rparr>)) (rs @ [r])"
  by (cases "sc_state r") (auto simp: tally_ok_def tally_state_def skipping_def)

lemma spec_loop_facts:
  assumes "spec_loop env cfg b sp items rs t c = ((rs', t'), c')" and "tally_ok t rs"
  shows "\<exists>new. rs' = rs @ new \<and> tally_ok t' rs' \<and> progressed c new c' \<and>
    map result_key new = map (item_key sp) (wanted c sp items) \<and> list_all sound_result new"
  using assms
proof (induction items arbitrary: rs t c)
  case Nil
  then show ?case by (auto simp: wanted_def)
next
  case (Cons it items)
  obtain row sc where it: "it = (row, sc)" by (cases it)
  show ?case
  proof (cases "scenarioSelected (rc_tagFilter c) (rc_request c) sp sc")
    case False
    with Cons it show ?thesis by (auto simp: wanted_def)
  next
    case True
    obtain r c1 where e: "spec_scenario env cfg b sp row sc c = (r, c1)" by (metis surj_pair)
    let ?t = "tally_state (sc_state r) (t\<lparr>tl_total := tl_total t + 1\<rparr>)" and ?c = "applyScenarioOutcome r c1"
    have p: "progressed c [r] ?c"
      using spec_scenario_facts [OF e] by (blast intro: frame_progressed_trans progressed_outcome)
    then have same: "wanted ?c sp items = wanted c sp items"
      by (simp add: wanted_def progressed_def spec_frame_def)
    have "spec_loop env cfg b sp items (rs @ [r]) ?t ?c = ((rs', t'), c')"
      using Cons.prems(1) True it e by simp
    from Cons.IH [OF this tally_ok_step [OF Cons.prems(2)]] obtain new where
      new: "rs' = (rs @ [r]) @ new" "tally_ok t' rs'" "progressed ?c new c'"
        "map result_key new = map (item_key sp) (wanted c sp items)" "list_all sound_result new"
      by (auto simp: same)
    have "progressed c (r # new) c'" using progressed_trans [OF p new(3)] by simp
    then show ?thesis
      using new True it spec_scenario_facts [OF e]
      by (intro exI [of _ "r # new"]) (auto simp: wanted_def)
  qed
qed

text \<open>What a specification's result says of the scenarios it lists.\<close>

definition spec_result_ok :: "SpecResult \<Rightarrow> bool" where
  "spec_result_ok r = (let rs = sp_scenarioResults r in
     sp_totalScenarios r = int (length rs) \<and> sp_passedScenarios r = count_state (\<lambda>st. st = PASSED) rs \<and>
     sp_failedScenarios r = count_state failing rs \<and> sp_skippedScenarios r = count_state skipping rs \<and>
     list_all sound_result rs \<and> isTerminalState (sp_state r) \<and>
     (sp_state r = PASSED \<longrightarrow> sp_failedScenarios r = 0 \<and> 0 < sp_passedScenarios r) \<and>
     (sp_state r = SKIPPED \<or> sp_state r = CANCELLED \<longrightarrow> sp_failedScenarios r = 0 \<and> sp_passedScenarios r = 0))"

lemma spec_state_facts:
  assumes "spec_state env b t c = (st, c')" and "tally_ok t rs"
  shows "frame c c' \<and> isTerminalState st \<and>
    (st = PASSED \<longrightarrow> b \<and> count_state failing rs = 0 \<and> 0 < count_state (\<lambda>st. st = PASSED) rs) \<and>
    (st = SKIPPED \<or> st = CANCELLED \<longrightarrow> count_state failing rs = 0 \<and> count_state (\<lambda>st. st = PASSED) rs = 0)"
proof -
  obtain cn c1 where l: "load_cancelled env c = (cn, c1)" by (metis surj_pair)
  have f: "frame c c1" using keepsD [OF keeps_load [OF frame_refl] l] .
  define p f1 e k where "p = count_state (\<lambda>st. st = PASSED) rs" and "f1 = count_state (\<lambda>st. st = FAILED) rs"
    and "e = count_state (\<lambda>st. st = TEST_ERROR) rs" and "k = count_state skipping rs"
  note abbrev = p_def [symmetric] f1_def [symmetric] e_def [symmetric] k_def [symmetric]
  have n: "0 \<le> p" "0 \<le> f1" "0 \<le> e" "0 \<le> k" "p + (f1 + e) + k = int (length rs)"
    using count_state_split [of rs] by (simp_all add: p_def f1_def e_def k_def count_state_failing)
  have t: "tl_passed t = p" "tl_failed t = f1" "tl_errored t = e" "tl_skipped t = k" "tl_total t = p + (f1 + e) + k"
    using assms(2) by (simp_all add: tally_ok_def abbrev n(5))
  show ?thesis
  proof (cases b)
    case True
    with assms(1) l have "st = (if tl_total t = 0 then SKIPPED else aggregateState (tl_failed t) (tl_errored t) (tl_skipped t)
        (tl_total t) (cn \<and> tl_passed t + tl_failed t + tl_errored t = 0))" "c' = c1"
      by (auto simp: spec_state_def)
    with f True n(1-4) show ?thesis
      unfolding count_state_failing abbrev t by (auto simp: aggregateState_def split: if_splits)
  next
    case False
    with assms(1) n(1-4) show ?thesis
      unfolding count_state_failing abbrev by (auto simp: spec_state_def t split: if_splits)
  qed
qed

lemma executeSpec_facts:
  assumes "executeSpec env cfg sp c = (r, c')"
  shows "spec_result_ok r \<and> progressed c (sp_scenarioResults r) c' \<and>
    map result_key (sp_scenarioResults r) = map (item_key sp) (wanted c sp (spec_items sp))"
proof -
  obtain start c1 where o1: "observe (env_clock env) c = (start, c1)" by (metis surj_pair)
  let ?xc = "spec_context cfg sp c"
  obtain bh c3 where o3: "observe (env_hook env BeforeSpec ?xc) (spec_started sp c1) = (bh, c3)" by (metis surj_pair)
  have f3: "frame c c3"
    using keepsD [OF keeps_observe [OF frame_refl] o1] keepsD [OF keeps_observe o3, of c] by (simp add: spec_started_def)
  obtain rs t c4 where lp: "spec_loop env cfg (hr_success bh) sp (spec_items sp) [] zero_tally c3 = ((rs, t), c4)"
    by (metis surj_pair)
  from spec_loop_facts [OF lp] have k: "tally_ok t rs" "progressed c3 rs c4" "list_all sound_result rs"
    "map result_key rs = map (item_key sp) (wanted c3 sp (spec_items sp))" by auto
  have w: "wanted c3 sp (spec_items sp) = wanted c sp (spec_items sp)"
    using f3 by (simp add: wanted_def frame_def)
  obtain ah c5 where o5: "observe (env_hook env AfterSpec ?xc) c4 = (ah, c5)" by (metis surj_pair)
  have f5: "frame c4 c5" using keepsD [OF keeps_observe [OF frame_refl] o5] .
  obtain st c6 where st: "spec_state env (hr_success bh) t c5 = (st, c6)" by (metis surj_pair)
  from spec_state_facts [OF st k(1)] have f6: "frame c5 c6" and states: "isTerminalState st"
    "st = PASSED \<longrightarrow> count_state failing rs = 0 \<and> 0 < count_state (\<lambda>st. st = PASSED) rs"
    "st = SKIPPED \<or> st = CANCELLED \<longrightarrow> count_state failing rs = 0 \<and> count_state (\<lambda>st. st = PASSED) rs = 0" by auto
  obtain finish c7 where o7: "observe (env_clock env) c6 = (finish, c7)" by (metis surj_pair)
  have f7: "frame c6 c7" using keepsD [OF keeps_observe [OF frame_refl] o7] .
  from assms have r: "sp_scenarioResults r = rs" "sp_state r = st" "sp_totalScenarios r = tl_total t"
      "sp_passedScenarios r = tl_passed t" "sp_failedScenarios r = tl_failed t + tl_errored t"
      "sp_skippedScenarios r = tl_skipped t" and c': "c' = spec_completed r c7"
    unfolding executeSpec_def Let_def o1 prod.case o3 lp o5 st o7 by auto
  have "progressed c rs c7"
    using k(2) f3 f5 f6 f7 by (blast intro: frame_progressed_trans progressed_frame frame_trans)
  then have "progressed c rs c'" unfolding c' spec_completed_def by (rule progressed_frame) simp
  then show ?thesis
    using k states by (simp add: r w spec_result_ok_def tally_ok_def count_state_failing [symmetric])
qed

text \<open>
  C11. The result of a specification lists exactly the scenarios that the tag filter and the
  scenario names select, once for every row of the data table and in the order of the file;
  its counters count the states of those results, and they add up to the number of them.
\<close>

theorem executeSpec_lists_selected:
  "case executeSpec env cfg sp c of (r, c') \<Rightarrow>
     map (\<lambda>x. (sc_scenarioName x, sc_dataRowIndex x)) (sp_scenarioResults r) =
       map (\<lambda>(row, sc). (sn_name sc, row_index sp row))
         (filter (\<lambda>(row, sc). scenarioSelected (rc_tagFilter c) (rc_request c) sp sc) (spec_items sp)) \<and>
     sp_passedScenarios r = count_state (\<lambda>st. st = PASSED) (sp_scenarioResults r) \<and>
     sp_failedScenarios r = count_state failing (sp_scenarioResults r) \<and>
     sp_skippedScenarios r = count_state skipping (sp_scenarioResults r) \<and>
     sp_totalScenarios r = sp_passedScenarios r + sp_failedScenarios r + sp_skippedScenarios r \<and>
     sp_totalScenarios r = int (length (sp_scenarioResults r))"
proof -
  obtain r c' where e: "executeSpec env cfg sp c = (r, c')" by (metis surj_pair)
  from executeSpec_facts [OF e] show ?thesis
    by (simp add: e spec_result_ok_def Let_def count_state_split wanted_def item_key_def [abs_def] result_key_def [abs_def] case_prod_unfold)
qed

text \<open>
  C12. A specification is reported as passed only if some scenario of it passed and none
  failed, and then no step of a passed scenario ended failed, in error or cancelled.
\<close>

theorem executeSpec_passed:
  assumes "executeSpec env cfg sp c = (r, c')" and "sp_state r = PASSED"
  shows "0 < sp_passedScenarios r \<and> sp_failedScenarios r = 0 \<and>
    (\<forall>x \<in> set (sp_scenarioResults r). sc_state x = PASSED \<longrightarrow> list_all clean (all_step_results x))"
  using executeSpec_facts [OF assms(1)] assms(2)
  by (auto simp: spec_result_ok_def Let_def list_all_iff sound_result_def)

abbreviation sample_spec_run :: "(SpecResult \<times> nat run_ctx)" where
  "sample_spec_run \<equiv> executeSpec (script_env (\<lambda>_. PASSED) 100) default_EngineConfig
     (sample_spec [sample_scenario [sample_step ''pay'']]) (sample_ctx default_TestRequest)"

lemma executeSpec_passed_witness:
  "sp_state (fst sample_spec_run) = PASSED \<and> 0 < sp_passedScenarios (fst sample_spec_run)"
proof -
  have "sp_state (fst sample_spec_run) = PASSED" by code_simp
  with executeSpec_passed [of "script_env (\<lambda>_. PASSED) 100" default_EngineConfig
      "sample_spec [sample_scenario [sample_step ''pay'']]" "sample_ctx default_TestRequest"
      "fst sample_spec_run" "snd sample_spec_run"]
  show ?thesis by simp
qed

section \<open>A test, its specifications one after the other\<close>

definition spec_results :: "'w run_ctx \<Rightarrow> SpecResult list" where
  "spec_results c = tr_specResults (rc_result c)"

text \<open>Running specifications adds their results and counts their scenarios.\<close>

definition advanced :: "'w run_ctx \<Rightarrow> SpecResult list \<Rightarrow> 'w run_ctx \<Rightarrow> bool" where
  "advanced c srs c' =
     (spec_results c' = spec_results c @ srs \<and> list_all spec_result_ok srs \<and>
      rc_testId c' = rc_testId c \<and> rc_request c' = rc_request c \<and> rc_tagFilter c' = rc_tagFilter c \<and>
      rc_deadline c' = rc_deadline c \<and> (rc_failFast c \<longrightarrow> rc_failFast c') \<and> (rc_timedOut c \<longrightarrow> rc_timedOut c') \<and>
      ts_totalScenarios (rc_status c') = ts_totalScenarios (rc_status c) \<and>
      counted c (concat (map sp_scenarioResults srs)) c' \<and> fast c (concat (map sp_scenarioResults srs)) c')"

lemma advanced_trans: "advanced a rs b \<Longrightarrow> advanced b ss c \<Longrightarrow> advanced a (rs @ ss) c"
  by (auto simp: advanced_def counted_def fast_def intro: add_nonneg_pos add_pos_nonneg)

lemma frame_advanced: "frame c c' \<Longrightarrow> advanced c [] c'"
  by (auto simp: frame_def advanced_def counted_def fast_def counters_def spec_results_def)

lemma advanced_frame: "advanced a rs b \<Longrightarrow> frame b c \<Longrightarrow> advanced a rs c"
  using advanced_trans [OF _ frame_advanced] by fastforce

lemma frame_advanced_trans: "frame a b \<Longrightarrow> advanced b rs c \<Longrightarrow> advanced a rs c"
  using advanced_trans [OF frame_advanced] by fastforce

lemma progressed_advanced:
  "progressed c (sp_scenarioResults r) c' \<Longrightarrow> spec_result_ok r \<Longrightarrow> advanced c [r] (add_spec_result r c')"
  by (simp add: progressed_def spec_frame_def advanced_def counted_def fast_def add_spec_result_def spec_results_def)

lemma frame_add_error [simp]: "frame c (add_error m c1) \<longleftrightarrow> frame c c1"
  by (simp add: frame_def add_error_def)

lemma broken_spec_facts:
  "broken_spec env l c = (r, c') \<Longrightarrow> spec_result_ok r \<and> sp_scenarioResults r = [] \<and> sp_state r = TEST_ERROR \<and> frame c c'"
  by (auto simp: broken_spec_def Let_def spec_result_ok_def default_SpecResult_def)

lemma skipped_spec_facts:
  "skipped_spec env b l c = (r, c') \<Longrightarrow>
     spec_result_ok r \<and> sp_scenarioResults r = [] \<and> sp_state r \<in> {CANCELLED, SKIPPED} \<and> frame c c'"
  using keepsD [OF keeps_load [OF frame_refl], of env c]
  by (auto simp: skipped_spec_def spec_result_ok_def default_SpecResult_def split: prod.splits if_splits)

lemma run_loaded_facts:
  assumes "run_loaded env cfg l c = (r, c')"
  shows "spec_result_ok r \<and> progressed c (sp_scenarioResults r) c'"
proof -
  let ?c = "updateStatus (set_status (\<lambda>s. s\<lparr>ts_currentSpec := env_toRelative env (ls_path l),
      ts_currentScenario := [], ts_currentStep := []\<rparr>) c)"
  have f: "frame c ?c" by simp
  from assms consider sp where "executeSpec env cfg sp ?c = (r, c')" | "broken_spec env l ?c = (r, c')"
    by (auto simp: run_loaded_def Let_def split: option.splits if_splits)
  then show ?thesis
  proof cases
    case 1
    with f show ?thesis using executeSpec_facts [OF 1] by (blast intro: frame_progressed_trans)
  next
    case 2
    have "progressed c [] c'" using frame_trans [OF f] broken_spec_facts [OF 2] by (blast intro: frame_progressed)
    with broken_spec_facts [OF 2] show ?thesis by simp
  qed
qed

text \<open>How many scenario results a loaded specification can give.\<close>

definition selected_count :: "tag_filter \<Rightarrow> TestRequest \<Rightarrow> LoadedSpec \<Rightarrow> nat" where
  "selected_count tagFilter request l =
     (case ls_specification l of
        Some sp \<Rightarrow> if ls_errors l = []
          then row_count sp * length (filter (scenarioSelected tagFilter request sp) (sf_scenarios sp)) else 0
      | None \<Rightarrow> 0)"

lemma wanted_count:
  "length (wanted c sp (spec_items sp)) =
     row_count sp * length (filter (scenarioSelected (rc_tagFilter c) (rc_request c) sp) (sf_scenarios sp))"
proof -
  have "length (filter (\<lambda>(row, sc). P sc) (concat (map (\<lambda>row. map (\<lambda>sc. (row, sc)) scs) rows)))
      = length rows * length (filter P scs)" for P and rows :: "nat list" and scs :: "Scenario list"
    by (induction rows) (simp_all add: filter_map o_def)
  then show ?thesis by (simp add: wanted_def spec_items_def)
qed

lemma run_loaded_count:
  assumes "run_loaded env cfg l c = (r, c')"
  shows "length (sp_scenarioResults r) = selected_count (rc_tagFilter c) (rc_request c) l"
proof -
  let ?c = "updateStatus (set_status (\<lambda>s. s\<lparr>ts_currentSpec := env_toRelative env (ls_path l),
      ts_currentScenario := [], ts_currentStep := []\<rparr>) c)"
  have f: "frame c ?c" by simp
  show ?thesis
  proof (cases "loaded_ok l")
    case True
    then obtain sp where sp: "ls_specification l = Some sp" "ls_errors l = []" by (auto simp: loaded_ok_def)
    with assms have e: "executeSpec env cfg sp ?c = (r, c')" by (simp add: run_loaded_def Let_def)
    have "length (map result_key (sp_scenarioResults r)) = length (map (item_key sp) (wanted ?c sp (spec_items sp)))"
      using executeSpec_facts [OF e] by simp
    then show ?thesis
      using f sp by (simp add: wanted_count selected_count_def frame_def)
  next
    case False
    with assms have "broken_spec env l ?c = (r, c')"
      by (auto simp: run_loaded_def Let_def loaded_ok_def split: option.splits)
    from broken_spec_facts [OF this] False show ?thesis
      by (auto simp: selected_count_def loaded_ok_def split: option.splits)
  qed
qed

definition within_selected :: "'w run_ctx \<Rightarrow> LoadedSpec list \<Rightarrow> SpecResult list \<Rightarrow> bool" where
  "within_selected c ls srs = list_all2 (\<lambda>l r. length (sp_scenarioResults r) \<le> selected_count (rc_tagFilter c) (rc_request c) l) ls srs"

lemma sequential_loop_facts:
  "\<exists>srs. advanced c srs (sequential_loop env cfg b ls p f c) \<and> within_selected c ls srs"
proof (induction ls arbitrary: p f c)
  case Nil
  have "advanced c [] c" by (rule frame_advanced) simp
  then show ?case by (auto simp: within_selected_def)
next
  case (Cons l ls)
  obtain halt c1 where s: "stop_or_timeout env False c = (halt, c1)" by (metis surj_pair)
  have f1: "frame c c1" using keepsD [OF keeps_stop_or_timeout [OF frame_refl] s] .
  then have same: "rc_tagFilter c1 = rc_tagFilter c" "rc_request c1 = rc_request c" by (simp_all add: frame_def)
  have ext: "\<exists>srs. advanced c srs c' \<and> within_selected c (l # ls) srs"
    if r: "advanced c1 [r] c2" "length (sp_scenarioResults r) \<le> selected_count (rc_tagFilter c) (rc_request c) l"
      and rest: "advanced c2 srs c'" "within_selected c2 ls srs" for r c2 srs c'
  proof -
    from r rest have "advanced c (r # srs) c'"
      using advanced_trans [OF frame_advanced_trans [OF f1 r(1)] rest(1)] by simp
    moreover have "within_selected c (l # ls) (r # srs)"
      using r rest(2) same by (simp add: within_selected_def advanced_def)
    ultimately show ?thesis by blast
  qed
  show ?case
  proof (cases "halt \<or> \<not> b")
    case True
    obtain sr c2 where k: "skipped_spec env b l c1 = (sr, c2)" by (metis surj_pair)
    have eq: "sequential_loop env cfg b (l # ls) p f c = sequential_loop env cfg b ls p f (add_spec_result sr c2)"
      using True s k by simp
    have "progressed c1 (sp_scenarioResults sr) c2" using skipped_spec_facts [OF k] by (auto intro: frame_progressed)
    then have "advanced c1 [sr] (add_spec_result sr c2)" using skipped_spec_facts [OF k] by (blast intro: progressed_advanced)
    moreover have "length (sp_scenarioResults sr) \<le> selected_count (rc_tagFilter c) (rc_request c) l"
      using skipped_spec_facts [OF k] by simp
    ultimately show ?thesis unfolding eq using Cons.IH [where p = p and f = f and c = "add_spec_result sr c2"] ext by blast
  next
    case False
    obtain sr c2 where k: "run_loaded env cfg l c1 = (sr, c2)" by (metis surj_pair)
    let ?p = "p + (if spec_passed sr then 1 else 0)" and ?f = "f + (if spec_failed sr then 1 else 0)"
    let ?c = "updateStatus (set_status (\<lambda>s. s\<lparr>ts_executedSpecs := ts_executedSpecs s + 1, ts_passedSpecs := ?p,
        ts_failedSpecs := ?f\<rparr>) (add_spec_result sr c2))"
    have eq: "sequential_loop env cfg b (l # ls) p f c = sequential_loop env cfg b ls ?p ?f ?c"
      using False s k by (simp add: Let_def)
    have "frame (add_spec_result sr c2) ?c"
      unfolding frame_updateStatus by (simp add: set_status_def frame_def counters_def)
    moreover have "advanced c1 [sr] (add_spec_result sr c2)"
      using run_loaded_facts [OF k] by (blast intro: progressed_advanced)
    ultimately have "advanced c1 [sr] ?c" by (rule advanced_frame [rotated])
    moreover have "length (sp_scenarioResults sr) \<le> selected_count (rc_tagFilter c) (rc_request c) l"
      using run_loaded_count [OF k] by (simp add: same)
    ultimately show ?thesis unfolding eq using Cons.IH [where p = ?p and f = ?f and c = ?c] ext by blast
  qed
qed

lemma executeSequential_facts:
  "\<exists>srs. advanced c srs (executeSequential env cfg ls c) \<and> within_selected c ls srs"
proof -
  obtain bh c1 where o1: "observe (env_hook env BeforeSuite (suite_context cfg c)) c = (bh, c1)" by (metis surj_pair)
  let ?c2 = "if hr_success bh then c1 else add_error (''before_suite hook failed: '' @ hr_errorMessage bh) c1"
  let ?c3 = "sequential_loop env cfg (hr_success bh) ls 0 0 ?c2"
  obtain ah c4 where o4: "observe (env_hook env AfterSuite (suite_context cfg c)) ?c3 = (ah, c4)" by (metis surj_pair)
  let ?c5 = "if hr_success ah then c4 else add_error (''after_suite hook failed: '' @ hr_errorMessage ah) c4"
  have eq: "executeSequential env cfg ls c = ?c5"
    unfolding executeSequential_def Let_def o1 prod.case o4 by (rule refl)
  have f2: "frame c ?c2" using keepsD [OF keeps_observe [OF frame_refl] o1] by simp
  obtain srs where srs: "advanced ?c2 srs ?c3" "within_selected ?c2 ls srs" using sequential_loop_facts by blast
  have "frame ?c3 ?c5" using keepsD [OF keeps_observe [OF frame_refl] o4] by simp
  with f2 srs(1) have "advanced c srs ?c5" by (blast intro: frame_advanced_trans advanced_frame)
  moreover have "within_selected c ls srs" using srs(2) f2 by (simp add: within_selected_def frame_def)
  ultimately show ?thesis unfolding eq by blast
qed

end
