(* ===== verification/EngineParallel.thy ===== *)
theory EngineParallel
  imports EngineSpecFacts
begin

text \<open>
  \<open>ExecutionEngine::executeParallel\<close> (\<open>src/src/engine/execution_engine.cpp\<close>): the scenarios of
  all specifications are dealt to the streams in turn, each stream runs its share grouped by
  specification, and the collected results are put back in order. The threads interleave: a
  schedule, any list of stream numbers, says which stream makes its next move; a move is a
  hook with its report, or a scenario with the bookkeeping that follows it, and takes place
  as a whole. What other threads do within a scenario is still the environment's choice.
\<close>

section \<open>Dealing the work\<close>

record work =
  wk_spec :: nat
  wk_scenario :: Scenario
  wk_row :: int
  wk_order :: nat

definition add_work :: "tag_filter \<Rightarrow> TestRequest \<Rightarrow> nat \<Rightarrow> Specification \<Rightarrow> work list \<Rightarrow> nat \<times> Scenario \<Rightarrow> work list" where
  "add_work tagFilter request i sp items it =
     (if scenarioSelected tagFilter request sp (snd it)
      then items @ [\<lparr>wk_spec = i, wk_scenario = snd it, wk_row = row_index sp (fst it), wk_order = length items\<rparr>]
      else items)"

fun work_items :: "tag_filter \<Rightarrow> TestRequest \<Rightarrow> nat \<Rightarrow> LoadedSpec list \<Rightarrow> work list \<Rightarrow> work list" where
  "work_items tagFilter request i [] items = items"
| "work_items tagFilter request i (l # ls) items =
     work_items tagFilter request (Suc i) ls
       (case ls_specification l of
          Some sp \<Rightarrow> if ls_errors l = [] then foldl (add_work tagFilter request i sp) items (spec_items sp) else items
        | None \<Rightarrow> items)"

text \<open>The results as prepared before the streams start; a specification that did not load is in error.\<close>

definition prepared_result :: "'w environment \<Rightarrow> LoadedSpec \<Rightarrow> SpecResult" where
  "prepared_result env l =
     (let r = default_SpecResult\<lparr>sp_specFile := env_toRelative env (ls_path l), sp_specName := loaded_name env l,
                sp_tags := (case ls_specification l of Some sp \<Rightarrow> sf_tags sp | None \<Rightarrow> [])\<rparr>
      in if loaded_ok l then r else r\<lparr>sp_state := TEST_ERROR, sp_errorMessage := load_error l\<rparr>)"

definition report_broken :: "'w environment \<Rightarrow> LoadedSpec \<Rightarrow> 'w run_ctx \<Rightarrow> 'w run_ctx" where
  "report_broken env l ctx =
     (if loaded_ok l then ctx
      else let r = prepared_result env l in
        publish ''spec.completed'' [(''spec'', sp_specFile r), (''state'', ''error''), (''error'', sp_errorMessage r)]
          (add_error (sp_errorMessage r) ctx))"

text \<open>\<open>buckets[i % n].push_back(items[i])\<close>\<close>

definition deal :: "nat \<Rightarrow> 'a list \<Rightarrow> 'a list list" where
  "deal n items = foldl (\<lambda>bs (i, w). bs[i mod n := bs ! (i mod n) @ [w]]) (replicate n []) (enumerate 0 items)"

definition by_spec :: "work list \<Rightarrow> (nat, work list) omap" where
  "by_spec ws = foldl (\<lambda>m w. omap_put (wk_spec w)
      ((case omap_get m (wk_spec w) of Some vs \<Rightarrow> vs | None \<Rightarrow> []) @ [w]) m) [] ws"

section \<open>What a stream does\<close>

datatype action = SuiteBegin | SpecBegin nat nat | RunWork work | SpecEnd nat | SuiteEnd

record stream =
  sm_actions :: "action list"
  sm_suiteOk :: bool
  sm_specOk :: bool

record 'w par =
  pa_ctx :: "'w run_ctx"
  pa_collected :: "(nat \<times> ScenarioResult) list list"
  pa_hookErrors :: "string list"

definition spec_actions :: "nat \<times> work list \<Rightarrow> action list" where
  "spec_actions g = SpecBegin (fst g) (length (snd g)) # map RunWork (snd g) @ [SpecEnd (fst g)]"

definition stream_actions :: "LoadedSpec list \<Rightarrow> work list \<Rightarrow> action list" where
  "stream_actions loaded bucket =
     SuiteBegin # concat (map spec_actions
       (filter (\<lambda>g. ls_specification (loaded ! fst g) \<noteq> None) (by_spec bucket))) @ [SuiteEnd]"

definition stream_name :: "string \<Rightarrow> nat \<Rightarrow> string \<Rightarrow> string" where
  "stream_name what k message = what @ '' hook failed on stream '' @ dec_of_nat k @ '': '' @ message"

definition suite_begin :: "'w environment \<Rightarrow> EngineConfig \<Rightarrow> nat \<Rightarrow> stream \<Rightarrow> 'w par \<Rightarrow> stream \<times> 'w par" where
  "suite_begin env cfg k s p =
     (let (h, ctx1) = observe (env_hook env BeforeSuite (suite_context cfg (pa_ctx p))) (pa_ctx p);
          ctx2 = (if hr_success h then ctx1 else add_error (stream_name ''before_suite'' k (hr_errorMessage h)) ctx1)
      in (s\<lparr>sm_suiteOk := hr_success h\<rparr>, p\<lparr>pa_ctx := ctx2\<rparr>))"

definition stream_spec_started :: "nat \<Rightarrow> nat \<Rightarrow> Specification \<Rightarrow> 'w run_ctx \<Rightarrow> 'w run_ctx" where
  "stream_spec_started k n sp ctx =
     publish ''spec.started'' [(''spec'', sf_fileName sp), (''name'', sf_heading sp), (''stream'', dec_of_nat k),
       (''scenarios'', dec_of_nat n), (''tags'', joinTags (sf_tags sp))]
       (set_status (\<lambda>s. s\<lparr>ts_currentSpec := sf_fileName sp\<rparr>) ctx)"

definition spec_begin :: "'w environment \<Rightarrow> EngineConfig \<Rightarrow> nat \<Rightarrow> nat \<Rightarrow> nat \<Rightarrow> Specification \<Rightarrow> stream \<Rightarrow> 'w par
    \<Rightarrow> stream \<times> 'w par" where
  "spec_begin env cfg k i n sp s p =
     (let (h, ctx1) = observe (env_hook env BeforeSpec (spec_context cfg sp (pa_ctx p)))
                        (stream_spec_started k n sp (pa_ctx p));
          es = pa_hookErrors p;
          es1 = (if \<not> hr_success h \<and> es ! i = []
                 then es[i := ''before_spec hook failed: '' @ hr_errorMessage h] else es)
      in (s\<lparr>sm_specOk := hr_success h\<rparr>, p\<lparr>pa_ctx := ctx1, pa_hookErrors := es1\<rparr>))"

text \<open>A scenario that is not run because the suite's hook failed on this stream.\<close>

definition suite_skipped :: "Specification \<Rightarrow> work \<Rightarrow> ScenarioResult" where
  "suite_skipped sp w = default_ScenarioResult\<lparr>sc_scenarioName := sn_name (wk_scenario w),
     sc_tags := effectiveTags sp (wk_scenario w), sc_lineNumber := sn_lineNumber (wk_scenario w),
     sc_dataRowIndex := wk_row w, sc_state := SKIPPED,
     sc_errorMessage := ''Skipped because before_suite hook failed''\<rparr>"

definition work_result :: "'w environment \<Rightarrow> EngineConfig \<Rightarrow> nat \<Rightarrow> Specification \<Rightarrow> work \<Rightarrow> stream \<Rightarrow> 'w run_ctx
    \<Rightarrow> ScenarioResult \<times> 'w run_ctx" where
  "work_result env cfg k sp w s ctx =
     (if \<not> sm_suiteOk s then (suite_skipped sp w, ctx)
      else let (skip, ctx1) = stop_or_timeout env (\<not> sm_specOk s) ctx in
        if skip
        then skipped_scenario env ''Skipped due to fail_fast'' (sm_specOk s) sp (wk_scenario w) (wk_row w) [] ctx1
        else executeScenario env cfg (int k) sp (wk_scenario w) (wk_row w)
               (set_status (\<lambda>s. s\<lparr>ts_currentScenario := sn_name (wk_scenario w)\<rparr>) ctx1))"

definition collect :: "work \<Rightarrow> ScenarioResult \<Rightarrow> 'w par \<Rightarrow> 'w par" where
  "collect w sr p =
     (let cs = pa_collected p; i = wk_spec w in p\<lparr>pa_collected := cs[i := cs ! i @ [(wk_order w, sr)]]\<rparr>)"

definition run_work :: "'w environment \<Rightarrow> EngineConfig \<Rightarrow> nat \<Rightarrow> Specification \<Rightarrow> work \<Rightarrow> stream \<Rightarrow> 'w par \<Rightarrow> 'w par" where
  "run_work env cfg k sp w s p =
     (let (sr, ctx1) = work_result env cfg k sp w s (pa_ctx p)
      in collect w sr (p\<lparr>pa_ctx := applyScenarioOutcome sr ctx1\<rparr>))"

definition spec_end :: "'w environment \<Rightarrow> EngineConfig \<Rightarrow> nat \<Rightarrow> Specification \<Rightarrow> 'w par \<Rightarrow> 'w par" where
  "spec_end env cfg i sp p =
     (let (h, ctx1) = observe (env_hook env AfterSpec (spec_context cfg sp (pa_ctx p))) (pa_ctx p);
          es = pa_hookErrors p
      in p\<lparr>pa_ctx := ctx1,
           pa_hookErrors := (if hr_success h then es
             else es[i := add_line (es ! i) (''after_spec hook failed: '' @ hr_errorMessage h)])\<rparr>)"

definition suite_end :: "'w environment \<Rightarrow> EngineConfig \<Rightarrow> nat \<Rightarrow> 'w par \<Rightarrow> 'w par" where
  "suite_end env cfg k p =
     (let (h, ctx1) = observe (env_hook env AfterSuite (suite_context cfg (pa_ctx p))) (pa_ctx p)
      in p\<lparr>pa_ctx := if hr_success h then ctx1 else add_error (stream_name ''after_suite'' k (hr_errorMessage h)) ctx1\<rparr>)"

text \<open>
  One move. Every specification a stream works on was loaded, so \<open>the\<close> is defined there
  (\<open>stream_actions\<close> drops the others, as the code does).
\<close>

fun do_action :: "'w environment \<Rightarrow> EngineConfig \<Rightarrow> LoadedSpec list \<Rightarrow> nat \<Rightarrow> action \<Rightarrow> stream \<Rightarrow> 'w par
    \<Rightarrow> stream \<times> 'w par" where
  "do_action env cfg loaded k SuiteBegin s p = suite_begin env cfg k s p"
| "do_action env cfg loaded k (SpecBegin i n) s p =
     (if sm_suiteOk s then spec_begin env cfg k i n (the (ls_specification (loaded ! i))) s p else (s, p))"
| "do_action env cfg loaded k (RunWork w) s p =
     (s, run_work env cfg k (the (ls_specification (loaded ! wk_spec w))) w s p)"
| "do_action env cfg loaded k (SpecEnd i) s p =
     (s, if sm_suiteOk s then spec_end env cfg i (the (ls_specification (loaded ! i))) p else p)"
| "do_action env cfg loaded k SuiteEnd s p = (s, suite_end env cfg k p)"

text \<open>A move of stream \<open>k\<close>, if it has one left.\<close>

definition par_step :: "'w environment \<Rightarrow> EngineConfig \<Rightarrow> LoadedSpec list \<Rightarrow> nat \<Rightarrow> stream list \<times> 'w par
    \<Rightarrow> stream list \<times> 'w par" where
  "par_step env cfg loaded k st =
     (if k < length (fst st)
      then case sm_actions (fst st ! k) of
             [] \<Rightarrow> st
           | a # as \<Rightarrow> let (s, p) = do_action env cfg loaded k a (fst st ! k) (snd st)
                       in ((fst st)[k := s\<lparr>sm_actions := as\<rparr>], p)
      else st)"

definition par_run :: "'w environment \<Rightarrow> EngineConfig \<Rightarrow> LoadedSpec list \<Rightarrow> nat list \<Rightarrow> stream list \<times> 'w par
    \<Rightarrow> stream list \<times> 'w par" where
  "par_run env cfg loaded schedule st = foldl (\<lambda>st k. par_step env cfg loaded k st) st schedule"

text \<open>Joining the threads: what the schedule left is run to its end.\<close>

definition remaining :: "stream list \<Rightarrow> nat list" where
  "remaining ss = concat (map (\<lambda>k. replicate (length (sm_actions (ss ! k))) k) [0..<length ss])"

definition par_join :: "'w environment \<Rightarrow> EngineConfig \<Rightarrow> LoadedSpec list \<Rightarrow> nat list \<Rightarrow> stream list \<times> 'w par
    \<Rightarrow> 'w par" where
  "par_join env cfg loaded schedule st =
     (let st1 = par_run env cfg loaded schedule st
      in snd (par_run env cfg loaded (remaining (fst st1)) st1))"

section \<open>Putting the results together\<close>

definition max_duration :: "ScenarioResult list \<Rightarrow> seconds" where
  "max_duration rs = foldl (\<lambda>d r. if sc_duration r > d then sc_duration r else d) 0 rs"

definition merged_state :: "'w environment \<Rightarrow> string \<Rightarrow> tally \<Rightarrow> 'w run_ctx \<Rightarrow> TestState \<times> 'w run_ctx" where
  "merged_state env hookError t ctx =
     (if hookError \<noteq> [] then (TEST_ERROR, ctx)
      else if tl_total t = 0 then (SKIPPED, ctx)
      else let (c, ctx1) = load_cancelled env ctx
           in (aggregateState (tl_failed t) (tl_errored t) (tl_skipped t) (tl_total t)
                 (c \<and> tl_passed t + tl_failed t + tl_errored t = 0), ctx1))"

definition merge_spec :: "'w environment \<Rightarrow> SpecResult \<Rightarrow> (nat \<times> ScenarioResult) list \<Rightarrow> string \<Rightarrow> 'w run_ctx
    \<Rightarrow> SpecResult \<times> 'w run_ctx" where
  "merge_spec env r collected hookError ctx =
     (if sp_state r = TEST_ERROR then (r, ctx)
      else let rs = map snd (sort_key fst collected);
               t = foldl (\<lambda>t sr. tally_state (sc_state sr) (t\<lparr>tl_total := tl_total t + 1\<rparr>)) zero_tally rs;
               (st, ctx1) = merged_state env hookError t ctx;
               r1 = r\<lparr>sp_scenarioResults := rs, sp_totalScenarios := tl_total t, sp_passedScenarios := tl_passed t,
                      sp_failedScenarios := tl_failed t + tl_errored t, sp_skippedScenarios := tl_skipped t,
                      sp_errorMessage := (if hookError \<noteq> [] then hookError else sp_errorMessage r),
                      sp_state := st, sp_duration := max_duration rs\<rparr>
           in (r1, spec_completed r1 ctx1))"

fun merge_specs :: "'w environment \<Rightarrow> (SpecResult \<times> (nat \<times> ScenarioResult) list \<times> string) list \<Rightarrow> int \<Rightarrow> int
    \<Rightarrow> 'w run_ctx \<Rightarrow> (int \<times> int) \<times> 'w run_ctx" where
  "merge_specs env [] passedSpecs failedSpecs ctx = ((passedSpecs, failedSpecs), ctx)"
| "merge_specs env ((r, collected, hookError) # rest) passedSpecs failedSpecs ctx =
     (let (sr, ctx1) = merge_spec env r collected hookError ctx
      in merge_specs env rest (passedSpecs + (if spec_passed sr then 1 else 0))
           (failedSpecs + (if spec_failed sr then 1 else 0)) (add_spec_result sr ctx1))"

definition start_streams :: "LoadedSpec list \<Rightarrow> work list list \<Rightarrow> stream list" where
  "start_streams loaded buckets =
     map (\<lambda>b. \<lparr>sm_actions = stream_actions loaded b, sm_suiteOk = True, sm_specOk = True\<rparr>) buckets"

definition run_streams :: "'w environment \<Rightarrow> EngineConfig \<Rightarrow> LoadedSpec list \<Rightarrow> nat \<Rightarrow> nat list \<Rightarrow> 'w run_ctx \<Rightarrow> 'w par" where
  "run_streams env cfg loaded n schedule ctx =
     (let items = work_items (rc_tagFilter ctx) (rc_request ctx) 0 loaded [];
          ctx1 = foldl (\<lambda>c l. report_broken env l c) ctx loaded
      in par_join env cfg loaded schedule
           (start_streams loaded (deal n items),
            \<lparr>pa_ctx = ctx1, pa_collected = replicate (length loaded) [], pa_hookErrors = replicate (length loaded) []\<rparr>))"

definition executeParallel :: "'w environment \<Rightarrow> EngineConfig \<Rightarrow> LoadedSpec list \<Rightarrow> nat \<Rightarrow> nat list \<Rightarrow> 'w run_ctx
    \<Rightarrow> 'w run_ctx" where
  "executeParallel env cfg loaded n schedule ctx =
     (let p = run_streams env cfg loaded n schedule ctx;
          ((passed, failed), ctx1) = merge_specs env
            (zip (map (prepared_result env) loaded) (zip (pa_collected p) (pa_hookErrors p))) 0 0 (pa_ctx p)
      in updateStatus (set_status (\<lambda>s. s\<lparr>ts_executedSpecs := int (length loaded), ts_passedSpecs := passed,
           ts_failedSpecs := failed\<rparr>) ctx1))"

end
