(* ===== verification/EngineParallelFacts.thy ===== *)
theory EngineParallelFacts
  imports EngineParallel "HOL-Library.Multiset"
begin

text \<open>
  Whatever the interleaving of the streams, the merged results of a parallel run list the
  same scenarios in the same order as a run in one stream
  (\<open>ExecutionEngine::executeParallel\<close>, \<open>src/src/engine/execution_engine.cpp\<close>). The invariant
  is that for every specification what has been collected and what is still to be done
  make up its share of the work.
\<close>

section \<open>The work of each specification\<close>

type_synonym work_key = "nat \<times> string \<times> int"

definition work_key :: "work \<Rightarrow> work_key" where
  "work_key w = (wk_order w, sn_name (wk_scenario w), wk_row w)"

definition collected_key :: "nat \<times> ScenarioResult \<Rightarrow> work_key" where
  "collected_key c = (fst c, result_key (snd c))"

definition works_for :: "nat \<Rightarrow> work list \<Rightarrow> work_key list" where
  "works_for i ws = map work_key (filter (\<lambda>w. wk_spec w = i) ws)"

definition action_works :: "action list \<Rightarrow> work list" where
  "action_works as = concat (map (\<lambda>a. case a of RunWork w \<Rightarrow> [w] | _ \<Rightarrow> []) as)"

lemma action_works_simps [simp]:
  "action_works [] = []" "action_works (a # as) = (case a of RunWork w \<Rightarrow> [w] | _ \<Rightarrow> []) @ action_works as"
  "action_works (as @ bs) = action_works as @ action_works bs"
  "action_works (map RunWork ws) = ws"
  by (simp_all add: action_works_def o_def)

lemma action_works_concat [simp]: "action_works (concat ass) = concat (map action_works ass)"
  by (induction ass) simp_all

lemma works_for_simps [simp]:
  "works_for i [] = []" "works_for i (w # ws) = (if wk_spec w = i then [work_key w] else []) @ works_for i ws"
  "works_for i (ws @ vs) = works_for i ws @ works_for i vs"
  by (simp_all add: works_for_def)

lemma works_for_mset: "mset ws = mset vs \<Longrightarrow> mset (works_for i ws) = mset (works_for i vs)"
  unfolding works_for_def by (metis mset_filter mset_map)

section \<open>Dealing and grouping keep the work\<close>

lemma mset_concat_update:
  "i < length bs \<Longrightarrow> mset (concat (bs[i := bs ! i @ [w]])) = add_mset w (mset (concat bs))"
proof (induction bs arbitrary: i)
  case (Cons b bs)
  then show ?case by (cases i) auto
qed simp

lemma mset_deal: "0 < n \<Longrightarrow> mset (concat (deal n items)) = mset items"
proof -
  assume n: "0 < n"
  have "length bs = n \<Longrightarrow> mset (concat (foldl (\<lambda>bs (i, w). bs[i mod n := bs ! (i mod n) @ [w]]) bs (enumerate j ws)))
      = mset (concat bs) + mset ws" for bs :: "'a list list" and j ws
  proof (induction ws arbitrary: bs j)
    case (Cons w ws)
    then show ?case using n by (simp add: mset_concat_update)
  qed simp
  moreover have "concat (replicate n []) = ([] :: 'a list)" by (induction n) auto
  ultimately show ?thesis by (simp add: deal_def)
qed

lemma omap_put_values:
  "omap_ok m \<Longrightarrow> mset (concat (map snd (omap_put k ((case omap_get m k of Some vs \<Rightarrow> vs | None \<Rightarrow> []) @ [w]) m)))
     = add_mset w (mset (concat (map snd m)))"
proof (induction m)
  case (Cons e m)
  obtain k' v' where e: "e = (k', v')" by (cases e)
  from Cons.prems have "omap_ok m" "\<forall>x \<in> set (omap_keys m). k' < x" by (auto simp: omap_ok_def e)
  then have "k < k' \<Longrightarrow> map_of m k = None" by (metis (no_types, lifting) map_of_eq_None_iff not_less_iff_gr_or_eq order_less_trans set_map)
  with Cons.IH [OF \<open>omap_ok m\<close>] show ?case by (auto simp: e)
qed simp

lemma by_spec_facts: "omap_ok (by_spec ws) \<and> mset (concat (map snd (by_spec ws))) = mset ws"
proof -
  let ?f = "\<lambda>m w. omap_put (wk_spec w) ((case omap_get m (wk_spec w) of Some vs \<Rightarrow> vs | None \<Rightarrow> []) @ [w]) m"
  have "omap_ok m \<Longrightarrow> omap_ok (foldl ?f m ws) \<and> mset (concat (map snd (foldl ?f m ws))) = mset (concat (map snd m)) + mset ws"
    for m :: "(nat, work list) omap"
    by (induction ws arbitrary: m) (simp_all add: omap_ok_put omap_put_values)
  then show ?thesis by (simp add: by_spec_def)
qed

text \<open>A group holds the work of its own specification.\<close>

definition grouped :: "work set \<Rightarrow> (nat, work list) omap \<Rightarrow> bool" where
  "grouped A m = (\<forall>g \<in> set m. \<forall>w \<in> set (snd g). wk_spec w = fst g \<and> w \<in> A)"

lemma set_omap_put: "g \<in> set (omap_put k v m) \<Longrightarrow> g = (k, v) \<or> g \<in> set m"
  by (induction k v m rule: omap_put.induct) (auto split: if_splits)

lemma grouped_put:
  assumes "grouped A m"
  shows "grouped (insert w A) (omap_put (wk_spec w) ((case omap_get m (wk_spec w) of Some vs \<Rightarrow> vs | None \<Rightarrow> []) @ [w]) m)"
  unfolding grouped_def
proof (intro ballI)
  fix g x
  assume g: "g \<in> set (omap_put (wk_spec w) ((case omap_get m (wk_spec w) of Some vs \<Rightarrow> vs | None \<Rightarrow> []) @ [w]) m)"
    and x: "x \<in> set (snd g)"
  from set_omap_put [OF g] consider "g \<in> set m"
    | vs where "map_of m (wk_spec w) = Some vs" "g = (wk_spec w, vs @ [w])" | "g = (wk_spec w, [w])"
    by (cases "map_of m (wk_spec w)") auto
  then show "wk_spec x = fst g \<and> x \<in> insert w A"
  proof cases
    case 1
    with assms x show ?thesis by (auto simp: grouped_def)
  next
    case (2 vs)
    from assms map_of_SomeD [OF 2(1)] have "\<forall>y \<in> set vs. wk_spec y = wk_spec w \<and> y \<in> A" by (auto simp: grouped_def)
    with 2(2) x show ?thesis by auto
  qed (use x in simp)
qed

lemma by_spec_groups: "grouped (set ws) (by_spec ws)"
proof -
  have "grouped A m \<Longrightarrow> grouped (A \<union> set ws) (foldl (\<lambda>m w. omap_put (wk_spec w)
      ((case omap_get m (wk_spec w) of Some vs \<Rightarrow> vs | None \<Rightarrow> []) @ [w]) m) m ws)" for A m
  proof (induction ws arbitrary: m A)
    case (Cons w ws)
    from Cons.IH [OF grouped_put [OF Cons.prems, of w]] show ?case by simp
  qed simp
  moreover have "grouped {} []" by (simp add: grouped_def)
  ultimately have "grouped ({} \<union> set ws) (by_spec ws)" unfolding by_spec_def .
  then show ?thesis by simp
qed

definition known_specs :: "LoadedSpec list \<Rightarrow> work list \<Rightarrow> bool" where
  "known_specs loaded ws = (\<forall>w \<in> set ws. wk_spec w < length loaded \<and> ls_specification (loaded ! wk_spec w) \<noteq> None)"

lemma stream_works:
  assumes "known_specs loaded ws"
  shows "mset (action_works (stream_actions loaded ws)) = mset ws"
proof -
  have w: "action_works (spec_actions g) = snd g" for g by (simp add: spec_actions_def)
  have "concat (map snd (filter (\<lambda>g. ls_specification (loaded ! fst g) \<noteq> None) gs)) = concat (map snd gs)"
    if "grouped (set ws) gs" for gs
    using that assms
  proof (induction gs)
    case (Cons g gs)
    then have "ls_specification (loaded ! fst g) \<noteq> None \<or> snd g = []" "grouped (set ws) gs"
      by (cases "snd g"; auto simp: known_specs_def grouped_def)+
    with Cons show ?case by auto
  qed simp
  from this [of "by_spec ws"] by_spec_groups by_spec_facts [of ws]
  show ?thesis by (simp add: stream_actions_def o_def w)
qed

section \<open>The invariant of the streams\<close>

definition pending :: "stream list \<Rightarrow> work list" where
  "pending ss = concat (map (\<lambda>s. action_works (sm_actions s)) ss)"

definition share :: "nat \<Rightarrow> stream list \<times> 'w par \<Rightarrow> work_key multiset" where
  "share i st = mset (map collected_key (pa_collected (snd st) ! i)) + mset (works_for i (pending (fst st)))"

definition par_inv :: "LoadedSpec list \<Rightarrow> (nat \<Rightarrow> work_key multiset) \<Rightarrow> 'w run_ctx \<Rightarrow> stream list \<times> 'w par \<Rightarrow> bool" where
  "par_inv loaded m c st =
     (length (pa_collected (snd st)) = length loaded \<and> length (pa_hookErrors (snd st)) = length loaded \<and>
      known_specs loaded (pending (fst st)) \<and> (\<forall>i < length loaded. share i st = m i) \<and>
      (\<forall>x \<in> set (concat (pa_collected (snd st))). sound_result (snd x)) \<and>
      (\<exists>rs. progressed c rs (pa_ctx (snd st)) \<and> mset rs = mset (map snd (concat (pa_collected (snd st))))))"

text \<open>Moves that run no scenario.\<close>

definition quiet :: "'w par \<Rightarrow> 'w par \<Rightarrow> bool" where
  "quiet p p' = (frame (pa_ctx p) (pa_ctx p') \<and> pa_collected p' = pa_collected p \<and>
     length (pa_hookErrors p') = length (pa_hookErrors p))"

lemma frame_currentSpec [simp]: "frame c (set_status (\<lambda>s. s\<lparr>ts_currentSpec := x\<rparr>) c1) \<longleftrightarrow> frame c c1"
  by (simp add: set_status_def frame_def counters_def)

lemma hook_frame: "observe f c1 = (h, c2) \<Longrightarrow> frame c c1 \<Longrightarrow> frame c c2"
  by (rule keepsD [OF keeps_observe])

lemma quiet_suite_begin: "quiet p (snd (suite_begin env cfg k s p))"
proof -
  obtain h c where o: "observe (env_hook env BeforeSuite (suite_context cfg (pa_ctx p))) (pa_ctx p) = (h, c)" by (metis surj_pair)
  from hook_frame [OF o] show ?thesis by (simp add: quiet_def suite_begin_def o)
qed

lemma quiet_suite_end: "quiet p (suite_end env cfg k p)"
proof -
  obtain h c where o: "observe (env_hook env AfterSuite (suite_context cfg (pa_ctx p))) (pa_ctx p) = (h, c)" by (metis surj_pair)
  from hook_frame [OF o] show ?thesis by (simp add: quiet_def suite_end_def o)
qed

lemma quiet_spec_end: "quiet p (spec_end env cfg i sp p)"
proof -
  obtain h c where o: "observe (env_hook env AfterSpec (spec_context cfg sp (pa_ctx p))) (pa_ctx p) = (h, c)" by (metis surj_pair)
  from hook_frame [OF o] show ?thesis by (simp add: quiet_def spec_end_def o Let_def)
qed

lemma quiet_spec_begin: "quiet p (snd (spec_begin env cfg k i n sp s p))"
proof -
  obtain h c where o: "observe (env_hook env BeforeSpec (spec_context cfg sp (pa_ctx p))) (stream_spec_started k n sp (pa_ctx p)) = (h, c)"
    by (metis surj_pair)
  have "frame (pa_ctx p) (stream_spec_started k n sp (pa_ctx p))" by (simp add: stream_spec_started_def)
  from hook_frame [OF o this] show ?thesis by (simp add: quiet_def spec_begin_def o Let_def)
qed

lemma work_result_facts:
  assumes "work_result env cfg k sp w s c = (r, c')"
  shows "frame c c' \<and> result_key r = (sn_name (wk_scenario w), wk_row w) \<and> sound_result r"
proof (cases "sm_suiteOk s")
  case False
  with assms show ?thesis by (auto simp: work_result_def suite_skipped_def result_key_def sound_result_def)
next
  case ok: True
  obtain skip c1 where s: "stop_or_timeout env (\<not> sm_specOk s) c = (skip, c1)" by (metis surj_pair)
  have f: "frame c c1" using keepsD [OF keeps_stop_or_timeout [OF frame_refl] s] .
  show ?thesis
  proof (cases skip)
    case True
    with assms s ok have "skipped_scenario env ''Skipped due to fail_fast'' (sm_specOk s) sp (wk_scenario w) (wk_row w) [] c1 = (r, c')"
      by (simp add: work_result_def)
    from skipped_scenario_facts [OF this] f show ?thesis by (auto intro: frame_trans)
  next
    case False
    let ?c = "set_status (\<lambda>s. s\<lparr>ts_currentScenario := sn_name (wk_scenario w)\<rparr>) c1"
    from assms s ok False have e: "executeScenario env cfg (int k) sp (wk_scenario w) (wk_row w) ?c = (r, c')"
      by (simp add: work_result_def)
    from executeScenario_facts [OF e] have "frame ?c c'" "result_key r = (sn_name (wk_scenario w), wk_row w)"
      by (simp_all add: result_key_def)
    moreover have "frame c ?c" using f by simp
    ultimately show ?thesis using executeScenario_sound [OF e] by (blast intro: frame_trans)
  qed
qed

lemma pending_step:
  assumes "k < length ss" "sm_actions (ss ! k) = a # as" "sm_actions s' = as"
  shows "mset (pending ss) = mset (action_works [a]) + mset (pending (ss[k := s']))"
proof -
  have "pending ss = pending (take k ss) @ action_works (a # as) @ pending (drop (Suc k) ss)"
    using assms(1,2) by (subst id_take_nth_drop [of k]) (simp_all add: pending_def)
  moreover have "pending (ss[k := s']) = pending (take k ss) @ action_works as @ pending (drop (Suc k) ss)"
    using assms(1,3) by (simp add: upd_conv_take_nth_drop pending_def)
  ultimately show ?thesis by simp
qed

lemma known_specs_mset: "mset ws = mset vs \<Longrightarrow> known_specs loaded ws = known_specs loaded vs"
  unfolding known_specs_def by (metis set_mset_mset)

text \<open>A move that runs no scenario keeps the invariant.\<close>

lemma par_inv_quiet:
  assumes "par_inv loaded m c (ss, p)" "quiet p p'" "mset (pending ss') = mset (pending ss)"
  shows "par_inv loaded m c (ss', p')"
proof -
  from assms(1) obtain rs where "progressed c rs (pa_ctx p)" "mset rs = mset (map snd (concat (pa_collected p)))"
    by (auto simp: par_inv_def)
  with assms(2) have "progressed c rs (pa_ctx p')" "mset rs = mset (map snd (concat (pa_collected p')))"
    by (auto simp: quiet_def intro: progressed_frame)
  then show ?thesis
    using assms known_specs_mset [OF assms(3)] works_for_mset [OF assms(3)]
    by (auto simp: par_inv_def quiet_def share_def)
qed

text \<open>So does running a scenario: its key moves from the pending work to the collected results.\<close>

lemma par_inv_work:
  assumes inv: "par_inv loaded m c (ss, p)" and pend: "mset (pending ss) = add_mset w (mset (pending ss'))"
  shows "par_inv loaded m c (ss', run_work env cfg k sp w s p)"
proof -
  obtain sr c1 where wr: "work_result env cfg k sp w s (pa_ctx p) = (sr, c1)" by (metis surj_pair)
  let ?c2 = "applyScenarioOutcome sr c1" and ?cs = "pa_collected p" and ?i = "wk_spec w"
  let ?cs' = "?cs[?i := ?cs ! ?i @ [(wk_order w, sr)]]"
  have rw: "run_work env cfg k sp w s p = p\<lparr>pa_ctx := ?c2, pa_collected := ?cs'\<rparr>"
    by (simp add: run_work_def wr collect_def Let_def)
  from work_result_facts [OF wr] have f: "frame (pa_ctx p) c1" and key: "collected_key (wk_order w, sr) = work_key w"
    and sound: "sound_result sr" by (simp_all add: collected_key_def work_key_def)
  have known: "known_specs loaded (pending ss)" and len: "length ?cs = length loaded"
    using inv by (simp_all add: par_inv_def)
  have "known_specs loaded (w # pending ss')"
    using known known_specs_mset [of "pending ss" "w # pending ss'"] pend by simp
  then have i: "?i < length ?cs" and known': "known_specs loaded (pending ss')"
    using len by (simp_all add: known_specs_def)
  obtain rs where rs: "progressed c rs (pa_ctx p)" "mset rs = mset (map snd (concat ?cs))"
    using inv by (auto simp: par_inv_def)
  have "progressed c (rs @ [sr]) ?c2"
    using progressed_trans [OF progressed_frame [OF rs(1) f] progressed_outcome] .
  moreover have "mset (rs @ [sr]) = mset (map snd (concat ?cs'))"
    using rs(2) mset_concat_update [OF i, of "(wk_order w, sr)"] by (simp add: mset_map [symmetric] del: mset_map)
      (simp add: mset_map)
  moreover have "share j (ss', run_work env cfg k sp w s p) = share j (ss, p)" for j
    using works_for_mset [of "pending ss" "w # pending ss'" j] pend key i by (cases "j = ?i") (auto simp: share_def rw)
  moreover have "set (concat ?cs') = insert (wk_order w, sr) (set (concat ?cs))"
    using mset_concat_update [OF i] by (metis set_mset_add_mset_insert set_mset_mset)
  then have "\<forall>x \<in> set (concat ?cs'). sound_result (snd x)"
    using inv sound unfolding par_inv_def by (simp only:) auto
  ultimately show ?thesis using inv known' by (auto simp: par_inv_def rw)
qed

lemma quiet_refl [simp]: "quiet p p"
  by (simp add: quiet_def)

lemma do_action_quiet: "\<forall>w. a \<noteq> RunWork w \<Longrightarrow> quiet p (snd (do_action env cfg loaded k a s p))"
  by (cases a) (simp_all add: quiet_suite_begin quiet_suite_end quiet_spec_begin quiet_spec_end)

lemma par_inv_step:
  assumes inv: "par_inv loaded m c st"
  shows "par_inv loaded m c (par_step env cfg loaded k st)"
proof -
  obtain ss p where st: "st = (ss, p)" by (cases st)
  show ?thesis
  proof (cases "k < length ss \<and> sm_actions (ss ! k) \<noteq> []")
    case False
    with inv st show ?thesis by (auto simp: par_step_def)
  next
    case True
    then obtain a as where a: "k < length ss" "sm_actions (ss ! k) = a # as" by (cases "sm_actions (ss ! k)") auto
    obtain s' p' where da: "do_action env cfg loaded k a (ss ! k) p = (s', p')" by (metis surj_pair)
    let ?ss = "ss[k := s'\<lparr>sm_actions := as\<rparr>]"
    have eq: "par_step env cfg loaded k st = (?ss, p')" using a da by (simp add: par_step_def st)
    note pend = pending_step [OF a, of "s'\<lparr>sm_actions := as\<rparr>"]
    show ?thesis
    proof (cases "\<exists>w. a = RunWork w")
      case True
      then obtain w where w: "a = RunWork w" by blast
      with da pend have "mset (pending ss) = add_mset w (mset (pending ?ss))"
        "p' = run_work env cfg k (the (ls_specification (loaded ! wk_spec w))) w (ss ! k) p" by auto
      with par_inv_work [OF inv [unfolded st]] eq show ?thesis by simp
    next
      case False
      then have "mset (pending ?ss) = mset (pending ss)" using pend by (cases a) auto
      moreover have "quiet p p'"
        using do_action_quiet [of a p env cfg loaded k "ss ! k"] False da by simp
      ultimately show ?thesis using par_inv_quiet [OF inv [unfolded st]] eq by simp
    qed
  qed
qed

lemma par_inv_run: "par_inv loaded m c st \<Longrightarrow> par_inv loaded m c (par_run env cfg loaded ks st)"
  by (induction ks arbitrary: st) (simp_all add: par_run_def par_inv_step)

section \<open>Joining leaves nothing to do\<close>

definition actions_left :: "stream list \<Rightarrow> nat \<Rightarrow> nat" where
  "actions_left ss j = length (sm_actions (ss ! j))"

lemma par_step_left:
  "length (fst (par_step env cfg loaded k st)) = length (fst st) \<and>
   (j < length (fst st) \<longrightarrow> actions_left (fst (par_step env cfg loaded k st)) j
      = actions_left (fst st) j - (if k = j then 1 else 0))"
  by (auto simp: par_step_def actions_left_def nth_list_update split: list.splits prod.splits)

lemma par_run_left:
  "length (fst (par_run env cfg loaded ks st)) = length (fst st) \<and>
   (j < length (fst st) \<longrightarrow> actions_left (fst (par_run env cfg loaded ks st)) j = actions_left (fst st) j - count_list ks j)"
proof (induction ks arbitrary: st)
  case (Cons k ks)
  from Cons [of "par_step env cfg loaded k st"] show ?case
    using par_step_left [of env cfg loaded k st j] by (auto simp: par_run_def)
qed (simp add: par_run_def)

lemma count_remaining: "j < length ss \<Longrightarrow> count_list (remaining ss) j = actions_left ss j"
proof -
  have "count_list (replicate m a) b = (if a = b then m else 0)" for m and a b :: nat by (induction m) auto
  then have "count_list (concat (map (\<lambda>k. replicate (f k) k) [0..<m])) j = (if j < m then f j else 0)" for f m
    by (induction m) auto
  then show "j < length ss \<Longrightarrow> ?thesis" by (simp add: remaining_def actions_left_def)
qed

lemma par_join_done:
  "pending (fst (par_run env cfg loaded (remaining (fst st)) st)) = []"
proof -
  let ?st = "par_run env cfg loaded (remaining (fst st)) st"
  have "sm_actions (fst ?st ! j) = []" if "j < length (fst ?st)" for j
    using par_run_left [of env cfg loaded "remaining (fst st)" st j] count_remaining [of j "fst st"] that
    by (auto simp: actions_left_def)
  then have "\<forall>s \<in> set (fst ?st). sm_actions s = []" by (metis in_set_conv_nth)
  then show ?thesis by (simp add: pending_def)
qed

text \<open>After the join every specification's results are exactly its share.\<close>

lemma par_join_facts:
  fixes env :: "'w environment" and c :: "'w run_ctx"
  assumes "par_inv loaded m c st" and p_def: "p = par_join env cfg loaded schedule st"
  shows "length (pa_collected p) = length loaded \<and> length (pa_hookErrors p) = length loaded \<and>
    (\<forall>i < length loaded. mset (map collected_key (pa_collected p ! i)) = m i) \<and>
    (\<forall>x \<in> set (concat (pa_collected p)). sound_result (snd x)) \<and>
    (\<exists>rs. progressed c rs (pa_ctx p) \<and> mset rs = mset (map snd (concat (pa_collected p))))"
proof -
  let ?st1 = "par_run env cfg loaded schedule st"
  let ?st2 = "par_run env cfg loaded (remaining (fst ?st1)) ?st1"
  have inv: "par_inv loaded m c ?st2" using par_inv_run [OF par_inv_run [OF assms(1)]] .
  have "pending (fst ?st2) = []" by (rule par_join_done)
  then have "\<forall>i < length loaded. share i ?st2 = mset (map collected_key (pa_collected (snd ?st2) ! i))"
    by (simp add: share_def)
  moreover have "p = snd ?st2" by (simp add: p_def par_join_def Let_def)
  ultimately show ?thesis using inv by (simp add: par_inv_def)
qed

section \<open>The items of each specification\<close>

definition spec_keys :: "tag_filter \<Rightarrow> TestRequest \<Rightarrow> LoadedSpec \<Rightarrow> (string \<times> int) list" where
  "spec_keys tagFilter request l =
     (case ls_specification l of
        Some sp \<Rightarrow> if ls_errors l = []
          then map (item_key sp) (filter (\<lambda>(row, sc). scenarioSelected tagFilter request sp sc) (spec_items sp)) else []
      | None \<Rightarrow> [])"

definition keys_for :: "nat \<Rightarrow> work list \<Rightarrow> (string \<times> int) list" where
  "keys_for j ws = map snd (works_for j ws)"

lemma keys_for_simps [simp]:
  "keys_for j [] = []" "keys_for j (ws @ vs) = keys_for j ws @ keys_for j vs"
  by (simp_all add: keys_for_def)

text \<open>What every step of \<open>work_items\<close> keeps.\<close>

definition numbered :: "LoadedSpec list \<Rightarrow> work list \<Rightarrow> bool" where
  "numbered loaded ws = (map wk_order ws = [0..<length ws] \<and> known_specs loaded ws)"

lemma add_works:
  assumes "numbered loaded ws" "i < length loaded" "ls_specification (loaded ! i) \<noteq> None"
  shows "numbered loaded (foldl (add_work tf rq i sp) ws its) \<and>
    keys_for j (foldl (add_work tf rq i sp) ws its) = keys_for j ws @
      (if j = i then map (item_key sp) (filter (\<lambda>(row, sc). scenarioSelected tf rq sp sc) its) else [])"
  using assms
proof (induction its arbitrary: ws)
  case (Cons it its)
  have "numbered loaded (add_work tf rq i sp ws it)"
    using Cons.prems by (auto simp: numbered_def add_work_def known_specs_def)
  moreover have "keys_for j (add_work tf rq i sp ws it) = keys_for j ws @
      (if j = i \<and> scenarioSelected tf rq sp (snd it) then [item_key sp it] else [])"
    by (auto simp: add_work_def keys_for_def work_key_def item_key_def)
  ultimately show ?case using Cons.IH Cons.prems(2,3) by (auto simp: case_prod_unfold)
qed simp

lemma work_items_facts:
  assumes "numbered loaded ws" "loaded = pre @ ls" "i = length pre"
  shows "numbered loaded (work_items tf rq i ls ws) \<and>
    (j < length loaded \<longrightarrow> keys_for j (work_items tf rq i ls ws) =
       keys_for j ws @ (if i \<le> j then spec_keys tf rq (loaded ! j) else []))"
  using assms
proof (induction ls arbitrary: pre i ws)
  case (Cons l ls)
  let ?ws = "case ls_specification l of
      Some sp \<Rightarrow> if ls_errors l = [] then foldl (add_work tf rq i sp) ws (spec_items sp) else ws | None \<Rightarrow> ws"
  have l: "loaded ! i = l" "i < length loaded" using Cons.prems(2,3) by simp_all
  have new: "numbered loaded ?ws \<and> keys_for j ?ws = keys_for j ws @ (if j = i then spec_keys tf rq l else [])"
    using add_works [OF Cons.prems(1) l(2), unfolded l(1), of tf rq _ "spec_items _" j] Cons.prems(1)
    by (auto simp: spec_keys_def split: option.splits)
  from Cons.IH [of ?ws "pre @ [l]" "Suc i"] new Cons.prems(2,3) show ?case
    using l by (auto simp: le_less Suc_le_eq not_less_iff_gr_or_eq)
qed simp

text \<open>Sorting what was collected for a specification gives its scenarios in their order.\<close>

lemma works_for_sorted: "numbered loaded ws \<Longrightarrow> sorted_wrt (<) (map fst (works_for i ws))"
proof -
  assume "numbered loaded ws"
  then have "sorted_wrt (\<lambda>v w. wk_order v < wk_order w) ws"
    by (metis numbered_def sorted_wrt_map sorted_wrt_upt)
  then show ?thesis by (simp add: works_for_def sorted_wrt_map work_key_def sorted_wrt_filter)
qed

lemma sort_collected:
  assumes "mset (map collected_key cs) = mset (works_for i ws)" "numbered loaded ws"
  shows "map result_key (map snd (sort_key fst cs)) = keys_for i ws"
proof -
  let ?xs = "map collected_key (sort_key fst cs)" and ?ys = "works_for i ws"
  have ys: "sorted (map fst ?ys)" "distinct (map fst ?ys)"
    using works_for_sorted [OF assms(2)] strict_sorted_iff by blast+
  have fst_key: "fst \<circ> collected_key = fst" by (auto simp: collected_key_def)
  have xs: "sorted (map fst ?xs)" by (simp add: fst_key)
  have m: "mset ?xs = mset ?ys" using assms(1) by simp
  then have "distinct (map fst ?xs)" using ys(2) by (metis mset_eq_imp_distinct_iff mset_map)
  moreover have "set ?xs = set ?ys" using m by (metis set_mset_mset)
  moreover have "inj_on fst (set ?ys)" using ys(2) by (simp add: distinct_map)
  ultimately have "?xs = ?ys" using map_sorted_distinct_set_unique [of fst ?xs ?ys] xs ys by simp
  then have "map snd ?xs = keys_for i ws" by (simp add: keys_for_def)
  then show ?thesis by (simp add: collected_key_def o_def)
qed

section \<open>Merging\<close>

lemma tally_fold:
  "tally_ok t rs \<Longrightarrow>
   tally_ok (foldl (\<lambda>t sr. tally_state (sc_state sr) (t\<lparr>tl_total := tl_total t + 1\<rparr>)) t ss) (rs @ ss)"
proof (induction ss arbitrary: t rs)
  case (Cons s ss)
  from Cons.IH [OF tally_ok_step [OF Cons.prems], of s] show ?case by simp
qed simp

lemma merged_state_facts:
  assumes "merged_state env e t c = (st, c')" "tally_ok t rs"
  shows "frame c c' \<and> isTerminalState st \<and>
    (st = PASSED \<longrightarrow> count_state failing rs = 0 \<and> 0 < count_state (\<lambda>st. st = PASSED) rs) \<and>
    (st = SKIPPED \<or> st = CANCELLED \<longrightarrow> count_state failing rs = 0 \<and> count_state (\<lambda>st. st = PASSED) rs = 0)"
proof (cases "e \<noteq> []")
  case True
  with assms show ?thesis by (auto simp: merged_state_def)
next
  case False
  show ?thesis
  proof (cases "tl_total t = 0")
    case True
    with False assms show ?thesis by (auto simp: merged_state_def tally_ok_def)
  next
    case t: False
    with False assms(1) have "spec_state env True t c = (st, c')"
      by (auto simp: merged_state_def spec_state_def split: prod.splits)
    from spec_state_facts [OF this assms(2)] show ?thesis by blast
  qed
qed

lemma prepared_result_ok: "spec_result_ok (prepared_result env l) \<or> loaded_ok l"
  by (simp add: prepared_result_def Let_def spec_result_ok_def default_SpecResult_def)

lemma frame_spec_completed [simp]: "frame c (spec_completed r c1) \<longleftrightarrow> frame c c1"
  by (simp add: spec_completed_def)

lemma merge_spec_facts:
  assumes "merge_spec env (prepared_result env l) cs e c = (r, c')" "\<forall>x \<in> set cs. sound_result (snd x)"
    and "loaded_ok l \<or> cs = []"
  shows "frame c c' \<and> spec_result_ok r \<and> sp_scenarioResults r = map snd (sort_key fst cs)"
proof (cases "loaded_ok l")
  case False
  then have "sp_state (prepared_result env l) = TEST_ERROR" "sp_scenarioResults (prepared_result env l) = []"
    by (simp_all add: prepared_result_def Let_def default_SpecResult_def)
  with assms False prepared_result_ok [of env l] show ?thesis by (auto simp: merge_spec_def)
next
  case True
  then have ok: "sp_state (prepared_result env l) \<noteq> TEST_ERROR"
    by (simp add: prepared_result_def Let_def default_SpecResult_def)
  let ?rs = "map snd (sort_key fst cs)"
  let ?t = "foldl (\<lambda>t sr. tally_state (sc_state sr) (t\<lparr>tl_total := tl_total t + 1\<rparr>)) zero_tally ?rs"
  have t: "tally_ok ?t ?rs" using tally_fold [OF tally_ok_zero, of ?rs] by (simp only: append_Nil)
  obtain st c1 where m: "merged_state env e ?t c = (st, c1)" by (rule prod.exhaust)
  define r1 where "r1 = (prepared_result env l)\<lparr>sp_scenarioResults := ?rs, sp_totalScenarios := tl_total ?t,
      sp_passedScenarios := tl_passed ?t, sp_failedScenarios := tl_failed ?t + tl_errored ?t,
      sp_skippedScenarios := tl_skipped ?t,
      sp_errorMessage := (if e \<noteq> [] then e else sp_errorMessage (prepared_result env l)),
      sp_state := st, sp_duration := max_duration ?rs\<rparr>"
  have "merge_spec env (prepared_result env l) cs e c = (r1, spec_completed r1 c1)"
    unfolding merge_spec_def Let_def m if_not_P [OF ok] prod.case r1_def by (rule refl)
  with assms(1) have f: "r = r1" "frame c c' = frame c c1" by auto
  then have r: "sp_scenarioResults r = ?rs" "sp_state r = st" "sp_totalScenarios r = tl_total ?t"
      "sp_passedScenarios r = tl_passed ?t" "sp_failedScenarios r = tl_failed ?t + tl_errored ?t"
      "sp_skippedScenarios r = tl_skipped ?t"
    unfolding r1_def by simp_all
  have "list_all sound_result ?rs" using assms(2) by (auto simp: list_all_iff)
  with merged_state_facts [OF m t] t show ?thesis
    unfolding spec_result_ok_def Let_def r f(2) by (auto simp: tally_ok_def count_state_failing [symmetric])
qed

text \<open>Adding results changes nothing else.\<close>

definition appended :: "'w run_ctx \<Rightarrow> SpecResult list \<Rightarrow> 'w run_ctx \<Rightarrow> bool" where
  "appended c srs c' =
     (spec_results c' = spec_results c @ srs \<and> rc_testId c' = rc_testId c \<and> rc_request c' = rc_request c \<and>
      rc_tagFilter c' = rc_tagFilter c \<and> rc_deadline c' = rc_deadline c \<and> rc_failFast c' = rc_failFast c \<and>
      (rc_timedOut c \<longrightarrow> rc_timedOut c') \<and> counters (rc_status c') = counters (rc_status c))"

lemma appended_Nil [simp]: "appended c [] c"
  by (simp add: appended_def)

lemma appended_Cons: "frame c c1 \<Longrightarrow> appended (add_spec_result r c1) srs c2 \<Longrightarrow> appended c (r # srs) c2"
  by (auto simp: appended_def frame_def spec_results_def add_spec_result_def)

lemma merge_specs_facts:
  assumes "merge_specs env (zip (map (prepared_result env) ls) (zip css es)) p f c = (pf, c')"
    and "length css = length ls" "length es = length ls"
    and "\<forall>x \<in> set (concat css). sound_result (snd x)"
    and "\<forall>i < length ls. loaded_ok (ls ! i) \<or> css ! i = []"
  shows "\<exists>srs. appended c srs c' \<and> list_all spec_result_ok srs \<and>
    map sp_scenarioResults srs = map (\<lambda>cs. map snd (sort_key fst cs)) css"
  using assms
proof (induction ls arbitrary: css es p f c)
  case Nil
  then show ?case by auto
next
  case (Cons l ls)
  obtain cs css' e es' where eq: "css = cs # css'" "es = e # es'"
    using Cons.prems(2,3) by (metis length_Suc_conv)
  obtain r c1 where m: "merge_spec env (prepared_result env l) cs e c = (r, c1)" by (metis surj_pair)
  have "loaded_ok l \<or> cs = []" using Cons.prems(5) [rule_format, of 0] by (simp add: eq)
  with merge_spec_facts [OF m] Cons.prems(4) have k: "frame c c1" "spec_result_ok r"
      "sp_scenarioResults r = map snd (sort_key fst cs)" by (auto simp: eq)
  have "\<forall>i < length ls. loaded_ok (ls ! i) \<or> css' ! i = []"
    using Cons.prems(5) by (metis Suc_less_eq eq(1) length_Cons nth_Cons_Suc)
  moreover have "merge_specs env (zip (map (prepared_result env) ls) (zip css' es')) (p + (if spec_passed r then 1 else 0))
      (f + (if spec_failed r then 1 else 0)) (add_spec_result r c1) = (pf, c')"
    using Cons.prems(1) m by (simp add: eq)
  moreover have "length css' = length ls" "length es' = length ls" "\<forall>x \<in> set (concat css'). sound_result (snd x)"
    using Cons.prems(2-4) by (auto simp: eq)
  ultimately obtain srs where srs: "appended (add_spec_result r c1) srs c'" "list_all spec_result_ok srs"
      "map sp_scenarioResults srs = map (\<lambda>cs. map snd (sort_key fst cs)) css'"
    using Cons.IH by blast
  show ?case
    using srs k appended_Cons [OF k(1) srs(1)] by (intro exI [of _ "r # srs"]) (simp add: eq)
qed

section \<open>A parallel run\<close>

lemma count_state_mset: "mset rs = mset ss \<Longrightarrow> count_state P rs = count_state P ss"
  unfolding count_state_def by (metis mset_filter size_mset)

lemma mset_concat_map: "(\<And>x. x \<in> set xs \<Longrightarrow> mset (f x) = mset (g x)) \<Longrightarrow> mset (concat (map f xs)) = mset (concat (map g xs))"
  by (induction xs) simp_all

lemma report_broken_frame: "frame c c1 \<Longrightarrow> frame c (foldl (\<lambda>c l. report_broken env l c) c1 ls)"
proof (induction ls arbitrary: c1)
  case (Cons l ls)
  have "frame c (report_broken env l c1)" using Cons.prems by (simp add: report_broken_def Let_def)
  from Cons.IH [OF this] show ?case by simp
qed simp

lemma par_inv_start:
  assumes "0 < n" "numbered loaded items"
  shows "par_inv loaded (\<lambda>i. mset (works_for i items)) c
    (start_streams loaded (deal n items), \<lparr>pa_ctx = foldl (\<lambda>c l. report_broken env l c) c loaded,
       pa_collected = replicate (length loaded) [], pa_hookErrors = replicate (length loaded) []\<rparr>)"
proof -
  let ?bs = "deal n items"
  have m: "mset (concat ?bs) = mset items" using assms(1) by (rule mset_deal)
  have known: "known_specs loaded (concat ?bs)"
    using assms(2) known_specs_mset [OF m] by (simp add: numbered_def)
  have "mset (pending (start_streams loaded ?bs)) = mset (concat (map (\<lambda>b. action_works (stream_actions loaded b)) ?bs))"
    by (simp add: pending_def start_streams_def o_def)
  also have "\<dots> = mset (concat (map (\<lambda>b. b) ?bs))"
    using known by (intro mset_concat_map stream_works) (auto simp: known_specs_def)
  finally have p: "mset (pending (start_streams loaded ?bs)) = mset items" using m by simp
  have none: "concat (replicate k []) = []" for k :: nat by (induction k) auto
  show ?thesis
    using works_for_mset [OF p] known_specs_mset [OF p] assms(2) report_broken_frame [OF frame_refl, of c env loaded]
    by (auto simp: par_inv_def share_def numbered_def none intro!: exI [of _ "[]"] frame_progressed)
qed

lemma executeParallel_facts:
  assumes "0 < n"
  shows "\<exists>srs. advanced c srs (executeParallel env cfg loaded n schedule c) \<and>
    map (\<lambda>r. map result_key (sp_scenarioResults r)) srs = map (spec_keys (rc_tagFilter c) (rc_request c)) loaded"
proof -
  let ?items = "work_items (rc_tagFilter c) (rc_request c) 0 loaded []"
  let ?start = "(start_streams loaded (deal n ?items), \<lparr>pa_ctx = foldl (\<lambda>c l. report_broken env l c) c loaded,
       pa_collected = replicate (length loaded) [], pa_hookErrors = replicate (length loaded) []\<rparr>)"
  define p where "p = par_join env cfg loaded schedule ?start"
  have items: "numbered loaded ?items" and keys: "\<And>j. j < length loaded \<Longrightarrow>
      keys_for j ?items = spec_keys (rc_tagFilter c) (rc_request c) (loaded ! j)"
    using work_items_facts [of loaded "[]" "[]" loaded 0 "rc_tagFilter c" "rc_request c"]
    by (simp_all add: numbered_def known_specs_def)
  from par_join_facts [OF par_inv_start [OF assms items] p_def] obtain rs where
    len: "length (pa_collected p) = length loaded" "length (pa_hookErrors p) = length loaded" and
    col: "\<And>i. i < length loaded \<Longrightarrow> mset (map collected_key (pa_collected p ! i)) = mset (works_for i ?items)" and
    sound: "\<forall>x \<in> set (concat (pa_collected p)). sound_result (snd x)" and
    rs: "progressed c rs (pa_ctx p)" "mset rs = mset (map snd (concat (pa_collected p)))"
    by blast
  obtain pf c2 where mg: "merge_specs env (zip (map (prepared_result env) loaded)
      (zip (pa_collected p) (pa_hookErrors p))) 0 0 (pa_ctx p) = (pf, c2)" by (rule prod.exhaust)
  have "\<forall>i < length loaded. loaded_ok (loaded ! i) \<or> pa_collected p ! i = []"
  proof (intro allI impI)
    fix i assume i: "i < length loaded"
    show "loaded_ok (loaded ! i) \<or> pa_collected p ! i = []"
    proof (cases "loaded_ok (loaded ! i)")
      case False
      then have "keys_for i ?items = []"
        using keys [OF i] by (auto simp: spec_keys_def loaded_ok_def split: option.splits)
      then show ?thesis using col [OF i] by (simp add: keys_for_def)
    qed simp
  qed
  from merge_specs_facts [OF mg len sound this] obtain srs where
    srs: "appended (pa_ctx p) srs c2" "list_all spec_result_ok srs"
      "map sp_scenarioResults srs = map (\<lambda>cs. map snd (sort_key fst cs)) (pa_collected p)" by blast
  let ?c = "executeParallel env cfg loaded n schedule c"
  have eq: "?c = updateStatus (set_status (\<lambda>s. s\<lparr>ts_executedSpecs := int (length loaded), ts_passedSpecs := fst pf,
      ts_failedSpecs := snd pf\<rparr>) c2)"
    using mg by (cases pf) (simp add: executeParallel_def run_streams_def p_def Let_def)
  have upd: "frame c2 (updateStatus (set_status (\<lambda>s. s\<lparr>ts_executedSpecs := a, ts_passedSpecs := b, ts_failedSpecs := d\<rparr>) c2))" for a b d
    unfolding frame_updateStatus by (simp add: set_status_def frame_def counters_def)
  let ?all = "concat (map sp_scenarioResults srs)"
  have "mset ?all = mset rs"
    unfolding srs(3) rs(2) by (simp add: map_concat o_def) (rule mset_concat_map, simp)
  then have "count_state P ?all = count_state P rs" for P by (rule count_state_mset)
  then have "advanced c srs c2"
    using rs(1) srs(1,2) by (auto simp: advanced_def appended_def progressed_def spec_frame_def counted_def fast_def
        counters_def spec_results_def)
  with upd have adv: "advanced c srs ?c" unfolding eq by (rule advanced_frame [rotated])
  have "map (\<lambda>r. map result_key (sp_scenarioResults r)) srs = map (map result_key) (map sp_scenarioResults srs)"
    by (simp add: o_def)
  also have "\<dots> = map (spec_keys (rc_tagFilter c) (rc_request c)) loaded"
    unfolding srs(3) using len(1) keys sort_collected [OF col items] by (intro nth_equalityI) auto
  finally show ?thesis using adv by blast
qed


definition sample_loaded :: "LoadedSpec list" where
  "sample_loaded =
     [\<lparr>ls_path = ''b.spec'', ls_specification = None, ls_errors = [], ls_warnings = []\<rparr>,
      \<lparr>ls_path = ''a.spec'', ls_specification = Some (sample_spec [sample_scenario [sample_step ''pay'']]),
       ls_errors = [], ls_warnings = []\<rparr>]"


end
