(* ===== verification/EngineRun.thy ===== *)
theory EngineRun
  imports EngineParallelFacts
begin

text \<open>
  \<open>ExecutionEngine::execute\<close> (\<open>src/src/engine/execution_engine.cpp\<close>) between the lookup of the
  test's record and its update: loading the specifications, choosing the number of streams,
  running them and deciding the final state.
\<close>

section \<open>Loading\<close>

definition timeout_ms :: "EngineConfig \<Rightarrow> TestRequest \<Rightarrow> int" where
  "timeout_ms cfg request = (if rq_timeoutMs request > 0 then rq_timeoutMs request else ec_defaultTimeoutMs cfg)"

definition start_ctx :: "TestRequest \<Rightarrow> TestStatus \<Rightarrow> 'w \<Rightarrow> 'w run_ctx" where
  "start_ctx request status w =
     \<lparr>rc_testId = rq_id request, rc_request = request, rc_deadline = 0,
      rc_tagFilter = \<lparr>tf_expression = [], tf_root = None, tf_invalid = False\<rparr>, rc_status = status,
      rc_result = default_TestResult, rc_timedOut = False, rc_failFast = False, rc_visible = status, rc_events = [],
      rc_world = w\<rparr>"

definition set_deadline :: "'w environment \<Rightarrow> EngineConfig \<Rightarrow> 'w run_ctx \<Rightarrow> 'w run_ctx" where
  "set_deadline env cfg ctx =
     (let (now, ctx1) = observe (env_clock env) ctx
      in ctx1\<lparr>rc_deadline := now + of_int (timeout_ms cfg (rc_request ctx1)) / 1000,
              rc_tagFilter := fst (all_filters (rq_tags (rc_request ctx1)))\<rparr>)"

definition add_warnings :: "ParseError list \<Rightarrow> 'w run_ctx \<Rightarrow> 'w run_ctx" where
  "add_warnings ws ctx =
     ctx\<lparr>rc_result := (rc_result ctx)\<lparr>tr_warnings := tr_warnings (rc_result ctx) @ map located ws\<rparr>\<rparr>"

definition count_selected :: "LoadedSpec \<Rightarrow> 'w run_ctx \<Rightarrow> 'w run_ctx" where
  "count_selected l ctx =
     (case ls_specification l of
        Some sp \<Rightarrow> if ls_errors l = []
          then foldl (\<lambda>c sc. if scenarioSelected (rc_tagFilter c) (rc_request c) sp sc
                             then set_status (\<lambda>s. s\<lparr>ts_totalScenarios := ts_totalScenarios s + int (row_count sp)\<rparr>) c
                             else c) ctx (sf_scenarios sp)
          else ctx
      | None \<Rightarrow> ctx)"

fun load_specs :: "'w environment \<Rightarrow> string list \<Rightarrow> 'w run_ctx \<Rightarrow> LoadedSpec list \<times> 'w run_ctx" where
  "load_specs env [] ctx = ([], ctx)"
| "load_specs env (path # paths) ctx =
     (let ((specification, errs, warns), ctx1) = observe (env_load env path) ctx;
          l = \<lparr>ls_path = path, ls_specification = specification, ls_errors = errs, ls_warnings = warns\<rparr>;
          (ls, ctx2) = load_specs env paths (count_selected l (add_warnings warns ctx1))
      in (l # ls, ctx2))"

definition note_loaded :: "string list \<Rightarrow> 'w run_ctx \<Rightarrow> 'w run_ctx" where
  "note_loaded resolved ctx =
     set_status (\<lambda>s. s\<lparr>ts_warnings := tr_warnings (rc_result ctx), ts_totalSpecs := int (length resolved)\<rparr>) ctx"

section \<open>Streams\<close>

definition kMaxPoolSize :: int where
  "kMaxPoolSize = 64"

definition wanted_streams :: "TestRequest \<Rightarrow> bool \<Rightarrow> int \<Rightarrow> int \<Rightarrow> int" where
  "wanted_streams request safe poolSize scenarios =
     (let s0 = (if rq_parallelStreams request < 1 then 1 else rq_parallelStreams request);
          c0 = (if safe then kMaxPoolSize else poolSize);
          cap = (if c0 < 1 then 1 else c0);
          s1 = (if s0 > cap then cap else s0);
          s2 = (if scenarios > 0 \<and> s1 > scenarios then scenarios else s1)
      in if s2 < 1 then 1 else s2)"

definition reserve :: "'w environment \<Rightarrow> 'w run_ctx \<Rightarrow> (int \<times> int list) \<times> 'w run_ctx" where
  "reserve env ctx =
     (let (safe, ctx1) = observe (env_concurrencySafe env) ctx;
          (size, ctx2) = (if safe then (0, ctx1) else observe (env_poolSize env) ctx1);
          streams = wanted_streams (rc_request ctx) safe size (ts_totalScenarios (rc_status ctx));
          (r1, ctx3) = observe (env_reserveSlots env streams) ctx2;
          (reserved, ctx4) = (if r1 = [] then observe (env_reserveSlots env 1) ctx3 else (r1, ctx3));
          used = (if int (length reserved) < streams then (if reserved = [] then 1 else int (length reserved)) else streams)
      in ((used, reserved), ctx4))"

definition mark_running :: "'w environment \<Rightarrow> 'w run_ctx \<Rightarrow> 'w run_ctx" where
  "mark_running env ctx =
     (let (now, ctx1) = observe (env_wall env) ctx;
          ctx2 = set_status (\<lambda>s. s\<lparr>ts_state := RUNNING, ts_startTime := now\<rparr>) ctx1
      in updateStatus (ctx2\<lparr>rc_result := (rc_result ctx2)\<lparr>tr_testId := rc_testId ctx2, tr_startTime := now\<rparr>\<rparr>))"

definition test_started :: "int \<Rightarrow> 'w run_ctx \<Rightarrow> 'w run_ctx" where
  "test_started streams ctx =
     publish ''test.started''
       [(''total_specs'', to_string (ts_totalSpecs (rc_status ctx))),
        (''total_scenarios'', to_string (ts_totalScenarios (rc_status ctx))),
        (''name'', rq_name (rc_request ctx)), (''streams'', to_string streams)] ctx"

definition run_specs :: "'w environment \<Rightarrow> EngineConfig \<Rightarrow> nat list \<Rightarrow> LoadedSpec list \<Rightarrow> 'w run_ctx \<Rightarrow> 'w run_ctx" where
  "run_specs env cfg schedule loaded ctx =
     (let ((streams, reserved), ctx1) = reserve env ctx;
          ctx2 = test_started streams (mark_running env ctx1)
      in if streams \<le> 1 then executeSequential env cfg loaded ctx2
         else executeParallel env cfg loaded (length reserved) schedule ctx2)"

section \<open>The final state\<close>

definition suite_failed :: "TestResult \<Rightarrow> bool" where
  "suite_failed r = list_ex (\<lambda>e. contains e ''before_suite'') (tr_errors r)"

definition count_specs :: "(SpecResult \<Rightarrow> bool) \<Rightarrow> TestResult \<Rightarrow> int" where
  "count_specs P r = int (length (filter P (tr_specResults r)))"

definition spec_errored :: "SpecResult \<Rightarrow> bool" where
  "spec_errored r = (sp_state r = TEST_ERROR)"

definition nothing_ran :: "TestStatus \<Rightarrow> bool" where
  "nothing_ran s = (ts_passedScenarios s = 0 \<and> ts_failedScenarios s = 0)"

definition final_state :: "bool \<Rightarrow> bool \<Rightarrow> TestStatus \<Rightarrow> TestResult \<Rightarrow> TestState" where
  "final_state cancelled timedOut s r =
     (if cancelled then CANCELLED
      else if timedOut then TEST_ERROR
      else if suite_failed r then TEST_ERROR
      else let errored = count_specs spec_errored r;
               st = aggregateState (count_specs spec_failed r - errored) errored 0 (ts_totalSpecs s) False
           in if st = PASSED \<and> nothing_ran s then SKIPPED else st)"

definition no_match_warning :: string where
  "no_match_warning = ''No scenarios matched the requested specs/tags/scenario filters''"

text \<open>The states without the warning of an empty selection.\<close>

definition empty_selection :: "bool \<Rightarrow> bool \<Rightarrow> TestStatus \<Rightarrow> TestResult \<Rightarrow> bool" where
  "empty_selection cancelled timedOut s r =
     (\<not> cancelled \<and> \<not> timedOut \<and> \<not> suite_failed r \<and> nothing_ran s \<and> ts_totalScenarios s = 0 \<and>
      aggregateState (count_specs spec_failed r - count_specs spec_errored r) (count_specs spec_errored r) 0
        (ts_totalSpecs s) False = PASSED)"

text \<open>\<open>system_clock\<close> ticks are nanoseconds.\<close>

definition seconds_between :: "TimePoint \<Rightarrow> TimePoint \<Rightarrow> seconds" where
  "seconds_between a b = of_int (b - a) / 1000000000"

definition final_result :: "bool \<Rightarrow> TimePoint \<Rightarrow> 'w run_ctx \<Rightarrow> TestResult" where
  "final_result cancelled finish ctx =
     (let s = rc_status ctx; r = rc_result ctx
      in r\<lparr>tr_endTime := finish, tr_totalDuration := seconds_between (tr_startTime r) finish,
           tr_totalScenarios := ts_totalScenarios s, tr_passedScenarios := ts_passedScenarios s,
           tr_failedScenarios := ts_failedScenarios s, tr_skippedScenarios := ts_skippedScenarios s,
           tr_finalState := final_state cancelled (rc_timedOut ctx) s r,
           tr_warnings := tr_warnings r @
             (if empty_selection cancelled (rc_timedOut ctx) s r then [no_match_warning] else [])\<rparr>)"

definition final_status :: "TestResult \<Rightarrow> TestStatus \<Rightarrow> TestStatus" where
  "final_status r s = s\<lparr>ts_state := tr_finalState r, ts_endTime := tr_endTime r, ts_progress := 1, ts_currentSpec := [],
     ts_currentScenario := [], ts_currentStep := [], ts_errors := tr_errors r, ts_warnings := tr_warnings r\<rparr>"

definition conclude :: "'w environment \<Rightarrow> 'w run_ctx \<Rightarrow> 'w run_ctx" where
  "conclude env ctx =
     (let (finish, ctx1) = observe (env_wall env) ctx;
          (cancelled, ctx2) = load_cancelled env ctx1;
          r = final_result cancelled finish ctx2
      in ctx2\<lparr>rc_result := r, rc_status := final_status r (rc_status ctx2)\<rparr>)"

definition test_completed :: "'w run_ctx \<Rightarrow> 'w run_ctx" where
  "test_completed ctx =
     (let r = rc_result ctx in
      publish ''test.completed''
        [(''state'', testStateToString (tr_finalState r)), (''duration'', to_string_double (tr_totalDuration r)),
         (''total_scenarios'', to_string (tr_totalScenarios r)), (''passed_scenarios'', to_string (tr_passedScenarios r)),
         (''failed_scenarios'', to_string (tr_failedScenarios r)), (''skipped_scenarios'', to_string (tr_skippedScenarios r)),
         (''passed_specs'', to_string (count_specs spec_passed r)), (''failed_specs'', to_string (count_specs spec_failed r)),
         (''name'', rq_name (rc_request ctx))] ctx)"

text \<open>A test from the moment its record has been read to the moment its record is written.\<close>

definition load_test :: "'w environment \<Rightarrow> EngineConfig \<Rightarrow> string list \<Rightarrow> TestRequest \<Rightarrow> TestStatus \<Rightarrow> 'w
    \<Rightarrow> LoadedSpec list \<times> 'w run_ctx" where
  "load_test env cfg resolved request status w =
     (let (loaded, ctx) = load_specs env resolved (set_deadline env cfg (start_ctx request status w))
      in (loaded, note_loaded resolved ctx))"

definition run_all :: "'w environment \<Rightarrow> EngineConfig \<Rightarrow> nat list \<Rightarrow> string list \<Rightarrow> TestRequest \<Rightarrow> TestStatus \<Rightarrow> 'w
    \<Rightarrow> 'w run_ctx" where
  "run_all env cfg schedule resolved request status w =
     (let (loaded, ctx) = load_test env cfg resolved request status w in run_specs env cfg schedule loaded ctx)"

definition run_test :: "'w environment \<Rightarrow> EngineConfig \<Rightarrow> nat list \<Rightarrow> string list \<Rightarrow> TestRequest \<Rightarrow> TestStatus \<Rightarrow> 'w
    \<Rightarrow> 'w run_ctx" where
  "run_test env cfg schedule resolved request status w =
     conclude env (run_all env cfg schedule resolved request status w)"

end
