(* ===== verification/EngineRecords.thy ===== *)
theory EngineRecords
  imports EngineRun ResultStore OrderedIndex
begin

text \<open>
  The bookkeeping of \<open>ExecutionEngine\<close> (\<open>src/src/engine/execution_engine.cpp\<close>): submitting,
  cancelling, listing, removing and trimming tests, and the parts of \<open>workerLoop\<close> and \<open>execute\<close>
  that read and write the records. The engine is one state; an operation is a function on it
  that returns what it returned and what it published. The specification repository is the
  argument \<open>resolve\<close>, the host's time-zone stamp \<open>stamp\<close>, the clock \<open>now\<close>, and the success of
  a write to the results directory \<open>outcome\<close>. The records with their order of submission are
  an ordered index. \<open>en_active\<close> is not a field of the class: it lists the tests that worker
  threads have taken from the queue and not finished, which the code keeps on their stacks.
\<close>

section \<open>State\<close>

record EngineStats =
  es_queued :: nat
  es_running :: nat
  es_completed :: nat
  es_passed :: nat
  es_failed :: nat
  es_cancelled :: nat
  es_errored :: nat
  es_totalScenarios :: int
  es_passedScenarios :: int
  es_failedScenarios :: int
  es_skippedScenarios :: int
  es_totalDuration :: rat
  es_startedAt :: TimePoint

record engine =
  en_config :: EngineConfig
  en_queue :: test_queue
  en_store :: result_store
  en_historyLoaded :: bool
  en_running :: bool
  en_stopRequested :: bool
  en_records :: "TestRecord index"
  en_cancelFlags :: "(string, bool) omap"
  en_stats :: EngineStats
  en_active :: "string list"

definition new_stats :: "TimePoint \<Rightarrow> EngineStats" where
  "new_stats now = \<lparr>es_queued = 0, es_running = 0, es_completed = 0, es_passed = 0, es_failed = 0, es_cancelled = 0,
     es_errored = 0, es_totalScenarios = 0, es_passedScenarios = 0, es_failedScenarios = 0, es_skippedScenarios = 0,
     es_totalDuration = 0, es_startedAt = now\<rparr>"

definition new_engine :: "TimePoint \<Rightarrow> engine" where
  "new_engine now = \<lparr>en_config = default_EngineConfig, en_queue = empty_queue, en_store = \<lparr>rd_dir = [], rd_files = []\<rparr>,
     en_historyLoaded = False, en_running = False, en_stopRequested = False, en_records = ([], []), en_cancelFlags = [],
     en_stats = new_stats now, en_active = []\<rparr>"

definition record_of_test :: "engine \<Rightarrow> string \<Rightarrow> TestRecord option" where
  "record_of_test e i = ix_get (en_records e) i"

abbreviation state_of :: "TestRecord \<Rightarrow> TestState" where
  "state_of r \<equiv> ts_state (re_status r)"

definition clamp_config :: "EngineConfig \<Rightarrow> EngineConfig" where
  "clamp_config c = c\<lparr>ec_workerThreads := (if ec_workerThreads c < 1 then 1 else ec_workerThreads c),
                      ec_historyLimit := (if ec_historyLimit c < 1 then 1 else ec_historyLimit c)\<rparr>"

text \<open>\<open>disk\<close> gives the files of the new results directory.\<close>

definition configure :: "(string \<Rightarrow> (string \<times> string) list) \<Rightarrow> EngineConfig \<Rightarrow> engine \<Rightarrow> engine" where
  "configure disk c e =
     (let e1 = e\<lparr>en_config := clamp_config c\<rparr>
      in if rd_dir (en_store e1) \<noteq> ec_resultsDir c
         then e1\<lparr>en_store := \<lparr>rd_dir = ec_resultsDir c, rd_files = disk (ec_resultsDir c)\<rparr>, en_historyLoaded := False\<rparr>
         else e1)"

section \<open>Statistics\<close>

definition count_state :: "TestState \<Rightarrow> EngineStats \<Rightarrow> EngineStats" where
  "count_state st s =
     (case st of
        PASSED \<Rightarrow> s\<lparr>es_passed := es_passed s + 1\<rparr>
      | SKIPPED \<Rightarrow> s\<lparr>es_passed := es_passed s + 1\<rparr>
      | FAILED \<Rightarrow> s\<lparr>es_failed := es_failed s + 1\<rparr>
      | CANCELLED \<Rightarrow> s\<lparr>es_cancelled := es_cancelled s + 1\<rparr>
      | _ \<Rightarrow> s\<lparr>es_errored := es_errored s + 1\<rparr>)"

definition count_result :: "TestResult \<Rightarrow> EngineStats \<Rightarrow> EngineStats" where
  "count_result r s =
     (let s1 = count_state (tr_finalState r) (s\<lparr>es_completed := es_completed s + 1\<rparr>)
      in s1\<lparr>es_totalScenarios := es_totalScenarios s1 + tr_totalScenarios r,
            es_passedScenarios := es_passedScenarios s1 + tr_passedScenarios r,
            es_failedScenarios := es_failedScenarios s1 + tr_failedScenarios r,
            es_skippedScenarios := es_skippedScenarios s1 + tr_skippedScenarios r,
            es_totalDuration := es_totalDuration s1 + tr_totalDuration r\<rparr>)"

definition count_state_in :: "TestState \<Rightarrow> engine \<Rightarrow> nat" where
  "count_state_in st e = length (filter (\<lambda>(i, r). state_of r = st) (fst (en_records e)))"

definition engine_stats :: "engine \<Rightarrow> EngineStats" where
  "engine_stats e = (en_stats e)\<lparr>es_queued := count_state_in QUEUED e, es_running := count_state_in RUNNING e\<rparr>"

definition hasActiveTests :: "engine \<Rightarrow> bool" where
  "hasActiveTests e = list_ex (\<lambda>(i, r). state_of r = QUEUED \<or> state_of r = RUNNING) (fst (en_records e))"

section \<open>The history\<close>

definition trimmable :: "(string, TestRecord) omap \<Rightarrow> string \<Rightarrow> bool" where
  "trimmable records i = (case map_of records i of None \<Rightarrow> True | Some r \<Rightarrow> isTerminalState (state_of r))"

lemma find_remove_first: "find P xs = Some x \<Longrightarrow> length (remove_first P xs) < length xs"
  by (induction xs) (auto split: if_splits)

text \<open>
  The loop of \<open>trimHistory\<close>: while there are too many, the oldest id without a record or with a
  finished one goes. Returns the index, the cancel flags and the ids removed from the records.
\<close>

function trim_loop :: "nat \<Rightarrow> TestRecord index \<Rightarrow> (string, bool) omap \<Rightarrow> string list
    \<Rightarrow> TestRecord index \<times> (string, bool) omap \<times> string list" where
  "trim_loop limit (records, order) flags removed =
     (if length order > limit
      then (case find (trimmable records) order of
          None \<Rightarrow> ((records, order), flags, removed)
        | Some i \<Rightarrow>
            (let order' = remove_first (trimmable records) order
             in if map_of records i = None then trim_loop limit (records, order') flags removed
                else trim_loop limit (omap_erase i records, order') (omap_erase i flags) (removed @ [i])))
      else ((records, order), flags, removed))"
  by auto
termination
  by (relation "measure (\<lambda>(limit, ix, flags, removed). length (snd ix))")
    (auto dest: find_remove_first)

declare trim_loop.simps [simp del]

definition store_drop :: "string list \<Rightarrow> result_store \<Rightarrow> result_store" where
  "store_drop is st = foldl (\<lambda>st i. snd (store_remove i st)) st is"

definition trimHistory :: "engine \<Rightarrow> engine" where
  "trimHistory e =
     (let (ix, flags, removed) = trim_loop (ec_historyLimit (en_config e)) (en_records e) (en_cancelFlags e) []
      in e\<lparr>en_records := ix, en_cancelFlags := flags, en_store := store_drop removed (en_store e)\<rparr>)"

text \<open>A loaded record is filed under its id unless the id is taken; all results are counted.\<close>

definition file_record :: "TestRecord index \<Rightarrow> TestRecord \<Rightarrow> TestRecord index" where
  "file_record ix r =
     (let i = ts_testId (re_status r) in if ix_get ix i \<noteq> None then ix else ix_add i r ix)"

definition count_loaded :: "EngineStats \<Rightarrow> TestRecord \<Rightarrow> EngineStats" where
  "count_loaded s r = (if re_hasResult r then count_result (re_result r) s else s)"

definition loadHistory :: "bool \<Rightarrow> engine \<Rightarrow> engine" where
  "loadHistory created e =
     (if en_historyLoaded e then e
      else let e1 = e\<lparr>en_historyLoaded := True\<rparr> in
        if \<not> enabled (en_store e1) then e1
        else let e2 = e1\<lparr>en_store := snd (prepare created (en_store e1))\<rparr>;
                 records = loadAll (en_store e2)
             in trimHistory (e2\<lparr>en_records := foldl file_record (en_records e2) records,
                                en_stats := foldl count_loaded (en_stats e2) records\<rparr>))"

definition persist :: "write_outcome \<Rightarrow> TestRecord \<Rightarrow> engine \<Rightarrow> engine" where
  "persist outcome r e =
     (if \<not> enabled (en_store e) then e
      else if \<not> isTerminalState (state_of r) then e
      else e\<lparr>en_store := snd (save outcome r (en_store e))\<rparr>)"

section \<open>Submitting\<close>

text \<open>
  An id no record has: the loop draws ids until one is free, and does not end when the
  thousand ids of one second are all taken, which is \<open>None\<close>.
\<close>

partial_function (option) fresh_id :: "(TimePoint \<Rightarrow> string) \<Rightarrow> TimePoint \<Rightarrow> TestRecord index \<Rightarrow> test_queue
    \<Rightarrow> (test_queue \<times> string) option" where
  "fresh_id stamp now ix q =
     (case generateTaskId stamp now q of (q', i) \<Rightarrow>
        if ix_get ix i \<noteq> None then fresh_id stamp now ix q' else Some (q', i))"

declare fresh_id.simps [code]

definition check_request :: "(string list \<Rightarrow> string list \<times> string list) \<Rightarrow> TestRequest \<Rightarrow> engine
    \<Rightarrow> string + string list" where
  "check_request resolve request e =
     (let (resolved, missing) = resolve (rq_specFiles request) in
      if missing \<noteq> [] then Inl (''Spec path(s) not found: '' @ join missing '', '')
      else if resolved = [] then Inl ''No spec files found for the given paths''
      else let tagError = snd (all_filters (rq_tags request)) in
        if tagError \<noteq> [] then Inl (''Invalid tag expression: '' @ tagError)
        else if rq_id request \<noteq> [] \<and> record_of_test e (rq_id request) \<noteq> None
        then Inl (''Test ID already exists: '' @ rq_id request)
        else Inr resolved)"

definition new_record :: "TimePoint \<Rightarrow> TestRequest \<Rightarrow> string list \<Rightarrow> TestRecord" where
  "new_record now request resolved = default_TestRecord\<lparr>re_request := request, re_resolvedSpecs := resolved,
     re_status := default_TestStatus\<lparr>ts_testId := rq_id request, ts_state := QUEUED, ts_submitTime := now,
                                     ts_totalSpecs := int (length resolved)\<rparr>\<rparr>"

definition place_record :: "TimePoint \<Rightarrow> TestRequest \<Rightarrow> string list \<Rightarrow> engine \<Rightarrow> engine" where
  "place_record now request resolved e =
     trimHistory (e\<lparr>en_records := ix_add (rq_id request) (new_record now request resolved) (en_records e),
                    en_cancelFlags := omap_put (rq_id request) False (en_cancelFlags e)\<rparr>)"

definition submitted_event :: "TestRequest \<Rightarrow> string list \<Rightarrow> publication" where
  "submitted_event request resolved = (''test.submitted'', rq_id request, omap_of_list
     [(''spec_files'', join (rq_specFiles request) '',''), (''resolved_specs'', dec_of_nat (length resolved)),
      (''tags'', joinTags (rq_tags request)), (''priority'', priorityToString (rq_priority request)),
      (''name'', rq_name request)])"

definition enqueue_request :: "(TimePoint \<Rightarrow> string) \<Rightarrow> TimePoint \<Rightarrow> TestRequest \<Rightarrow> string list \<Rightarrow> engine
    \<Rightarrow> engine \<times> string \<times> publication list" where
  "enqueue_request stamp now request resolved e =
     (let e1 = place_record now request resolved e;
          (q, i, pubs) = enqueue stamp now request (en_queue e1)
      in (e1\<lparr>en_queue := q\<rparr>, rq_id request, pubs @ [submitted_event request resolved]))"

text \<open>\<open>None\<close>: the call does not return. \<open>Inl\<close>: the exception it throws.\<close>

definition submit :: "(string list \<Rightarrow> string list \<times> string list) \<Rightarrow> (TimePoint \<Rightarrow> string) \<Rightarrow> TimePoint
    \<Rightarrow> TestRequest \<Rightarrow> engine \<Rightarrow> (string + engine \<times> string \<times> publication list) option" where
  "submit resolve stamp now request e =
     (case check_request resolve request e of
        Inl err \<Rightarrow> Some (Inl err)
      | Inr resolved \<Rightarrow>
          if rq_id request \<noteq> [] then Some (Inr (enqueue_request stamp now request resolved e))
          else (case fresh_id stamp now (en_records e) (en_queue e) of
              None \<Rightarrow> None
            | Some (q, i) \<Rightarrow>
                Some (Inr (enqueue_request stamp now (request\<lparr>rq_id := i\<rparr>) resolved (e\<lparr>en_queue := q\<rparr>)))))"

definition failed_files :: "TestResult \<Rightarrow> string list" where
  "failed_files r = map sp_specFile (filter (\<lambda>s. sp_state s = FAILED \<or> sp_state s = TEST_ERROR) (tr_specResults r))"

definition rerun_request :: "string \<Rightarrow> bool \<Rightarrow> TestRecord \<Rightarrow> TestRequest" where
  "rerun_request testId onlyFailed r =
     (let q = re_request r;
          failed = (if onlyFailed \<and> re_hasResult r then failed_files (re_result r) else []);
          q1 = (if failed \<noteq> [] then q\<lparr>rq_specFiles := failed\<rparr> else q)
      in q1\<lparr>rq_id := [], rq_metadata := omap_put ''rerun_of'' testId (rq_metadata q1)\<rparr>)"

definition rerun :: "(string list \<Rightarrow> string list \<times> string list) \<Rightarrow> (TimePoint \<Rightarrow> string) \<Rightarrow> TimePoint
    \<Rightarrow> string \<Rightarrow> bool \<Rightarrow> engine \<Rightarrow> (string + engine \<times> string \<times> publication list) option" where
  "rerun resolve stamp now testId onlyFailed e =
     (case record_of_test e testId of
        None \<Rightarrow> Some (Inr (e, [], []))
      | Some r \<Rightarrow> submit resolve stamp now (rerun_request testId onlyFailed r) e)"

section \<open>Cancelling\<close>

definition cancelled_record :: "TimePoint \<Rightarrow> string \<Rightarrow> TestRecord \<Rightarrow> TestRecord" where
  "cancelled_record now testId r =
     r\<lparr>re_status := (re_status r)\<lparr>ts_state := CANCELLED, ts_endTime := now\<rparr>,
       re_result := (re_result r)\<lparr>tr_testId := testId, tr_finalState := CANCELLED,
                                  tr_startTime := ts_submitTime (re_status r), tr_endTime := now\<rparr>,
       re_hasResult := True\<rparr>"

definition count_cancelled :: "EngineStats \<Rightarrow> EngineStats" where
  "count_cancelled s = s\<lparr>es_completed := es_completed s + 1, es_cancelled := es_cancelled s + 1\<rparr>"

definition cancel_event :: "string \<Rightarrow> string \<Rightarrow> publication" where
  "cancel_event testId stage = (''test.cancelled'', testId, omap_of_list [(''stage'', stage)])"

definition cancel :: "write_outcome \<Rightarrow> TimePoint \<Rightarrow> string \<Rightarrow> engine \<Rightarrow> bool \<times> engine \<times> publication list" where
  "cancel outcome now testId e0 =
     (let (q, wasQueued, pubs) = cancel_queued testId (en_queue e0); e = e0\<lparr>en_queue := q\<rparr> in
      case record_of_test e testId of
        None \<Rightarrow> (False, e, pubs)
      | Some r \<Rightarrow>
          if isTerminalState (state_of r) then (False, e, pubs)
          else if wasQueued
          then (let c = cancelled_record now testId r; e1 = persist outcome c e
                in (True, e1\<lparr>en_records := ix_upd testId (\<lambda>r. c) (en_records e1),
                             en_cancelFlags := omap_erase testId (en_cancelFlags e1),
                             en_stats := count_cancelled (en_stats e1)\<rparr>, pubs @ [cancel_event testId ''queued'']))
          else (case omap_get (en_cancelFlags e) testId of
              None \<Rightarrow> (False, e, pubs)
            | Some f \<Rightarrow> (True, e\<lparr>en_cancelFlags := omap_put testId True (en_cancelFlags e)\<rparr>,
                        pubs @ [cancel_event testId ''running''])))"

section \<open>Queries\<close>

definition test_exists :: "string \<Rightarrow> engine \<Rightarrow> bool" where
  "test_exists testId e = (record_of_test e testId \<noteq> None)"

definition getStatus :: "string \<Rightarrow> engine \<Rightarrow> TestStatus option" where
  "getStatus testId e = map_option re_status (record_of_test e testId)"

definition getResult :: "string \<Rightarrow> engine \<Rightarrow> TestResult option" where
  "getResult testId e =
     (case record_of_test e testId of None \<Rightarrow> None | Some r \<Rightarrow> if re_hasResult r then Some (re_result r) else None)"

definition getRecord :: "string \<Rightarrow> engine \<Rightarrow> TestRecord option" where
  "getRecord testId e = record_of_test e testId"

definition state_selected :: "string \<Rightarrow> TestState \<Rightarrow> bool" where
  "state_selected state st =
     (if state = [] then True
      else if state = ''active'' then st = QUEUED \<or> st = RUNNING
      else if state = ''finished'' then isTerminalState st
      else testStateToString st = state)"

definition test_info :: "TestRecord \<Rightarrow> TestInfo" where
  "test_info r =
     (let q = re_request r; s = re_status r; x = re_result r; has = re_hasResult r
      in \<lparr>ti_testId = rq_id q, ti_name = rq_name q, ti_state = ts_state s, ti_specFiles = rq_specFiles q,
          ti_tags = rq_tags q, ti_priority = rq_priority q, ti_progress = ts_progress s,
          ti_submitTime = ts_submitTime s, ti_startTime = ts_startTime s, ti_endTime = ts_endTime s,
          ti_totalScenarios = (if has then tr_totalScenarios x else ts_totalScenarios s),
          ti_passedScenarios = (if has then tr_passedScenarios x else ts_passedScenarios s),
          ti_failedScenarios = (if has then tr_failedScenarios x else ts_failedScenarios s),
          ti_skippedScenarios = (if has then tr_skippedScenarios x else ts_skippedScenarios s),
          ti_duration = (if has then tr_totalDuration x else 0)\<rparr>)"

text \<open>The loop of \<open>list\<close> over the order of submission, newest first.\<close>

fun list_loop :: "engine \<Rightarrow> string \<Rightarrow> nat \<Rightarrow> nat \<Rightarrow> nat \<Rightarrow> TestInfo list \<Rightarrow> string list \<Rightarrow> TestInfo list" where
  "list_loop e state limit offset skipped out [] = out"
| "list_loop e state limit offset skipped out (i # is) =
     (case record_of_test e i of
        None \<Rightarrow> list_loop e state limit offset skipped out is
      | Some r \<Rightarrow>
          if \<not> state_selected state (state_of r) then list_loop e state limit offset skipped out is
          else if skipped < offset then list_loop e state limit offset (skipped + 1) out is
          else if length out \<ge> limit then out
          else list_loop e state limit offset skipped (out @ [test_info r]) is)"

definition list_tests :: "string \<Rightarrow> nat \<Rightarrow> nat \<Rightarrow> engine \<Rightarrow> TestInfo list" where
  "list_tests state limit offset e = list_loop e state limit offset 0 [] (rev (snd (en_records e)))"

definition count_tests :: "string \<Rightarrow> engine \<Rightarrow> nat" where
  "count_tests state e =
     (if state = [] then length (fst (en_records e))
      else length (filter (\<lambda>(i, r). testStateToString (state_of r) = state) (fst (en_records e))))"

section \<open>Removing\<close>

definition drop_record :: "string \<Rightarrow> engine \<Rightarrow> engine" where
  "drop_record i e = e\<lparr>en_records := ix_del i (en_records e), en_cancelFlags := omap_erase i (en_cancelFlags e)\<rparr>"

definition remove_test :: "string \<Rightarrow> engine \<Rightarrow> bool \<times> engine" where
  "remove_test testId e =
     (case record_of_test e testId of
        None \<Rightarrow> (False, e)
      | Some r \<Rightarrow>
          if \<not> isTerminalState (state_of r) then (False, e)
          else (let e1 = drop_record testId e
                in (True, e1\<lparr>en_store := snd (store_remove testId (en_store e1))\<rparr>)))"

definition finished_ids :: "engine \<Rightarrow> string list" where
  "finished_ids e =
     filter (\<lambda>i. case record_of_test e i of None \<Rightarrow> False | Some r \<Rightarrow> isTerminalState (state_of r)) (snd (en_records e))"

definition clearHistory :: "engine \<Rightarrow> nat \<times> engine" where
  "clearHistory e =
     (let removed = finished_ids e; e1 = foldl (\<lambda>e i. drop_record i e) e removed
      in (length removed, e1\<lparr>en_store := store_drop removed (en_store e1)\<rparr>))"

section \<open>Workers\<close>

definition set_record :: "string \<Rightarrow> (TestRecord \<Rightarrow> TestRecord) \<Rightarrow> engine \<Rightarrow> engine" where
  "set_record i f e = e\<lparr>en_records := ix_upd i f (en_records e)\<rparr>"

definition deactivate :: "string \<Rightarrow> engine \<Rightarrow> engine" where
  "deactivate i e = e\<lparr>en_active := remove1 i (en_active e)\<rparr>"

text \<open>A worker takes the front task; during a stop it marks the test as cancelled instead.\<close>

definition take_task :: "engine \<Rightarrow> (TestTask \<times> engine) option" where
  "take_task e =
     (case dequeue (en_queue e) of None \<Rightarrow> None
      | Some (t, q) \<Rightarrow> Some (t, e\<lparr>en_queue := q, en_active := en_active e @ [task_id t]\<rparr>))"

definition abandon_task :: "TimePoint \<Rightarrow> string \<Rightarrow> engine \<Rightarrow> engine" where
  "abandon_task now i e =
     deactivate i (set_record i (\<lambda>r. r\<lparr>re_status := (re_status r)\<lparr>ts_state := CANCELLED, ts_endTime := now\<rparr>\<rparr>) e)"

text \<open>The exception handler of \<open>workerLoop\<close>.\<close>

definition crash_task :: "TimePoint \<Rightarrow> string \<Rightarrow> string \<Rightarrow> engine \<Rightarrow> engine" where
  "crash_task now what i e =
     deactivate i (set_record i (\<lambda>r.
       r\<lparr>re_status := (re_status r)\<lparr>ts_state := TEST_ERROR, ts_errors := ts_errors (re_status r) @ [what], ts_endTime := now\<rparr>,
         re_result := (re_result r)\<lparr>tr_finalState := TEST_ERROR, tr_errors := tr_errors (re_result r) @ [what]\<rparr>,
         re_hasResult := True\<rparr>) e)"

text \<open>\<open>execute\<close> up to the point where it has read the record: \<open>None\<close> is its early return.\<close>

definition begin_test :: "string \<Rightarrow> engine \<Rightarrow> (string list \<times> TestStatus) option \<times> engine" where
  "begin_test i e =
     (case record_of_test e i of
        None \<Rightarrow> (None, deactivate i e)
      | Some r \<Rightarrow>
          if state_of r = CANCELLED then (None, deactivate i e)
          else (Some (re_resolvedSpecs r, re_status r),
                if omap_get (en_cancelFlags e) i = None
                then e\<lparr>en_cancelFlags := omap_put i False (en_cancelFlags e)\<rparr> else e))"

text \<open>\<open>updateStatus\<close>: the record shows the status of the run.\<close>

definition show_status :: "string \<Rightarrow> TestStatus \<Rightarrow> engine \<Rightarrow> engine" where
  "show_status i s e = set_record i (\<lambda>r. r\<lparr>re_status := s\<rparr>) e"

definition finished_record :: "string \<Rightarrow> TestStatus \<Rightarrow> TestResult \<Rightarrow> engine \<Rightarrow> TestRecord" where
  "finished_record i s x e =
     (case record_of_test e i of None \<Rightarrow> default_TestRecord | Some r \<Rightarrow> r)\<lparr>re_status := s, re_result := x, re_hasResult := True\<rparr>"

text \<open>The end of \<open>execute\<close>: first the file, then the record, then the statistics.\<close>

definition finish_test :: "write_outcome \<Rightarrow> string \<Rightarrow> TestStatus \<Rightarrow> TestResult \<Rightarrow> engine \<Rightarrow> engine" where
  "finish_test outcome i s x e =
     (let e1 = persist outcome (finished_record i s x e) e;
          e2 = set_record i (\<lambda>r. r\<lparr>re_status := s, re_result := x, re_hasResult := True\<rparr>) e1
      in deactivate i (e2\<lparr>en_cancelFlags := omap_erase i (en_cancelFlags e2),
                         en_stats := count_result x (en_stats e2)\<rparr>))"

text \<open>
  A whole test on one worker, nothing else touching the engine meanwhile: the composition of
  the parts above with the run of the specifications.
\<close>

definition execute :: "'w environment \<Rightarrow> nat list \<Rightarrow> write_outcome \<Rightarrow> TestTask \<Rightarrow> 'w \<Rightarrow> engine
    \<Rightarrow> engine \<times> publication list \<times> 'w" where
  "execute env schedule outcome task w e =
     (case begin_test (task_id task) e of
        (None, e1) \<Rightarrow> (e1, [], w)
      | (Some (resolved, status), e1) \<Rightarrow>
          (let ctx = test_completed (run_test env (en_config e1) schedule resolved (tk_request task) status w);
               e2 = show_status (task_id task) (rc_visible ctx) e1
           in (finish_test outcome (task_id task) (rc_status ctx) (rc_result ctx) e2, rc_events ctx, rc_world ctx)))"

text \<open>\<open>start\<close> and \<open>stop\<close>, without the threads: \<open>stop\<close> sets every flag and closes the queue.\<close>

definition start_engine :: "bool \<Rightarrow> engine \<Rightarrow> engine" where
  "start_engine created e =
     (if en_running e then e
      else let e1 = loadHistory created (e\<lparr>en_stopRequested := False\<rparr>)
           in e1\<lparr>en_queue := reopen_queue (en_queue e1), en_running := True\<rparr>)"

definition stop_engine :: "engine \<Rightarrow> engine" where
  "stop_engine e =
     (if \<not> en_running e then e
      else e\<lparr>en_stopRequested := True, en_cancelFlags := map (\<lambda>(i, f). (i, True)) (en_cancelFlags e),
             en_queue := close_queue (en_queue e), en_running := False\<rparr>)"

end
