(* ===== verification/EngineRecordFacts.thy ===== *)
theory EngineRecordFacts
  imports EngineRecords
begin

text \<open>
  The invariant of the engine's bookkeeping and its preservation by every operation, as an
  \<open>inductive\<close> step relation over submissions, cancellations, removals and the phases of the
  worker threads, in any order. The history is trimmed exactly as far as it must be, oldest
  finished test first.
\<close>

named_theorems engine_simps \<open>what operations do to the parts of the engine\<close>

section \<open>Trimming\<close>

lemma find_first:
  "find P xs = Some i \<Longrightarrow> distinct xs \<Longrightarrow>
   remove_first P xs = filter (\<lambda>j. j \<noteq> i) xs \<and> P i \<and> i \<in> set xs \<and> filter P xs = i # filter P (remove_first P xs)"
proof (induction xs)
  case (Cons x xs)
  then show ?case by (cases "P x") (auto intro!: filter_True [symmetric])
qed simp

definition finished_in :: "TestRecord index \<Rightarrow> string list" where
  "finished_in ix = filter (trimmable (fst ix)) (snd ix)"

lemma length_without: "i \<in> set xs \<Longrightarrow> distinct xs \<Longrightarrow> Suc (length (filter (\<lambda>j. j \<noteq> i) xs)) = length xs"
proof (induction xs)
  case (Cons x xs)
  show ?case
  proof (cases "x = i")
    case True
    then have "filter (\<lambda>j. j \<noteq> i) xs = xs" using Cons.prems by (intro filter_True) auto
    with True show ?thesis by simp
  next
    case False
    with Cons show ?thesis by simp
  qed
qed simp

definition drop_flags :: "string list \<Rightarrow> (string, bool) omap \<Rightarrow> (string, bool) omap" where
  "drop_flags is flags = foldl (\<lambda>fs i. omap_erase i fs) flags is"

lemma trim_step:
  assumes "ix_ok (records, order)" and "find (trimmable records) order = Some i"
  shows "map_of records i \<noteq> None" and "(omap_erase i records, remove_first (trimmable records) order) = ix_del i (records, order)"
    and "finished_in (records, order) = i # finished_in (ix_del i (records, order))"
proof -
  from assms(1) have d: "distinct order" by (simp add: ix_ok_def)
  note f = find_first [OF assms(2) d]
  then have "i \<in> set (snd (records, order))" by simp
  then show "map_of records i \<noteq> None"
    using ixi.get_None [OF assms(1), of i] by (simp add: ix_get_def)
  show del: "(omap_erase i records, remove_first (trimmable records) order) = ix_del i (records, order)"
    using f by (simp add: ix_del_def)
  have "filter (trimmable records) (remove_first (trimmable records) order) =
      filter (trimmable (omap_erase i records)) (remove_first (trimmable records) order)"
    using f by (intro filter_cong) (auto simp: trimmable_def omap_get_erase)
  with f show "finished_in (records, order) = i # finished_in (ix_del i (records, order))"
    by (simp add: finished_in_def ix_del_def)
qed

definition trim_ids :: "nat \<Rightarrow> TestRecord index \<Rightarrow> string list" where
  "trim_ids limit ix = take (length (snd ix) - limit) (finished_in ix)"

lemma trim_loop_result:
  assumes "ix_ok ix"
  shows "trim_loop limit ix flags removed =
    (ixi.dels (trim_ids limit ix) ix, drop_flags (trim_ids limit ix) flags, removed @ trim_ids limit ix)"
  using assms
proof (induction limit ix flags removed rule: trim_loop.induct)
  case (1 limit records order flags removed)
  show ?case
  proof (cases "limit < length order")
    case False
    then show ?thesis by (simp add: trim_loop.simps ixi.dels_def drop_flags_def trim_ids_def)
  next
    case long: True
    show ?thesis
    proof (cases "find (trimmable records) order")
      case None
      then have "finished_in (records, order) = []"
        by (simp add: finished_in_def find_None_iff filter_empty_conv)
      with long None show ?thesis by (simp add: trim_loop.simps ixi.dels_def drop_flags_def trim_ids_def)
    next
      case (Some i)
      note st = trim_step [OF "1.prems"(1) Some]
      let ?ix = "ix_del i (records, order)"
      have len: "length order - limit = Suc (length (snd ?ix) - limit)"
      proof -
        have "i \<in> set order" using Some by (metis find_Some_iff nth_mem)
        moreover have "distinct order" using "1.prems"(1) by (simp add: ix_ok_def)
        ultimately have "Suc (length (filter (\<lambda>j. j \<noteq> i) order)) = length order" by (rule length_without)
        with long show ?thesis by (simp add: ix_del_def)
      qed
      have "trim_loop limit (records, order) flags removed = trim_loop limit ?ix (omap_erase i flags) (removed @ [i])"
        unfolding trim_loop.simps [of limit records order] st(2) [symmetric]
        using long Some st(1) by (simp add: Let_def del: not_None_eq)
      also have "\<dots> = (ixi.dels (trim_ids limit ?ix) ?ix, drop_flags (trim_ids limit ?ix) (omap_erase i flags),
          (removed @ [i]) @ trim_ids limit ?ix)"
        by (rule "1.IH"(2) [OF long Some refl st(1), unfolded st(2), OF ixi.inv_del [OF "1.prems"(1)]])
      finally have "trim_loop limit (records, order) flags removed = (ixi.dels (trim_ids limit ?ix) ?ix,
          drop_flags (trim_ids limit ?ix) (omap_erase i flags), (removed @ [i]) @ trim_ids limit ?ix)" .
      moreover have "trim_ids limit (records, order) = i # trim_ids limit ?ix"
        using len st(3) by (simp add: trim_ids_def)
      ultimately show ?thesis by (simp add: ixi.dels_def drop_flags_def)
    qed
  qed
qed

text \<open>The ids that trimming removes.\<close>

definition trimmed :: "engine \<Rightarrow> string list" where
  "trimmed e = trim_ids (ec_historyLimit (en_config e)) (en_records e)"

lemma trimHistory_eq:
  "ix_ok (en_records e) \<Longrightarrow> trimHistory e =
     e\<lparr>en_records := ixi.dels (trimmed e) (en_records e), en_cancelFlags := drop_flags (trimmed e) (en_cancelFlags e),
       en_store := store_drop (trimmed e) (en_store e)\<rparr>"
  by (simp add: trimHistory_def trim_loop_result trimmed_def)

text \<open>A test that is not finished.\<close>

definition live :: "engine \<Rightarrow> string \<Rightarrow> bool" where
  "live e i = (\<exists>r. record_of_test e i = Some r \<and> \<not> isTerminalState (state_of r))"

lemma finished_not_live: "ix_ok (en_records e) \<Longrightarrow> i \<in> set (finished_in (en_records e)) \<Longrightarrow> \<not> live e i"
  by (auto simp: finished_in_def trimmable_def live_def record_of_test_def ix_get_def split: option.splits)

lemma trimmed_not_live: "ix_ok (en_records e) \<Longrightarrow> i \<in> set (trimmed e) \<Longrightarrow> \<not> live e i"
  using finished_not_live by (auto simp: trimmed_def trim_ids_def dest: in_set_takeD)

text \<open>
  C16. Trimming removes exactly as many tests as exceed the limit, as far as finished ones
  last, and the oldest finished ones; a test that is queued or running is never removed.
\<close>

theorem trimHistory_exact:
  assumes "ix_ok (en_records e)"
  shows "snd (en_records (trimHistory e)) = filter (\<lambda>i. i \<notin> set (trimmed e)) (snd (en_records e))
    \<and> length (trimmed e) = min (length (snd (en_records e)) - ec_historyLimit (en_config e)) (length (finished_in (en_records e)))
    \<and> (live e i \<longrightarrow> record_of_test (trimHistory e) i = record_of_test e i)"
proof -
  note d = ixi.dels_facts [OF assms, of "trimmed e"]
  have "live e i \<Longrightarrow> i \<notin> set (trimmed e)" using trimmed_not_live [OF assms] by blast
  with d show ?thesis
    by (auto simp: trimHistory_eq [OF assms] record_of_test_def trimmed_def trim_ids_def min_def)
qed

definition sample_history :: engine where
  "sample_history = (new_engine 0)\<lparr>en_config := default_EngineConfig\<lparr>ec_historyLimit := 1\<rparr>,
     en_records := ([(''a'', default_TestRecord\<lparr>re_status := default_TestStatus\<lparr>ts_state := PASSED\<rparr>\<rparr>),
                     (''b'', default_TestRecord\<lparr>re_status := default_TestStatus\<lparr>ts_state := QUEUED\<rparr>\<rparr>),
                     (''c'', default_TestRecord\<lparr>re_status := default_TestStatus\<lparr>ts_state := PASSED\<rparr>\<rparr>)],
                    [''c'', ''b'', ''a''])\<rparr>"

lemma sample_trimmed: "trimmed sample_history = [''c'', ''a'']"
  by code_simp

lemma sample_history_ok: "ix_ok (en_records sample_history)"
  by code_simp

theorem trimHistory_exact_witness: "snd (en_records (trimHistory sample_history)) = [''b'']"
  using trimHistory_exact [OF sample_history_ok, of "''a''"] by (simp add: sample_trimmed) (simp add: sample_history_def)

section \<open>The invariant\<close>

definition row_ok :: "string \<Rightarrow> TestRecord \<Rightarrow> bool" where
  "row_ok i r = (rq_id (re_request r) = i \<and> (re_hasResult r \<longrightarrow> isTerminalState (state_of r)))"

definition claimed :: "engine \<Rightarrow> string list" where
  "claimed e = getTaskIds (en_queue e) @ en_active e"

definition stats_ok :: "EngineStats \<Rightarrow> bool" where
  "stats_ok s = (es_completed s = es_passed s + es_failed s + es_cancelled s + es_errored s)"

definition engine_ok :: "engine \<Rightarrow> bool" where
  "engine_ok e = (ix_ok (en_records e) \<and> ixi.every row_ok (en_records e) \<and> distinct (claimed e)
     \<and> set (claimed e) = {i. live e i} \<and> stats_ok (en_stats e))"

lemma engine_okD:
  assumes "engine_ok e"
  shows "ix_ok (en_records e)" "ixi.every row_ok (en_records e)" "distinct (claimed e)" "set (claimed e) = {i. live e i}"
    "stats_ok (en_stats e)"
  using assms by (simp_all add: engine_ok_def)

text \<open>Operations that leave the records, the queue, the workers and the statistics alone.\<close>

definition same_core :: "engine \<Rightarrow> engine \<Rightarrow> bool" where
  "same_core e e' = (en_records e' = en_records e \<and> en_queue e' = en_queue e \<and> en_active e' = en_active e
     \<and> en_stats e' = en_stats e)"

lemma same_core_ok: "same_core e e' \<Longrightarrow> engine_ok e \<Longrightarrow> engine_ok e'"
  by (simp add: same_core_def engine_ok_def claimed_def live_def record_of_test_def)

lemma persist_core: "same_core e (persist outcome r e)"
  by (simp add: persist_def same_core_def)

lemma count_state_ok: "stats_ok (s\<lparr>es_completed := es_completed s + 1\<rparr>) \<or> stats_ok s \<Longrightarrow>
    stats_ok s \<Longrightarrow> stats_ok (count_state st (s\<lparr>es_completed := es_completed s + 1\<rparr>))"
  by (cases st) (simp_all add: stats_ok_def count_state_def)

lemma count_result_ok: "stats_ok s \<Longrightarrow> stats_ok (count_result r s)"
proof -
  assume "stats_ok s"
  then have "stats_ok (count_state (tr_finalState r) (s\<lparr>es_completed := es_completed s + 1\<rparr>))"
    using count_state_ok by blast
  then show ?thesis by (simp add: count_result_def stats_ok_def Let_def)
qed

text \<open>The index keeps its unfinished rows: what deletions and additions of finished rows do.\<close>

definition keeps_live :: "engine \<Rightarrow> engine \<Rightarrow> bool" where
  "keeps_live e e' = (ix_ok (en_records e') \<and> ixi.every row_ok (en_records e') \<and> (\<forall>i. live e' i = live e i)
     \<and> en_queue e' = en_queue e \<and> en_active e' = en_active e \<and> stats_ok (en_stats e'))"

lemma keeps_live_ok: "keeps_live e e' \<Longrightarrow> engine_ok e \<Longrightarrow> engine_ok e'"
  by (simp add: keeps_live_def engine_ok_def claimed_def)

lemma dels_keeps_live:
  assumes "ix_ok (en_records e)" and "ixi.every row_ok (en_records e)" and "stats_ok (en_stats e)"
    and "\<forall>i \<in> set is. \<not> live e i"
  shows "keeps_live e (e\<lparr>en_records := ixi.dels is (en_records e), en_cancelFlags := flags, en_store := st\<rparr>)"
proof -
  note d = ixi.dels_facts [OF assms(1), of "is"]
  have "ixi.every row_ok (ixi.dels is (en_records e))"
    using assms(2) d by (auto simp: ixi.every_def)
  moreover have "live (e\<lparr>en_records := ixi.dels is (en_records e), en_cancelFlags := flags, en_store := st\<rparr>) i = live e i" for i
    using d assms(4) by (auto simp: live_def record_of_test_def)
  ultimately show ?thesis using d assms(3) by (simp add: keeps_live_def)
qed

lemma trimHistory_live:
  assumes "ix_ok (en_records e)" and "ixi.every row_ok (en_records e)" and "stats_ok (en_stats e)"
  shows "keeps_live e (trimHistory e)"
  unfolding trimHistory_eq [OF assms(1)]
  using trimmed_not_live [OF assms(1)] by (intro dels_keeps_live assms) blast

lemma keeps_live_trans: "keeps_live a b \<Longrightarrow> keeps_live b c \<Longrightarrow> keeps_live a c"
  by (simp add: keeps_live_def)

section \<open>Submitting\<close>

lemma set_getTaskIds_insert: "set (map task_id (insert_task t ts)) = insert (task_id t) (task_id ` set ts)"
  by simp

lemma distinct_insert_task: "distinct (map task_id (insert_task t ts)) \<longleftrightarrow> task_id t \<notin> task_id ` set ts \<and> distinct (map task_id ts)"
proof -
  define P where "P = (\<lambda>x. \<not> priorityValue (task_priority x) < priorityValue (task_priority t))"
  define a b where "a = takeWhile P ts" and "b = dropWhile P ts"
  have ts: "ts = a @ b" by (simp add: a_def b_def)
  have "insert_task t ts = a @ t # b" by (simp add: insert_task_def Let_def a_def b_def P_def)
  then show ?thesis unfolding ts by auto
qed

lemma enqueue_ids:
  assumes "rq_id rq \<noteq> []" and "enqueue stamp now rq q = (q', i, pubs)"
  shows "\<exists>t. q_items q' = insert_task t (q_items q) \<and> task_id t = rq_id rq"
  using assms by (auto simp: enqueue_def new_task_def Let_def split: prod.splits)

lemma place_record_ok:
  assumes "engine_ok e" and "record_of_test e (rq_id rq) = None"
  shows "ix_ok (en_records (place_record now rq res e)) \<and> ixi.every row_ok (en_records (place_record now rq res e))
    \<and> (\<forall>i. live (place_record now rq res e) i = (i = rq_id rq \<or> live e i))
    \<and> en_queue (place_record now rq res e) = en_queue e \<and> en_active (place_record now rq res e) = en_active e
    \<and> stats_ok (en_stats (place_record now rq res e))"
proof -
  let ?r = "new_record now rq res"
  let ?e = "e\<lparr>en_records := ix_add (rq_id rq) ?r (en_records e),
                 en_cancelFlags := omap_put (rq_id rq) False (en_cancelFlags e)\<rparr>"
  note ok = engine_okD [OF assms(1)]
  have free: "ix_get (en_records e) (rq_id rq) = None" using assms(2) by (simp add: record_of_test_def)
  have row: "row_ok (rq_id rq) ?r" by (simp add: row_ok_def new_record_def default_TestRecord_def)
  have a: "ix_ok (en_records ?e)" "ixi.every row_ok (en_records ?e)" "stats_ok (en_stats ?e)"
    using ixi.inv_add [OF ok(1) free] ixi.every_add [OF ok(1) free ok(2) row] ok(5) by simp_all
  have "live ?e i = (i = rq_id rq \<or> live e i)" for i
    using ixi.get_add [OF ok(1) free, of ?r i] free
    by (auto simp: live_def record_of_test_def new_record_def default_TestRecord_def default_TestStatus_def)
  moreover from trimHistory_live [OF a] have "keeps_live ?e (place_record now rq res e)"
    by (simp add: place_record_def)
  ultimately show ?thesis by (simp add: keeps_live_def)
qed

lemma enqueue_request_ok:
  assumes "engine_ok e" and "record_of_test e (rq_id rq) = None" and "rq_id rq \<noteq> []"
    and "enqueue_request stamp now rq res e = (e', i, pubs)"
  shows "engine_ok e' \<and> live e' (rq_id rq) \<and> i = rq_id rq"
proof -
  let ?p = "place_record now rq res e"
  note p = place_record_ok [OF assms(1,2), of now res]
  obtain q k ps where q: "enqueue stamp now rq (en_queue ?p) = (q, k, ps)" by (metis prod_cases3)
  with assms(4) have e': "e' = ?p\<lparr>en_queue := q\<rparr>" "i = rq_id rq" by (simp_all add: enqueue_request_def Let_def)
  obtain t where t: "q_items q = insert_task t (q_items (en_queue e))" "task_id t = rq_id rq"
    using enqueue_ids [OF assms(3) q] p by auto
  note ok = engine_okD [OF assms(1)]
  have "\<not> live e (rq_id rq)" using assms(2) by (simp add: live_def)
  then have new: "rq_id rq \<notin> set (claimed e)" using ok(4) by simp
  have "distinct (claimed e')"
    using ok(3) new p by (auto simp: claimed_def e' getTaskIds_def t distinct_insert_task)
  moreover have "live e' j = (j = rq_id rq \<or> live e j)" for j
    using p by (simp add: e' live_def record_of_test_def)
  moreover from this have "set (claimed e') = {i. live e' i}"
    using ok(4) p by (auto simp: claimed_def e' getTaskIds_def t)
  ultimately show ?thesis
    using p by (auto simp: engine_ok_def e')
qed

lemma generateTaskId_facts: "generateTaskId stamp now q = (q', i) \<Longrightarrow> q_items q' = q_items q \<and> i \<noteq> []"
  by (auto simp: generateTaskId_def Let_def)

lemma fresh_id_facts:
  assumes "fresh_id stamp now ix q = Some (q', i)"
  shows "ix_get ix i = None \<and> q_items q' = q_items q \<and> i \<noteq> []"
proof -
  have "ix_get ix (snd y) = None \<and> q_items (fst y) = q_items q \<and> snd y \<noteq> []"
    if "fresh_id stamp now ix q = Some y" for y
  proof (rule fresh_id.raw_induct [where P = "\<lambda>stamp now ix q y.
      ix_get ix (snd y) = None \<and> q_items (fst y) = q_items q \<and> snd y \<noteq> []", OF _ that])
    fix f :: "(TimePoint \<Rightarrow> string) \<Rightarrow> TimePoint \<Rightarrow> TestRecord index \<Rightarrow> test_queue \<Rightarrow> (test_queue \<times> string) option"
      and stamp now ix q y
    assume ih: "\<And>stamp now ix q y. f stamp now ix q = Some y \<Longrightarrow>
        ix_get ix (snd y) = None \<and> q_items (fst y) = q_items q \<and> snd y \<noteq> []"
      and b: "(case generateTaskId stamp now q of (q', i) \<Rightarrow>
        if ix_get ix i \<noteq> None then f stamp now ix q' else Some (q', i)) = Some y"
    obtain q1 j where g: "generateTaskId stamp now q = (q1, j)" by (metis surj_pair)
    note gf = generateTaskId_facts [OF g]
    show "ix_get ix (snd y) = None \<and> q_items (fst y) = q_items q \<and> snd y \<noteq> []"
    proof (cases "ix_get ix j = None")
      case True
      with b gf show ?thesis by (auto simp: g)
    next
      case False
      with b ih [of stamp now ix q1 y] gf show ?thesis by (simp add: g)
    qed
  qed
  from this [OF assms] show ?thesis by simp
qed

lemma queue_swap_ok: "q_items q = q_items (en_queue e) \<Longrightarrow> engine_ok (e\<lparr>en_queue := q\<rparr>) = engine_ok e"
  by (simp add: engine_ok_def claimed_def getTaskIds_def live_def record_of_test_def)

lemma submit_ok:
  assumes "engine_ok e" and "submit resolve stamp now rq e = Some (Inr (e', i, pubs))"
  shows "engine_ok e' \<and> live e' i"
proof -
  from assms(2) obtain res where res: "check_request resolve rq e = Inr res"
    by (auto simp: submit_def split: sum.splits)
  show ?thesis
  proof (cases "rq_id rq = []")
    case False
    then have "record_of_test e (rq_id rq) = None"
      using res by (auto simp: check_request_def Let_def split: prod.splits if_splits)
    moreover have "enqueue_request stamp now rq res e = (e', i, pubs)"
      using assms(2) res False by (simp add: submit_def)
    ultimately show ?thesis using enqueue_request_ok [OF assms(1) _ False] by blast
  next
    case True
    with assms(2) res obtain q j where f: "fresh_id stamp now (en_records e) (en_queue e) = Some (q, j)"
      and en: "enqueue_request stamp now (rq\<lparr>rq_id := j\<rparr>) res (e\<lparr>en_queue := q\<rparr>) = (e', i, pubs)"
      by (auto simp: submit_def split: option.splits prod.splits)
    note ff = fresh_id_facts [OF f]
    have "engine_ok (e\<lparr>en_queue := q\<rparr>)" using queue_swap_ok [of q e] ff assms(1) by simp
    from enqueue_request_ok [OF this _ _ en] ff show ?thesis by (auto simp: record_of_test_def)
  qed
qed

section \<open>Cancelling, removing and clearing\<close>

lemma set_record_facts:
  assumes "ix_ok (en_records e)"
  shows "ix_ok (en_records (set_record i f e))"
    and "record_of_test (set_record i f e) j = (if j = i then map_option f (record_of_test e j) else record_of_test e j)"
  using ixi.inv_upd [OF assms, of i f] ixi.get_upd [OF assms, of i f j]
  by (simp_all add: set_record_def record_of_test_def)

text \<open>Finishing a row takes its id out of the unfinished ones.\<close>

lemma finish_row:
  assumes "ix_ok (en_records e)" and "ixi.every row_ok (en_records e)"
    and "\<And>r. row_ok i r \<Longrightarrow> row_ok i (f r) \<and> isTerminalState (state_of (f r))"
  shows "ixi.every row_ok (en_records (set_record i f e))" and "live (set_record i f e) j = (live e j \<and> j \<noteq> i)"
proof -
  show "ixi.every row_ok (en_records (set_record i f e))"
    using assms(3) unfolding set_record_def by (simp add: ixi.every_upd [OF assms(1,2)])
  have "\<And>r. record_of_test e i = Some r \<Longrightarrow> row_ok i r"
    using assms(2) by (simp add: ixi.every_def record_of_test_def)
  then show "live (set_record i f e) j = (live e j \<and> j \<noteq> i)"
    using assms(3) by (auto simp: live_def set_record_facts(2) [OF assms(1)])
qed

lemma cancel_queued_ids:
  assumes "cancel_queued i q = (q', b, pubs)" and "distinct (getTaskIds q)"
  shows "getTaskIds q' = filter (\<lambda>j. j \<noteq> i) (getTaskIds q)" and "b = (i \<in> set (getTaskIds q))"
proof -
  have "map task_id (remove_first (\<lambda>t. task_id t = i) ts) = filter (\<lambda>j. j \<noteq> i) (map task_id ts)"
    if "distinct (map task_id ts)" for ts
    using that
  proof (induction ts)
    case (Cons t ts)
    then show ?case
      by (cases "task_id t = i") (auto intro!: filter_True [symmetric])
  qed simp
  then show "getTaskIds q' = filter (\<lambda>j. j \<noteq> i) (getTaskIds q)" "b = (i \<in> set (getTaskIds q))"
    using assms
    by (auto simp: cancel_queued_def Let_def getTaskIds_def queue_contains_def list_ex_iff filter_id_conv split: if_splits)
qed

lemma cancelled_row: "row_ok i r \<Longrightarrow> row_ok i (cancelled_record now i r) \<and> isTerminalState (state_of (cancelled_record now i r))"
  by (simp add: row_ok_def cancelled_record_def)

lemma cancel_ok:
  assumes "engine_ok e" and "cancel outcome now i e = (b, e', pubs)"
  shows "engine_ok e'"
proof -
  note ok = engine_okD [OF assms(1)]
  obtain q wq ps where q: "cancel_queued i (en_queue e) = (q, wq, ps)" by (metis prod_cases3)
  have d: "distinct (getTaskIds (en_queue e))" using ok(3) by (simp add: claimed_def)
  note ids = cancel_queued_ids [OF q d]
  let ?e = "e\<lparr>en_queue := q\<rparr>"
  have same: "i \<notin> set (getTaskIds (en_queue e)) \<Longrightarrow> getTaskIds q = getTaskIds (en_queue e)"
    using ids(1) by (auto intro: filter_True)
  have untouched: "engine_ok ?e" if "\<not> wq"
    using that same ids(2) assms(1) by (simp add: engine_ok_def claimed_def live_def record_of_test_def)
  show ?thesis
  proof (cases "wq \<and> live e i")
    case False
    have "\<not> wq" if "\<not> live e i" using that ids(2) ok(4) by (auto simp: claimed_def)
    with False untouched have "engine_ok ?e" by blast
    then have "engine_ok (?e\<lparr>en_cancelFlags := fl\<rparr>)" for fl
      by (rule same_core_ok [rotated]) (simp add: same_core_def)
    with \<open>engine_ok ?e\<close> False assms(2) q show ?thesis
      by (auto simp: cancel_def Let_def live_def record_of_test_def split: option.splits if_splits)
  next
    case True
    then obtain r where r: "record_of_test e i = Some r" "\<not> isTerminalState (state_of r)"
      by (auto simp: live_def)
    let ?c = "cancelled_record now i r"
    let ?p = "persist outcome ?c ?e"
    have p: "same_core ?e ?p" by (rule persist_core)
    have e': "e' = (set_record i (\<lambda>r. ?c) ?p)\<lparr>en_cancelFlags := omap_erase i (en_cancelFlags ?p),
        en_stats := count_cancelled (en_stats ?p)\<rparr>"
      using assms(2) True q r by (simp add: cancel_def Let_def record_of_test_def set_record_def split: prod.splits)
    have pr: "ix_ok (en_records ?p)" "ixi.every row_ok (en_records ?p)"
      using p ok(1,2) by (simp_all add: same_core_def)
    have row: "row_ok i ?c \<and> isTerminalState (state_of ?c)"
      using cancelled_row ok(2) r(1) by (simp add: ixi.every_def record_of_test_def)
    note fr = finish_row [OF pr, of i "\<lambda>r. ?c"]
    have lv: "live e' j = (live e j \<and> j \<noteq> i)" for j
      using fr(2) row p by (simp add: e' live_def record_of_test_def same_core_def)
    have "i \<notin> set (en_active e)" using True ids(2) ok(3) by (auto simp: claimed_def)
    then have cl: "claimed e' = filter (\<lambda>j. j \<noteq> i) (claimed e)"
      using ids(1) p by (auto simp: claimed_def e' same_core_def set_record_def intro!: filter_True [symmetric])
    have "ix_ok (en_records e')" "ixi.every row_ok (en_records e')" "stats_ok (en_stats e')"
      using set_record_facts(1) [OF pr(1)] fr(1) row p ok(5)
      by (simp_all add: e' stats_ok_def count_cancelled_def same_core_def)
    then show ?thesis using lv cl ok(3,4) by (auto simp: engine_ok_def)
  qed
qed

lemma remove_test_ok:
  assumes "engine_ok e" and "remove_test i e = (b, e')"
  shows "engine_ok e'"
proof -
  note ok = engine_okD [OF assms(1)]
  show ?thesis
  proof (cases b)
    case False
    with assms show ?thesis by (auto simp: remove_test_def Let_def split: option.splits if_splits)
  next
    case True
    with assms(2) have nl: "\<not> live e i" and
      e': "e' = e\<lparr>en_records := ixi.dels [i] (en_records e), en_cancelFlags := omap_erase i (en_cancelFlags e),
        en_store := snd (store_remove i (en_store e))\<rparr>"
      by (auto simp: remove_test_def Let_def live_def drop_record_def ixi.dels_def split: option.splits if_splits)
    have "keeps_live e e'" unfolding e' using ok nl by (intro dels_keeps_live) auto
    then show ?thesis using assms(1) by (rule keeps_live_ok)
  qed
qed

lemma drop_records_eq:
  "foldl (\<lambda>e i. drop_record i e) e is =
   e\<lparr>en_records := ixi.dels is (en_records e), en_cancelFlags := drop_flags is (en_cancelFlags e)\<rparr>"
  by (induction "is" arbitrary: e) (simp_all add: drop_record_def ixi.dels_def drop_flags_def)

lemma clearHistory_ok:
  assumes "engine_ok e"
  shows "engine_ok (snd (clearHistory e))"
proof -
  note ok = engine_okD [OF assms]
  have nl: "\<forall>i \<in> set (finished_ids e). \<not> live e i" by (auto simp: finished_ids_def live_def)
  have "keeps_live e (e\<lparr>en_records := ixi.dels (finished_ids e) (en_records e),
      en_cancelFlags := drop_flags (finished_ids e) (en_cancelFlags e), en_store := store_drop (finished_ids e) (en_store e)\<rparr>)"
    using ok nl by (intro dels_keeps_live) auto
  from keeps_live_ok [OF this assms] show ?thesis
    by (simp add: clearHistory_def Let_def drop_records_eq)
qed

section \<open>Workers\<close>

lemma take_task_ok:
  assumes "engine_ok e" and "take_task e = Some (t, e')"
  shows "engine_ok e' \<and> task_id t \<in> set (en_active e')"
proof -
  from assms(2) obtain ts where q: "q_items (en_queue e) = t # ts"
    and e': "e' = e\<lparr>en_queue := (en_queue e)\<lparr>q_items := ts\<rparr>, en_active := en_active e @ [task_id t]\<rparr>"
    by (auto simp: take_task_def dequeue_def split: option.splits list.splits)
  have "mset (claimed e') = mset (claimed e)" by (simp add: claimed_def getTaskIds_def e' q)
  then have "distinct (claimed e') = distinct (claimed e)" "set (claimed e') = set (claimed e)"
    by (rule mset_eq_imp_distinct_iff, rule mset_eq_setD)
  with assms(1) show ?thesis by (simp add: engine_ok_def e' live_def record_of_test_def)
qed

text \<open>A worker that finishes a test in whatever way: its row is finished and its claim given up.\<close>

lemma finish_claim:
  assumes "engine_ok e" and "i \<in> set (en_active e)" and "same_core e e1"
    and "\<And>r. row_ok i r \<Longrightarrow> row_ok i (f r) \<and> isTerminalState (state_of (f r))" and "stats_ok s"
  shows "engine_ok (deactivate i ((set_record i f e1)\<lparr>en_cancelFlags := fl, en_stats := s\<rparr>))"
proof -
  let ?e = "deactivate i ((set_record i f e1)\<lparr>en_cancelFlags := fl, en_stats := s\<rparr>)"
  note ok = engine_okD [OF assms(1)]
  have r1: "ix_ok (en_records e1)" "ixi.every row_ok (en_records e1)"
    using assms(3) ok(1,2) by (simp_all add: same_core_def)
  note fr = finish_row [OF r1 assms(4)]
  have lv: "live ?e j = (live e j \<and> j \<noteq> i)" for j
    using fr(2) assms(3) by (simp add: live_def record_of_test_def same_core_def deactivate_def)
  have nq: "i \<notin> set (getTaskIds (en_queue e))" "distinct (en_active e)"
    using ok(3) assms(2) by (auto simp: claimed_def)
  have "claimed ?e = getTaskIds (en_queue e) @ remove1 i (en_active e)"
    using assms(3) by (simp add: claimed_def deactivate_def set_record_def same_core_def)
  moreover have "set (getTaskIds (en_queue e) @ remove1 i (en_active e)) = set (claimed e) - {i}"
    using nq by (auto simp: claimed_def)
  moreover have "distinct (getTaskIds (en_queue e) @ remove1 i (en_active e))"
    using ok(3) nq by (auto simp: claimed_def dest: notin_set_remove1)
  ultimately show ?thesis
    using fr(1) set_record_facts(1) [OF r1(1)] lv ok(4) assms(5)
    by (auto simp: engine_ok_def deactivate_def)
qed

lemma abandon_task_ok: "engine_ok e \<Longrightarrow> i \<in> set (en_active e) \<Longrightarrow> engine_ok (abandon_task now i e)"
  using finish_claim [of e i e "\<lambda>r. r\<lparr>re_status := (re_status r)\<lparr>ts_state := CANCELLED, ts_endTime := now\<rparr>\<rparr>"
      "en_stats e" "en_cancelFlags e"] engine_okD(5) [of e]
  by (simp add: abandon_task_def row_ok_def same_core_def set_record_def)

lemma crash_task_ok: "engine_ok e \<Longrightarrow> i \<in> set (en_active e) \<Longrightarrow> engine_ok (crash_task now what i e)"
  using finish_claim [of e i e "\<lambda>r.
       r\<lparr>re_status := (re_status r)\<lparr>ts_state := TEST_ERROR, ts_errors := ts_errors (re_status r) @ [what], ts_endTime := now\<rparr>,
         re_result := (re_result r)\<lparr>tr_finalState := TEST_ERROR, tr_errors := tr_errors (re_result r) @ [what]\<rparr>,
         re_hasResult := True\<rparr>"
      "en_stats e" "en_cancelFlags e"] engine_okD(5) [of e]
  by (simp add: crash_task_def row_ok_def same_core_def set_record_def)

lemma finish_test_ok:
  assumes "engine_ok e" and "i \<in> set (en_active e)" and "isTerminalState (ts_state s)"
  shows "engine_ok (finish_test outcome i s x e)"
  using finish_claim [OF assms(1,2) persist_core [of e outcome "finished_record i s x e"],
      of "\<lambda>r. r\<lparr>re_status := s, re_result := x, re_hasResult := True\<rparr>"
        "count_result x (en_stats (persist outcome (finished_record i s x e) e))"
        "omap_erase i (en_cancelFlags (persist outcome (finished_record i s x e) e))"]
    assms(3) count_result_ok engine_okD(5) [OF assms(1)] persist_core [of e outcome "finished_record i s x e"]
  by (simp add: finish_test_def Let_def row_ok_def set_record_def same_core_def)

lemma active_live: "engine_ok e \<Longrightarrow> i \<in> set (en_active e) \<Longrightarrow> live e i"
  using engine_okD(4) [of e] by (auto simp: claimed_def)

lemma begin_test_ok:
  assumes "engine_ok e" and "i \<in> set (en_active e)" and "begin_test i e = (res, e')"
  shows "engine_ok e' \<and> res \<noteq> None \<and> en_active e' = en_active e"
proof -
  obtain r where r: "record_of_test e i = Some r" "\<not> isTerminalState (state_of r)"
    using active_live [OF assms(1,2)] by (auto simp: live_def)
  then have "state_of r \<noteq> CANCELLED" by auto
  with r assms(3) have "same_core e e'" "res \<noteq> None"
    by (auto simp: begin_test_def same_core_def split: if_splits)
  then show ?thesis using same_core_ok assms(1) by (auto simp: same_core_def)
qed

lemma show_status_ok:
  assumes "engine_ok e" and "i \<in> set (en_active e)" and "\<not> isTerminalState (ts_state s)"
  shows "engine_ok (show_status i s e)"
proof -
  note ok = engine_okD [OF assms(1)]
  obtain r where r: "record_of_test e i = Some r" "\<not> isTerminalState (state_of r)"
    using active_live [OF assms(1,2)] by (auto simp: live_def)
  then have "\<not> re_hasResult r" using ok(2) by (auto simp: ixi.every_def record_of_test_def row_ok_def)
  with r have "ixi.every row_ok (en_records (show_status i s e))"
    unfolding show_status_def set_record_def using ok(1,2)
    by (auto simp: record_of_test_def row_ok_def intro!: ixi.every_upd)
  moreover have "live (show_status i s e) j = live e j" for j
    using r assms(3) by (auto simp: show_status_def live_def set_record_facts(2) [OF ok(1)])
  moreover have "ix_ok (en_records (show_status i s e))"
    unfolding show_status_def by (rule set_record_facts(1) [OF ok(1)])
  ultimately have "keeps_live e (show_status i s e)"
    using ok(5) by (simp add: keeps_live_def show_status_def set_record_def)
  then show ?thesis using assms(1) by (rule keeps_live_ok)
qed

section \<open>Loading and configuring\<close>

lemma recordFromJson_row: "recordFromJson j = Inr r \<Longrightarrow> row_ok (ts_testId (re_status r)) r \<and> isTerminalState (state_of r)"
  by (auto simp: recordFromJson_def record_of_def Let_def row_ok_def as_terminal_def split: if_splits sum.splits)

lemma load_file_record: "load_file f = Some r \<Longrightarrow> \<exists>j. recordFromJson j = Inr r"
  by (auto simp: load_file_def split: if_splits option.splits sum.splits)

lemma loaded_row: "r \<in> set (loadAll st) \<Longrightarrow> row_ok (ts_testId (re_status r)) r \<and> isTerminalState (state_of r)"
  using load_file_record recordFromJson_row by (auto simp: loadAll_def set_map_filter split: if_splits) blast+

lemma file_records_live:
  assumes "\<forall>r \<in> set rs. row_ok (ts_testId (re_status r)) r \<and> isTerminalState (state_of r)"
    and "ix_ok ix" and "ixi.every row_ok ix"
  shows "ix_ok (foldl file_record ix rs) \<and> ixi.every row_ok (foldl file_record ix rs) \<and>
    (\<forall>i r. (ix_get (foldl file_record ix rs) i = Some r \<and> \<not> isTerminalState (state_of r)) \<longleftrightarrow>
           (ix_get ix i = Some r \<and> \<not> isTerminalState (state_of r)))"
  using assms
proof (induction rs arbitrary: ix)
  case (Cons r rs)
  let ?i = "ts_testId (re_status r)"
  show ?case
  proof (cases "ix_get ix ?i = None")
    case True
    have "ix_ok (ix_add ?i r ix)" "ixi.every row_ok (ix_add ?i r ix)"
      using Cons.prems True by (simp_all add: ixi.inv_add ixi.every_add)
    with Cons.IH [of "ix_add ?i r ix"] Cons.prems True ixi.get_add [OF Cons.prems(2) True, of r]
    show ?thesis by (auto simp: file_record_def Let_def)
  next
    case False
    with Cons show ?thesis by (simp add: file_record_def Let_def)
  qed
qed simp

lemma count_loaded_ok: "stats_ok s \<Longrightarrow> stats_ok (foldl count_loaded s rs)"
  by (induction rs arbitrary: s) (auto simp: count_loaded_def count_result_ok)

lemma loadHistory_ok:
  assumes "engine_ok e"
  shows "engine_ok (loadHistory created e)"
proof (cases "en_historyLoaded e \<or> \<not> enabled (en_store e)")
  case True
  have "engine_ok (e\<lparr>en_historyLoaded := True\<rparr>)"
    using assms by (rule same_core_ok [rotated]) (simp add: same_core_def)
  with True assms show ?thesis by (auto simp: loadHistory_def Let_def)
next
  case False
  note ok = engine_okD [OF assms]
  let ?e2 = "e\<lparr>en_historyLoaded := True, en_store := snd (prepare created (en_store e))\<rparr>"
  let ?rs = "loadAll (en_store ?e2)"
  let ?e3 = "?e2\<lparr>en_records := foldl file_record (en_records e) ?rs, en_stats := foldl count_loaded (en_stats e) ?rs\<rparr>"
  have "\<forall>r \<in> set ?rs. row_ok (ts_testId (re_status r)) r \<and> isTerminalState (state_of r)"
    using loaded_row by blast
  note fl = file_records_live [OF this ok(1,2)]
  have k: "keeps_live e ?e3"
    using fl count_loaded_ok [OF ok(5)] by (auto simp: keeps_live_def live_def record_of_test_def)
  have "keeps_live ?e3 (trimHistory ?e3)"
    using fl count_loaded_ok [OF ok(5)] by (intro trimHistory_live) simp_all
  with k have "keeps_live e (trimHistory ?e3)" by (rule keeps_live_trans)
  then have "engine_ok (trimHistory ?e3)" using assms by (rule keeps_live_ok)
  moreover have "loadHistory created e = trimHistory ?e3" using False by (simp add: loadHistory_def Let_def)
  ultimately show ?thesis by simp
qed

lemma queue_flag_ok: "q_items q = q_items (en_queue e) \<Longrightarrow> engine_ok e \<Longrightarrow> engine_ok (e\<lparr>en_queue := q, en_cancelFlags := fl, en_stopRequested := b\<rparr>)"
  by (simp add: engine_ok_def claimed_def getTaskIds_def live_def record_of_test_def)

end
