(* ===== verification/EngineRunFacts.thy ===== *)
theory EngineRunFacts
  imports EngineRun
begin

text \<open>
  What the final status and result of a test say (\<open>ExecutionEngine::execute\<close>,
  \<open>src/src/engine/execution_engine.cpp\<close>), in every environment, for every number of streams
  and every interleaving of them.
\<close>

section \<open>Loading counts the selected scenarios\<close>

definition zero_counters :: "TestStatus \<Rightarrow> bool" where
  "zero_counters s = (counters s = (0, 0, 0, 0, 0))"

text \<open>While specifications are loaded only the total grows.\<close>

definition loading :: "'w run_ctx \<Rightarrow> int \<Rightarrow> 'w run_ctx \<Rightarrow> bool" where
  "loading c n c' =
     (rc_testId c' = rc_testId c \<and> rc_request c' = rc_request c \<and> rc_tagFilter c' = rc_tagFilter c \<and>
      rc_failFast c' = rc_failFast c \<and> rc_timedOut c' = rc_timedOut c \<and>
      tr_specResults (rc_result c') = tr_specResults (rc_result c) \<and>
      counters (rc_status c') = (ts_totalScenarios (rc_status c) + n, ts_executedScenarios (rc_status c),
        ts_passedScenarios (rc_status c), ts_failedScenarios (rc_status c), ts_skippedScenarios (rc_status c)))"

lemma loading_trans: "loading a m b \<Longrightarrow> loading b n c \<Longrightarrow> loading a (m + n) c"
  by (auto simp: loading_def counters_def)

lemma loading_refl [simp]: "loading c 0 c"
  by (simp add: loading_def counters_def)

lemma loading_observe: "observe f c = (a, c') \<Longrightarrow> loading c 0 c'"
  by (auto simp: observe_def loading_def counters_def split: prod.splits)

lemma loading_warnings: "loading c 0 (add_warnings ws c)"
  by (simp add: add_warnings_def loading_def counters_def)

lemma loading_scenarios:
  "loading c (int (row_count sp * length (filter (scenarioSelected (rc_tagFilter c) (rc_request c) sp) scs)))
     (foldl (\<lambda>c sc. if scenarioSelected (rc_tagFilter c) (rc_request c) sp sc
        then set_status (\<lambda>s. s\<lparr>ts_totalScenarios := ts_totalScenarios s + int (row_count sp)\<rparr>) c else c) c scs)"
proof (induction scs arbitrary: c)
  case (Cons sc scs)
  let ?c = "if scenarioSelected (rc_tagFilter c) (rc_request c) sp sc
      then set_status (\<lambda>s. s\<lparr>ts_totalScenarios := ts_totalScenarios s + int (row_count sp)\<rparr>) c else c"
  have one: "loading c (if scenarioSelected (rc_tagFilter c) (rc_request c) sp sc then int (row_count sp) else 0) ?c"
    by (simp add: loading_def set_status_def counters_def)
  have "rc_tagFilter ?c = rc_tagFilter c" "rc_request ?c = rc_request c" by (simp_all add: set_status_def)
  with loading_trans [OF one Cons.IH [of ?c]] show ?case
    by (auto simp: distrib_left split: if_splits)
qed simp

lemma loading_selected: "loading c (int (selected_count (rc_tagFilter c) (rc_request c) l)) (count_selected l c)"
  using loading_scenarios [of c] by (auto simp: selected_count_def count_selected_def split: option.splits)

lemma load_specs_facts:
  assumes "load_specs env paths c = (ls, c')"
  shows "length ls = length paths \<and>
    loading c (int (sum_list (map (selected_count (rc_tagFilter c) (rc_request c)) ls))) c'"
  using assms
proof (induction paths arbitrary: c ls)
  case (Cons path paths)
  obtain sp es ws c1 where o: "observe (env_load env path) c = ((sp, es, ws), c1)" by (metis surj_pair)
  let ?l = "\<lparr>ls_path = path, ls_specification = sp, ls_errors = es, ls_warnings = ws\<rparr>"
  let ?c2 = "count_selected ?l (add_warnings ws c1)"
  obtain ls' c3 where r: "load_specs env paths ?c2 = (ls', c3)" by (metis surj_pair)
  have ls: "ls = ?l # ls'" "c' = c3" using Cons.prems o r by auto
  have l1: "loading c 0 (add_warnings ws c1)"
    using loading_trans [OF loading_observe [OF o] loading_warnings] by simp
  have l2: "loading c (int (selected_count (rc_tagFilter c) (rc_request c) ?l)) ?c2"
    using loading_trans [OF l1 loading_selected [of _ ?l]] l1 by (simp add: loading_def)
  have same: "rc_tagFilter ?c2 = rc_tagFilter c" "rc_request ?c2 = rc_request c" using l2 by (simp_all add: loading_def)
  from loading_trans [OF l2] Cons.IH [OF r [folded ls(2)]] show ?case by (simp add: ls(1) same)
qed simp

section \<open>Running\<close>

lemma reserve_frame: "frame c c1 \<Longrightarrow> keeps c (reserve env c1)"
  unfolding reserve_def Let_def by (intro keeps_basic) assumption+

lemma reserve_streams:
  assumes "reserve env c = ((streams, reserved), c')" "1 < streams"
  shows "0 < length reserved"
  using assms by (auto simp: reserve_def Let_def split: prod.splits if_splits)

lemma mark_running_frame: "frame c (mark_running env c)"
proof -
  obtain now c1 where o: "observe (env_wall env) c = (now, c1)" by (metis surj_pair)
  have "frame c c1" using keepsD [OF keeps_observe [OF frame_refl] o] .
  then show ?thesis unfolding mark_running_def Let_def o prod.case frame_updateStatus
    by (simp add: set_status_def frame_def counters_def)
qed

lemma spec_keys_count: "length (spec_keys tf rq l) = selected_count tf rq l"
proof -
  have "length (filter (\<lambda>(row, sc). scenarioSelected tf rq sp sc) (spec_items sp))
      = row_count sp * length (filter (scenarioSelected tf rq sp) (sf_scenarios sp))" for sp
    using wanted_count [of "start_ctx rq default_TestStatus ()\<lparr>rc_tagFilter := tf\<rparr>" sp]
    by (simp add: wanted_def start_ctx_def)
  then show ?thesis by (simp add: spec_keys_def selected_count_def split: option.splits)
qed

lemma executeParallel_within:
  "0 < n \<Longrightarrow> \<exists>srs. advanced c srs (executeParallel env cfg ls n schedule c) \<and> within_selected c ls srs"
proof -
  assume "0 < n"
  from executeParallel_facts [OF this] obtain srs where
    srs: "advanced c srs (executeParallel env cfg ls n schedule c)"
      "map (\<lambda>r. map result_key (sp_scenarioResults r)) srs = map (spec_keys (rc_tagFilter c) (rc_request c)) ls" by blast
  have len: "length srs = length ls" using srs(2) by (metis length_map)
  have "length (sp_scenarioResults (srs ! i)) = selected_count (rc_tagFilter c) (rc_request c) (ls ! i)" if "i < length ls" for i
  proof -
    have "map result_key (sp_scenarioResults (srs ! i)) = spec_keys (rc_tagFilter c) (rc_request c) (ls ! i)"
      using arg_cong [OF srs(2), of "\<lambda>xs. xs ! i"] that len by simp
    then show ?thesis by (metis length_map spec_keys_count)
  qed
  with len have "within_selected c ls srs" by (simp add: within_selected_def list_all2_conv_all_nth)
  with srs(1) show ?thesis by blast
qed

lemma run_specs_facts:
  "\<exists>srs. advanced c srs (run_specs env cfg schedule ls c) \<and> within_selected c ls srs"
proof -
  obtain streams reserved c1 where r: "reserve env c = ((streams, reserved), c1)" by (metis surj_pair)
  let ?c2 = "test_started streams (mark_running env c1)"
  have "frame c c1" using keepsD [OF reserve_frame [OF frame_refl] r] .
  then have f: "frame c ?c2" using mark_running_frame by (auto simp: test_started_def intro: frame_trans)
  have "\<exists>srs. advanced ?c2 srs (run_specs env cfg schedule ls c) \<and> within_selected ?c2 ls srs"
  proof (cases "streams \<le> 1")
    case True
    then have "run_specs env cfg schedule ls c = executeSequential env cfg ls ?c2" by (simp add: run_specs_def r)
    then show ?thesis using executeSequential_facts by metis
  next
    case False
    then have "run_specs env cfg schedule ls c = executeParallel env cfg ls (length reserved) schedule ?c2"
      by (simp add: run_specs_def r)
    moreover have "0 < length reserved" using reserve_streams [OF r] False by simp
    ultimately show ?thesis using executeParallel_within by metis
  qed
  moreover have "within_selected ?c2 ls srs = within_selected c ls srs" for srs
    using f by (simp add: within_selected_def frame_def)
  ultimately show ?thesis using frame_advanced_trans [OF f] by blast
qed

text \<open>What is known once the specifications have run.\<close>

definition ran :: "'w run_ctx \<Rightarrow> bool" where
  "ran c = (list_all spec_result_ok (tr_specResults (rc_result c)) \<and>
     (let rs = concat (map sp_scenarioResults (tr_specResults (rc_result c))); s = rc_status c in
      ts_passedScenarios s = count_state (\<lambda>st. st = PASSED) rs \<and> ts_failedScenarios s = count_state failing rs \<and>
      ts_skippedScenarios s = count_state skipping rs \<and>
      ts_executedScenarios s = ts_passedScenarios s + ts_failedScenarios s \<and>
      int (length rs) \<le> ts_totalScenarios s))"

lemma within_selected_sum:
  "list_all2 (\<lambda>l r. length (sp_scenarioResults r) \<le> f l) ls srs \<Longrightarrow>
   length (concat (map sp_scenarioResults srs)) \<le> sum_list (map f ls)"
  by (induction rule: list_all2_induct) auto

lemma load_test_facts:
  assumes "zero_counters status" "load_test env cfg resolved request status w = (ls, c)"
  shows "length ls = length resolved \<and> tr_specResults (rc_result c) = [] \<and> rc_request c = request \<and>
    counters (rc_status c) = (int (sum_list (map (selected_count (rc_tagFilter c) (rc_request c)) ls)), 0, 0, 0, 0)"
proof -
  let ?c1 = "set_deadline env cfg (start_ctx request status w)"
  obtain c2 where l: "load_specs env resolved ?c1 = (ls, c2)" and c: "c = note_loaded resolved c2"
    using assms(2) by (cases "load_specs env resolved ?c1") (auto simp: load_test_def)
  have c1: "tr_specResults (rc_result ?c1) = []" "rc_status ?c1 = status" "rc_request ?c1 = request"
    by (auto simp: set_deadline_def start_ctx_def observe_def default_TestResult_def split: prod.splits)
  with load_specs_facts [OF l] assms(1) show ?thesis
    by (simp add: c loading_def note_loaded_def set_status_def counters_def zero_counters_def)
qed

lemma run_all_ran:
  assumes "zero_counters status"
  shows "ran (run_all env cfg schedule resolved request status w)"
proof -
  obtain ls c where l: "load_test env cfg resolved request status w = (ls, c)" by (metis surj_pair)
  note lf = load_test_facts [OF assms l]
  obtain srs where srs: "advanced c srs (run_specs env cfg schedule ls c)" "within_selected c ls srs"
    using run_specs_facts by blast
  with lf within_selected_sum [of "selected_count (rc_tagFilter c) (rc_request c)" ls srs] show ?thesis
    by (simp add: run_all_def l ran_def Let_def advanced_def spec_results_def counted_def counters_def within_selected_def)
qed

lemma run_test_ran:
  assumes "zero_counters status"
  shows "\<exists>c. ran c \<and> run_test env cfg schedule resolved request status w = conclude env c"
  unfolding run_test_def by (intro exI conjI) (rule run_all_ran [OF assms], rule refl)

section \<open>The final state\<close>

lemma conclude_facts:
  "\<exists>finish cancelled c1. frame c c1 \<and> rc_result (conclude env c) = final_result cancelled finish c1 \<and>
     rc_status (conclude env c) = final_status (final_result cancelled finish c1) (rc_status c1) \<and>
     tr_errors (rc_result c1) = tr_errors (rc_result c)"
proof -
  obtain finish c1 where o: "observe (env_wall env) c = (finish, c1)" by (metis surj_pair)
  obtain cancelled c2 where l: "load_cancelled env c1 = (cancelled, c2)" by (metis surj_pair)
  have "frame c c2" using keepsD [OF keeps_load [OF keepsD [OF keeps_observe [OF frame_refl] o]] l] .
  moreover have "rc_result c2 = rc_result c"
    using o l by (auto simp: observe_def load_cancelled_def split: prod.splits)
  ultimately show ?thesis
    using o l by (intro exI [of _ finish] exI [of _ cancelled] exI [of _ c2]) (simp add: conclude_def Let_def)
qed

lemma ran_frame: "ran c \<Longrightarrow> frame c c' \<Longrightarrow> ran c'"
  by (simp add: ran_def frame_def counters_def Let_def)

lemma count_specs_zero: "count_specs P r = 0 \<longleftrightarrow> (\<forall>s \<in> set (tr_specResults r). \<not> P s)"
  by (simp add: count_specs_def filter_empty_conv)

lemma errored_le_failed: "count_specs spec_errored r \<le> count_specs spec_failed r"
proof -
  have "length (filter spec_errored ss) \<le> length (filter spec_failed ss)" for ss
    by (induction ss) (auto simp: spec_errored_def spec_failed_def spec_passed_def)
  then show ?thesis by (simp add: count_specs_def)
qed

lemma final_state_PASSED:
  assumes "final_state cancelled timedOut s r = PASSED"
  shows "\<not> cancelled \<and> \<not> timedOut \<and> \<not> suite_failed r \<and> \<not> nothing_ran s \<and> (\<forall>sr \<in> set (tr_specResults r). \<not> spec_failed sr)"
proof -
  have "aggregateState (count_specs spec_failed r - count_specs spec_errored r) (count_specs spec_errored r) 0 (ts_totalSpecs s) False = PASSED"
    and k: "\<not> cancelled" "\<not> timedOut" "\<not> suite_failed r" "\<not> nothing_ran s"
    using assms by (auto simp: final_state_def Let_def split: if_splits)
  then have "count_specs spec_failed r \<le> count_specs spec_errored r" "count_specs spec_errored r \<le> 0"
    by (auto simp: aggregateState_def split: if_splits)
  then have "count_specs spec_failed r = 0" by (simp add: count_specs_def)
  with k show ?thesis by (simp add: count_specs_zero)
qed

lemma final_state_terminal: "isTerminalState (final_state cancelled timedOut s r)"
  by (simp add: final_state_def Let_def aggregateState_def)

lemma count_state_concat: "count_state P (concat rss) = (\<Sum>rs \<leftarrow> rss. count_state P rs)"
  by (induction rss) simp_all

text \<open>
  C4. However the run went, the record of a finished test is consistent: its state is terminal
  and the same in status and result, the counters of the two agree, they count the states of
  the scenario results listed, every listed specification's counters count its own, and the
  scenarios that passed, failed or were skipped are at most the scenarios selected.
\<close>

theorem run_test_consistent:
  assumes "zero_counters status"
    and c_def: "c = run_test env cfg schedule resolved request status w"
    and rs_def: "rs = concat (map sp_scenarioResults (tr_specResults (rc_result c)))"
  shows "isTerminalState (tr_finalState (rc_result c)) \<and> ts_state (rc_status c) = tr_finalState (rc_result c) \<and>
    tr_passedScenarios (rc_result c) = count_state (\<lambda>st. st = PASSED) rs \<and>
    tr_failedScenarios (rc_result c) = count_state failing rs \<and>
    tr_skippedScenarios (rc_result c) = count_state skipping rs \<and>
    list_all spec_result_ok (tr_specResults (rc_result c)) \<and>
    tr_passedScenarios (rc_result c) + tr_failedScenarios (rc_result c) + tr_skippedScenarios (rc_result c)
      \<le> tr_totalScenarios (rc_result c) \<and>
    counters (rc_status c) = (tr_totalScenarios (rc_result c),
      tr_passedScenarios (rc_result c) + tr_failedScenarios (rc_result c), tr_passedScenarios (rc_result c),
      tr_failedScenarios (rc_result c), tr_skippedScenarios (rc_result c))"
proof -
  from run_test_ran [OF assms(1), of env cfg schedule resolved request w] obtain c0 where c0: "ran c0" "c = conclude env c0" unfolding c_def by blast
  from conclude_facts [of c0 env] obtain finish cancelled c1 where c1: "frame c0 c1"
    "rc_result c = final_result cancelled finish c1"
    "rc_status c = final_status (final_result cancelled finish c1) (rc_status c1)" by (auto simp: c0(2))
  have r: "ran c1" using ran_frame [OF c0(1) c1(1)] .
  have rs: "rs = concat (map sp_scenarioResults (tr_specResults (rc_result c1)))"
    by (simp add: rs_def c1 final_result_def Let_def)
  show ?thesis
    using r count_state_split [of rs] unfolding ran_def Let_def rs [symmetric]
    by (simp add: c1 final_result_def final_status_def Let_def final_state_terminal counters_def)
qed


definition tiny_spec :: Specification where
  "tiny_spec = default_Specification\<lparr>sf_fileName := ''a.spec'', sf_heading := ''A'',
     sf_scenarios := [sample_scenario [sample_step ''pay'']]\<rparr>"

definition sample_env :: "nat environment" where
  "sample_env = (script_env (\<lambda>_. PASSED) 0)\<lparr>env_cancelled := \<lambda>w. (False, w), env_clock := \<lambda>w. (0, w),
     env_load := \<lambda>p w. ((Some tiny_spec, [], []), w)\<rparr>"

abbreviation sample_test :: "nat run_ctx" where
  "sample_test \<equiv> run_test sample_env default_EngineConfig [] [''a.spec''] default_TestRequest default_TestStatus 0"

lemma sample_counters: "zero_counters default_TestStatus"
  by (simp add: zero_counters_def counters_def default_TestStatus_def)

lemma run_test_consistent_witness:
  "isTerminalState (tr_finalState (rc_result sample_test)) \<and>
   ts_state (rc_status sample_test) = tr_finalState (rc_result sample_test)"
  using run_test_consistent [OF sample_counters refl refl, of sample_env default_EngineConfig "[]" "[''a.spec'']"
      default_TestRequest "0 :: nat"] by blast

end
