(* ===== verification/EngineHistory.thy ===== *)
theory EngineHistory
  imports EngineRecordFacts EngineRunFacts NumberedIds
begin

text \<open>
  The engine as a state machine: clients submit, cancel, remove and list tests while worker
  threads take, run and finish them, in any interleaving of the operations. From the invariant
  of \<open>EngineRecordFacts\<close>: no test is lost or run twice, the statistics add up, listing pages
  through the history newest first, and submitting returns.
\<close>

section \<open>The step relation\<close>

inductive engine_step :: "(string list \<Rightarrow> string list \<times> string list) \<Rightarrow> (TimePoint \<Rightarrow> string) \<Rightarrow> engine \<Rightarrow> engine \<Rightarrow> bool"
  for resolve stamp where
  es_configure: "engine_step resolve stamp e (configure disk c e)"
| es_start: "engine_step resolve stamp e (start_engine created e)"
| es_stop: "engine_step resolve stamp e (stop_engine e)"
| es_submit: "submit resolve stamp now rq e = Some (Inr (e', i, pubs)) \<Longrightarrow> engine_step resolve stamp e e'"
| es_rerun: "rerun resolve stamp now i onlyFailed e = Some (Inr (e', j, pubs)) \<Longrightarrow> engine_step resolve stamp e e'"
| es_cancel: "cancel outcome now i e = (b, e', pubs) \<Longrightarrow> engine_step resolve stamp e e'"
| es_remove: "remove_test i e = (b, e') \<Longrightarrow> engine_step resolve stamp e e'"
| es_clear: "engine_step resolve stamp e (snd (clearHistory e))"
| es_take: "take_task e = Some (t, e') \<Longrightarrow> engine_step resolve stamp e e'"
| es_begin: "i \<in> set (en_active e) \<Longrightarrow> engine_step resolve stamp e (snd (begin_test i e))"
| es_show: "i \<in> set (en_active e) \<Longrightarrow> \<not> isTerminalState (ts_state s) \<Longrightarrow> engine_step resolve stamp e (show_status i s e)"
| es_finish: "i \<in> set (en_active e) \<Longrightarrow> isTerminalState (ts_state s) \<Longrightarrow>
    engine_step resolve stamp e (finish_test outcome i s x e)"
| es_crash: "i \<in> set (en_active e) \<Longrightarrow> engine_step resolve stamp e (crash_task now what i e)"
| es_abandon: "i \<in> set (en_active e) \<Longrightarrow> engine_step resolve stamp e (abandon_task now i e)"

inductive engine_reachable :: "(string list \<Rightarrow> string list \<times> string list) \<Rightarrow> (TimePoint \<Rightarrow> string) \<Rightarrow> engine \<Rightarrow> bool"
  for resolve stamp where
  er_new: "engine_reachable resolve stamp (new_engine now)"
| er_step: "engine_reachable resolve stamp e \<Longrightarrow> engine_step resolve stamp e e' \<Longrightarrow> engine_reachable resolve stamp e'"

lemma new_engine_ok: "engine_ok (new_engine now)"
  by (auto simp: engine_ok_def new_engine_def claimed_def getTaskIds_def empty_queue_def live_def record_of_test_def
      stats_ok_def new_stats_def ixi.every_def)

lemma same_core_eq_ok: "engine_ok e \<Longrightarrow> en_records e' = en_records e \<Longrightarrow> q_items (en_queue e') = q_items (en_queue e) \<Longrightarrow>
    en_active e' = en_active e \<Longrightarrow> en_stats e' = en_stats e \<Longrightarrow> engine_ok e'"
  by (simp add: engine_ok_def claimed_def getTaskIds_def live_def record_of_test_def)

lemma engine_step_ok: "engine_step resolve stamp e e' \<Longrightarrow> engine_ok e \<Longrightarrow> engine_ok e'"
proof (induction rule: engine_step.induct)
  case (es_configure e disk c)
  then show ?case by (rule same_core_eq_ok) (simp_all add: configure_def Let_def)
next
  case (es_start e created)
  have "engine_ok (e\<lparr>en_stopRequested := False\<rparr>)" using es_start by (rule same_core_eq_ok) simp_all
  note l = loadHistory_ok [OF this, of created]
  show ?case
  proof (cases "en_running e")
    case False
    with l show ?thesis by - (erule same_core_eq_ok, simp_all add: start_engine_def Let_def reopen_queue_def)
  qed (use es_start in \<open>simp add: start_engine_def\<close>)
next
  case (es_stop e)
  then show ?case by (rule same_core_eq_ok) (simp_all add: stop_engine_def close_queue_def)
next
  case (es_rerun now i onlyFailed e e' j pubs)
  then show ?case by (auto simp: rerun_def split: option.splits dest: submit_ok)
next
  case (es_begin i e)
  then show ?case using begin_test_ok [of e i] by (metis prod.collapse)
qed (auto dest: submit_ok cancel_ok remove_test_ok clearHistory_ok take_task_ok show_status_ok finish_test_ok
    crash_task_ok abandon_task_ok)

lemma engine_reachable_ok: "engine_reachable resolve stamp e \<Longrightarrow> engine_ok e"
  by (induction rule: engine_reachable.induct) (auto simp: new_engine_ok intro: engine_step_ok)

section \<open>No test is lost\<close>

lemma live_iff_entry:
  "ix_ok (en_records e) \<Longrightarrow> (\<exists>i. live e i) \<longleftrightarrow> hasActiveTests e"
proof -
  assume ok: "ix_ok (en_records e)"
  then have "omap_ok (fst (en_records e))" by (simp add: ix_ok_def)
  then have "(i, r) \<in> set (fst (en_records e)) \<longleftrightarrow> record_of_test e i = Some r" for i r
    by (simp add: record_of_test_def ix_get_def omap_ok_get_mem)
  then show ?thesis
    by (auto simp: live_def hasActiveTests_def list_ex_iff isTerminalState_iff)
qed



text \<open>
  C15. The number of completed tests in the statistics is always the number passed, failed,
  cancelled and in error together.
\<close>

theorem statistics_add_up:
  assumes "engine_reachable resolve stamp e" and s_def: "s = engine_stats e"
  shows "es_completed s = es_passed s + es_failed s + es_cancelled s + es_errored s"
  using engine_okD(5) [OF engine_reachable_ok [OF assms(1)]] by (simp add: s_def engine_stats_def stats_ok_def)

theorem statistics_add_up_witness:
  "es_completed (engine_stats (new_engine 7)) = 0 \<and> es_passed (engine_stats (new_engine 7)) = 0"
  using statistics_add_up [OF er_new [of "\<lambda>x. (x, [])" "\<lambda>t. []" 7] refl]
  by (simp add: engine_stats_def new_engine_def new_stats_def)

section \<open>Listing\<close>

definition selected_rows :: "string \<Rightarrow> engine \<Rightarrow> string list \<Rightarrow> TestInfo list" where
  "selected_rows state e is =
     map test_info (filter (\<lambda>r. state_selected state (state_of r)) (List.map_filter (record_of_test e) is))"

lemma list_loop_eq:
  "skipped \<le> offset \<Longrightarrow> length out \<le> limit \<Longrightarrow>
   list_loop e state limit offset skipped out is =
   out @ take (limit - length out) (drop (offset - skipped) (selected_rows state e is))"
proof (induction e state limit offset skipped out "is" rule: list_loop.induct)
  case (2 e state limit offset skipped out i "is")
  show ?case
  proof (cases "record_of_test e i")
    case None
    with 2 show ?thesis by (simp add: selected_rows_def List.map_filter_simps)
  next
    case (Some r)
    show ?thesis
    proof (cases "state_selected state (state_of r)")
      case False
      with Some 2 show ?thesis by (simp add: selected_rows_def List.map_filter_simps)
    next
      case True
      then have rows: "selected_rows state e (i # is) = test_info r # selected_rows state e is"
        using Some by (simp add: selected_rows_def List.map_filter_simps)
      consider "skipped < offset" | "skipped = offset" "limit \<le> length out" | "skipped = offset" "length out < limit"
        using "2.prems" by linarith
      then show ?thesis
      proof cases
        case 1
        then have "offset - skipped = Suc (offset - Suc skipped)" by simp
        with 1 Some True "2.IH"(3) [OF Some] "2.prems" show ?thesis by (simp add: rows)
      next
        case 2
        with Some True show ?thesis by simp
      next
        case 3
        then have "limit - length out = Suc (limit - Suc (length out))" by simp
        with 3 Some True "2.IH"(4) [OF Some] show ?thesis by (simp add: rows)
      qed
    qed
  qed
qed (simp add: selected_rows_def List.map_filter_simps)

text \<open>
  Listing returns the requested page of the tests in the requested state, newest first.
\<close>

lemma list_tests_page:
  "list_tests state limit offset e = take limit (drop offset (map test_info
     (filter (\<lambda>r. state_selected state (state_of r)) (List.map_filter (record_of_test e) (rev (snd (en_records e)))))))"
  by (simp add: list_tests_def list_loop_eq selected_rows_def)

section \<open>Submitting returns\<close>

lemma drawn_id:
  "generateTaskId stamp now q =
   (q\<lparr>q_idCounter := q_idCounter q + 1\<rparr>, numbered_id (''test-'' @ stamp now) (unat (q_idCounter q + 1) mod 1000))"
  by (simp add: generateTaskId_def numbered_id_def Let_def)

lemma fresh_id_within:
  "ix_get ix (numbered_id (''test-'' @ stamp now) (unat (q_idCounter q + of_nat (Suc n)) mod 1000)) = None \<Longrightarrow>
   fresh_id stamp now ix q \<noteq> None"
proof (induction n arbitrary: q)
  case 0
  then show ?case by (simp add: fresh_id.simps [of stamp now ix q] drawn_id)
next
  case (Suc n)
  let ?q = "q\<lparr>q_idCounter := q_idCounter q + 1\<rparr>"
  have e: "q_idCounter q + of_nat (Suc (Suc n)) = q_idCounter ?q + of_nat (Suc n)" by simp
  from Suc.IH [OF Suc.prems [unfolded e]] have "fresh_id stamp now ix ?q \<noteq> None" .
  then show ?case by (simp add: fresh_id.simps [of stamp now ix q] drawn_id del: not_None_eq)
qed

lemma fresh_id_returns:
  assumes "length (fst ix) < 1000"
  shows "fresh_id stamp now ix q \<noteq> None"
  using free_counter [OF assms, of "''test-'' @ stamp now" "q_idCounter q"] fresh_id_within by blast

text \<open>
  C17. With fewer than a thousand tests in the history, submitting returns: with an error, or
  with a test id. (With a thousand tests of the same second the search for a free id does not end.)
\<close>

theorem submit_returns:
  assumes "length (fst (en_records e)) < 1000"
  shows "submit resolve stamp now rq e \<noteq> None"
  using fresh_id_returns [OF assms, of stamp now "en_queue e"]
  by (auto simp: submit_def split: sum.splits option.splits)

theorem submit_returns_witness:
  "submit (\<lambda>x. (x, [])) (\<lambda>t. ''20240101-100000'') 0 (default_TestRequest\<lparr>rq_specFiles := [''a.spec'']\<rparr>) (new_engine 0) \<noteq> None"
  using submit_returns [of "new_engine 0" "\<lambda>x. (x, [])" "\<lambda>t. ''20240101-100000''" 0
      "default_TestRequest\<lparr>rq_specFiles := [''a.spec'']\<rparr>"]
  by (simp add: new_engine_def)

section \<open>Running a test\<close>

lemma omap_put_put: "omap_put k a (omap_put k b m) = omap_put k a m"
  by (induction k b m rule: omap_put.induct) auto

lemma ix_upd_upd: "ix_upd i f (ix_upd i g ix) = ix_upd i (\<lambda>r. f (g r)) ix"
  by (auto simp: ix_upd_def omap_get_put omap_put_put split: option.splits)

lemma persist_frame: "en_records (persist outcome r e) = en_records e"
  using persist_core [of e outcome r] by (simp add: same_core_def)

lemma persist_records: "(persist outcome r (e\<lparr>en_records := ix\<rparr>)) = (persist outcome r e)\<lparr>en_records := ix\<rparr>"
  by (simp add: persist_def)

lemma finish_after_show:
  assumes "ix_ok (en_records e)"
  shows "finish_test outcome i s x (show_status i v e) = finish_test outcome i s x e"
proof -
  have "finished_record i s x (show_status i v e) = finished_record i s x e"
    by (auto simp: finished_record_def show_status_def set_record_facts(2) [OF assms] split: option.splits)
  then show ?thesis
    by (simp add: finish_test_def Let_def show_status_def set_record_def persist_records persist_frame ix_upd_upd
        deactivate_def)
qed

lemma run_test_final:
  "isTerminalState (ts_state (rc_status (run_test env cfg schedule resolved request status w)))
   \<and> ts_state (rc_status (run_test env cfg schedule resolved request status w)) =
     tr_finalState (rc_result (run_test env cfg schedule resolved request status w))"
  using conclude_facts [of "run_all env cfg schedule resolved request status w" env]
  by (auto simp: run_test_def final_status_def final_result_def Let_def final_state_terminal)

lemma test_completed_frame: "rc_status (test_completed c) = rc_status c" "rc_result (test_completed c) = rc_result c"
  by (simp_all add: test_completed_def publish_def Let_def)

text \<open>
  C14. A worker that takes a test and runs it leaves the engine consistent, with the test off the
  worker, its result available, and the same terminal state in its status and its result.
\<close>

theorem execute_finishes:
  assumes "engine_reachable resolve stamp e" and "task_id task \<in> set (en_active e)"
    and "e' = fst (execute env schedule outcome task w e)"
  shows "engine_ok e' \<and> task_id task \<notin> set (getTaskIds (en_queue e') @ en_active e')
    \<and> (\<exists>s x. getStatus (task_id task) e' = Some s \<and> getResult (task_id task) e' = Some x
           \<and> isTerminalState (ts_state s) \<and> ts_state s = tr_finalState x)"
proof -
  let ?i = "task_id task"
  note ok = engine_reachable_ok [OF assms(1)]
  obtain res e1 where b: "begin_test ?i e = (res, e1)" by (metis surj_pair)
  note b' = begin_test_ok [OF ok assms(2) b]
  then obtain resolved status where res: "res = Some (resolved, status)" by auto
  define c where "c = run_test env (en_config e1) schedule resolved (tk_request task) status w"
  note ix = engine_okD(1) [of e1]
  have e': "e' = finish_test outcome ?i (rc_status c) (rc_result c) e1"
    using assms(3) b res b' ix finish_after_show
    by (simp add: execute_def Let_def test_completed_frame c_def)
  have fin: "isTerminalState (ts_state (rc_status c))" "ts_state (rc_status c) = tr_finalState (rc_result c)"
    using run_test_final [of env "en_config e1" schedule resolved "tk_request task" status w]
    unfolding c_def by (rule conjunct1, rule conjunct2)
  have act: "?i \<in> set (en_active e1)" using b' assms(2) by simp
  have ok': "engine_ok e'" unfolding e' using b' act fin(1) by (intro finish_test_ok) simp_all
  obtain r where r: "record_of_test e1 ?i = Some r"
    using active_live [of e1 ?i] b' act by (auto simp: live_def)
  have "record_of_test e' ?i = Some (r\<lparr>re_status := rc_status c, re_result := rc_result c, re_hasResult := True\<rparr>)"
    using set_record_facts(2) [OF ix] b' r
    by (simp add: e' finish_test_def Let_def deactivate_def record_of_test_def set_record_def persist_frame ixi.get_upd ix)
  moreover from this fin(1) have "\<not> live e' ?i" by (simp add: live_def)
  then have "?i \<notin> set (claimed e')" using engine_okD(4) [OF ok'] by simp
  ultimately show ?thesis
    using ok' fin by (auto simp: getStatus_def getResult_def claimed_def)
qed

text \<open>A test that was submitted to a new engine and taken by a worker.\<close>

definition sample_request :: TestRequest where
  "sample_request = default_TestRequest\<lparr>rq_id := ''t'', rq_specFiles := [''tiny.spec'']\<rparr>"

definition sample_submitted :: "engine \<times> string \<times> publication list" where
  "sample_submitted = enqueue_request (\<lambda>t. []) 0 sample_request [''tiny.spec''] (new_engine 0)"

definition sample_task :: "TestTask \<times> engine" where
  "sample_task = the (take_task (fst sample_submitted))"

lemma sample_checked: "check_request (\<lambda>x. (x, [])) sample_request (new_engine 0) = Inr [''tiny.spec'']"
  by code_simp

lemma sample_submits: "submit (\<lambda>x. (x, [])) (\<lambda>t. []) 0 sample_request (new_engine 0) = Some (Inr sample_submitted)"
  by (simp add: submit_def sample_checked sample_submitted_def) (simp add: sample_request_def)

lemma sample_taken: "take_task (fst sample_submitted) = Some sample_task"
  by code_simp

lemma sample_active: "task_id (fst sample_task) \<in> set (en_active (snd sample_task))"
  by code_simp

lemma sample_reachable: "engine_reachable (\<lambda>x. (x, [])) (\<lambda>t. []) (snd sample_task)"
proof -
  obtain e i pubs where s: "sample_submitted = (e, i, pubs)" by (metis prod_cases3)
  obtain t e' where t: "sample_task = (t, e')" by (metis surj_pair)
  have "engine_reachable (\<lambda>x. (x, [])) (\<lambda>t. []) e"
    using er_step [OF er_new es_submit [OF sample_submits [unfolded s]]] .
  moreover have "take_task e = Some (t, e')" using sample_taken by (simp add: s t)
  ultimately show ?thesis using er_step [OF _ es_take] by (simp add: t)
qed

theorem execute_finishes_witness:
  "engine_ok (fst (execute sample_env [] Written (fst sample_task) 0 (snd sample_task)))"
  using execute_finishes [OF sample_reachable sample_active refl, of sample_env "[]" Written 0] by (rule conjunct1)

end
