(* ===== verification/Trends.thy ===== *)
theory Trends
  imports JsonConvert
begin

text \<open>
  \<open>src/src/engine/trends.h\<close>: pure functions that group finished runs by specification and
  compare two results scenario by scenario. A \<open>std::map\<close> is an ordered map; durations and pass
  rates are exact.
\<close>

section \<open>Grouping runs\<close>

definition passRateOf :: "int \<Rightarrow> int \<Rightarrow> rat" where
  "passRateOf passed n = (if n > 0 then of_int passed / of_int n else 0)"

record TrendRun =
  tn_testId :: string
  tn_name :: string
  tn_state :: TestState
  tn_endTime :: TimePoint
  tn_duration :: seconds
  tn_totalScenarios :: int
  tn_passedScenarios :: int
  tn_failedScenarios :: int
  tn_skippedScenarios :: int
  tn_specFiles :: "string list"

record SpecTrendSeries =
  sx_specFile :: string
  sx_points :: "TrendRun list"

definition trend_run_json :: "TrendRun \<Rightarrow> Json" where
  "trend_run_json r = jobject [(''test_id'', JStr (tn_testId r)), (''name'', JStr (tn_name r)),
     (''state'', JState (tn_state r)), (''end_time'', JTime (tn_endTime r)), (''duration'', JSecs (tn_duration r)),
     (''total_scenarios'', JInt (tn_totalScenarios r)), (''passed_scenarios'', JInt (tn_passedScenarios r)),
     (''failed_scenarios'', JInt (tn_failedScenarios r)), (''skipped_scenarios'', JInt (tn_skippedScenarios r)),
     (''pass_rate'', JSecs (passRateOf (tn_passedScenarios r) (tn_totalScenarios r)))]"

definition latest_rate :: "TrendRun list \<Rightarrow> rat" where
  "latest_rate ps = (if ps = [] then 0 else passRateOf (tn_passedScenarios (last ps)) (tn_totalScenarios (last ps)))"

definition avg_duration :: "TrendRun list \<Rightarrow> rat" where
  "avg_duration ps = (if ps = [] then 0 else foldl (\<lambda>s p. s + tn_duration p) 0 ps / of_nat (length ps))"

definition spec_trend_json :: "SpecTrendSeries \<Rightarrow> Json" where
  "spec_trend_json s = jobject [(''spec'', JStr (sx_specFile s)), (''runs'', JInt (int (length (sx_points s)))),
     (''latest_pass_rate'', JSecs (latest_rate (sx_points s))), (''avg_duration'', JSecs (avg_duration (sx_points s))),
     (''points'', JArr (map trend_run_json (sx_points s)))]"

definition map_push :: "string \<Rightarrow> 'a \<Rightarrow> (string, 'a list) omap \<Rightarrow> (string, 'a list) omap" where
  "map_push k x m = omap_put k ((case omap_get m k of None \<Rightarrow> [] | Some xs \<Rightarrow> xs) @ [x]) m"

text \<open>The specifications of one run, each once, that pass the filter.\<close>

definition file_run :: "string \<Rightarrow> (string, TrendRun list) omap \<Rightarrow> TrendRun \<Rightarrow> (string, TrendRun list) omap" where
  "file_run specFilter m run =
     foldl (\<lambda>m spec. if specFilter = [] \<or> spec = specFilter then map_push spec run m else m) m
       (rev (remdups (rev (tn_specFiles run))))"

definition keep_last :: "nat \<Rightarrow> 'a list \<Rightarrow> 'a list" where
  "keep_last n v = (if length v > n then drop (length v - n) v else v)"

definition groupTrends :: "TrendRun list \<Rightarrow> string \<Rightarrow> nat \<Rightarrow> SpecTrendSeries list" where
  "groupTrends chronological specFilter maxPoints0 =
     (let maxPoints = (if maxPoints0 < 1 then 1 else maxPoints0);
          bySpec = foldl (file_run specFilter) [] chronological
      in (if specFilter = [] \<and> chronological \<noteq> []
          then [\<lparr>sx_specFile = ''(all)'', sx_points = keep_last maxPoints chronological\<rparr>] else []) @
         map (\<lambda>(k, v). \<lparr>sx_specFile = k, sx_points = keep_last maxPoints v\<rparr>) bySpec)"

section \<open>Comparing two results\<close>

definition scenarioKey :: "string \<Rightarrow> string \<Rightarrow> int \<Rightarrow> string" where
  "scenarioKey spec name dataRowIndex = spec @ [CHR 10] @ name @ [CHR 10] @ to_string dataRowIndex"

record ScenarioSnap =
  sg_specFile :: string
  sg_scenarioName :: string
  sg_dataRowIndex :: int
  sg_state :: TestState
  sg_duration :: seconds

definition snap_of :: "SpecResult \<Rightarrow> ScenarioResult \<Rightarrow> ScenarioSnap" where
  "snap_of spec sc = \<lparr>sg_specFile = sp_specFile spec, sg_scenarioName = sc_scenarioName sc,
     sg_dataRowIndex = sc_dataRowIndex sc, sg_state = sc_state sc, sg_duration = sc_duration sc\<rparr>"

definition flattenScenarios :: "TestResult \<Rightarrow> ScenarioSnap list" where
  "flattenScenarios r = concat (map (\<lambda>spec. map (snap_of spec) (sp_scenarioResults spec)) (tr_specResults r))"

definition scenarioFailed :: "TestState \<Rightarrow> bool" where
  "scenarioFailed s = (s = FAILED \<or> s = TEST_ERROR)"

record ScenarioDiff =
  df_specFile :: string
  df_scenarioName :: string
  df_dataRowIndex :: int
  df_change :: string
  df_baseline :: TestState
  df_current :: TestState
  df_durationBaseline :: seconds
  df_durationCurrent :: seconds

definition snap_key :: "ScenarioSnap \<Rightarrow> string" where
  "snap_key s = scenarioKey (sg_specFile s) (sg_scenarioName s) (sg_dataRowIndex s)"

definition snaps_by_key :: "TestResult \<Rightarrow> (string, ScenarioSnap) omap" where
  "snaps_by_key r = omap_of_list (map (\<lambda>s. (snap_key s, s)) (flattenScenarios r))"

definition diff_left :: "ScenarioSnap option \<Rightarrow> ScenarioDiff \<Rightarrow> ScenarioDiff" where
  "diff_left l d = (case l of None \<Rightarrow> d
     | Some s \<Rightarrow> d\<lparr>df_specFile := sg_specFile s, df_scenarioName := sg_scenarioName s,
                   df_dataRowIndex := sg_dataRowIndex s, df_baseline := sg_state s, df_durationBaseline := sg_duration s\<rparr>)"

definition diff_right :: "ScenarioSnap option \<Rightarrow> ScenarioDiff \<Rightarrow> ScenarioDiff" where
  "diff_right r d = (case r of None \<Rightarrow> d
     | Some s \<Rightarrow> d\<lparr>df_specFile := sg_specFile s, df_scenarioName := sg_scenarioName s,
                   df_dataRowIndex := sg_dataRowIndex s, df_current := sg_state s, df_durationCurrent := sg_duration s\<rparr>)"

definition change_of :: "bool \<Rightarrow> bool \<Rightarrow> TestState \<Rightarrow> TestState \<Rightarrow> string" where
  "change_of in_left in_right baseline current =
     (if \<not> in_left then ''added''
      else if \<not> in_right then ''removed''
      else if scenarioFailed baseline \<and> \<not> scenarioFailed current then ''improved''
      else if \<not> scenarioFailed baseline \<and> scenarioFailed current then ''regressed''
      else if scenarioFailed baseline \<and> scenarioFailed current then ''still_failed''
      else ''unchanged'')"

definition diff_of :: "ScenarioSnap option \<Rightarrow> ScenarioSnap option \<Rightarrow> ScenarioDiff" where
  "diff_of l r =
     (let d = diff_right r (diff_left l \<lparr>df_specFile = [], df_scenarioName = [], df_dataRowIndex = -1, df_change = [],
                df_baseline = SKIPPED, df_current = SKIPPED, df_durationBaseline = 0, df_durationCurrent = 0\<rparr>)
      in d\<lparr>df_change := change_of (l \<noteq> None) (r \<noteq> None) (df_baseline d) (df_current d)\<rparr>)"

definition compareScenarios :: "TestResult \<Rightarrow> TestResult \<Rightarrow> ScenarioDiff list" where
  "compareScenarios baseline current =
     (let left = snaps_by_key baseline; right = snaps_by_key current;
          keys = omap_keys left @ filter (\<lambda>k. omap_get left k = None) (omap_keys right)
      in map (\<lambda>k. diff_of (omap_get left k) (omap_get right k)) keys)"

definition diff_json :: "ScenarioDiff \<Rightarrow> Json" where
  "diff_json d = jobject [(''spec'', JStr (df_specFile d)), (''scenario'', JStr (df_scenarioName d)),
     (''data_row_index'', JInt (df_dataRowIndex d)), (''change'', JStr (df_change d)),
     (''baseline_state'', JState (df_baseline d)), (''current_state'', JState (df_current d)),
     (''baseline_duration'', JSecs (df_durationBaseline d)), (''current_duration'', JSecs (df_durationCurrent d)),
     (''duration_delta'', JSecs (df_durationCurrent d - df_durationBaseline d))]"

record ComparisonSummary =
  cs_regressed :: int
  cs_improved :: int
  cs_stillFailed :: int
  cs_unchanged :: int
  cs_added :: int
  cs_removed :: int

definition count_diff :: "ComparisonSummary \<Rightarrow> ScenarioDiff \<Rightarrow> ComparisonSummary" where
  "count_diff s d =
     (if df_change d = ''regressed'' then s\<lparr>cs_regressed := cs_regressed s + 1\<rparr>
      else if df_change d = ''improved'' then s\<lparr>cs_improved := cs_improved s + 1\<rparr>
      else if df_change d = ''still_failed'' then s\<lparr>cs_stillFailed := cs_stillFailed s + 1\<rparr>
      else if df_change d = ''added'' then s\<lparr>cs_added := cs_added s + 1\<rparr>
      else if df_change d = ''removed'' then s\<lparr>cs_removed := cs_removed s + 1\<rparr>
      else s\<lparr>cs_unchanged := cs_unchanged s + 1\<rparr>)"

definition summarizeDiffs :: "ScenarioDiff list \<Rightarrow> ComparisonSummary" where
  "summarizeDiffs ds = foldl count_diff
     \<lparr>cs_regressed = 0, cs_improved = 0, cs_stillFailed = 0, cs_unchanged = 0, cs_added = 0, cs_removed = 0\<rparr> ds"

definition summary_json :: "ComparisonSummary \<Rightarrow> Json" where
  "summary_json s = jobject [(''regressed'', JInt (cs_regressed s)), (''improved'', JInt (cs_improved s)),
     (''still_failed'', JInt (cs_stillFailed s)), (''unchanged'', JInt (cs_unchanged s)),
     (''added'', JInt (cs_added s)), (''removed'', JInt (cs_removed s))]"

record TestComparison =
  tc_currentId :: string
  tc_baselineId :: string
  tc_currentName :: string
  tc_baselineName :: string
  tc_currentState :: TestState
  tc_baselineState :: TestState
  tc_currentDuration :: seconds
  tc_baselineDuration :: seconds
  tc_currentEnd :: TimePoint
  tc_baselineEnd :: TimePoint
  tc_autoBaseline :: bool
  tc_diffs :: "ScenarioDiff list"

definition side_json :: "string \<Rightarrow> string \<Rightarrow> TestState \<Rightarrow> seconds \<Rightarrow> TimePoint \<Rightarrow> Json" where
  "side_json i name st dur finish = jobject [(''test_id'', JStr i), (''name'', JStr name), (''state'', JState st),
     (''duration'', JSecs dur), (''end_time'', JTime finish)]"

definition comparison_json :: "TestComparison \<Rightarrow> Json" where
  "comparison_json c = jobject
     [(''current'', side_json (tc_currentId c) (tc_currentName c) (tc_currentState c) (tc_currentDuration c) (tc_currentEnd c)),
      (''baseline'', side_json (tc_baselineId c) (tc_baselineName c) (tc_baselineState c) (tc_baselineDuration c)
         (tc_baselineEnd c)),
      (''baseline_auto'', JBool (tc_autoBaseline c)), (''summary'', summary_json (summarizeDiffs (tc_diffs c))),
      (''scenarios'', JArr (map diff_json (tc_diffs c))), (''count'', JInt (int (length (tc_diffs c))))]"

section \<open>What a series holds\<close>

lemma get_map_push [omap_simps]:
  "map_of (map_push k x m) k' = (if k' = k then Some ((case map_of m k of None \<Rightarrow> [] | Some xs \<Rightarrow> xs) @ [x]) else map_of m k')"
  by (simp add: map_push_def omap_get_put)

lemma omap_ok_map_push [omap_simps]: "omap_ok m \<Longrightarrow> omap_ok (map_push k x m)"
  by (simp add: map_push_def omap_ok_put)

definition non_empty :: "'a list \<Rightarrow> 'a list option" where
  "non_empty xs = (if xs = [] then None else Some xs)"

lemma push_files:
  assumes "distinct fs"
  shows "map_of (foldl (\<lambda>m spec. if flt = [] \<or> spec = flt then map_push spec run m else m) m fs) f =
    (if f \<in> set fs \<and> (flt = [] \<or> f = flt)
     then Some ((case map_of m f of None \<Rightarrow> [] | Some xs \<Rightarrow> xs) @ [run]) else map_of m f)"
  using assms by (induction fs arbitrary: m) (auto simp: get_map_push split: option.splits)

lemma get_file_run:
  "map_of (file_run flt m run) f =
    (if f \<in> set (tn_specFiles run) \<and> (flt = [] \<or> f = flt)
     then Some ((case map_of m f of None \<Rightarrow> [] | Some xs \<Rightarrow> xs) @ [run]) else map_of m f)"
  by (simp add: file_run_def push_files)

lemma omap_ok_file_run: "omap_ok m \<Longrightarrow> omap_ok (file_run flt m run)"
proof -
  have "omap_ok (foldl (\<lambda>m spec. if flt = [] \<or> spec = flt then map_push spec run m else m) m fs)" if "omap_ok m" for m fs
    using that by (induction fs arbitrary: m) (auto simp: omap_ok_map_push)
  then show "omap_ok m \<Longrightarrow> omap_ok (file_run flt m run)" by (simp add: file_run_def)
qed

definition runs_of :: "string \<Rightarrow> string \<Rightarrow> TrendRun list \<Rightarrow> TrendRun list" where
  "runs_of flt f runs = filter (\<lambda>r. f \<in> set (tn_specFiles r) \<and> (flt = [] \<or> f = flt)) runs"

lemma grouped_runs:
  "omap_ok (foldl (file_run flt) [] runs) \<and> map_of (foldl (file_run flt) [] runs) f = non_empty (runs_of flt f runs)"
proof (induction runs rule: rev_induct)
  case (snoc r runs)
  then show ?case
    by (auto simp: get_file_run omap_ok_file_run runs_of_def non_empty_def split: if_splits)
qed (simp add: runs_of_def non_empty_def)

text \<open>
  Without a filter, the trends hold the series of all runs, and for every specification that
  was run exactly one series: its most recent runs, oldest first, at least one.
\<close>

lemma groupTrends_series:
  "map (\<lambda>s. (sx_specFile s, sx_points s)) (filter (\<lambda>s. sx_specFile s = f) (tl (groupTrends (r # runs) [] n))) =
   (if runs_of [] f (r # runs) = [] then [] else [(f, keep_last (max 1 n) (runs_of [] f (r # runs)))])"
proof -
  let ?m = "foldl (file_run []) [] (r # runs)"
  have m: "omap_ok ?m" "map_of ?m f = non_empty (runs_of [] f (r # runs))"
    using grouped_runs [of "[]" "r # runs" f] by blast+
  have one: "filter (\<lambda>e. fst e = f) m = (case map_of m f of None \<Rightarrow> [] | Some v \<Rightarrow> [(f, v)])"
    if "distinct (map fst m)" for m :: "(string \<times> TrendRun list) list"
    using that
  proof (induction m)
    case (Cons e m)
    obtain k v where e: "e = (k, v)" by (cases e)
    have "k = f \<Longrightarrow> map_of m f = None" using Cons.prems e by (simp add: map_of_eq_None_iff)
    with Cons e show ?case by (auto split: option.splits)
  qed simp
  have "tl (groupTrends (r # runs) [] n) = map (\<lambda>(k, v). \<lparr>sx_specFile = k, sx_points = keep_last (max 1 n) v\<rparr>) ?m"
    by (simp add: groupTrends_def Let_def max_def del: foldl.simps)
  then have "map (\<lambda>s. (sx_specFile s, sx_points s)) (filter (\<lambda>s. sx_specFile s = f) (tl (groupTrends (r # runs) [] n)))
      = map (\<lambda>(k, v). (k, keep_last (max 1 n) v)) (filter (\<lambda>e. fst e = f) ?m)"
    by (simp add: filter_map comp_def case_prod_unfold del: foldl.simps)
  with m(2) one [OF omap_ok_distinct [OF m(1)]] show ?thesis
    by (simp add: non_empty_def del: foldl.simps)
qed

section \<open>What a comparison counts\<close>

definition change_at :: "TestResult \<Rightarrow> TestResult \<Rightarrow> string \<Rightarrow> string" where
  "change_at a b k = df_change (diff_of (map_of (snaps_by_key a) k) (map_of (snaps_by_key b) k))"

definition compared_keys :: "TestResult \<Rightarrow> TestResult \<Rightarrow> string set" where
  "compared_keys a b = dom (map_of (snaps_by_key a)) \<union> dom (map_of (snaps_by_key b))"

definition changes :: "TestResult \<Rightarrow> TestResult \<Rightarrow> string \<Rightarrow> int" where
  "changes a b c = int (card {k \<in> compared_keys a b. change_at a b k = c})"

lemma omap_ok_snaps: "omap_ok (snaps_by_key r)"
proof -
  have "omap_ok (foldl (\<lambda>m (k, v). omap_put k v m) acc xs)" if "omap_ok acc" for acc and xs :: "(string \<times> ScenarioSnap) list"
    using that by (induction xs arbitrary: acc) (auto simp: omap_ok_put)
  then show ?thesis by (simp add: snaps_by_key_def omap_of_list_def)
qed

definition key_list :: "TestResult \<Rightarrow> TestResult \<Rightarrow> string list" where
  "key_list a b = omap_keys (snaps_by_key a) @
     filter (\<lambda>k. map_of (snaps_by_key a) k = None) (omap_keys (snaps_by_key b))"

lemma key_list_facts: "distinct (key_list a b)" "set (key_list a b) = compared_keys a b"
  using omap_ok_distinct [OF omap_ok_snaps [of a]] omap_ok_distinct [OF omap_ok_snaps [of b]]
  by (auto simp: key_list_def compared_keys_def dom_map_of_conv_image_fst map_of_eq_None_iff)

lemma compareScenarios_keys:
  "compareScenarios a b = map (\<lambda>k. diff_of (map_of (snaps_by_key a) k) (map_of (snaps_by_key b) k)) (key_list a b)"
  by (simp add: compareScenarios_def key_list_def Let_def)

lemma count_changes: "int (length (filter (\<lambda>d. df_change d = c) (compareScenarios a b))) = changes a b c"
proof -
  have "length (filter (\<lambda>d. df_change d = c) (compareScenarios a b)) =
      length (filter (\<lambda>k. change_at a b k = c) (key_list a b))"
    by (simp add: compareScenarios_keys filter_map comp_def change_at_def)
  also have "\<dots> = card {k \<in> compared_keys a b. change_at a b k = c}"
    using key_list_facts [of a b] by (metis (no_types) distinct_card distinct_filter set_filter)
  finally show ?thesis by (simp add: changes_def)
qed

definition known_changes :: "string list" where
  "known_changes = [''regressed'', ''improved'', ''still_failed'', ''added'', ''removed'', ''unchanged'']"

lemma change_known: "change_at a b k \<in> set known_changes"
  by (simp add: change_at_def diff_of_def Let_def change_of_def known_changes_def)

definition summary_of :: "(string \<Rightarrow> int) \<Rightarrow> ComparisonSummary" where
  "summary_of f = \<lparr>cs_regressed = f ''regressed'', cs_improved = f ''improved'', cs_stillFailed = f ''still_failed'',
     cs_unchanged = f ''unchanged'', cs_added = f ''added'', cs_removed = f ''removed''\<rparr>"

lemma fold_count:
  assumes "\<forall>d \<in> set ds. df_change d \<in> set known_changes"
  shows "foldl count_diff (summary_of f) ds =
    summary_of (\<lambda>c. f c + int (length (filter (\<lambda>d. df_change d = c) ds)))"
  using assms
proof (induction ds arbitrary: f)
  case (Cons d ds)
  define g where "g = (\<lambda>c. f c + (if df_change d = c then 1 else 0))"
  have "count_diff (summary_of f) d = summary_of g"
    using Cons.prems by (auto simp: known_changes_def summary_of_def count_diff_def g_def)
  moreover have "g c + int (length (filter (\<lambda>d. df_change d = c) ds)) =
      f c + int (length (filter (\<lambda>d. df_change d = c) (d # ds)))" for c
    by (simp add: g_def)
  moreover have "foldl count_diff (summary_of g) ds =
      summary_of (\<lambda>c. g c + int (length (filter (\<lambda>d. df_change d = c) ds)))"
    by (rule Cons.IH) (use Cons.prems in simp)
  ultimately show ?case by (simp only: foldl.simps)
qed (simp add: summary_of_def)

lemma summary_changes: "summarizeDiffs (compareScenarios a b) = summary_of (changes a b)"
proof -
  have "\<forall>d \<in> set (compareScenarios a b). df_change d \<in> set known_changes"
    using change_known [of a b] by (auto simp: compareScenarios_keys change_at_def)
  from fold_count [OF this, of "\<lambda>c. 0"] show ?thesis
    by (simp add: summarizeDiffs_def summary_of_def count_changes)
qed

lemma change_swap:
  assumes "k \<in> compared_keys a b"
  shows "change_at b a k = ''regressed'' \<longleftrightarrow> change_at a b k = ''improved''"
    and "change_at b a k = ''added'' \<longleftrightarrow> change_at a b k = ''removed''"
    and "change_at b a k = ''still_failed'' \<longleftrightarrow> change_at a b k = ''still_failed''"
    and "change_at b a k = ''unchanged'' \<longleftrightarrow> change_at a b k = ''unchanged''"
  using assms
  by (cases "map_of (snaps_by_key a) k"; cases "map_of (snaps_by_key b) k";
      auto simp: compared_keys_def change_at_def diff_of_def Let_def change_of_def diff_left_def diff_right_def)+

lemma changes_swap:
  "changes b a ''regressed'' = changes a b ''improved''" "changes b a ''added'' = changes a b ''removed''"
  "changes b a ''still_failed'' = changes a b ''still_failed''" "changes b a ''unchanged'' = changes a b ''unchanged''"
proof -
  have k: "compared_keys b a = compared_keys a b" by (auto simp: compared_keys_def)
  show "changes b a ''regressed'' = changes a b ''improved''" "changes b a ''added'' = changes a b ''removed''"
    "changes b a ''still_failed'' = changes a b ''still_failed''" "changes b a ''unchanged'' = changes a b ''unchanged''"
    unfolding changes_def k using change_swap by (auto intro!: arg_cong [where f = card])
qed

text \<open>
  C37. Comparing two runs the other way round turns regressions into improvements, added scenarios
  into removed ones, and keeps the counts of unchanged and still failing scenarios.
\<close>

theorem comparison_swap:
  "cs_regressed (summarizeDiffs (compareScenarios b a)) = cs_improved (summarizeDiffs (compareScenarios a b))
   \<and> cs_improved (summarizeDiffs (compareScenarios b a)) = cs_regressed (summarizeDiffs (compareScenarios a b))
   \<and> cs_added (summarizeDiffs (compareScenarios b a)) = cs_removed (summarizeDiffs (compareScenarios a b))
   \<and> cs_removed (summarizeDiffs (compareScenarios b a)) = cs_added (summarizeDiffs (compareScenarios a b))
   \<and> cs_stillFailed (summarizeDiffs (compareScenarios b a)) = cs_stillFailed (summarizeDiffs (compareScenarios a b))
   \<and> cs_unchanged (summarizeDiffs (compareScenarios b a)) = cs_unchanged (summarizeDiffs (compareScenarios a b))"
  using changes_swap [of b a] changes_swap [of a b] by (simp add: summary_changes summary_of_def)

end
