(* ===== verification/EngineTrends.thy ===== *)
theory EngineTrends
  imports EngineHistory Trends
begin

text \<open>
  The queries of \<open>ExecutionEngine\<close> behind the trend and comparison pages
  (\<open>src/src/engine/execution_engine.cpp\<close>): which finished runs enter a trend, and which run a
  comparison takes as its baseline when the client names none.
\<close>

section \<open>The queries\<close>

definition recordSpecFiles :: "TestRecord \<Rightarrow> string list" where
  "recordSpecFiles r =
     (let ran = (if re_hasResult r then filter (\<lambda>f. f \<noteq> []) (map sp_specFile (tr_specResults (re_result r))) else []);
          known = (if ran = [] then re_resolvedSpecs r else ran);
          named = (if known = [] then rq_specFiles (re_request r) else known)
      in remdups_adj (sort named))"

definition trendRunFrom :: "TestRecord \<Rightarrow> TrendRun" where
  "trendRunFrom r =
     (let s = re_status r; x = re_result r; has = re_hasResult r
      in \<lparr>tn_testId = rq_id (re_request r), tn_name = rq_name (re_request r), tn_state = ts_state s,
          tn_endTime = (if ts_endTime s \<noteq> 0 then ts_endTime s else ts_submitTime s),
          tn_duration = (if has then tr_totalDuration x else 0),
          tn_totalScenarios = (if has then tr_totalScenarios x else ts_totalScenarios s),
          tn_passedScenarios = (if has then tr_passedScenarios x else ts_passedScenarios s),
          tn_failedScenarios = (if has then tr_failedScenarios x else ts_failedScenarios s),
          tn_skippedScenarios = (if has then tr_skippedScenarios x else ts_skippedScenarios s),
          tn_specFiles = recordSpecFiles r\<rparr>)"

definition specSetsOverlap :: "string list \<Rightarrow> string list \<Rightarrow> bool" where
  "specSetsOverlap a b = (if a = [] \<or> b = [] then True else list_ex (\<lambda>x. x \<in> set b) a)"

definition finished_run :: "TestRecord \<Rightarrow> bool" where
  "finished_run r = (re_hasResult r \<and> isTerminalState (state_of r) \<and> state_of r \<noteq> CANCELLED)"

definition trendRuns :: "engine \<Rightarrow> TrendRun list" where
  "trendRuns e = map trendRunFrom (filter finished_run (List.map_filter (record_of_test e) (snd (en_records e))))"

definition usable_baseline :: "engine \<Rightarrow> string \<Rightarrow> string list \<Rightarrow> string \<Rightarrow> bool" where
  "usable_baseline e currentId specs i =
     (i \<noteq> currentId \<and> (case record_of_test e i of None \<Rightarrow> False
        | Some r \<Rightarrow> finished_run r \<and> specSetsOverlap specs (recordSpecFiles r)))"

definition with_result :: "engine \<Rightarrow> string \<Rightarrow> TestRecord option" where
  "with_result e i = (case record_of_test e i of None \<Rightarrow> None | Some r \<Rightarrow> if re_hasResult r then Some r else None)"

definition choose_baseline :: "engine \<Rightarrow> string \<Rightarrow> string \<Rightarrow> TestRecord \<Rightarrow> string + TestRecord" where
  "choose_baseline e currentId baselineId current =
     (if baselineId \<noteq> []
      then (case with_result e baselineId of
          None \<Rightarrow> Inl (''Baseline test not found or not finished: '' @ baselineId)
        | Some b \<Rightarrow> if baselineId = currentId then Inl ''Cannot compare a test with itself'' else Inr b)
      else (case find (usable_baseline e currentId (recordSpecFiles current)) (rev (snd (en_records e))) of
          None \<Rightarrow> Inl ''No previous finished run sharing the same spec(s)''
        | Some i \<Rightarrow> Inr (the (record_of_test e i))))"

definition comparison_of :: "bool \<Rightarrow> TestRecord \<Rightarrow> TestRecord \<Rightarrow> TestComparison" where
  "comparison_of auto_base b c =
     \<lparr>tc_currentId = rq_id (re_request c), tc_baselineId = rq_id (re_request b),
      tc_currentName = rq_name (re_request c), tc_baselineName = rq_name (re_request b),
      tc_currentState = state_of c, tc_baselineState = state_of b,
      tc_currentDuration = tr_totalDuration (re_result c), tc_baselineDuration = tr_totalDuration (re_result b),
      tc_currentEnd = ts_endTime (re_status c), tc_baselineEnd = ts_endTime (re_status b),
      tc_autoBaseline = auto_base, tc_diffs = compareScenarios (re_result b) (re_result c)\<rparr>"

definition compareTests :: "string \<Rightarrow> string \<Rightarrow> engine \<Rightarrow> string + TestComparison" where
  "compareTests currentId baselineId e =
     (case with_result e currentId of
        None \<Rightarrow> Inl (''Test not found or not finished: '' @ currentId)
      | Some c \<Rightarrow> (case choose_baseline e currentId baselineId c of
            Inl err \<Rightarrow> Inl err
          | Inr b \<Rightarrow> Inr (comparison_of (baselineId = []) b c)))"

section \<open>The automatic baseline\<close>

lemma find_rev_last:
  "find P (rev xs) = Some x \<Longrightarrow> \<exists>older newer. xs = older @ x # newer \<and> P x \<and> (\<forall>y \<in> set newer. \<not> P y)"
proof (induction xs rule: rev_induct)
  case (snoc y xs)
  show ?case
  proof (cases "P y")
    case True
    with snoc.prems show ?thesis by (intro exI [of _ xs] exI [of _ "[]"]) simp
  next
    case False
    with snoc obtain older newer where "xs = older @ x # newer" "P x" "\<forall>y \<in> set newer. \<not> P y" by auto
    with False show ?thesis by (intro exI [of _ older] exI [of _ "newer @ [y]"]) auto
  qed
qed simp

lemma engine_row_ids: "engine_ok e \<Longrightarrow> record_of_test e i = Some r \<Longrightarrow> rq_id (re_request r) = i"
  using engine_okD(2) [of e] by (auto simp: ixi.every_def record_of_test_def row_ok_def)

lemma with_resultD: "with_result e i = Some r \<Longrightarrow> record_of_test e i = Some r \<and> re_hasResult r"
  by (auto simp: with_result_def split: option.splits if_splits)


text \<open>Two finished runs of the same specification.\<close>

definition pass_test :: "string \<Rightarrow> engine \<Rightarrow> engine" where
  "pass_test i e = finish_test Written i (default_TestStatus\<lparr>ts_testId := i, ts_state := PASSED\<rparr>)
     (default_TestResult\<lparr>tr_testId := i\<rparr>) e"

definition next_request :: TestRequest where
  "next_request = default_TestRequest\<lparr>rq_id := ''u'', rq_specFiles := [''tiny.spec'']\<rparr>"

definition next_task :: "TestTask \<times> engine" where
  "next_task = the (take_task (fst (enqueue_request (\<lambda>t. []) 1 next_request [''tiny.spec''] (pass_test ''t'' (snd sample_task)))))"

definition two_runs :: engine where
  "two_runs = pass_test ''u'' (snd next_task)"

lemma pass_test_reachable:
  "engine_reachable resolve stamp e \<Longrightarrow> i \<in> set (en_active e) \<Longrightarrow> engine_reachable resolve stamp (pass_test i e)"
  unfolding pass_test_def by (rule er_step, assumption, rule es_finish) simp_all

lemma two_runs_reachable: "engine_reachable (\<lambda>x. (x, [])) (\<lambda>t. []) two_runs"
proof -
  let ?r = "\<lambda>x. (x :: string list, [] :: string list)" and ?s = "\<lambda>t :: TimePoint. [] :: string"
  let ?e = "pass_test ''t'' (snd sample_task)"
  let ?q = "enqueue_request ?s 1 next_request [''tiny.spec''] ?e"
  have "''t'' \<in> set (en_active (snd sample_task))" by code_simp
  with sample_reachable have e: "engine_reachable ?r ?s ?e" by (rule pass_test_reachable)
  have "check_request ?r next_request ?e = Inr [''tiny.spec'']" by code_simp
  then have "submit ?r ?s 1 next_request ?e = Some (Inr ?q)"
    by (simp add: submit_def) (simp add: next_request_def)
  then have "engine_reachable ?r ?s (fst ?q)"
    using er_step [OF e es_submit] by (metis prod.collapse)
  moreover have "take_task (fst ?q) = Some next_task" by code_simp
  ultimately have n: "engine_reachable ?r ?s (snd next_task)"
    using er_step [OF _ es_take] by (metis prod.collapse)
  have "''u'' \<in> set (en_active (snd next_task))" by code_simp
  with n show ?thesis unfolding two_runs_def by (rule pass_test_reachable)
qed


end
