(* ===== verification/SpecText.thy ===== *)
theory SpecText
  imports SpecModel
begin

text \<open>
  The line level of \<open>src/src/spec/spec_parser.cpp\<close>: splitting a text into lines, headings and
  markers, table rows, and the text of a step with its arguments.
\<close>

section \<open>Lines\<close>

definition ch_quote :: char where "ch_quote = CHR 0x22"
definition ch_backslash :: char where "ch_backslash = CHR 0x5C"

definition isUnderline :: "string \<Rightarrow> char \<Rightarrow> bool" where
  "isUnderline line ch = (let t = trim line in length t \<ge> 3 \<and> list_all (\<lambda>c. c = ch) t)"

definition isTeardownMarker :: "string \<Rightarrow> bool" where
  "isTeardownMarker line = isUnderline line CHR ''_''"

definition stripHeadingMarker :: "string \<Rightarrow> nat \<Rightarrow> string" where
  "stripHeadingMarker line level =
     (let t = trim line in
      if length t > level \<and> take level t = replicate level CHR ''#'' \<and> t ! level \<noteq> CHR ''#''
      then trim (drop level t) else [])"

definition isTagLine :: "string \<Rightarrow> bool" where
  "isTagLine line = startsWith (toLower (trim line)) ''tags:''"

fun appendTag :: "string list \<Rightarrow> string \<Rightarrow> string list" where
  "appendTag tags tag = (let t = trim tag in if t \<noteq> [] \<and> t \<notin> set tags then tags @ [t] else tags)"

definition appendTags :: "string list \<Rightarrow> string \<Rightarrow> string list" where
  "appendTags tags raw = foldl appendTag tags (split1 raw CHR '','')"

definition drop_cr :: "string \<Rightarrow> string" where
  "drop_cr s = (if s \<noteq> [] \<and> last s = CHR 0x0D then butlast s else s)"

fun split_lines_from :: "string \<Rightarrow> string list \<Rightarrow> string \<Rightarrow> string list" where
  "split_lines_from current lines [] = (if current \<noteq> [] then lines @ [drop_cr current] else lines)"
| "split_lines_from current lines (c # cs) =
     (if c = CHR 0x0A then split_lines_from [] (lines @ [drop_cr current]) cs
      else split_lines_from (current @ [c]) lines cs)"

definition splitLines :: "string \<Rightarrow> string list" where
  "splitLines content = split_lines_from [] [] content"

section \<open>Table rows\<close>

text \<open>
  The loop over \<open>[start, end)\<close>: \<open>s\<close> is the rest of that range.
\<close>

fun cells_from :: "string list \<Rightarrow> string \<Rightarrow> string \<Rightarrow> string list" where
  "cells_from cells cur [] = cells @ [trim cur]"
| "cells_from cells cur [c] =
     (if c = CHR ''|'' then cells_from (cells @ [trim cur]) [] [] else cells_from cells (cur @ [c]) [])"
| "cells_from cells cur (c # d # s) =
     (if c = ch_backslash \<and> d = CHR ''|'' then cells_from cells (cur @ [CHR ''|'']) s
      else if c = CHR ''|'' then cells_from (cells @ [trim cur]) [] (d # s)
      else cells_from cells (cur @ [c]) (d # s))"

definition parseTableRow :: "string \<Rightarrow> string list" where
  "parseTableRow line =
     (let t = trim line in
      if t = [] \<or> hd t \<noteq> CHR ''|'' then []
      else cells_from [] [] (let body = tl t in
             if length t > 1 \<and> last t = CHR ''|'' then butlast body else body))"

fun separator_from :: "bool \<Rightarrow> string \<Rightarrow> bool" where
  "separator_from sawDash [] = sawDash"
| "separator_from sawDash (c # cs) =
     (if c = CHR ''-'' then separator_from True cs
      else if c \<noteq> CHR ''|'' \<and> c \<noteq> CHR '' '' \<and> c \<noteq> CHR '':'' then False
      else separator_from sawDash cs)"

definition isTableSeparator :: "string \<Rightarrow> bool" where
  "isTableSeparator line =
     (let t = trim line in if t = [] \<or> hd t \<noteq> CHR ''|'' then False else separator_from False t)"

section \<open>Step text\<close>

definition unescape :: "char \<Rightarrow> string" where
  "unescape e =
     (if e = ch_quote then [ch_quote]
      else if e = CHR ''n'' then [CHR 0x0A]
      else if e = CHR ''t'' then [CHR 0x09]
      else if e = ch_backslash then [ch_backslash]
      else [ch_backslash, e])"

text \<open>From after an opening quote: the value and what follows the closing quote.\<close>

fun quoted_value :: "string \<Rightarrow> string \<Rightarrow> (string \<times> string) option" where
  "quoted_value v [] = None"
| "quoted_value v [c] = (if c = ch_quote then Some (v, []) else quoted_value (v @ [c]) [])"
| "quoted_value v (c # e # s) =
     (if c = ch_backslash then quoted_value (v @ unescape e) s
      else if c = ch_quote then Some (v, e # s)
      else quoted_value (v @ [c]) (e # s))"

definition angle_arg :: "string \<Rightarrow> StepArg" where
  "angle_arg inner =
     (if startsWith inner ''file:''
      then default_StepArg\<lparr>sa_type := SpecialString, sa_value := trim (drop 5 inner)\<rparr>
      else if startsWith inner ''table:''
      then default_StepArg\<lparr>sa_type := SpecialTable, sa_value := trim (drop 6 inner)\<rparr>
      else default_StepArg\<lparr>sa_type := Dynamic, sa_value := trim inner\<rparr>)"

lemma quoted_value_length: "quoted_value v s = Some (w, r) \<Longrightarrow> length r < length s"
  by (induction v s rule: quoted_value.induct) (auto split: if_splits)

function (sequential) step_loop :: "string \<Rightarrow> string \<Rightarrow> StepArg list \<Rightarrow> string \<Rightarrow> string + string \<times> StepArg list" where
  "step_loop s out args [] = Inr (out, args)"
| "step_loop s out args (c # r) =
     (if c = ch_backslash \<and> r \<noteq> [] \<and> (hd r = ch_quote \<or> hd r = CHR ''<'')
      then step_loop s (out @ [hd r]) args (tl r)
      else if c = ch_quote then
        (case quoted_value [] r of
           None \<Rightarrow> Inl (''Unclosed quote in step: '' @ s)
         | Some (v, r') \<Rightarrow>
             step_loop s (out @ ''{}'') (args @ [default_StepArg\<lparr>sa_type := Static, sa_value := v\<rparr>]) r')
      else if c = CHR ''<'' then
        (case break_at ''>'' r of
           None \<Rightarrow> Inl (''Unclosed dynamic parameter in step: '' @ s)
         | Some (inner, r') \<Rightarrow> step_loop s (out @ ''{}'') (args @ [angle_arg inner]) r')
      else step_loop s (out @ [c]) args r)"
  by pat_completeness auto
termination
proof (relation "measure (\<lambda>(s, out, args, r). length r)")
  fix s out :: string and args :: "StepArg list" and c :: char and r :: string and x v r'
  assume "quoted_value [] r = Some x" "(v, r') = x"
  then have "length r' < length r" using quoted_value_length by blast
  then show "((s, out @ ''{}'', args @ [default_StepArg\<lparr>sa_type := Static, sa_value := v\<rparr>], r'), (s, out, args, c # r))
      \<in> measure (\<lambda>(s, out, args, r). length r)" by simp
next
  fix s out :: string and args :: "StepArg list" and c :: char and r :: string and x inner r'
  assume "break_at ''>'' r = Some x" "(inner, r') = x"
  then have "length r' < length r" using break_at_length [of "''>''" r inner r'] by simp
  then show "((s, out @ ''{}'', args @ [angle_arg inner], r'), (s, out, args, c # r))
      \<in> measure (\<lambda>(s, out, args, r). length r)" by simp
qed auto

text \<open>Runs of white space become one blank.\<close>

fun collapse_from :: "bool \<Rightarrow> string \<Rightarrow> string" where
  "collapse_from lastSpace [] = []"
| "collapse_from lastSpace (c # cs) =
     (if c_isspace c then (if lastSpace then [] else '' '') @ collapse_from True cs
      else c # collapse_from False cs)"

definition collapse :: "string \<Rightarrow> string" where
  "collapse out = collapse_from False out"

definition parseStepText :: "string \<Rightarrow> string + Step" where
  "parseStepText text =
     (let s = trim text in
      case step_loop s [] [] s of
        Inl err \<Rightarrow> Inl err
      | Inr (out, args) \<Rightarrow>
          (let p = trim (collapse out) in
           if p = [] then Inl ''Empty step'' else Inr (Step s p args 0 False [])))"

section \<open>Facts\<close>

lemma ch_simps [simp]:
  "ch_quote \<noteq> ch_backslash" "ch_backslash \<noteq> ch_quote" "ch_quote \<noteq> CHR ''<''" "CHR ''<'' \<noteq> ch_quote"
  "ch_backslash \<noteq> CHR ''<''" "CHR ''<'' \<noteq> ch_backslash" "ch_backslash \<noteq> CHR ''|''" "CHR ''|'' \<noteq> ch_backslash"
  "ch_quote \<noteq> CHR ''n''" "ch_quote \<noteq> CHR ''t''" "ch_backslash \<noteq> CHR ''n''" "ch_backslash \<noteq> CHR ''t''"
  "CHR ''n'' \<noteq> ch_quote" "CHR ''t'' \<noteq> ch_quote" "CHR ''n'' \<noteq> ch_backslash" "CHR ''t'' \<noteq> ch_backslash"
  by (simp_all add: ch_quote_def ch_backslash_def)

lemma appendTags_facts:
  "distinct tags \<Longrightarrow> distinct (appendTags tags raw)"
  "set tags \<subseteq> set (appendTags tags raw)"
proof -
  have "(distinct tags \<longrightarrow> distinct (foldl appendTag tags ts)) \<and> set tags \<subseteq> set (foldl appendTag tags ts)" for ts
  proof (induction ts arbitrary: tags)
    case (Cons t ts)
    have "(distinct tags \<longrightarrow> distinct (appendTag tags t)) \<and> set tags \<subseteq> set (appendTag tags t)"
      by (auto simp: Let_def)
    with Cons [of "appendTag tags t"] show ?case by auto
  qed simp
  then show "distinct tags \<Longrightarrow> distinct (appendTags tags raw)" "set tags \<subseteq> set (appendTags tags raw)"
    by (auto simp: appendTags_def)
qed

text \<open>A table row written out: cells between bars, a bar inside a cell escaped.\<close>

definition escape_bar :: "string \<Rightarrow> string" where
  "escape_bar c = concat (map (\<lambda>x. if x = CHR ''|'' then [ch_backslash, x] else [x]) c)"

definition render_row :: "string list \<Rightarrow> string" where
  "render_row cells = ''|'' @ join (map escape_bar cells) ''|'' @ ''|''"

lemma escape_bar_simps [simp]:
  "escape_bar [] = []"
  "escape_bar (x # c) = (if x = CHR ''|'' then [ch_backslash, x] else [x]) @ escape_bar c"
  by (simp_all add: escape_bar_def)

lemma escape_bar_hd: "c \<noteq> [] \<Longrightarrow> \<exists>y t. escape_bar c = y # t \<and> y \<noteq> CHR ''|''"
  by (cases c) auto

lemma cells_from_escaped:
  "c = [] \<or> last c \<noteq> ch_backslash \<Longrightarrow> cells_from cells cur (escape_bar c @ r) = cells_from cells (cur @ c) r"
proof (induction c arbitrary: cur)
  case (Cons x c)
  have ok: "c = [] \<or> last c \<noteq> ch_backslash" using Cons.prems by auto
  show ?case
  proof (cases "x = CHR ''|''")
    case True
    with Cons.IH [OF ok] show ?thesis by simp
  next
    case bar: False
    have "cells_from cells cur (x # escape_bar c @ r) = cells_from cells (cur @ [x]) (escape_bar c @ r)"
    proof (cases "c = []")
      case True
      with Cons.prems have "x \<noteq> ch_backslash" by simp
      with True bar show ?thesis by (cases r) simp_all
    next
      case False
      then obtain y t where "escape_bar c = y # t" "y \<noteq> CHR ''|''" using escape_bar_hd by blast
      with bar show ?thesis by simp
    qed
    with bar Cons.IH [OF ok] show ?thesis by simp
  qed
qed simp

lemma cells_from_bar: "cells_from cells cur (CHR ''|'' # s) = cells_from (cells @ [trim cur]) [] s"
  by (cases s) auto

lemma cells_from_join:
  "cs \<noteq> [] \<Longrightarrow> \<forall>c \<in> set cs. c = [] \<or> last c \<noteq> ch_backslash \<Longrightarrow>
   cells_from cells [] (join (map escape_bar cs) ''|'') = cells @ map trim cs"
proof (induction cs arbitrary: cells)
  case (Cons c cs)
  show ?case
  proof (cases "cs = []")
    case True
    with Cons.prems show ?thesis using cells_from_escaped [of c cells "[]" "[]"] by simp
  next
    case False
    then have "join (map escape_bar (c # cs)) ''|'' = escape_bar c @ ''|'' @ join (map escape_bar cs) ''|''"
      by (simp add: join_Cons)
    with Cons False show ?thesis
      by (simp add: cells_from_escaped cells_from_bar)
  qed
qed simp

text \<open>
  C34. A table row that is written out with bars between the cells, escaping the bars inside
  them, is read back as the same cells.
\<close>

theorem parseTableRow_render:
  assumes "cells \<noteq> []" and "\<forall>c \<in> set cells. trim c = c \<and> (c = [] \<or> last c \<noteq> ch_backslash)"
  shows "parseTableRow (render_row cells) = cells"
proof -
  let ?j = "join (map escape_bar cells) ''|''"
  have "trim (render_row cells) = render_row cells"
    unfolding render_row_def by (rule trim_id) (simp_all add: c_isspace_def)
  moreover have "cells_from [] [] ?j = map trim cells"
    using cells_from_join [OF assms(1), of "[]"] assms(2) by simp
  moreover have "map trim cells = cells" using assms(2) by (simp add: map_idI)
  ultimately show ?thesis
    by (simp add: parseTableRow_def Let_def) (simp add: render_row_def)
qed

theorem parseTableRow_render_witness:
  "parseTableRow (render_row [''a|b'', [], ''x y'']) = [''a|b'', [], ''x y'']"
  by (rule parseTableRow_render) (auto simp: trim_def c_isspace_def ch_backslash_def)

text \<open>A step line as its parts: literal text, quoted values and angle-bracket arguments.\<close>

datatype segment = Lit string | Quoted string | Angle string

definition escape_lit :: "string \<Rightarrow> string" where
  "escape_lit t = concat (map (\<lambda>x. if x = ch_quote \<or> x = CHR ''<'' then [ch_backslash, x] else [x]) t)"

definition escape_quoted :: "string \<Rightarrow> string" where
  "escape_quoted v = concat (map (\<lambda>x. if x = ch_quote \<or> x = ch_backslash then [ch_backslash, x]
     else if x = CHR 0x0A then [ch_backslash, CHR ''n'']
     else if x = CHR 0x09 then [ch_backslash, CHR ''t''] else [x]) v)"

fun render_segment :: "segment \<Rightarrow> string" where
  "render_segment (Lit t) = escape_lit t"
| "render_segment (Quoted v) = ch_quote # escape_quoted v @ [ch_quote]"
| "render_segment (Angle v) = ''<'' @ v @ ''>''"

fun segment_text :: "segment \<Rightarrow> string" where
  "segment_text (Lit t) = t"
| "segment_text x = ''{}''"

fun segment_args :: "segment \<Rightarrow> StepArg list" where
  "segment_args (Lit t) = []"
| "segment_args (Quoted v) = [default_StepArg\<lparr>sa_type := Static, sa_value := v\<rparr>]"
| "segment_args (Angle v) = [angle_arg v]"

fun segment_ok :: "segment \<Rightarrow> bool" where
  "segment_ok (Lit t) = (t = [] \<or> last t \<noteq> ch_backslash)"
| "segment_ok (Quoted v) = True"
| "segment_ok (Angle v) = (CHR ''>'' \<notin> set v)"

lemma char_escapes:
  "escape_quoted [ch_quote] = [ch_backslash, ch_quote]" "unescape ch_quote = [ch_quote]"
  "escape_quoted [ch_backslash] = [ch_backslash, ch_backslash]" "unescape ch_backslash = [ch_backslash]"
  "escape_quoted [CHR 0x0A] = [ch_backslash, CHR ''n'']" "unescape CHR ''n'' = [CHR 0x0A]"
  "escape_quoted [CHR 0x09] = [ch_backslash, CHR ''t'']" "unescape CHR ''t'' = [CHR 0x09]"
  by (simp_all add: escape_quoted_def unescape_def ch_quote_def ch_backslash_def)

lemma escape_lit_hd: "t \<noteq> [] \<Longrightarrow> \<exists>y u. escape_lit t = y # u \<and> y \<noteq> ch_quote \<and> y \<noteq> CHR ''<''"
  by (cases t) (auto simp: escape_lit_def)

lemma quoted_value_escape:
  "quoted_value w (escape_quoted v @ ch_quote # r) = Some (w @ v, r)"
proof (induction v arbitrary: w)
  case Nil
  show ?case by (cases r) (simp_all add: escape_quoted_def)
next
  case (Cons x v)
  have esc: "escape_quoted (x # v) = escape_quoted [x] @ escape_quoted v"
    by (simp add: escape_quoted_def)
  have escaped: "quoted_value w (escape_quoted (x # v) @ ch_quote # r) = Some (w @ x # v, r)"
    if "escape_quoted [x] = [ch_backslash, e]" "unescape e = [x]" for e
    using Cons [of "w @ [x]"] by (simp add: esc that)
  have plain: "quoted_value w (c # s) = quoted_value (w @ [c]) s" if "c \<noteq> ch_backslash" "c \<noteq> ch_quote" for c s w
    using that by (cases s) simp_all
  consider "x = ch_quote" | "x = ch_backslash" | "x = CHR 0x0A" | "x = CHR 0x09"
    | "x \<noteq> ch_quote" "x \<noteq> ch_backslash" "x \<noteq> CHR 0x0A" "x \<noteq> CHR 0x09" by blast
  then show ?case
  proof cases
    case 5
    then have "escape_quoted [x] = [x]" by (simp add: escape_quoted_def)
    with Cons plain [OF 5(2) 5(1)] show ?thesis unfolding esc by simp
  qed (rule escaped, simp only: char_escapes, simp only: char_escapes)+
qed

lemma break_at_single: "x \<notin> set v \<Longrightarrow> break_at [x] (v @ x # r) = Some (v, r)"
  by (induction v) auto

lemma step_loop_lit:
  assumes "t = [] \<or> last t \<noteq> ch_backslash"
  shows "step_loop s out args (escape_lit t @ r) = step_loop s (out @ t) args r"
  using assms
proof (induction t arbitrary: out)
  case Nil
  show ?case by (simp add: escape_lit_def)
next
  case (Cons x t)
  have ok: "t = [] \<or> last t \<noteq> ch_backslash" using Cons.prems by auto
  have esc: "escape_lit (x # t) = (if x = ch_quote \<or> x = CHR ''<'' then [ch_backslash, x] else [x]) @ escape_lit t"
    by (simp add: escape_lit_def)
  show ?case
  proof (cases "x = ch_quote \<or> x = CHR ''<''")
    case True
    then have "step_loop s out args (ch_backslash # x # escape_lit t @ r)
        = step_loop s (out @ [x]) args (escape_lit t @ r)" by auto
    with True Cons.IH [OF ok] show ?thesis by (auto simp: esc)
  next
    case False
    have "step_loop s out args (x # escape_lit t @ r) = step_loop s (out @ [x]) args (escape_lit t @ r)"
    proof (cases "x = ch_backslash")
      case True
      with Cons.prems have "t \<noteq> []" by auto
      then obtain y u where "escape_lit t = y # u" "y \<noteq> ch_quote" "y \<noteq> CHR ''<''"
        using escape_lit_hd by blast
      with True False show ?thesis by simp
    next
      case no: False
      with False show ?thesis by simp
    qed
    with False Cons.IH [OF ok] show ?thesis by (simp add: esc)
  qed
qed

lemma step_loop_segment:
  assumes "segment_ok sg"
  shows "step_loop s out args (render_segment sg @ r)
    = step_loop s (out @ segment_text sg) (args @ segment_args sg) r"
proof (cases sg)
  case (Lit t)
  with assms show ?thesis by (simp add: step_loop_lit)
next
  case (Quoted v)
  have "quoted_value [] (escape_quoted v @ ch_quote # r) = Some (v, r)"
    using quoted_value_escape [of "[]" v r] by simp
  with Quoted show ?thesis by simp
next
  case (Angle v)
  with assms have "break_at ''>'' (v @ CHR ''>'' # r) = Some (v, r)" by (simp add: break_at_single)
  with Angle show ?thesis by simp
qed

lemma step_loop_segments:
  "\<forall>sg \<in> set sgs. segment_ok sg \<Longrightarrow>
   step_loop s out args (concat (map render_segment sgs)) =
     Inr (out @ concat (map segment_text sgs), args @ concat (map segment_args sgs))"
proof (induction sgs arbitrary: out args)
  case (Cons sg sgs)
  then show ?case by (simp add: step_loop_segment del: step_loop.simps(2))
qed simp

text \<open>
  C33. A step written from its parts is parsed into those parts: the arguments in order, with
  their escapes undone, and the text with one placeholder per argument.
\<close>

theorem parseStepText_render:
  assumes "\<forall>sg \<in> set sgs. segment_ok sg"
    and "trim (concat (map render_segment sgs)) = concat (map render_segment sgs)"
    and "trim (collapse (concat (map segment_text sgs))) \<noteq> []"
  shows "parseStepText (concat (map render_segment sgs)) =
    Inr (Step (concat (map render_segment sgs)) (trim (collapse (concat (map segment_text sgs))))
          (concat (map segment_args sgs)) 0 False [])"
  using step_loop_segments [OF assms(1), of "concat (map render_segment sgs)" "[]" "[]"] assms(2,3)
  by (simp add: parseStepText_def Let_def)

theorem parseStepText_render_witness:
  "parseStepText (concat (map render_segment [Lit ''Say '', Quoted [ch_quote], Lit '' to '', Angle ''name'']))
     = Inr (Step (concat (map render_segment [Lit ''Say '', Quoted [ch_quote], Lit '' to '', Angle ''name'']))
         ''Say {} to {}''
         [default_StepArg\<lparr>sa_type := Static, sa_value := [ch_quote]\<rparr>,
          default_StepArg\<lparr>sa_type := Dynamic, sa_value := ''name''\<rparr>] 0 False [])"
proof -
  let ?sgs = "[Lit ''Say '', Quoted [ch_quote], Lit '' to '', Angle ''name'']"
  have "trim (concat (map render_segment ?sgs)) = concat (map render_segment ?sgs)"
    by (rule trim_id) (simp_all add: escape_lit_def c_isspace_def ch_quote_def)
  moreover have "trim (collapse (concat (map segment_text ?sgs))) = ''Say {} to {}''"
    by (simp add: collapse_def c_isspace_def trim_def)
  moreover have "angle_arg ''name'' = default_StepArg\<lparr>sa_type := Dynamic, sa_value := ''name''\<rparr>"
    by (simp add: angle_arg_def startsWith_def trim_def c_isspace_def)
  ultimately show ?thesis
    using parseStepText_render [of ?sgs] by (simp add: ch_backslash_def)
qed

end
