(* ===== verification/SpecParser.thy ===== *)
theory SpecParser
  imports SpecText
begin

text \<open>
  \<open>src/src/spec/spec_parser.cpp\<close>: the concept dictionary, the expansion of concepts and the
  parser of specifications. The parsers' local variables are the fields of a state record and
  a line is one step on it. The pointers the code keeps always point to the last element of
  a list (\<open>currentScenario\<close>, \<open>lastStep\<close>) or to the tags of the specification or of its last
  scenario (\<open>tagTarget\<close>); the model keeps which one.
\<close>

section \<open>Concepts\<close>

record concept_state =
  cs_concepts :: "(string, Concept) omap"
  cs_errors :: "ParseError list"
  cs_pending :: Concept
  cs_hasPending :: bool
  cs_lastStep :: bool
  cs_tableRows :: "string list list"
  cs_inTable :: bool

definition parse_error :: "string \<Rightarrow> int \<Rightarrow> string \<Rightarrow> string \<Rightarrow> ParseError" where
  "parse_error fileName lineNo msg line =
     \<lparr>pe_fileName = fileName, pe_lineNumber = lineNo, pe_message = msg, pe_lineText = line\<rparr>"

definition concept_error :: "string \<Rightarrow> int \<Rightarrow> string \<Rightarrow> string \<Rightarrow> concept_state \<Rightarrow> concept_state" where
  "concept_error fileName lineNo msg line st =
     st\<lparr>cs_errors := cs_errors st @ [parse_error fileName lineNo msg line]\<rparr>"

definition concept_flushTable :: "concept_state \<Rightarrow> concept_state" where
  "concept_flushTable st =
     (let st1 = (case cs_tableRows st of
          headers # rows \<Rightarrow>
            if cs_inTable st \<and> cs_lastStep st
            then st\<lparr>cs_pending := (cs_pending st)\<lparr>co_steps :=
                   upd_last (attach_table \<lparr>tb_headers = headers, tb_rows = rows\<rparr>) (co_steps (cs_pending st))\<rparr>\<rparr>
            else st
        | [] \<Rightarrow> st)
      in st1\<lparr>cs_tableRows := [], cs_inTable := False\<rparr>)"

definition concept_commit :: "string \<Rightarrow> concept_state \<Rightarrow> concept_state" where
  "concept_commit fileName st =
     (let st1 = concept_flushTable st; p = cs_pending st1;
          st2 = (if cs_hasPending st1 then
                   (if co_steps p = [] then
                      concept_error fileName (co_lineNumber p) (''Concept has no steps: '' @ co_heading p) (co_heading p) st1
                    else if omap_get (cs_concepts st1) (co_parameterizedText p) \<noteq> None then
                      concept_error fileName (co_lineNumber p) (''Duplicate concept: '' @ co_heading p) (co_heading p) st1
                    else st1\<lparr>cs_concepts := omap_put (co_parameterizedText p) p (cs_concepts st1)\<rparr>)
                 else st1)
      in st2\<lparr>cs_pending := default_Concept, cs_hasPending := False, cs_lastStep := False\<rparr>)"

text \<open>The underlined form of a heading: the next line is all \<open>ch\<close> and this one is plain text.\<close>

definition next_underlined :: "string list \<Rightarrow> char \<Rightarrow> bool" where
  "next_underlined rest ch = (case rest of nx # _ \<Rightarrow> isUnderline nx ch | [] \<Rightarrow> False)"

definition concept_heading :: "string \<Rightarrow> string list \<Rightarrow> string \<times> bool" where
  "concept_heading line rest =
     (let trimmed = trim line; h = stripHeadingMarker line 1 in
      if h = [] \<and> next_underlined rest CHR ''='' \<and> trimmed \<noteq> [] \<and> hd trimmed \<notin> {CHR ''*'', CHR ''|''}
      then (trimmed, True) else (h, False))"

fun add_params :: "string \<Rightarrow> int \<Rightarrow> string \<Rightarrow> string \<Rightarrow> StepArg list \<Rightarrow> concept_state \<Rightarrow> concept_state" where
  "add_params fileName lineNo heading line [] st = st"
| "add_params fileName lineNo heading line (a # as) st =
     (let st1 = (if sa_type a \<noteq> Dynamic
                 then concept_error fileName lineNo
                   (''Concept heading may only contain <dynamic> parameters: '' @ heading) line st
                 else st)
      in add_params fileName lineNo heading line as
           (st1\<lparr>cs_pending := (cs_pending st1)\<lparr>co_params := co_params (cs_pending st1) @ [sa_value a]\<rparr>\<rparr>))"

definition concept_start :: "string \<Rightarrow> int \<Rightarrow> string \<Rightarrow> string \<Rightarrow> concept_state \<Rightarrow> concept_state" where
  "concept_start fileName lineNo heading line st =
     (let st1 = concept_commit fileName st in
      case parseStepText heading of
        Inl err \<Rightarrow> concept_error fileName lineNo err line st1
      | Inr headingStep \<Rightarrow>
          (let st2 = st1\<lparr>cs_pending := (cs_pending st1)\<lparr>co_heading := heading,
                          co_parameterizedText := st_parameterizedText headingStep\<rparr>\<rparr>;
               st3 = add_params fileName lineNo heading line (st_args headingStep) st2
           in st3\<lparr>cs_pending := (cs_pending st3)\<lparr>co_fileName := fileName, co_lineNumber := lineNo\<rparr>,
                  cs_hasPending := True\<rparr>))"

definition concept_step :: "string \<Rightarrow> int \<Rightarrow> string \<Rightarrow> string \<Rightarrow> concept_state \<Rightarrow> concept_state" where
  "concept_step fileName lineNo text line st =
     (if \<not> cs_hasPending st then concept_error fileName lineNo ''Step outside of concept'' line st
      else case parseStepText text of
        Inl err \<Rightarrow> concept_error fileName lineNo err line st
      | Inr step \<Rightarrow>
          st\<lparr>cs_pending := (cs_pending st)\<lparr>co_steps := co_steps (cs_pending st) @ [set_line lineNo step]\<rparr>,
             cs_lastStep := True\<rparr>)"

definition concept_row :: "string \<Rightarrow> concept_state \<Rightarrow> concept_state" where
  "concept_row line st =
     (let st1 = (if \<not> cs_inTable st then st\<lparr>cs_inTable := True, cs_tableRows := []\<rparr> else st) in
      if isTableSeparator line then st1
      else st1\<lparr>cs_tableRows := cs_tableRows st1 @ [parseTableRow line]\<rparr>)"

text \<open>One line: the new state, and whether the next line (an underline) is used up.\<close>

definition concept_line :: "string \<Rightarrow> int \<Rightarrow> string \<Rightarrow> string list \<Rightarrow> concept_state \<Rightarrow> concept_state \<times> bool" where
  "concept_line fileName lineNo line rest st =
     (let trimmed = trim line; (heading, underlined) = concept_heading line rest in
      if heading \<noteq> [] then (concept_start fileName lineNo heading line st, underlined)
      else if trimmed = [] then (concept_flushTable st, False)
      else if hd trimmed = CHR ''*''
      then (concept_step fileName lineNo (tl trimmed) line (concept_flushTable st), False)
      else if hd trimmed = CHR ''|'' \<and> cs_lastStep st then (concept_row line st, False)
      else (concept_flushTable st, False))"

fun concept_lines :: "string \<Rightarrow> int \<Rightarrow> string list \<Rightarrow> concept_state \<Rightarrow> concept_state" where
  "concept_lines fileName lineNo [] st = st"
| "concept_lines fileName lineNo (line # rest) st =
     (case concept_line fileName lineNo line rest st of
        (st', False) \<Rightarrow> concept_lines fileName (lineNo + 1) rest st'
      | (st', True) \<Rightarrow> concept_lines fileName (lineNo + 2) (drop 1 rest) st')"

definition parse_concepts :: "string \<Rightarrow> string \<Rightarrow> (string, Concept) omap \<Rightarrow> (string, Concept) omap \<times> ParseError list" where
  "parse_concepts content fileName concepts =
     (let st = concept_commit fileName (concept_lines fileName 1 (splitLines content)
            \<lparr>cs_concepts = concepts, cs_errors = [], cs_pending = default_Concept, cs_hasPending = False,
             cs_lastStep = False, cs_tableRows = [], cs_inTable = False\<rparr>)
      in (cs_concepts st, cs_errors st))"

definition find_concept :: "(string, Concept) omap \<Rightarrow> string \<Rightarrow> Concept option" where
  "find_concept concepts parameterizedText = omap_get concepts parameterizedText"

section \<open>Expansion\<close>

definition bind_params :: "string list \<Rightarrow> StepArg list \<Rightarrow> (string, StepArg) omap" where
  "bind_params params args = foldl (\<lambda>m (p, a). omap_put p a m) [] (zip params args)"

definition resolve_arg :: "(string, StepArg) omap \<Rightarrow> StepArg \<Rightarrow> StepArg" where
  "resolve_arg binding arg =
     (if sa_type arg = Dynamic
      then (case omap_get binding (sa_value arg) of None \<Rightarrow> arg | Some a \<Rightarrow> a) else arg)"

definition resolve_step :: "(string, StepArg) omap \<Rightarrow> Step \<Rightarrow> Step" where
  "resolve_step binding inner = set_args (map (resolve_arg binding) (st_args inner)) inner"

function expandConcept :: "(string, Concept) omap option \<Rightarrow> nat \<Rightarrow> Step \<Rightarrow> Step" where
  "expandConcept concepts depth step =
     (case concepts of
        None \<Rightarrow> step
      | Some dict \<Rightarrow>
          if depth > 16 then step
          else case find_concept dict (st_parameterizedText step) of
            None \<Rightarrow> step
          | Some def \<Rightarrow>
              set_concept (map (\<lambda>inner. expandConcept concepts (depth + 1)
                   (resolve_step (bind_params (co_params def) (st_args step)) inner)) (co_steps def)) step)"
  by pat_completeness auto
termination by (relation "measure (\<lambda>(c, d, s). 17 - d)") auto

declare expandConcept.simps [simp del]

section \<open>Specifications\<close>

datatype spec_section = BeforeHeading | SpecBody | InScenarioSection | TeardownSection

datatype step_ref = ContextStep | ScenarioStep | TeardownStep

datatype tag_target = SpecTags | ScenarioTags

record spec_state =
  ss_spec :: Specification
  ss_errors :: "ParseError list"
  ss_warnings :: "ParseError list"
  ss_section :: spec_section
  ss_lastStep :: "step_ref option"
  ss_tableRows :: "string list list"
  ss_inTable :: bool
  ss_tableForStep :: bool
  ss_sawStep :: bool
  ss_tagContinuation :: bool
  ss_tagTarget :: "tag_target option"

record ParseResult =
  pr_specification :: Specification
  pr_errors :: "ParseError list"
  pr_warnings :: "ParseError list"

definition parse_ok :: "ParseResult \<Rightarrow> bool" where
  "parse_ok r = (pr_errors r = [])"

definition spec_error :: "int \<Rightarrow> string \<Rightarrow> string \<Rightarrow> spec_state \<Rightarrow> spec_state" where
  "spec_error lineNo msg text st =
     st\<lparr>ss_errors := ss_errors st @ [parse_error (sf_fileName (ss_spec st)) lineNo msg text]\<rparr>"

definition spec_warning :: "int \<Rightarrow> string \<Rightarrow> string \<Rightarrow> spec_state \<Rightarrow> spec_state" where
  "spec_warning lineNo msg text st =
     st\<lparr>ss_warnings := ss_warnings st @ [parse_error (sf_fileName (ss_spec st)) lineNo msg text]\<rparr>"

definition current_scenario :: "spec_state \<Rightarrow> Scenario option" where
  "current_scenario st = safe_last (sf_scenarios (ss_spec st))"

definition steps_of_ref :: "step_ref \<Rightarrow> Specification \<Rightarrow> Step list" where
  "steps_of_ref r sp = (case r of
      ContextStep \<Rightarrow> sf_contexts sp
    | TeardownStep \<Rightarrow> sf_teardowns sp
    | ScenarioStep \<Rightarrow> (case safe_last (sf_scenarios sp) of None \<Rightarrow> [] | Some sc \<Rightarrow> sn_steps sc))"

definition map_steps_of_ref :: "step_ref \<Rightarrow> (Step list \<Rightarrow> Step list) \<Rightarrow> Specification \<Rightarrow> Specification" where
  "map_steps_of_ref r f sp = (case r of
      ContextStep \<Rightarrow> sp\<lparr>sf_contexts := f (sf_contexts sp)\<rparr>
    | TeardownStep \<Rightarrow> sp\<lparr>sf_teardowns := f (sf_teardowns sp)\<rparr>
    | ScenarioStep \<Rightarrow> sp\<lparr>sf_scenarios := upd_last (\<lambda>sc. sc\<lparr>sn_steps := f (sn_steps sc)\<rparr>) (sf_scenarios sp)\<rparr>)"

definition resize_row :: "nat \<Rightarrow> string list \<Rightarrow> string list" where
  "resize_row n row = take n row @ replicate (n - length row) []"

definition make_table :: "string list \<Rightarrow> string list list \<Rightarrow> Table" where
  "make_table headers rows = \<lparr>tb_headers = headers, tb_rows = map (resize_row (length headers)) rows\<rparr>"

definition last_step_line :: "spec_state \<Rightarrow> int" where
  "last_step_line st = (case ss_lastStep st of
      None \<Rightarrow> 0
    | Some r \<Rightarrow> (case safe_last (steps_of_ref r (ss_spec st)) of None \<Rightarrow> 0 | Some s \<Rightarrow> st_lineNumber s))"

definition place_table :: "Table \<Rightarrow> spec_state \<Rightarrow> spec_state" where
  "place_table table st =
     (case (ss_tableForStep st, ss_lastStep st) of
        (True, Some r) \<Rightarrow> st\<lparr>ss_spec := map_steps_of_ref r (upd_last (attach_table table)) (ss_spec st)\<rparr>
      | _ \<Rightarrow>
          if ss_section st = SpecBody \<and> \<not> ss_sawStep st then
            (if table_empty (sf_dataTable (ss_spec st))
             then st\<lparr>ss_spec := (ss_spec st)\<lparr>sf_dataTable := table\<rparr>\<rparr>
             else spec_warning (last_step_line st) ''Multiple data tables in spec; only the first is used'' [] st)
          else st)"

definition flushTable :: "spec_state \<Rightarrow> spec_state" where
  "flushTable st =
     (let st1 = (case ss_tableRows st of
          headers # rows \<Rightarrow> if ss_inTable st then place_table (make_table headers rows) st else st
        | [] \<Rightarrow> st)
      in st1\<lparr>ss_tableRows := [], ss_inTable := False, ss_tableForStep := False\<rparr>)"

definition append_step :: "step_ref \<Rightarrow> Step \<Rightarrow> spec_state \<Rightarrow> spec_state" where
  "append_step r step st =
     st\<lparr>ss_spec := map_steps_of_ref r (\<lambda>ss. ss @ [step]) (ss_spec st), ss_lastStep := Some r\<rparr>"

definition addStep :: "(string, Concept) omap option \<Rightarrow> string \<Rightarrow> int \<Rightarrow> string \<Rightarrow> spec_state \<Rightarrow> spec_state" where
  "addStep concepts text lineNo raw st =
     (case parseStepText text of
        Inl err \<Rightarrow> (spec_error lineNo err raw st)\<lparr>ss_lastStep := None\<rparr>
      | Inr step0 \<Rightarrow>
          (let step = expandConcept concepts 0 (set_line lineNo step0) in
           case ss_section st of
             SpecBody \<Rightarrow> (append_step ContextStep step st)\<lparr>ss_sawStep := True\<rparr>
           | InScenarioSection \<Rightarrow> append_step ScenarioStep step st
           | TeardownSection \<Rightarrow> append_step TeardownStep step st
           | BeforeHeading \<Rightarrow>
               (spec_error lineNo ''Step found before specification heading'' raw st)\<lparr>ss_lastStep := None\<rparr>))"

text \<open>A heading of either form: its text (empty when the line is none) and whether it is underlined.\<close>

definition spec_heading :: "nat \<Rightarrow> char \<Rightarrow> string \<Rightarrow> string list \<Rightarrow> string \<times> bool" where
  "spec_heading level ch line rest =
     (let trimmed = trim line; h = stripHeadingMarker line level in
      if h = [] \<and> next_underlined rest ch \<and> trimmed \<noteq> [] \<and> hd trimmed \<notin> {CHR ''*'', CHR ''|'', CHR ''#''}
      then (trimmed, True) else (h, False))"

definition on_spec_heading :: "string \<Rightarrow> int \<Rightarrow> string \<Rightarrow> spec_state \<Rightarrow> spec_state" where
  "on_spec_heading h1 lineNo line st =
     (let st1 = flushTable st;
          st2 = (if ss_section st1 \<noteq> BeforeHeading
                 then spec_error lineNo ''Multiple specification headings are not allowed'' line st1
                 else st1\<lparr>ss_spec := (ss_spec st1)\<lparr>sf_heading := h1, sf_headingLine := lineNo\<rparr>,
                          ss_section := SpecBody, ss_tagTarget := Some SpecTags\<rparr>)
      in st2\<lparr>ss_lastStep := None\<rparr>)"

definition close_span :: "bool \<Rightarrow> int \<Rightarrow> Specification \<Rightarrow> Specification" where
  "close_span only_open lineNo sp =
     sp\<lparr>sf_scenarios := upd_last (\<lambda>sc. if only_open \<and> sn_span sc \<noteq> 0 then sc
          else sc\<lparr>sn_span := lineNo - sn_lineNumber sc\<rparr>) (sf_scenarios sp)\<rparr>"

definition on_scenario_heading :: "string \<Rightarrow> int \<Rightarrow> string \<Rightarrow> spec_state \<Rightarrow> spec_state" where
  "on_scenario_heading h2 lineNo line st =
     (let st1 = flushTable st;
          st2 = (case ss_section st1 of
              BeforeHeading \<Rightarrow> spec_error lineNo ''Scenario found before specification heading'' line st1
            | TeardownSection \<Rightarrow> spec_error lineNo ''Scenario found after teardown section'' line st1
            | _ \<Rightarrow>
                (let sp = close_span False lineNo (ss_spec st1);
                     sc = default_Scenario\<lparr>sn_name := h2, sn_lineNumber := lineNo\<rparr>
                 in st1\<lparr>ss_spec := sp\<lparr>sf_scenarios := sf_scenarios sp @ [sc]\<rparr>,
                        ss_section := InScenarioSection, ss_tagTarget := Some ScenarioTags\<rparr>))
      in st2\<lparr>ss_lastStep := None\<rparr>)"

definition on_teardown :: "int \<Rightarrow> string \<Rightarrow> spec_state \<Rightarrow> spec_state" where
  "on_teardown lineNo line st =
     (let st1 = flushTable st;
          st2 = (if ss_section st1 = BeforeHeading
                 then spec_error lineNo ''Teardown marker before specification heading'' line st1
                 else st1\<lparr>ss_spec := close_span True lineNo (ss_spec st1),
                          ss_section := TeardownSection, ss_tagTarget := None\<rparr>)
      in st2\<lparr>ss_lastStep := None\<rparr>)"

definition add_tags :: "tag_target \<Rightarrow> string \<Rightarrow> spec_state \<Rightarrow> spec_state" where
  "add_tags target raw st = (case target of
      SpecTags \<Rightarrow> st\<lparr>ss_spec := (ss_spec st)\<lparr>sf_tags := appendTags (sf_tags (ss_spec st)) raw\<rparr>\<rparr>
    | ScenarioTags \<Rightarrow> st\<lparr>ss_spec := (ss_spec st)\<lparr>sf_scenarios :=
        upd_last (\<lambda>sc. sc\<lparr>sn_tags := appendTags (sn_tags sc) raw\<rparr>) (sf_scenarios (ss_spec st))\<rparr>\<rparr>)"

definition has_steps :: "spec_state \<Rightarrow> bool" where
  "has_steps st =
     ((ss_section st = SpecBody \<and> ss_sawStep st) \<or>
      (ss_section st = InScenarioSection \<and>
       (case current_scenario st of None \<Rightarrow> False | Some sc \<Rightarrow> sn_steps sc \<noteq> [])))"

definition ends_with_comma :: "string \<Rightarrow> bool" where
  "ends_with_comma s = (s \<noteq> [] \<and> last s = CHR '','')"

definition on_tags :: "int \<Rightarrow> string \<Rightarrow> spec_state \<Rightarrow> spec_state" where
  "on_tags lineNo line st =
     (let st1 = flushTable st; raw = drop 5 (trim line);
          st2 = (case ss_tagTarget st1 of
              None \<Rightarrow> spec_error lineNo ''Tags are only allowed after a specification or scenario heading'' line st1
            | Some target \<Rightarrow>
                if ss_section st1 = TeardownSection
                then spec_error lineNo ''Tags are only allowed after a specification or scenario heading'' line st1
                else if has_steps st1 then spec_error lineNo ''Tags must appear before steps'' line st1
                else (add_tags target raw st1)\<lparr>ss_tagContinuation := raw \<noteq> [] \<and> ends_with_comma (trim raw)\<rparr>)
      in st2\<lparr>ss_lastStep := None\<rparr>)"

definition on_table_row :: "int \<Rightarrow> string \<Rightarrow> spec_state \<Rightarrow> spec_state" where
  "on_table_row lineNo line st =
     (let starts = \<not> ss_inTable st;
          st1 = (if starts then st\<lparr>ss_inTable := True, ss_tableRows := [], ss_tableForStep := ss_lastStep st \<noteq> None\<rparr>
                 else st)
      in if starts \<and> \<not> ss_tableForStep st1 \<and> \<not> (ss_section st1 = SpecBody \<and> \<not> ss_sawStep st1)
         then (spec_warning lineNo ''Table is not attached to a step and is not a spec data table; ignored'' line st1)
                \<lparr>ss_inTable := False\<rparr>
         else if isTableSeparator line then st1
         else (let cells = parseTableRow line;
                   st2 = (case ss_tableRows st1 of
                       header # _ \<Rightarrow> if length cells \<noteq> length header
                         then spec_warning lineNo ''Table row has different column count than header'' line st1 else st1
                     | [] \<Rightarrow> st1)
               in st2\<lparr>ss_tableRows := ss_tableRows st2 @ [cells]\<rparr>))"

definition on_comment :: "string \<Rightarrow> spec_state \<Rightarrow> spec_state" where
  "on_comment trimmed st =
     (let st1 = (flushTable st)\<lparr>ss_lastStep := None\<rparr> in
      if ss_section st1 = InScenarioSection \<and> current_scenario st1 \<noteq> None
      then st1\<lparr>ss_spec := (ss_spec st1)\<lparr>sf_scenarios :=
             upd_last (\<lambda>sc. sc\<lparr>sn_comments := sn_comments sc @ [trimmed]\<rparr>) (sf_scenarios (ss_spec st1))\<rparr>\<rparr>
      else st1\<lparr>ss_spec := (ss_spec st1)\<lparr>sf_comments := sf_comments (ss_spec st1) @ [trimmed]\<rparr>\<rparr>)"

text \<open>One line; the second result tells that the next line, an underline, is used up.\<close>

definition plain_line :: "(string, Concept) omap option \<Rightarrow> int \<Rightarrow> string \<Rightarrow> string list \<Rightarrow> spec_state
    \<Rightarrow> spec_state \<times> bool" where
  "plain_line concepts lineNo line rest st =
     (let trimmed = trim line;
          (h1, underlined1) = spec_heading 1 CHR ''='' line rest;
          (h2, underlined2) = spec_heading 2 CHR ''-'' line rest
      in if h1 \<noteq> [] then (on_spec_heading h1 lineNo line st, underlined1)
         else if h2 \<noteq> [] then (on_scenario_heading h2 lineNo line st, underlined2)
         else if trimmed = [] then (flushTable st, False)
         else if isTeardownMarker line then (on_teardown lineNo line st, False)
         else if isTagLine line then (on_tags lineNo line st, False)
         else if hd trimmed = CHR ''*''
         then (addStep concepts (tl trimmed) lineNo line (flushTable st), False)
         else if hd trimmed = CHR ''|'' then (on_table_row lineNo line st, False)
         else (on_comment trimmed st, False))"

definition spec_line :: "(string, Concept) omap option \<Rightarrow> int \<Rightarrow> string \<Rightarrow> string list \<Rightarrow> spec_state
    \<Rightarrow> spec_state \<times> bool" where
  "spec_line concepts lineNo line rest st =
     (let trimmed = trim line in
      case ss_tagTarget st of
        Some target \<Rightarrow>
          if ss_tagContinuation st \<and> trimmed \<noteq> []
          then ((add_tags target trimmed st)\<lparr>ss_tagContinuation := ends_with_comma trimmed\<rparr>, False)
          else plain_line concepts lineNo line rest (st\<lparr>ss_tagContinuation := False\<rparr>)
      | None \<Rightarrow> plain_line concepts lineNo line rest (st\<lparr>ss_tagContinuation := False\<rparr>))"

fun spec_lines :: "(string, Concept) omap option \<Rightarrow> int \<Rightarrow> string list \<Rightarrow> spec_state \<Rightarrow> spec_state" where
  "spec_lines concepts lineNo [] st = st"
| "spec_lines concepts lineNo (line # rest) st =
     (case spec_line concepts lineNo line rest st of
        (st', False) \<Rightarrow> spec_lines concepts (lineNo + 1) rest st'
      | (st', True) \<Rightarrow> spec_lines concepts (lineNo + 2) (drop 1 rest) st')"

definition initial_spec_state :: "string \<Rightarrow> spec_state" where
  "initial_spec_state fileName =
     \<lparr>ss_spec = default_Specification\<lparr>sf_fileName := fileName\<rparr>, ss_errors = [], ss_warnings = [],
      ss_section = BeforeHeading, ss_lastStep = None, ss_tableRows = [], ss_inTable = False,
      ss_tableForStep = False, ss_sawStep = False, ss_tagContinuation = False, ss_tagTarget = None\<rparr>"

text \<open>The checks after the last line.\<close>

definition arg_error :: "Table \<Rightarrow> StepArg \<Rightarrow> string option" where
  "arg_error dataTable a =
     (if sa_type a \<noteq> Dynamic then None
      else if table_empty dataTable then Some (''Dynamic parameter <'' @ sa_value a @ ''> used without a data table'')
      else if columnIndex dataTable (sa_value a) < 0
      then Some (''Dynamic parameter <'' @ sa_value a @ ''> not found in data table'')
      else None)"

definition check_step :: "Step \<Rightarrow> spec_state \<Rightarrow> spec_state" where
  "check_step step st =
     foldl (\<lambda>st a. case arg_error (sf_dataTable (ss_spec st)) a of
                     None \<Rightarrow> st | Some msg \<Rightarrow> spec_error (st_lineNumber step) msg (st_text step) st)
       st (st_args step)"

definition all_steps :: "Specification \<Rightarrow> Step list" where
  "all_steps sp = sf_contexts sp @ concat (map sn_steps (sf_scenarios sp)) @ sf_teardowns sp"

definition check_heading :: "spec_state \<Rightarrow> spec_state" where
  "check_heading st =
     (if ss_section st = BeforeHeading then spec_error 0 ''Specification heading not found'' [] st
      else if sf_scenarios (ss_spec st) = []
      then spec_warning (sf_headingLine (ss_spec st)) (''Specification has no scenarios: '' @ sf_heading (ss_spec st)) [] st
      else st)"

definition check_scenarios :: "spec_state \<Rightarrow> spec_state" where
  "check_scenarios st =
     foldl (\<lambda>st sc. if sn_steps sc = []
                    then spec_warning (sn_lineNumber sc) (''Scenario has no steps: '' @ sn_name sc) [] st else st)
       st (sf_scenarios (ss_spec st))"

definition finish_spec :: "int \<Rightarrow> spec_state \<Rightarrow> spec_state" where
  "finish_spec lineCount st =
     (let st1 = flushTable st;
          st2 = st1\<lparr>ss_spec := close_span True (lineCount + 1) (ss_spec st1)\<rparr>;
          st3 = check_scenarios (check_heading st2)
      in foldl (\<lambda>st step. check_step step st) st3 (all_steps (ss_spec st3)))"

definition parse_spec :: "(string, Concept) omap option \<Rightarrow> string \<Rightarrow> string \<Rightarrow> ParseResult" where
  "parse_spec concepts content fileName =
     (let lines = splitLines content;
          st = finish_spec (int (length lines)) (spec_lines concepts 1 lines (initial_spec_state fileName))
      in \<lparr>pr_specification = ss_spec st, pr_errors = ss_errors st, pr_warnings = ss_warnings st\<rparr>)"

end
