(* ===== verification/SpecWellFormed.thy ===== *)
theory SpecWellFormed
  imports SpecParser
begin

text \<open>
  What the parsers of \<open>src/src/spec/spec_parser.cpp\<close> guarantee about what they build: an
  invariant kept by every line, the checks after the last line, and the expansion of concepts.
\<close>

section \<open>The invariant of the specification parser\<close>

text \<open>A step stands on the line it says, and its text is that line's.\<close>

definition step_at :: "string list \<Rightarrow> Step \<Rightarrow> bool" where
  "step_at lines s =
     (\<exists>i < length lines. st_lineNumber s = int i + 1 \<and> trim (lines ! i) \<noteq> [] \<and> hd (trim (lines ! i)) = CHR ''*'' \<and>
        st_text s = trim (tl (trim (lines ! i))) \<and> st_parameterizedText s \<noteq> [])"

definition scenario_at :: "string list \<Rightarrow> Scenario \<Rightarrow> bool" where
  "scenario_at lines sc =
     (sn_name sc \<noteq> [] \<and> distinct (sn_tags sc) \<and> 1 \<le> sn_lineNumber sc \<and> sn_lineNumber sc \<le> int (length lines))"

definition table_ok :: "Table \<Rightarrow> bool" where
  "table_ok t = (\<forall>row \<in> set (tb_rows t). length row = length (tb_headers t))"

definition spec_wf :: "string list \<Rightarrow> Specification \<Rightarrow> bool" where
  "spec_wf lines sp =
     ((\<forall>s \<in> set (all_steps sp). step_at lines s) \<and> (\<forall>sc \<in> set (sf_scenarios sp). scenario_at lines sc)
      \<and> table_ok (sf_dataTable sp) \<and> distinct (sf_tags sp))"

definition spec_shape :: "spec_state \<Rightarrow> bool" where
  "spec_shape st =
     ((ss_section st = BeforeHeading \<longrightarrow> ss_tagTarget st = None \<and> ss_lastStep st = None) \<and>
      (ss_section st \<noteq> BeforeHeading \<longrightarrow> sf_heading (ss_spec st) \<noteq> []) \<and>
      (ss_section st = InScenarioSection \<or> ss_tagTarget st = Some ScenarioTags \<longrightarrow> sf_scenarios (ss_spec st) \<noteq> []) \<and>
      (\<forall>r. ss_lastStep st = Some r \<longrightarrow> steps_of_ref r (ss_spec st) \<noteq> []))"

definition spec_inv :: "string list \<Rightarrow> spec_state \<Rightarrow> bool" where
  "spec_inv lines st = (spec_wf lines (ss_spec st) \<and> spec_shape st)"

named_theorems spec_pres \<open>operations of the parser that keep its invariant\<close>

lemma spec_error_fields [simp]:
  "ss_spec (spec_error l m t st) = ss_spec st" "ss_section (spec_error l m t st) = ss_section st"
  "ss_lastStep (spec_error l m t st) = ss_lastStep st" "ss_tagTarget (spec_error l m t st) = ss_tagTarget st"
  "ss_errors (spec_error l m t st) \<noteq> []"
  "ss_spec (spec_warning l m t st) = ss_spec st" "ss_section (spec_warning l m t st) = ss_section st"
  "ss_lastStep (spec_warning l m t st) = ss_lastStep st" "ss_tagTarget (spec_warning l m t st) = ss_tagTarget st"
  "ss_errors (spec_warning l m t st) = ss_errors st"
  "ss_sawStep (spec_error l m t st) = ss_sawStep st" "ss_sawStep (spec_warning l m t st) = ss_sawStep st"
  by (simp_all add: spec_error_def spec_warning_def)

lemma safe_last_None [simp]: "safe_last xs = None \<longleftrightarrow> xs = []"
  by (simp add: safe_last_def)

lemma upd_last_eq_Nil [simp]: "upd_last f xs = [] \<longleftrightarrow> xs = []"
  by (simp add: upd_last_def)

lemma in_set_upd_last: "y \<in> set (upd_last f xs) \<Longrightarrow> y \<in> set xs \<or> (\<exists>x \<in> set xs. y = f x)"
  by (cases xs rule: rev_cases) auto

lemma steps_of_ref_map [simp]:
  "steps_of_ref r sp \<noteq> [] \<Longrightarrow> (\<And>ss. ss \<noteq> [] \<Longrightarrow> f ss \<noteq> []) \<Longrightarrow> steps_of_ref r (map_steps_of_ref r f sp) \<noteq> []"
  by (cases "sf_scenarios sp" rule: rev_cases)
     (auto simp: steps_of_ref_def map_steps_of_ref_def safe_last_def split: step_ref.splits)

lemma map_steps_fields [simp]:
  "sf_heading (map_steps_of_ref r f sp) = sf_heading sp" "sf_tags (map_steps_of_ref r f sp) = sf_tags sp"
  "sf_dataTable (map_steps_of_ref r f sp) = sf_dataTable sp"
  "sf_scenarios (map_steps_of_ref r f sp) = [] \<longleftrightarrow> sf_scenarios sp = []"
  by (simp_all add: map_steps_of_ref_def split: step_ref.splits)

text \<open>Changing the last scenario.\<close>

lemma wf_upd_scenario:
  assumes wf: "spec_wf lines sp"
    and steps: "\<And>sc s. s \<in> set (sn_steps (f sc)) \<Longrightarrow> (\<forall>s \<in> set (sn_steps sc). step_at lines s) \<Longrightarrow> step_at lines s"
    and sc: "\<And>sc. scenario_at lines sc \<Longrightarrow> scenario_at lines (f sc)"
  shows "spec_wf lines (sp\<lparr>sf_scenarios := upd_last f (sf_scenarios sp)\<rparr>)"
proof -
  have "step_at lines s" if "sc' \<in> set (upd_last f (sf_scenarios sp))" "s \<in> set (sn_steps sc')" for sc' s
  proof -
    have old: "\<forall>s \<in> set (sn_steps sc). step_at lines s" if "sc \<in> set (sf_scenarios sp)" for sc
      using wf that by (auto simp: spec_wf_def all_steps_def)
    from in_set_upd_last [OF that(1)] show ?thesis
      using old steps that(2) by blast
  qed
  moreover have "scenario_at lines sc'" if "sc' \<in> set (upd_last f (sf_scenarios sp))" for sc'
    using in_set_upd_last [OF that] wf sc by (auto simp: spec_wf_def)
  ultimately show ?thesis
    using wf by (auto simp: spec_wf_def all_steps_def)
qed

lemma wf_map_steps:
  assumes wf: "spec_wf lines sp"
    and f: "\<And>ss s. s \<in> set (f ss) \<Longrightarrow> \<forall>s \<in> set ss. step_at lines s \<Longrightarrow> step_at lines s"
  shows "spec_wf lines (map_steps_of_ref r f sp)"
proof (cases r)
  case ScenarioStep
  have "spec_wf lines (sp\<lparr>sf_scenarios := upd_last (\<lambda>sc. sc\<lparr>sn_steps := f (sn_steps sc)\<rparr>) (sf_scenarios sp)\<rparr>)"
    using wf by (rule wf_upd_scenario) (auto intro: f simp: scenario_at_def)
  with ScenarioStep show ?thesis by (simp add: map_steps_of_ref_def)
next
  case ContextStep
  with wf f [of _ "sf_contexts sp"] show ?thesis
    by (auto simp: map_steps_of_ref_def spec_wf_def all_steps_def)
next
  case TeardownStep
  with wf f [of _ "sf_teardowns sp"] show ?thesis
    by (auto simp: map_steps_of_ref_def spec_wf_def all_steps_def)
qed

lemma attach_text [simp]:
  "st_parameterizedText (attach_table tb s) = st_parameterizedText s @ '' {}''"
  by (cases s) simp

lemma wf_attach:
  assumes "spec_wf lines sp"
  shows "spec_wf lines (map_steps_of_ref r (upd_last (attach_table tb)) sp)"
  using assms
proof (rule wf_map_steps)
  fix ss s
  assume "s \<in> set (upd_last (attach_table tb) ss)" "\<forall>s \<in> set ss. step_at lines s"
  then show "step_at lines s"
    by (auto dest!: in_set_upd_last simp: step_at_def)
qed

lemma table_ok_make [simp]: "table_ok (make_table headers rows)"
  by (auto simp: table_ok_def make_table_def resize_row_def)

lemma inv_flags [simp]:
  "spec_inv lines (st\<lparr>ss_tableRows := a\<rparr>) = spec_inv lines st"
  "spec_inv lines (st\<lparr>ss_inTable := b\<rparr>) = spec_inv lines st"
  "spec_inv lines (st\<lparr>ss_tableForStep := b\<rparr>) = spec_inv lines st"
  "spec_inv lines (st\<lparr>ss_tagContinuation := b\<rparr>) = spec_inv lines st"
  "spec_inv lines (st\<lparr>ss_sawStep := b\<rparr>) = spec_inv lines st"
  "spec_inv lines (spec_error l m t st) = spec_inv lines st"
  "spec_inv lines (spec_warning l m t st) = spec_inv lines st"
  by (simp_all add: spec_inv_def spec_shape_def)

lemma inv_drop_last [spec_pres]: "spec_inv lines st \<Longrightarrow> spec_inv lines (st\<lparr>ss_lastStep := None\<rparr>)"
  by (simp add: spec_inv_def spec_shape_def)

lemma inv_place_table [spec_pres]:
  assumes "spec_inv lines st" and "table_ok table"
  shows "spec_inv lines (place_table table st)"
proof -
  have last: "spec_inv lines (st\<lparr>ss_spec := map_steps_of_ref r (upd_last (attach_table table)) (ss_spec st)\<rparr>)"
    if "ss_lastStep st = Some r" for r
    using assms(1) that by (auto simp: spec_inv_def spec_shape_def wf_attach)
  have data: "spec_inv lines (st\<lparr>ss_spec := (ss_spec st)\<lparr>sf_dataTable := table\<rparr>\<rparr>)"
    using assms by (auto simp: spec_inv_def spec_shape_def spec_wf_def all_steps_def steps_of_ref_def split: step_ref.splits option.splits)
  show ?thesis
    using last data assms(1) by (auto simp: place_table_def split: bool.splits option.splits)
qed

lemma inv_flushTable [spec_pres]: "spec_inv lines st \<Longrightarrow> spec_inv lines (flushTable st)"
  using inv_place_table by (auto simp: flushTable_def Let_def split: list.splits)

lemma expandConcept_fields [simp]:
  "st_text (expandConcept c d s) = st_text s" "st_lineNumber (expandConcept c d s) = st_lineNumber s"
  "st_parameterizedText (expandConcept c d s) = st_parameterizedText s"
  "st_args (expandConcept c d s) = st_args s"
  by (simp_all add: expandConcept.simps [of c d s] split: option.splits)

lemma parseStepText_Inr:
  "parseStepText text = Inr s \<Longrightarrow> st_text s = trim text \<and> st_parameterizedText s \<noteq> [] \<and> \<not> st_isConcept s"
  by (auto simp: parseStepText_def Let_def split: sum.splits prod.splits if_splits)

lemma inv_append_step:
  assumes "spec_inv lines st" and "step_at lines step" and "ss_section st \<noteq> BeforeHeading"
    and "r = ScenarioStep \<longrightarrow> sf_scenarios (ss_spec st) \<noteq> []"
  shows "spec_inv lines (append_step r step st)"
proof -
  have "spec_wf lines (map_steps_of_ref r (\<lambda>ss. ss @ [step]) (ss_spec st))"
    using assms(1,2) by (intro wf_map_steps) (auto simp: spec_inv_def)
  moreover have "steps_of_ref r (map_steps_of_ref r (\<lambda>ss. ss @ [step]) (ss_spec st)) \<noteq> []"
    using assms(4) by (cases "sf_scenarios (ss_spec st)" rule: rev_cases)
      (auto simp: steps_of_ref_def map_steps_of_ref_def safe_last_def split: step_ref.splits)
  ultimately show ?thesis
    using assms(1,3) by (auto simp: append_step_def spec_inv_def spec_shape_def)
qed

lemma inv_addStep:
  assumes "spec_inv lines st" and "i < length lines" and "trim (lines ! i) \<noteq> []"
    and "hd (trim (lines ! i)) = CHR ''*''"
  shows "spec_inv lines (addStep concepts (tl (trim (lines ! i))) (int i + 1) raw st)"
proof (cases "parseStepText (tl (trim (lines ! i)))")
  case (Inr step0)
  have at: "step_at lines (expandConcept concepts 0 (set_line (int i + 1) step0))"
    using parseStepText_Inr [OF Inr] assms(2-4) by (auto simp: step_at_def)
  show ?thesis
    using assms(1) Inr inv_append_step [OF assms(1) at] inv_drop_last
    by (auto simp: addStep_def Let_def spec_inv_def spec_shape_def split: spec_section.splits)
qed (use assms(1) inv_drop_last in \<open>simp add: addStep_def\<close>)

lemma inv_close_span:
  assumes "spec_inv lines st"
  shows "spec_inv lines (st\<lparr>ss_spec := close_span b l (ss_spec st)\<rparr>)"
proof -
  have "spec_wf lines (close_span b l (ss_spec st))"
    unfolding close_span_def using assms
    by (intro wf_upd_scenario) (auto simp: spec_inv_def scenario_at_def split: if_splits)
  moreover have "steps_of_ref r (close_span b l sp) = steps_of_ref r sp" for r sp
    by (cases "sf_scenarios sp" rule: rev_cases)
       (auto simp: steps_of_ref_def close_span_def safe_last_def split: step_ref.splits)
  ultimately show ?thesis
    using assms by (auto simp: spec_inv_def spec_shape_def close_span_def)
qed

lemma inv_spec_heading:
  assumes "spec_inv lines st" and "h \<noteq> []"
  shows "spec_inv lines (on_spec_heading h l line st)"
proof -
  have "spec_inv lines (flushTable st)" using assms(1) by (rule inv_flushTable)
  then show ?thesis
    using assms(2)
    by (auto simp: on_spec_heading_def Let_def spec_inv_def spec_shape_def spec_wf_def all_steps_def)
qed

lemma inv_scenario_heading:
  assumes "spec_inv lines st" and "h \<noteq> []" and "i < length lines"
  shows "spec_inv lines (on_scenario_heading h (int i + 1) line st)"
proof -
  let ?f = "flushTable st"
  have f: "spec_inv lines ?f" using assms(1) by (rule inv_flushTable)
  let ?sp = "close_span False (int i + 1) (ss_spec ?f)"
  let ?sc = "default_Scenario\<lparr>sn_name := h, sn_lineNumber := int i + 1\<rparr>"
  have "spec_wf lines ?sp" using inv_close_span [OF f] by (simp add: spec_inv_def)
  moreover have "scenario_at lines ?sc" using assms(2,3) by (simp add: scenario_at_def default_Scenario_def)
  ultimately have wf: "spec_wf lines (?sp\<lparr>sf_scenarios := sf_scenarios ?sp @ [?sc]\<rparr>)"
    by (auto simp: spec_wf_def all_steps_def default_Scenario_def)
  have hd: "sf_heading ?sp = sf_heading (ss_spec ?f)" by (simp add: close_span_def)
  have "spec_inv lines (?f\<lparr>ss_spec := ?sp\<lparr>sf_scenarios := sf_scenarios ?sp @ [?sc]\<rparr>,
      ss_section := InScenarioSection, ss_tagTarget := Some ScenarioTags, ss_lastStep := None\<rparr>)"
    if "ss_section ?f \<noteq> BeforeHeading"
    using wf f that hd by (simp add: spec_inv_def spec_shape_def)
  then show ?thesis
    using f
    by (auto simp: on_scenario_heading_def Let_def intro!: inv_drop_last split: spec_section.splits)
qed

lemma inv_teardown:
  assumes "spec_inv lines st"
  shows "spec_inv lines (on_teardown l line st)"
proof -
  have f: "spec_inv lines (flushTable st)" using assms by (rule inv_flushTable)
  from inv_close_span [OF this, of True l] f show ?thesis
    by (auto simp: on_teardown_def Let_def spec_inv_def spec_shape_def close_span_def)
qed

lemma inv_add_tags:
  assumes "spec_inv lines st" "ss_tagTarget st = Some target"
  shows "spec_inv lines (add_tags target raw st)"
proof (cases target)
  case SpecTags
  with assms show ?thesis
    by (auto simp: add_tags_def spec_inv_def spec_shape_def spec_wf_def all_steps_def appendTags_facts(1)
        steps_of_ref_def split: step_ref.splits option.splits)
next
  case ScenarioTags
  let ?f = "\<lambda>sc. sc\<lparr>sn_tags := appendTags (sn_tags sc) raw\<rparr>"
  have "spec_wf lines ((ss_spec st)\<lparr>sf_scenarios := upd_last ?f (sf_scenarios (ss_spec st))\<rparr>)"
    using assms(1) by (intro wf_upd_scenario) (auto simp: spec_inv_def scenario_at_def appendTags_facts(1))
  moreover have "steps_of_ref r (sp\<lparr>sf_scenarios := upd_last ?f (sf_scenarios sp)\<rparr>) = steps_of_ref r sp" for r sp
    by (cases "sf_scenarios sp" rule: rev_cases)
       (auto simp: steps_of_ref_def safe_last_def split: step_ref.splits)
  ultimately show ?thesis
    using assms(1) ScenarioTags by (auto simp: add_tags_def spec_inv_def spec_shape_def)
qed

lemma add_tags_section [simp]: "ss_section (add_tags t raw st) = ss_section st"
  by (simp add: add_tags_def split: tag_target.splits)

lemma inv_tags: "spec_inv lines st \<Longrightarrow> spec_inv lines (on_tags l line st)"
  using inv_flushTable [of lines st] inv_add_tags [of lines "flushTable st"] inv_drop_last
  by (auto simp: on_tags_def Let_def split: option.splits)

lemma inv_table_row: "spec_inv lines st \<Longrightarrow> spec_inv lines (on_table_row l line st)"
  by (auto simp: on_table_row_def Let_def split: list.splits)

lemma inv_comment:
  assumes "spec_inv lines st"
  shows "spec_inv lines (on_comment t st)"
proof -
  let ?f = "(flushTable st)\<lparr>ss_lastStep := None\<rparr>"
  have f: "spec_inv lines ?f" using assms inv_flushTable inv_drop_last by blast
  let ?g = "\<lambda>sc. sc\<lparr>sn_comments := sn_comments sc @ [t]\<rparr>"
  have "spec_wf lines ((ss_spec ?f)\<lparr>sf_scenarios := upd_last ?g (sf_scenarios (ss_spec ?f))\<rparr>)"
    using f by (intro wf_upd_scenario) (auto simp: spec_inv_def scenario_at_def)
  with f show ?thesis
    by (auto simp: on_comment_def Let_def spec_inv_def spec_shape_def spec_wf_def all_steps_def)
qed

lemma inv_if:
  "(b \<Longrightarrow> spec_inv lines (fst x)) \<Longrightarrow> (\<not> b \<Longrightarrow> spec_inv lines (fst y)) \<Longrightarrow> spec_inv lines (fst (if b then x else y))"
  by simp

lemma inv_plain_line:
  assumes "spec_inv lines st" and "i < length lines"
  shows "spec_inv lines (fst (plain_line concepts (int i + 1) (lines ! i) rest st))"
  unfolding plain_line_def Let_def prod.case_eq_if using assms
  by (intro inv_if) (simp_all add: inv_spec_heading inv_scenario_heading inv_flushTable inv_teardown inv_tags
      inv_addStep inv_table_row inv_comment)

lemma inv_spec_line:
  assumes "spec_inv lines st" and "i < length lines"
  shows "spec_inv lines (fst (spec_line concepts (int i + 1) (lines ! i) rest st))"
  using assms inv_add_tags inv_plain_line [of lines "st\<lparr>ss_tagContinuation := False\<rparr>"]
  by (auto simp: spec_line_def Let_def split: option.splits)

lemma inv_spec_lines:
  "spec_inv lines st \<Longrightarrow> spec_inv lines (spec_lines concepts (int i + 1) (drop i lines) st)"
proof (induction "length lines - i" arbitrary: i st rule: less_induct)
  case less
  show ?case
  proof (cases "i < length lines")
    case True
    then have drop: "drop i lines = lines ! i # drop (Suc i) lines" by (simp add: Cons_nth_drop_Suc)
    obtain st' u where line: "spec_line concepts (int i + 1) (lines ! i) (drop (Suc i) lines) st = (st', u)"
      by (cases "spec_line concepts (int i + 1) (lines ! i) (drop (Suc i) lines) st")
    have inv: "spec_inv lines st'"
      using inv_spec_line [OF less.prems True, of concepts "drop (Suc i) lines"] line by simp
    have "length lines - Suc i < length lines - i" "length lines - (Suc (Suc i)) < length lines - i"
      using True by linarith+
    from less.hyps [OF this(1) inv] less.hyps [OF this(2) inv] show ?thesis
      using line by (cases u) (simp_all add: drop add.commute)
  qed (use less.prems in simp)
qed

lemma initial_inv: "spec_inv lines (initial_spec_state fileName)"
  by (simp add: initial_spec_state_def spec_inv_def spec_shape_def spec_wf_def all_steps_def
      default_Specification_def table_ok_def empty_table_def)

section \<open>The checks after the last line\<close>

lemma check_step_fields:
  "ss_spec (check_step step st) = ss_spec st \<and> ss_section (check_step step st) = ss_section st \<and>
   (ss_errors (check_step step st) = [] \<longleftrightarrow> ss_errors st = [] \<and>
      (\<forall>a \<in> set (st_args step). arg_error (sf_dataTable (ss_spec st)) a = None))"
proof -
  let ?g = "\<lambda>st a. case arg_error (sf_dataTable (ss_spec st)) a of
      None \<Rightarrow> st | Some msg \<Rightarrow> spec_error (st_lineNumber step) msg (st_text step) st"
  have "ss_spec (foldl ?g st as) = ss_spec st \<and> ss_section (foldl ?g st as) = ss_section st \<and>
      (ss_errors (foldl ?g st as) = [] \<longleftrightarrow> ss_errors st = [] \<and>
        (\<forall>a \<in> set as. arg_error (sf_dataTable (ss_spec st)) a = None))" for as
    by (induction as arbitrary: st) (auto split: option.splits)
  then show ?thesis by (simp add: check_step_def)
qed

lemma check_steps_fields:
  "ss_spec (foldl (\<lambda>st step. check_step step st) st steps) = ss_spec st \<and>
   ss_section (foldl (\<lambda>st step. check_step step st) st steps) = ss_section st \<and>
   (ss_errors (foldl (\<lambda>st step. check_step step st) st steps) = [] \<longleftrightarrow> ss_errors st = [] \<and>
     (\<forall>step \<in> set steps. \<forall>a \<in> set (st_args step). arg_error (sf_dataTable (ss_spec st)) a = None))"
  by (induction steps arbitrary: st) (auto simp: check_step_fields)

lemma check_scenarios_fields:
  "ss_spec (check_scenarios st) = ss_spec st" "ss_errors (check_scenarios st) = ss_errors st"
  "ss_section (check_scenarios st) = ss_section st"
proof -
  let ?g = "\<lambda>st sc. if sn_steps sc = []
      then spec_warning (sn_lineNumber sc) (''Scenario has no steps: '' @ sn_name sc) [] st else st"
  have g: "ss_spec (foldl ?g st scs) = ss_spec st \<and> ss_errors (foldl ?g st scs) = ss_errors st \<and>
      ss_section (foldl ?g st scs) = ss_section st" for scs
    by (induction scs arbitrary: st) auto
  then show "ss_spec (check_scenarios st) = ss_spec st" "ss_errors (check_scenarios st) = ss_errors st"
    "ss_section (check_scenarios st) = ss_section st"
    unfolding check_scenarios_def using g by blast+
qed

lemma check_heading_fields:
  "ss_spec (check_heading st) = ss_spec st" "ss_section (check_heading st) = ss_section st"
  "ss_errors (check_heading st) = [] \<longleftrightarrow> ss_errors st = [] \<and> ss_section st \<noteq> BeforeHeading"
  by (auto simp: check_heading_def)

lemma finish_spec_facts:
  assumes "spec_inv lines st"
  shows "spec_wf lines (ss_spec (finish_spec n st))"
    and "ss_errors (finish_spec n st) = [] \<Longrightarrow> sf_heading (ss_spec (finish_spec n st)) \<noteq> []"
    and "ss_errors (finish_spec n st) = [] \<Longrightarrow> s \<in> set (all_steps (ss_spec (finish_spec n st))) \<Longrightarrow>
      a \<in> set (st_args s) \<Longrightarrow> arg_error (sf_dataTable (ss_spec (finish_spec n st))) a = None"
proof -
  define st2 where "st2 = (flushTable st)\<lparr>ss_spec := close_span True (n + 1) (ss_spec (flushTable st))\<rparr>"
  have inv: "spec_inv lines st2"
    unfolding st2_def using assms by (intro inv_close_span inv_flushTable)
  have fin: "finish_spec n st =
      foldl (\<lambda>st step. check_step step st) (check_scenarios (check_heading st2)) (all_steps (ss_spec st2))"
    by (simp add: finish_spec_def Let_def st2_def check_scenarios_fields check_heading_fields)
  have spec: "ss_spec (finish_spec n st) = ss_spec st2"
    and errs: "ss_errors (finish_spec n st) = [] \<longleftrightarrow> ss_errors st2 = [] \<and> ss_section st2 \<noteq> BeforeHeading \<and>
      (\<forall>step \<in> set (all_steps (ss_spec st2)). \<forall>a \<in> set (st_args step). arg_error (sf_dataTable (ss_spec st2)) a = None)"
    unfolding fin by (auto simp: check_steps_fields check_scenarios_fields check_heading_fields)
  show "spec_wf lines (ss_spec (finish_spec n st))" using inv by (simp add: spec spec_inv_def)
  show "ss_errors (finish_spec n st) = [] \<Longrightarrow> sf_heading (ss_spec (finish_spec n st)) \<noteq> []"
    using inv by (auto simp: spec errs spec_inv_def spec_shape_def)
  show "ss_errors (finish_spec n st) = [] \<Longrightarrow> s \<in> set (all_steps (ss_spec (finish_spec n st))) \<Longrightarrow>
      a \<in> set (st_args s) \<Longrightarrow> arg_error (sf_dataTable (ss_spec (finish_spec n st))) a = None"
    by (simp add: spec errs)
qed


text \<open>
  C26. A specification that parses without an error has a heading, and every dynamic argument
  of its steps names a column of its data table.
\<close>

theorem parse_spec_ok:
  assumes "parse_ok (parse_spec concepts content fileName)"
  shows "sf_heading (pr_specification (parse_spec concepts content fileName)) \<noteq> [] \<and>
    (\<forall>s \<in> set (all_steps (pr_specification (parse_spec concepts content fileName))).
      \<forall>a \<in> set (st_args s). sa_type a = Dynamic \<longrightarrow>
        sa_value a \<in> set (tb_headers (sf_dataTable (pr_specification (parse_spec concepts content fileName)))))"
proof -
  define st where "st = spec_lines concepts 1 (splitLines content) (initial_spec_state fileName)"
  have inv: "spec_inv (splitLines content) st"
    unfolding st_def using inv_spec_lines [OF initial_inv, of "splitLines content" concepts 0] by simp
  let ?fin = "finish_spec (int (length (splitLines content))) st"
  have r: "pr_specification (parse_spec concepts content fileName) = ss_spec ?fin"
    "pr_errors (parse_spec concepts content fileName) = ss_errors ?fin"
    by (simp_all add: parse_spec_def Let_def st_def)
  from assms have no: "ss_errors ?fin = []" by (simp add: parse_ok_def r)
  have "sa_value a \<in> set (tb_headers (sf_dataTable (ss_spec ?fin)))"
    if "s \<in> set (all_steps (ss_spec ?fin))" "a \<in> set (st_args s)" "sa_type a = Dynamic" for s a
    using finish_spec_facts(3) [OF inv no that(1,2)] that(3) columnIndex_neg
    by (auto simp: arg_error_def split: if_splits)
  then show ?thesis unfolding r using finish_spec_facts(2) [OF inv no] by blast
qed

definition sample_spec :: string where
  "sample_spec = ''# Users'' @ [CHR 0x0A] @ ''|name|'' @ [CHR 0x0A] @ ''|ann|'' @ [CHR 0x0A]
     @ ''## Log in'' @ [CHR 0x0A] @ ''* user <name>'' @ [CHR 0x0A]"

theorem parse_spec_ok_witness:
  "parse_ok (parse_spec None sample_spec ''a.spec'') \<and>
   sf_heading (pr_specification (parse_spec None sample_spec ''a.spec'')) \<noteq> []"
proof -
  have "parse_ok (parse_spec None sample_spec ''a.spec'')" by code_simp
  with parse_spec_ok [OF this] show ?thesis by simp
qed

end
