(* ===== verification/ConceptFacts.thy ===== *)
theory ConceptFacts
  imports SpecWellFormed
begin

text \<open>
  The concept dictionary of \<open>src/src/spec/spec_parser.cpp\<close>: what parsing a concept file does
  to it, and what expanding a step with it yields.
\<close>

section \<open>The dictionary only grows\<close>

definition dict_ok :: "(string, Concept) omap \<Rightarrow> bool" where
  "dict_ok d = (omap_ok d \<and> (\<forall>k c. omap_get d k = Some c \<longrightarrow> co_parameterizedText c = k \<and> co_steps c \<noteq> []))"

definition dict_extends :: "(string, Concept) omap \<Rightarrow> (string, Concept) omap \<Rightarrow> bool" where
  "dict_extends d d' = (dict_ok d' \<and> (\<forall>k c. omap_get d k = Some c \<longrightarrow> omap_get d' k = Some c))"

lemma concept_error_fields [simp]:
  "cs_concepts (concept_error f l m t st) = cs_concepts st" "cs_pending (concept_error f l m t st) = cs_pending st"
  "cs_hasPending (concept_error f l m t st) = cs_hasPending st"
  by (simp_all add: concept_error_def)

lemma flush_concepts [simp]:
  "cs_concepts (concept_flushTable st) = cs_concepts st"
  "cs_hasPending (concept_flushTable st) = cs_hasPending st"
  by (simp_all add: concept_flushTable_def Let_def split: list.splits)

lemma commit_extends: "dict_extends d (cs_concepts st) \<Longrightarrow> dict_extends d (cs_concepts (concept_commit f st))"
  by (auto simp: concept_commit_def Let_def dict_extends_def dict_ok_def omap_simps)

lemma add_params_concepts [simp]: "cs_concepts (add_params f l h t as st) = cs_concepts st"
  by (induction f l h t as st rule: add_params.induct) (simp_all add: Let_def)

lemma concept_start_extends:
  "dict_extends d (cs_concepts st) \<Longrightarrow> dict_extends d (cs_concepts (concept_start f l h t st))"
  using commit_extends [of d st f] by (simp add: concept_start_def Let_def split: sum.splits)

lemma concept_line_extends:
  assumes "dict_extends d (cs_concepts st)"
  shows "dict_extends d (cs_concepts (fst (concept_line f l line rest st)))"
proof -
  have "cs_concepts (concept_step f l t line st) = cs_concepts st" for t st
    by (simp add: concept_step_def split: sum.splits)
  moreover have "cs_concepts (concept_row line st) = cs_concepts st"
    by (simp add: concept_row_def Let_def)
  ultimately show ?thesis
    using assms concept_start_extends [OF assms]
    by (simp add: concept_line_def Let_def split: prod.splits)
qed

lemma concept_lines_extends:
  "dict_extends d (cs_concepts st) \<Longrightarrow> dict_extends d (cs_concepts (concept_lines f l lines st))"
proof (induction f l lines st rule: concept_lines.induct)
  case (2 f l line rest st)
  obtain st' u where line: "concept_line f l line rest st = (st', u)" by (cases "concept_line f l line rest st")
  have "dict_extends d (cs_concepts st')" using concept_line_extends [OF "2.prems", of f l line rest] line by simp
  with 2 line show ?case by (cases u) auto
qed simp

text \<open>
  C28. Reading a concept file keeps every concept that is already known, and a concept that it
  adds has at least one step and is filed under its own parameterised heading.
\<close>

theorem parse_concepts_extends:
  assumes "dict_ok d"
  shows "dict_extends d (fst (parse_concepts content fileName d))"
proof -
  have "dict_extends d d" using assms by (simp add: dict_extends_def)
  then show ?thesis
    by (simp add: parse_concepts_def Let_def commit_extends concept_lines_extends)
qed

theorem parse_concepts_extends_witness:
  "dict_extends [] (fst (parse_concepts (''# open <page>'' @ [CHR 0x0A] @ ''* visit <page>'') ''a.cpt'' []))"
  by (rule parse_concepts_extends) (simp add: dict_ok_def)

section \<open>Expansion closes the parameters\<close>

fun step_closed :: "Step \<Rightarrow> bool" where
  "step_closed (Step t p as l c inner) =
     ((\<forall>a \<in> set as. sa_type a \<noteq> Dynamic) \<and> (\<forall>s \<in> set inner. step_closed s))"

fun step_levels :: "Step \<Rightarrow> nat" where
  "step_levels (Step t p as l c inner) = Suc (foldr max (map step_levels inner) 0)"

text \<open>
  The dictionary's concepts use only their own parameters, and placeholders and arguments
  agree in number, which \<open>ar\<close> gives for every parameterised text.
\<close>

definition dict_closed :: "(string \<Rightarrow> nat) \<Rightarrow> (string, Concept) omap \<Rightarrow> bool" where
  "dict_closed ar dict = (\<forall>k c. omap_get dict k = Some c \<longrightarrow> length (co_params c) = ar k \<and>
     (\<forall>s \<in> set (co_steps c). length (st_args s) = ar (st_parameterizedText s) \<and> st_conceptSteps s = [] \<and>
        (\<forall>a \<in> set (st_args s). sa_type a = Dynamic \<longrightarrow> sa_value a \<in> set (co_params c))))"

lemma step_closed_iff:
  "step_closed s \<longleftrightarrow> (\<forall>a \<in> set (st_args s). sa_type a \<noteq> Dynamic) \<and> (\<forall>s' \<in> set (st_conceptSteps s). step_closed s')"
  by (cases s) simp

lemma step_levels_le: "step_levels s \<le> Suc n \<longleftrightarrow> (\<forall>s' \<in> set (st_conceptSteps s). step_levels s' \<le> n)"
proof -
  have "foldr max (map step_levels xs) 0 \<le> n \<longleftrightarrow> (\<forall>x \<in> set xs. step_levels x \<le> n)" for xs
    by (induction xs) auto
  then show ?thesis by (cases s) simp
qed

lemma map_of_foldl_put: "map_of (foldl (\<lambda>m (k, v). omap_put k v m) m xs) = map_of m ++ map_of (rev xs)"
  by (induction xs arbitrary: m) (auto simp: omap_simps)

lemma bind_params_get:
  assumes "p \<in> set params" and "length params \<le> length args"
  shows "\<exists>a \<in> set args. omap_get (bind_params params args) p = Some a"
proof -
  have "p \<in> fst ` set (zip params args)"
    using assms by (metis (no_types) list.set_map map_fst_zip_take min_absorb1 take_all_iff le_refl)
  then have "map_of (rev (zip params args)) p \<noteq> None" by (simp add: map_of_eq_None_iff)
  then obtain a where a: "map_of (rev (zip params args)) p = Some a" by blast
  then have "(p, a) \<in> set (zip params args)" by (metis map_of_SomeD set_rev)
  then have "a \<in> set args" by (rule set_zip_rightD)
  with a show ?thesis by (auto simp: bind_params_def map_of_foldl_put)
qed

lemma resolve_step_closed:
  assumes "\<forall>a \<in> set (st_args inner). sa_type a = Dynamic \<longrightarrow> sa_value a \<in> set params"
    and "length params \<le> length args" and "\<forall>a \<in> set args. sa_type a \<noteq> Dynamic"
  shows "\<forall>a \<in> set (st_args (resolve_step (bind_params params args) inner)). sa_type a \<noteq> Dynamic"
proof
  fix b
  assume "b \<in> set (st_args (resolve_step (bind_params params args) inner))"
  then obtain a where a: "a \<in> set (st_args inner)" "b = resolve_arg (bind_params params args) a"
    by (auto simp: resolve_step_def)
  show "sa_type b \<noteq> Dynamic"
  proof (cases "sa_type a = Dynamic")
    case True
    with assms(1) a(1) obtain v where "v \<in> set args" "omap_get (bind_params params args) (sa_value a) = Some v"
      using bind_params_get [OF _ assms(2)] by blast
    with True a(2) assms(3) show ?thesis by (simp add: resolve_arg_def)
  qed (simp add: a(2) resolve_arg_def)
qed

lemma expand_step:
  assumes closed: "dict_closed ar dict"
  shows "length (st_args s) = ar (st_parameterizedText s) \<Longrightarrow> st_conceptSteps s = [] \<Longrightarrow>
    \<forall>a \<in> set (st_args s). sa_type a \<noteq> Dynamic \<Longrightarrow>
    step_closed (expandConcept (Some dict) d s) \<and> step_levels (expandConcept (Some dict) d s) \<le> Suc (17 - d)"
proof (induction "Some dict" d s rule: expandConcept.induct)
  case (1 d s)
  show ?case
  proof (cases "d > 16 \<or> find_concept dict (st_parameterizedText s) = None")
    case True
    then have "expandConcept (Some dict) d s = s"
      by (auto simp: expandConcept.simps [of "Some dict" d s])
    with "1.prems" show ?thesis by (cases s) simp
  next
    case False
    then obtain c where c: "find_concept dict (st_parameterizedText s) = Some c" and d: "\<not> d > 16" by auto
    let ?res = "\<lambda>inner. resolve_step (bind_params (co_params c) (st_args s)) inner"
    have ex: "expandConcept (Some dict) d s =
        set_concept (map (\<lambda>inner. expandConcept (Some dict) (d + 1) (?res inner)) (co_steps c)) s"
      using c d by (simp add: expandConcept.simps [of "Some dict" d s])
    have cl: "length (co_params c) = ar (st_parameterizedText s)"
      "inner \<in> set (co_steps c) \<Longrightarrow> length (st_args inner) = ar (st_parameterizedText inner) \<and> st_conceptSteps inner = [] \<and>
        (\<forall>a \<in> set (st_args inner). sa_type a = Dynamic \<longrightarrow> sa_value a \<in> set (co_params c))" for inner
      using closed c by (auto simp: dict_closed_def find_concept_def)
    have inner: "step_closed (expandConcept (Some dict) (d + 1) (?res x)) \<and>
        step_levels (expandConcept (Some dict) (d + 1) (?res x)) \<le> Suc (17 - (d + 1))"
      if x: "x \<in> set (co_steps c)" for x
    proof (rule "1.hyps" [OF refl d c x])
      show "length (st_args (?res x)) = ar (st_parameterizedText (?res x))" "st_conceptSteps (?res x) = []"
        using cl(2) [OF x] by (simp_all add: resolve_step_def)
      show "\<forall>a \<in> set (st_args (?res x)). sa_type a \<noteq> Dynamic"
        using cl(2) [OF x] cl(1) "1.prems" by (intro resolve_step_closed) simp_all
    qed
    have "Suc (17 - (d + 1)) = 17 - d" using d by simp
    with inner have inner': "\<forall>y \<in> set (map (\<lambda>inner. expandConcept (Some dict) (d + 1) (?res inner)) (co_steps c)).
        step_closed y \<and> step_levels y \<le> 17 - d" by simp
    then show ?thesis
      unfolding ex step_levels_le using "1.prems"(3) step_closed_iff [of "set_concept _ s"] by simp
  qed
qed



end
