(* ===== verification/EngineSmooth.thy ===== *)
theory EngineSmooth
  imports EngineRunFacts
begin

text \<open>
  The undisturbed run: when nobody cancels, the clock stays within the test's time, every
  hook succeeds and the runner passes every step, a test in one stream passes all its
  scenarios (\<open>src/src/engine/execution_engine.cpp\<close>).
\<close>

definition smooth :: "'w environment \<Rightarrow> rat \<Rightarrow> bool" where
  "smooth env t = (\<forall>w. \<not> fst (env_cancelled env w) \<and> 0 \<le> fst (env_clock env w) \<and> fst (env_clock env w) < t \<and>
     (\<forall>q. sr_state (fst (env_step env q w)) = PASSED) \<and> (\<forall>h xc. hr_success (fst (env_hook env h xc w))))"

definition on_time :: "rat \<Rightarrow> 'w run_ctx \<Rightarrow> bool" where
  "on_time t c = (t \<le> rc_deadline c \<and> \<not> rc_timedOut c \<and> \<not> rc_failFast c \<and> tr_errors (rc_result c) = [])"

fun passed_tree :: "StepResult \<Rightarrow> bool" where
  "passed_tree (StepResult t p st e tr d n ms inner c) = (st = PASSED \<and> (\<forall>r \<in> set inner. passed_tree r))"

lemma passed_tree_state: "passed_tree r \<Longrightarrow> sr_state r = PASSED"
  by (cases r) simp

text \<open>An operation whose result satisfies \<open>P\<close> and that leaves the run on time.\<close>

definition calm :: "rat \<Rightarrow> ('a \<Rightarrow> bool) \<Rightarrow> 'a \<times> 'w run_ctx \<Rightarrow> bool" where
  "calm t P x = (P (fst x) \<and> on_time t (snd x))"

lemma calm_Pair [simp]: "calm t P (a, c) \<longleftrightarrow> P a \<and> on_time t c"
  by (simp add: calm_def)

lemma calm_case: "calm t P x \<Longrightarrow> (\<And>a c. P a \<Longrightarrow> on_time t c \<Longrightarrow> calm t Q (g a c)) \<Longrightarrow> calm t Q (case x of (a, c) \<Rightarrow> g a c)"
  by (cases x) simp

lemma calm_weaken: "calm t P x \<Longrightarrow> (\<And>a. P a \<Longrightarrow> Q a) \<Longrightarrow> calm t Q x"
  by (simp add: calm_def)

lemma calmD: "calm t P x \<Longrightarrow> x = (a, c) \<Longrightarrow> P a \<and> on_time t c"
  by simp

lemma on_time_simps [simp]:
  "on_time t (publish ty d c) \<longleftrightarrow> on_time t c" "on_time t (set_status f c) \<longleftrightarrow> on_time t c"
  "on_time t (updateStatus c) \<longleftrightarrow> on_time t c" "on_time t (step_completed xc r c) \<longleftrightarrow> on_time t c"
  "on_time t (step_started xc m s c) \<longleftrightarrow> on_time t c" "on_time t (add_spec_result sr c) \<longleftrightarrow> on_time t c"
  by (simp_all add: on_time_def publish_def set_status_def updateStatus_def Let_def step_completed_def step_started_def
      add_spec_result_def)

lemma observe_world: "observe f c = (fst (f (rc_world c)), c\<lparr>rc_world := snd (f (rc_world c))\<rparr>)"
  by (simp add: observe_def case_prod_unfold Let_def)

lemma calm_observe: "on_time t c \<Longrightarrow> (\<And>w. P (fst (f w))) \<Longrightarrow> calm t P (observe f c)"
  by (simp add: observe_world on_time_def)

lemma smoothD:
  assumes "smooth env t"
  shows "\<not> fst (env_cancelled env w)" "0 \<le> fst (env_clock env w)" "fst (env_clock env w) < t"
    "sr_state (fst (env_step env q w)) = PASSED" "hr_success (fst (env_hook env h xc w))"
  using assms by (simp_all add: smooth_def)

lemma calm_load: "smooth env t \<Longrightarrow> on_time t c \<Longrightarrow> calm t (\<lambda>b. \<not> b) (load_cancelled env c)"
  unfolding load_cancelled_def by (intro calm_observe) (simp_all add: smoothD)

lemma calm_checkTimeout:
  assumes "smooth env t" "on_time t c"
  shows "calm t (\<lambda>b. \<not> b) (checkTimeout env c)"
proof -
  have "fst (env_clock env (rc_world c)) < rc_deadline c"
    using smoothD(3) [OF assms(1)] assms(2) by (meson on_time_def order_less_le_trans)
  with assms(2) show ?thesis by (simp add: checkTimeout_def observe_world on_time_def)
qed

lemma calm_cancelled_or_timeout:
  assumes "smooth env t" "on_time t c"
  shows "calm t (\<lambda>b. \<not> b) (cancelled_or_timeout env c)"
  unfolding cancelled_or_timeout_def Let_def
  by (rule calm_case [OF calm_load [OF assms]]) (simp add: calm_checkTimeout [OF assms(1)])

lemma calm_stop_or_timeout:
  assumes "smooth env t" "on_time t c"
  shows "calm t (\<lambda>b. \<not> b) (stop_or_timeout env False c)"
proof -
  have "calm t (\<lambda>b. \<not> b) (should_stop env c)"
    unfolding should_stop_def Let_def
    by (rule calm_case [OF calm_load [OF assms]]) (auto simp: on_time_def)
  then show ?thesis
    unfolding stop_or_timeout_def Let_def if_False
    by (rule calm_case) (simp add: calm_checkTimeout [OF assms(1)])
qed

lemma calm_hook: "smooth env t \<Longrightarrow> on_time t c \<Longrightarrow> calm t hr_success (observe (env_hook env h xc) c)"
  by (intro calm_observe) (simp_all add: smoothD)

lemma calm_any: "on_time t c \<Longrightarrow> calm t (\<lambda>_. True) (observe f c)"
  by (simp add: calm_observe)

section \<open>Steps\<close>

lemma calm_resolveArgs:
  assumes "on_time t c"
  shows "calm t (\<lambda>_. True) (resolveArgs env row dir as c)"
  using assms
proof (induction as arbitrary: c)
  case (Cons a as)
  have "calm t (\<lambda>_. True) (resolveArg env row dir a c)"
    using Cons.prems unfolding resolveArg_def Let_def
    by (cases "sa_type a") (auto simp: observe_world on_time_def split: option.splits)
  then show ?case
    unfolding resolveArgs.simps Let_def
    by (rule calm_case) (rule calm_case [OF Cons.IH], simp_all)
qed simp

lemma calm_measured: "on_time t c \<Longrightarrow> calm t (\<lambda>_. True) (measured env s d c)"
  unfolding measured_def Let_def by (auto simp: observe_world on_time_def)

lemma calm_run_attempt:
  assumes "smooth env t" "on_time t c"
  shows "calm t (\<lambda>a. at_state a = PASSED) (run_attempt env cfg req a c)"
  unfolding run_attempt_def Let_def
  by (rule calm_case [OF calm_any], rule assms(2), rule calm_case [OF calm_any], assumption,
      rule calm_case [OF calm_observe [where P = "\<lambda>r. sr_state r = PASSED"]], assumption, rule smoothD(4) [OF assms(1)])
    (auto simp: observe_world on_time_def)

lemma calm_attempt_loop:
  assumes "smooth env t" "on_time t c"
  shows "calm t (\<lambda>(a, stop). at_state a = PASSED \<and> \<not> stop) (attempt_loop env cfg req m a c)"
  unfolding attempt_loop.simps [of env cfg req m a c] Let_def
  by (rule calm_case [OF calm_cancelled_or_timeout [OF assms]])
    (simp, rule calm_case [OF calm_run_attempt [OF assms(1)]], auto simp: can_retry_def ends_scenario_def)

lemma calm_run_plain_step:
  assumes "smooth env t" "on_time t c"
  shows "calm t (\<lambda>(a, stop). at_state a = PASSED \<and> \<not> stop) (run_plain_step env cfg xc row m s c)"
  unfolding run_plain_step_def Let_def
  by (rule calm_case [OF calm_resolveArgs [OF assms(2)]]) (rule calm_attempt_loop [OF assms(1)])

definition concept_passing :: "concept_progress \<Rightarrow> bool" where
  "concept_passing p = (\<not> cp_stop p \<and> cp_state p = PASSED \<and> (\<forall>r \<in> set (cp_steps p). passed_tree r))"

lemma calm_executeStep:
  "smooth env t \<Longrightarrow> on_time t c \<Longrightarrow> calm t (\<lambda>(r, stop). passed_tree r \<and> \<not> stop) (executeStep env cfg xc row s c)"
  "smooth env t \<Longrightarrow> on_time t c \<Longrightarrow> concept_passing p \<Longrightarrow> calm t concept_passing (concept_loop env cfg xc row ss p c)"
proof (induction env cfg xc row s c and env cfg xc row ss p c rule: executeStep_concept_loop.induct)
  case (1 env cfg xc row tx ptext args line isConcept inner c)
  let ?s = "Step tx ptext args line isConcept inner" and ?m = "effectiveStepRetry (rc_request c) (xc_tags xc)"
  let ?p0 = "\<lparr>cp_steps = [], cp_stop = False, cp_state = PASSED, cp_errorMessage = [], cp_stackTrace = []\<rparr>"
  obtain start c1 where clk: "observe (env_clock env) (step_started xc ?m ?s c) = (start, c1)" by (metis surj_pair)
  have c1: "on_time t c1" using calmD [OF calm_any clk] "1.prems"(2) by simp
  have p0: "concept_passing ?p0" by (simp add: concept_passing_def)
  show ?case
  proof (cases isConcept)
    case True
    obtain p c2 where cl: "concept_loop env cfg xc row inner ?p0 c1 = (p, c2)" by (metis surj_pair)
    have "calm t concept_passing (concept_loop env cfg xc row inner ?p0 c1)"
      by (rule "1.IH" [OF refl refl refl clk [symmetric] refl True "1.prems"(1) c1 p0])
    then have p: "concept_passing p" "on_time t c2" by (simp_all add: cl)
    obtain d c3 where m: "measured env start 0 c2 = (d, c3)" by (metis surj_pair)
    have "on_time t c3" using calmD [OF calm_measured [OF p(2)] m] by simp
    with p True clk cl m show ?thesis by (simp add: Let_def concept_passing_def)
  next
    case False
    obtain a st c2 where rp: "run_plain_step env cfg xc row ?m ?s c1 = ((a, st), c2)" by (metis surj_pair)
    from calm_run_plain_step [OF "1.prems"(1) c1, of cfg xc row ?m ?s]
    have a: "at_state a = PASSED" "\<not> st" "on_time t c2" by (simp_all add: rp)
    obtain d c3 where m: "measured env start (at_duration a) c2 = (d, c3)" by (metis surj_pair)
    have "on_time t c3" using calmD [OF calm_measured [OF a(3)] m] by simp
    with a False clk rp m show ?thesis by (simp add: Let_def)
  qed
next
  case (2 env cfg xc row p c)
  then show ?case by simp
next
  case (3 env cfg xc row s ss p c)
  obtain skip c1 where l: "load_cancelled env c = (skip, c1)" by (metis surj_pair)
  have c1: "\<not> skip" "on_time t c1" using calmD [OF calm_load [OF "3.prems"(1,2)] l] by simp_all
  have st: "\<not> cp_stop p" using "3.prems"(3) by (simp add: concept_passing_def)
  have sk: "(skip, c1) = (if cp_stop p then (True, c) else load_cancelled env c)" using l st by simp
  obtain ir ist c2 where ex: "executeStep env cfg xc row s c1 = ((ir, ist), c2)" by (metis surj_pair)
  have r: "passed_tree ir" "\<not> ist" "on_time t c2"
    using "3.IH"(2) [OF sk refl c1(1) "3.prems"(1) c1(2)] by (simp_all add: ex)
  let ?p1 = "p\<lparr>cp_steps := cp_steps p @ [ir]\<rparr>"
  have "concept_passing ?p1" using "3.prems"(3) r(1) by (simp add: concept_passing_def)
  with "3.IH"(3) [OF sk refl c1(1) ex [symmetric] refl refl refl refl "3.prems"(1) r(3)] r(2)
  have "calm t concept_passing (concept_loop env cfg xc row ss ?p1 c2)" by simp
  then show ?case using l st c1(1) ex r(2) by (simp add: Let_def)
qed

section \<open>Scenarios\<close>

lemma calm_runSteps:
  assumes "smooth env t" "on_time t c" "runSteps env cfg xc row ss outs False p c = ((outs', stop, p'), c')"
  shows "\<not> stop \<and> p' = p \<and> on_time t c' \<and> (\<exists>rs. outs' = outs @ rs \<and> list_all passed_tree rs)"
  using assms(2,3)
proof (induction ss arbitrary: outs c)
  case (Cons s ss)
  obtain sk c1 where h: "cancelled_or_timeout env c = (sk, c1)" by (metis surj_pair)
  have c1: "\<not> sk" "on_time t c1" using calmD [OF calm_cancelled_or_timeout [OF assms(1) Cons.prems(1)] h] by simp_all
  obtain r st c2 where ex: "executeStep env cfg xc row s c1 = ((r, st), c2)" by (metis surj_pair)
  from calm_executeStep(1) [OF assms(1) c1(2), of cfg xc row s]
  have r: "passed_tree r" "\<not> st" "on_time t c2" by (simp_all add: ex)
  have "runSteps env cfg xc row ss (outs @ [r]) False p c2 = ((outs', stop, p'), c')"
    using Cons.prems(2) h c1(1) ex r(2) by simp
  from Cons.IH [OF r(3) this] r(1) show ?case by auto
qed simp

lemma any_skipped_passed: "list_all passed_tree rs \<Longrightarrow> \<not> any_skipped rs"
  by (fastforce simp: any_skipped_def list_all_iff list_ex_iff dest: passed_tree_state)

lemma calm_executeScenario:
  assumes "smooth env t" "on_time t c"
  shows "calm t (\<lambda>r. sc_state r = PASSED) (executeScenario env cfg stream sp sc row c)"
proof -
  define tags where "tags = effectiveTags sp sc"
  define xc where "xc = \<lparr>xc_testId = rc_testId c, xc_specFile = sf_fileName sp, xc_specName = sf_heading sp,
      xc_scenarioName = sn_name sc, xc_tags = tags, xc_dataRow = data_row sp row, xc_environment = ec_environment cfg\<rparr>"
  define event where "event = scenario_event sp sc tags stream row"
  obtain start c1 where o1: "observe (env_clock env) c = (start, c1)" by (metis surj_pair)
  have c1: "on_time t (publish ''scenario.started'' event c1)" using calmD [OF calm_any [OF assms(2)] o1] by simp
  obtain bh c3 where o3: "observe (env_hook env BeforeScenario xc) (publish ''scenario.started'' event c1) = (bh, c3)"
    by (metis surj_pair)
  have c3: "hr_success bh" "on_time t c3" using calmD [OF calm_hook [OF assms(1) c1] o3] by simp_all
  let ?p0 = "\<lparr>pg_state = PASSED, pg_errorMessage = []\<rparr>"
  obtain cs s1 p1 c4 where r1: "runSteps env cfg xc (xc_dataRow xc) (sf_contexts sp) [] False ?p0 c3 = ((cs, s1, p1), c4)"
    by (metis surj_pair)
  from calm_runSteps [OF assms(1) c3(2) r1] have k1: "s1 = False" "p1 = ?p0" "on_time t c4" by auto
  obtain ss s2 p2 c5 where r2: "runSteps env cfg xc (xc_dataRow xc) (sn_steps sc) [] False ?p0 c4 = ((ss, s2, p2), c5)"
    by (metis surj_pair)
  from calm_runSteps [OF assms(1) k1(3) r2] have k2: "p2 = ?p0" "on_time t c5" "list_all passed_tree ss" by auto
  obtain ts s3 p3 c6 where r3: "runSteps env cfg xc (xc_dataRow xc) (sf_teardowns sp) [] False ?p0 c5 = ((ts, s3, p3), c6)"
    by (metis surj_pair)
  from calm_runSteps [OF assms(1) k2(2) r3] have k3: "s3 = False" "p3 = ?p0" "on_time t c6" by auto
  have st: "scenario_steps env cfg xc sp sc bh c3 = (((cs, ss, ts), ?p0), c6)"
    using c3(1) r1 r2 r3 k1(1,2) k2(1) k3(1,2) by (simp add: scenario_steps_def before_scenario_outcome_def)
  obtain ah c7 where o7: "observe (env_hook env AfterScenario xc) c6 = (ah, c7)" by (metis surj_pair)
  have c7: "hr_success ah" "on_time t c7" using calmD [OF calm_hook [OF assms(1) k3(3)] o7] by simp_all
  obtain cn c8 where o8: "load_cancelled env c7 = (cn, c8)" by (metis surj_pair)
  have c8: "\<not> cn" "on_time t c8" using calmD [OF calm_load [OF assms(1) c7(2)] o8] by simp_all
  obtain finish c9 where o9: "observe (env_clock env) c8 = (finish, c9)" by (metis surj_pair)
  have c9: "on_time t c9" using calmD [OF calm_any [OF c8(2)] o9] by simp
  have "interrupted cn (rc_timedOut c8) (sn_steps sc) ss (after_scenario_outcome ah ?p0) = ?p0"
    using c7(1) c8 by (simp add: interrupted_def after_scenario_outcome_def on_time_def)
  then show ?thesis
    using c9 unfolding executeScenario_def Let_def tags_def [symmetric] o1 event_def [symmetric] xc_def [symmetric] prod.case
      o3 st o7 o8 o9 by simp
qed

section \<open>Specifications\<close>

definition all_passed :: "ScenarioResult list \<Rightarrow> bool" where
  "all_passed rs = list_all (\<lambda>r. sc_state r = PASSED) rs"

lemma all_passed_counts:
  "all_passed rs \<Longrightarrow> count_state (\<lambda>st. st = PASSED) rs = int (length rs) \<and> count_state failing rs = 0 \<and> count_state skipping rs = 0"
  by (induction rs) (auto simp: all_passed_def failing_def skipping_def)

lemma calm_spec_scenario:
  assumes "smooth env t" "on_time t c"
  shows "calm t (\<lambda>r. sc_state r = PASSED) (spec_scenario env cfg True sp row sc c)"
  unfolding spec_scenario_def Let_def not_True_eq_False
  by (rule calm_case [OF calm_stop_or_timeout [OF assms]]) (simp add: calm_executeScenario [OF assms(1)])

lemma on_time_outcome: "sc_state r = PASSED \<Longrightarrow> on_time t (applyScenarioOutcome r c) \<longleftrightarrow> on_time t c"
  by (simp add: applyScenarioOutcome_def)

lemma calm_spec_loop:
  assumes "smooth env t" "on_time t c" "all_passed rs" "tally_ok ta rs"
  shows "calm t (\<lambda>(rs, ta). all_passed rs \<and> tally_ok ta rs) (spec_loop env cfg True sp items rs ta c)"
  using assms(2-)
proof (induction items arbitrary: rs ta c)
  case (Cons it items)
  obtain row sc where it: "it = (row, sc)" by (cases it)
  show ?case
  proof (cases "scenarioSelected (rc_tagFilter c) (rc_request c) sp sc")
    case False
    with Cons it show ?thesis by simp
  next
    case True
    obtain r c1 where e: "spec_scenario env cfg True sp row sc c = (r, c1)" by (metis surj_pair)
    have r: "sc_state r = PASSED" "on_time t c1"
      using calmD [OF calm_spec_scenario [OF assms(1) Cons.prems(1)] e] by simp_all
    have "all_passed (rs @ [r])" using Cons.prems(2) r(1) by (simp add: all_passed_def)
    moreover have "on_time t (applyScenarioOutcome r c1)" using r by (simp add: on_time_outcome)
    ultimately have "calm t (\<lambda>(rs, ta). all_passed rs \<and> tally_ok ta rs) (spec_loop env cfg True sp items (rs @ [r])
        (tally_state (sc_state r) (ta\<lparr>tl_total := tl_total ta + 1\<rparr>)) (applyScenarioOutcome r c1))"
      using Cons.IH tally_ok_step [OF Cons.prems(3)] by blast
    then show ?thesis using True e by (simp add: it)
  qed
qed simp

definition spec_passing :: "SpecResult \<Rightarrow> bool" where
  "spec_passing r = (all_passed (sp_scenarioResults r) \<and> sp_state r \<in> {PASSED, SKIPPED})"

lemma calm_executeSpec:
  assumes "smooth env t" "on_time t c"
  shows "calm t spec_passing (executeSpec env cfg sp c)"
proof -
  obtain start c1 where o1: "observe (env_clock env) c = (start, c1)" by (metis surj_pair)
  let ?xc = "spec_context cfg sp c"
  have c1: "on_time t (spec_started sp c1)" using calmD [OF calm_any [OF assms(2)] o1] by (simp add: spec_started_def)
  obtain bh c3 where o3: "observe (env_hook env BeforeSpec ?xc) (spec_started sp c1) = (bh, c3)" by (metis surj_pair)
  have c3: "hr_success bh" "on_time t c3" using calmD [OF calm_hook [OF assms(1) c1] o3] by simp_all
  obtain rs ta c4 where lp: "spec_loop env cfg True sp (spec_items sp) [] zero_tally c3 = ((rs, ta), c4)" by (metis surj_pair)
  have "calm t (\<lambda>(rs, ta). all_passed rs \<and> tally_ok ta rs) (spec_loop env cfg True sp (spec_items sp) [] zero_tally c3)"
    by (rule calm_spec_loop [OF assms(1) c3(2)]) (simp_all add: all_passed_def)
  then have k: "all_passed rs" "tally_ok ta rs" "on_time t c4" by (simp_all add: lp)
  obtain ah c5 where o5: "observe (env_hook env AfterSpec ?xc) c4 = (ah, c5)" by (metis surj_pair)
  have c5: "hr_success ah" "on_time t c5" using calmD [OF calm_hook [OF assms(1) k(3)] o5] by simp_all
  obtain cn c6 where l6: "load_cancelled env c5 = (cn, c6)" by (metis surj_pair)
  have c6: "\<not> cn" "on_time t c6" using calmD [OF calm_load [OF assms(1) c5(2)] l6] by simp_all
  have "tl_failed ta = 0" "tl_errored ta = 0" "tl_skipped ta = 0"
    using k(1,2) all_passed_counts [OF k(1)] count_state_nonneg [of "\<lambda>st. st = FAILED" rs]
      count_state_nonneg [of "\<lambda>st. st = TEST_ERROR" rs]
    by (auto simp: tally_ok_def count_state_failing add_nonneg_eq_0_iff)
  then have st: "spec_state env True ta c5 = (if tl_total ta = 0 then SKIPPED else PASSED, c6)"
    using l6 c6(1) by (simp add: spec_state_def aggregateState_def)
  obtain finish c7 where o7: "observe (env_clock env) c6 = (finish, c7)" by (metis surj_pair)
  have "on_time t c7" using calmD [OF calm_any [OF c6(2)] o7] by simp
  moreover have lp': "spec_loop env cfg (hr_success bh) sp (spec_items sp) [] zero_tally c3 = ((rs, ta), c4)"
    and st': "spec_state env (hr_success bh) ta c5 = (if tl_total ta = 0 then SKIPPED else PASSED, c6)"
    using lp st c3(1) by simp_all
  ultimately show ?thesis
    using k(1) c3(1) unfolding executeSpec_def Let_def o1 prod.case o3 lp' o5 st' o7
    by (simp add: spec_passing_def spec_completed_def)
qed

lemma calm_sequential_loop:
  assumes "smooth env t" "on_time t c" "list_all loaded_ok ls" "list_all spec_passing (spec_results c)"
  shows "on_time t (sequential_loop env cfg True ls p f c) \<and>
    list_all spec_passing (spec_results (sequential_loop env cfg True ls p f c)) \<and>
    length (concat (map sp_scenarioResults (spec_results (sequential_loop env cfg True ls p f c)))) =
      length (concat (map sp_scenarioResults (spec_results c))) + sum_list (map (selected_count (rc_tagFilter c) (rc_request c)) ls)"
  using assms(2-)
proof (induction ls arbitrary: p f c)
  case (Cons l ls)
  obtain halt c1 where s: "stop_or_timeout env False c = (halt, c1)" by (metis surj_pair)
  have c1: "\<not> halt" "on_time t c1" using calmD [OF calm_stop_or_timeout [OF assms(1) Cons.prems(1)] s] by simp_all
  have f1: "frame c c1" using keepsD [OF keeps_stop_or_timeout [OF frame_refl] s] .
  obtain sp where sp: "ls_specification l = Some sp" "ls_errors l = []" using Cons.prems(2) by (auto simp: loaded_ok_def)
  obtain r c2 where k: "run_loaded env cfg l c1 = (r, c2)" by (metis surj_pair)
  let ?c1 = "updateStatus (set_status (\<lambda>s. s\<lparr>ts_currentSpec := env_toRelative env (ls_path l),
      ts_currentScenario := [], ts_currentStep := []\<rparr>) c1)"
  have "executeSpec env cfg sp ?c1 = (r, c2)" using k sp by (simp add: run_loaded_def Let_def)
  from calmD [OF calm_executeSpec [OF assms(1)] this] c1(2) have r: "spec_passing r" "on_time t c2" by simp_all
  have len: "length (sp_scenarioResults r) = selected_count (rc_tagFilter c) (rc_request c) l"
    using run_loaded_count [OF k] f1 by (simp add: frame_def)
  let ?p = "p + (if spec_passed r then 1 else 0)" and ?f = "f + (if spec_failed r then 1 else 0)"
  let ?c = "updateStatus (set_status (\<lambda>s. s\<lparr>ts_executedSpecs := ts_executedSpecs s + 1, ts_passedSpecs := ?p,
      ts_failedSpecs := ?f\<rparr>) (add_spec_result r c2))"
  have eq: "sequential_loop env cfg True (l # ls) p f c = sequential_loop env cfg True ls ?p ?f ?c"
    using c1(1) s k by (simp add: Let_def)
  have "advanced c1 [r] (add_spec_result r c2)" using run_loaded_facts [OF k] by (blast intro: progressed_advanced)
  with f1 have "advanced c [r] (add_spec_result r c2)" by (rule frame_advanced_trans)
  moreover have "frame (add_spec_result r c2) ?c"
    unfolding frame_updateStatus by (simp add: set_status_def frame_def counters_def)
  ultimately have adv: "advanced c [r] ?c" by (rule advanced_frame)
  then have "list_all spec_passing (spec_results ?c)" using Cons.prems(3) r(1) by (simp add: advanced_def)
  moreover have "on_time t ?c" using r(2) by simp
  moreover have "list_all loaded_ok ls" using Cons.prems(2) by simp
  ultimately show ?case
    unfolding eq using Cons.IH [where c = ?c and p = ?p and f = ?f] adv len by (simp add: advanced_def)
qed simp

lemma calm_executeSequential:
  assumes "smooth env t" "on_time t c" "list_all loaded_ok ls" "spec_results c = []"
  shows "on_time t (executeSequential env cfg ls c) \<and> list_all spec_passing (spec_results (executeSequential env cfg ls c)) \<and>
    length (concat (map sp_scenarioResults (spec_results (executeSequential env cfg ls c)))) =
      sum_list (map (selected_count (rc_tagFilter c) (rc_request c)) ls)"
proof -
  obtain bh c1 where o1: "observe (env_hook env BeforeSuite (suite_context cfg c)) c = (bh, c1)" by (metis surj_pair)
  have c1: "hr_success bh" "on_time t c1" using calmD [OF calm_hook [OF assms(1,2)] o1] by simp_all
  have f1: "frame c c1" using keepsD [OF keeps_observe [OF frame_refl] o1] .
  let ?c3 = "sequential_loop env cfg True ls 0 0 c1"
  have "list_all spec_passing (spec_results c1)" "spec_results c1 = []"
    using f1 assms(4) by (simp_all add: frame_def spec_results_def)
  with calm_sequential_loop [OF assms(1) c1(2) assms(3)] f1 have c3: "on_time t ?c3" "list_all spec_passing (spec_results ?c3)"
    "length (concat (map sp_scenarioResults (spec_results ?c3))) = sum_list (map (selected_count (rc_tagFilter c) (rc_request c)) ls)"
    by (simp_all add: frame_def)
  obtain ah c4 where o4: "observe (env_hook env AfterSuite (suite_context cfg c)) ?c3 = (ah, c4)" by (metis surj_pair)
  have c4: "hr_success ah" "on_time t c4" using calmD [OF calm_hook [OF assms(1) c3(1)] o4] by simp_all
  have f4: "frame ?c3 c4" using keepsD [OF keeps_observe [OF frame_refl] o4] .
  have "executeSequential env cfg ls c = c4"
    using c1(1) c4(1) o4 unfolding executeSequential_def Let_def o1 prod.case by simp
  then show ?thesis using c3 c4(2) f4 by (simp add: frame_def spec_results_def)
qed

section \<open>A test\<close>

lemma on_time_count_selected: "on_time t (count_selected l c) \<longleftrightarrow> on_time t c"
proof -
  have fold: "on_time t (foldl (\<lambda>c sc. if scenarioSelected (rc_tagFilter c) (rc_request c) sp sc
      then set_status (\<lambda>s. s\<lparr>ts_totalScenarios := ts_totalScenarios s + k\<rparr>) c else c) c scs) \<longleftrightarrow> on_time t c" for sp k scs c
    by (induction scs arbitrary: c) simp_all
  show ?thesis by (simp add: count_selected_def fold split: option.splits)
qed

definition loads_all :: "'w environment \<Rightarrow> bool" where
  "loads_all env = (\<forall>p w. \<exists>sp ws. fst (env_load env p w) = (Some sp, [], ws))"

lemma calm_load_specs:
  assumes "loads_all env"
  shows "on_time t c \<Longrightarrow> load_specs env paths c = (ls, c') \<Longrightarrow> on_time t c' \<and> list_all loaded_ok ls"
proof (induction paths arbitrary: c ls)
  case (Cons path paths)
  obtain sp ws where l: "fst (env_load env path (rc_world c)) = (Some sp, [], ws)" using assms unfolding loads_all_def by blast
  let ?l = "\<lparr>ls_path = path, ls_specification = Some sp, ls_errors = [], ls_warnings = ws\<rparr>"
  let ?c1 = "c\<lparr>rc_world := snd (env_load env path (rc_world c))\<rparr>"
  obtain ls' c2 where r: "load_specs env paths (count_selected ?l (add_warnings ws ?c1)) = (ls', c2)" by (metis surj_pair)
  have eq: "ls = ?l # ls'" "c' = c2" using Cons.prems(2) l r by (auto simp: observe_world)
  have "on_time t (count_selected ?l (add_warnings ws ?c1))"
    using Cons.prems(1) by (simp add: on_time_count_selected) (simp add: on_time_def add_warnings_def)
  from Cons.IH [OF this r [folded eq(2)]] show ?case by (simp add: eq(1) loaded_ok_def)
qed simp

lemma on_time_start:
  assumes "smooth env t" "t \<le> of_int (timeout_ms cfg request) / 1000"
  shows "on_time t (set_deadline env cfg (start_ctx request status w))"
proof -
  have "0 \<le> fst (env_clock env w)" using smoothD(2) [OF assms(1)] .
  then have "t \<le> fst (env_clock env w) + of_int (timeout_ms cfg request) / 1000" using assms(2) by linarith
  then show ?thesis
    by (simp add: set_deadline_def observe_world start_ctx_def on_time_def default_TestResult_def)
qed

lemma wanted_one: "rq_parallelStreams rq \<le> 1 \<Longrightarrow> wanted_streams rq safe k n = 1"
  by (auto simp: wanted_streams_def Let_def kMaxPoolSize_def)

lemma reserve_one:
  assumes "rq_parallelStreams (rc_request c) \<le> 1" "reserve env c = ((streams, reserved), c')" "on_time t c"
  shows "streams \<le> 1 \<and> on_time t c'"
  using assms by (auto simp: reserve_def Let_def observe_world on_time_def wanted_one split: if_splits)

lemma calm_conclude:
  assumes "smooth env t" "on_time t c" "ran c" "list_all spec_passing (spec_results c)"
    and "length (concat (map sp_scenarioResults (spec_results c))) = n" "ts_totalScenarios (rc_status c) = int n"
  shows "let r = rc_result (conclude env c) in tr_finalState r = (if n = 0 then SKIPPED else PASSED) \<and>
    tr_totalScenarios r = int n \<and> tr_passedScenarios r = int n \<and> tr_failedScenarios r = 0 \<and> tr_skippedScenarios r = 0"
proof -
  obtain finish c1 where o: "observe (env_wall env) c = (finish, c1)" by (metis surj_pair)
  have c1: "on_time t c1" using calmD [OF calm_any [OF assms(2)] o] by simp
  obtain cn c2 where l: "load_cancelled env c1 = (cn, c2)" by (metis surj_pair)
  have c2: "\<not> cn" "on_time t c2" using calmD [OF calm_load [OF assms(1) c1] l] by simp_all
  have f: "frame c c2" using keepsD [OF keeps_load [OF keepsD [OF keeps_observe [OF frame_refl] o]] l] .
  have r: "ran c2" using ran_frame [OF assms(3) f] .
  let ?rs = "concat (map sp_scenarioResults (tr_specResults (rc_result c2)))"
  have same: "tr_specResults (rc_result c2) = spec_results c" "ts_totalScenarios (rc_status c2) = int n"
    using f assms(6) by (simp_all add: frame_def spec_results_def counters_def)
  have "all_passed ?rs"
    using assms(4) by (auto simp: same all_passed_def spec_passing_def list_all_iff)
  from all_passed_counts [OF this] r have s: "ts_passedScenarios (rc_status c2) = int n" "ts_failedScenarios (rc_status c2) = 0"
    "ts_skippedScenarios (rc_status c2) = 0" using assms(5) by (simp_all add: ran_def Let_def same)
  have none: "count_specs spec_failed (rc_result c2) = 0" "count_specs spec_errored (rc_result c2) = 0"
    using assms(4) by (auto simp: count_specs_zero same list_all_iff spec_passing_def spec_failed_def spec_passed_def spec_errored_def)
  have "final_state cn (rc_timedOut c2) (rc_status c2) (rc_result c2) = (if n = 0 then SKIPPED else PASSED)"
    using c2 none s by (auto simp: final_state_def suite_failed_def on_time_def aggregateState_def nothing_ran_def Let_def)
  then show ?thesis
    using o l s same by (simp add: conclude_def Let_def final_result_def)
qed

lemma run_test_smooth:
  assumes "smooth env (of_int (timeout_ms cfg request) / 1000)" "loads_all env" "zero_counters status"
    and "rq_parallelStreams request \<le> 1"
  shows "let r = rc_result (run_test env cfg schedule resolved request status w) in
    tr_finalState r = (if tr_totalScenarios r = 0 then SKIPPED else PASSED) \<and>
    tr_passedScenarios r = tr_totalScenarios r \<and> tr_failedScenarios r = 0 \<and> tr_skippedScenarios r = 0"
proof -
  let ?t = "of_int (timeout_ms cfg request) / 1000 :: rat"
  let ?c1 = "set_deadline env cfg (start_ctx request status w)"
  obtain ls c2 where l: "load_specs env resolved ?c1 = (ls, c2)" by (metis surj_pair)
  let ?c3 = "note_loaded resolved c2"
  have lt: "load_test env cfg resolved request status w = (ls, ?c3)" by (simp add: load_test_def l)
  note lf = load_test_facts [OF assms(3) lt]
  have c3: "on_time ?t ?c3" "list_all loaded_ok ls"
    using calm_load_specs [OF assms(2) on_time_start [OF assms(1) order_refl] l] by (simp_all add: note_loaded_def)
  obtain streams reserved c4 where r: "reserve env ?c3 = ((streams, reserved), c4)" by (metis surj_pair)
  have c4: "streams \<le> 1" "on_time ?t c4" using reserve_one [OF _ r c3(1)] lf assms(4) by simp_all
  let ?c5 = "test_started streams (mark_running env c4)"
  have "on_time ?t (mark_running env c4)"
    using c4(2) unfolding mark_running_def Let_def observe_world prod.case on_time_simps by (simp add: on_time_def set_status_def)
  then have c5: "on_time ?t ?c5" by (simp add: test_started_def)
  have "frame ?c3 c4" using keepsD [OF reserve_frame [OF frame_refl] r] .
  then have f: "frame ?c3 ?c5" using mark_running_frame by (auto simp: test_started_def intro: frame_trans)
  let ?c6 = "executeSequential env cfg ls ?c5"
  have run: "run_all env cfg schedule resolved request status w = ?c6"
    using c4(1) by (simp add: run_all_def lt run_specs_def r)
  have "spec_results ?c5 = []" using f lf by (simp add: frame_def spec_results_def)
  from calm_executeSequential [OF assms(1) c5 c3(2) this] have c6: "on_time ?t ?c6" "list_all spec_passing (spec_results ?c6)"
    "length (concat (map sp_scenarioResults (spec_results ?c6))) = sum_list (map (selected_count (rc_tagFilter ?c3) (rc_request ?c3)) ls)"
    using f by (simp_all add: frame_def)
  have "ran ?c6" using run_all_ran [OF assms(3)] run by metis
  moreover have "ts_totalScenarios (rc_status ?c6) = ts_totalScenarios (rc_status ?c3)"
  proof -
    obtain srs where "advanced ?c5 srs ?c6" using executeSequential_facts by blast
    then show ?thesis using f by (simp add: advanced_def frame_def counters_def)
  qed
  moreover have "ts_totalScenarios (rc_status ?c3) = int (sum_list (map (selected_count (rc_tagFilter ?c3) (rc_request ?c3)) ls))"
    using lf by (simp add: counters_def)
  ultimately show ?thesis
    using calm_conclude [OF assms(1) c6(1) _ c6(2,3)] unfolding run_test_def run by (simp add: Let_def)
qed

section \<open>When a test passes\<close>

text \<open>
  C5. A test ends as passed only if no specification failed or was in error, some scenario
  passed and none failed, and no step of a scenario reported as passed ended failed, in
  error or cancelled.
\<close>

theorem run_test_passed:
  assumes "zero_counters status"
    and r_def: "r = rc_result (run_test env cfg schedule resolved request status w)"
    and passed: "tr_finalState r = PASSED"
  shows "0 < tr_passedScenarios r \<and> tr_failedScenarios r = 0 \<and>
    (\<forall>s \<in> set (tr_specResults r). sp_state s \<in> {PASSED, SKIPPED, CANCELLED} \<and>
      (\<forall>x \<in> set (sp_scenarioResults s). sc_state x \<notin> {FAILED, TEST_ERROR} \<and>
        (sc_state x = PASSED \<longrightarrow> list_all clean (all_step_results x))))"
proof -
  from run_test_ran [OF assms(1), of env cfg schedule resolved request w] obtain c0 where
    c0: "ran c0" "run_test env cfg schedule resolved request status w = conclude env c0" by blast
  from conclude_facts [of c0 env] obtain finish cancelled c1 where c1: "frame c0 c1"
    "r = final_result cancelled finish c1" by (auto simp: r_def c0(2))
  have ok: "ran c1" using ran_frame [OF c0(1) c1(1)] .
  have "final_state cancelled (rc_timedOut c1) (rc_status c1) (rc_result c1) = PASSED"
    using passed c1(2) by (simp add: final_result_def Let_def)
  from final_state_PASSED [OF this] have ran1: "\<not> nothing_ran (rc_status c1)"
    and specs: "\<forall>s \<in> set (tr_specResults (rc_result c1)). \<not> spec_failed s" by auto
  have "sp_state s \<in> {PASSED, SKIPPED, CANCELLED}" "sp_failedScenarios s = 0" "spec_result_ok s"
    if s: "s \<in> set (tr_specResults (rc_result c1))" for s
  proof -
    show so: "spec_result_ok s" using ok s by (simp add: ran_def list_all_iff)
    show "sp_state s \<in> {PASSED, SKIPPED, CANCELLED}" using specs s by (auto simp: spec_failed_def spec_passed_def)
    with so show "sp_failedScenarios s = 0" by (auto simp: spec_result_ok_def Let_def)
  qed
  note spec = this
  have zero: "\<forall>x \<in> set (sp_scenarioResults s). \<not> failing (sc_state x)"
    if s: "s \<in> set (tr_specResults (rc_result c1))" for s
    using spec(2,3) [OF s] by (simp add: spec_result_ok_def Let_def count_state_0)
  then have "count_state failing (concat (map sp_scenarioResults (tr_specResults (rc_result c1)))) = 0"
    by (auto simp: count_state_0)
  moreover have "0 \<le> ts_passedScenarios (rc_status c1)" using ok by (simp add: ran_def Let_def)
  ultimately have "ts_failedScenarios (rc_status c1) = 0" "0 < ts_passedScenarios (rc_status c1)"
    using ok ran1 by (auto simp: ran_def Let_def nothing_ran_def order_less_le)
  with spec zero show ?thesis
    by (auto simp: c1(2) final_result_def Let_def spec_result_ok_def list_all_iff sound_result_def failing_def)
qed


lemma sample_smooth:
  "smooth sample_env (of_int (timeout_ms default_EngineConfig default_TestRequest) / 1000)" "loads_all sample_env"
  by (simp_all add: smooth_def loads_all_def sample_env_def script_env_def default_HookResult_def default_EngineConfig_def
      default_TestRequest_def timeout_ms_def)

lemma sample_sequential: "rq_parallelStreams default_TestRequest \<le> 1"
  by (simp add: default_TestRequest_def)

lemma sample_total: "tr_totalScenarios (rc_result sample_test) = 1"
proof -
  obtain ls c where l: "load_test sample_env default_EngineConfig [''a.spec''] default_TestRequest default_TestStatus 0 = (ls, c)"
    by (metis surj_pair)
  have "map ls_specification ls = [Some tiny_spec] \<and> map ls_errors ls = [[]]"
    using l by (auto simp: load_test_def Let_def sample_env_def observe_def split: prod.splits)
  then obtain ld where ls: "ls = [ld]" "ls_specification ld = Some tiny_spec" "ls_errors ld = []" by auto
  have "scenarioSelected (rc_tagFilter c) (rc_request c) tiny_spec (sample_scenario [sample_step ''pay''])"
  proof -
    have "rc_tagFilter c = fst (all_filters [])" "rc_request c = default_TestRequest"
      using l load_test_facts [OF sample_counters l]
      by (auto simp: load_test_def Let_def sample_env_def observe_def set_deadline_def start_ctx_def note_loaded_def
          set_status_def count_selected_def add_warnings_def tiny_spec_def default_TestRequest_def split: prod.splits)
    then show ?thesis
      by (simp add: scenarioSelected_def all_filters_def parse_filter_def matches_filter_def default_TestRequest_def)
  qed
  then have n: "ts_totalScenarios (rc_status c) = 1"
    using load_test_facts [OF sample_counters l]
    by (simp add: ls selected_count_def tiny_spec_def counters_def row_count_def isDataDriven_def default_Specification_def
        table_empty_def empty_table_def)
  have "tr_totalScenarios (rc_result sample_test) = ts_totalScenarios (rc_status c)"
  proof -
    obtain srs where "advanced c srs (run_specs sample_env default_EngineConfig [] ls c)" using run_specs_facts by blast
    moreover obtain finish cancelled c1 where
      "frame (run_specs sample_env default_EngineConfig [] ls c) c1"
      "rc_result (conclude sample_env (run_specs sample_env default_EngineConfig [] ls c)) = final_result cancelled finish c1"
      using conclude_facts by blast
    ultimately show ?thesis
      by (simp add: run_test_def run_all_def l final_result_def Let_def advanced_def frame_def counters_def)
  qed
  with n show ?thesis by simp
qed

lemma run_test_passed_witness:
  "tr_finalState (rc_result sample_test) = PASSED \<and> 0 < tr_passedScenarios (rc_result sample_test)"
proof -
  have "tr_finalState (rc_result sample_test) = PASSED"
    using run_test_smooth [OF sample_smooth sample_counters sample_sequential, of "[]" "[''a.spec'']" 0] sample_total
    by (simp add: Let_def)
  with run_test_passed [OF sample_counters refl this] show ?thesis by simp
qed

text \<open>
  C13. When nobody cancels, the clock stays within the test's time, every specification
  loads, every hook succeeds and the runner passes every step, a test in one stream ends as
  passed with every selected scenario passed, or as skipped when none was selected.
\<close>

theorem run_test_completes:
  assumes "smooth env (of_int (timeout_ms cfg request) / 1000)" and "loads_all env" and "zero_counters status"
    and "rq_parallelStreams request \<le> 1"
    and "r = rc_result (run_test env cfg schedule resolved request status w)"
  shows "tr_finalState r = (if tr_totalScenarios r = 0 then SKIPPED else PASSED) \<and>
    tr_passedScenarios r = tr_totalScenarios r \<and> tr_failedScenarios r = 0 \<and> tr_skippedScenarios r = 0"
  using run_test_smooth [OF assms(1-4)] by (simp add: assms(5) Let_def)

lemma run_test_completes_witness:
  "tr_finalState (rc_result sample_test) = PASSED \<and> tr_passedScenarios (rc_result sample_test) = 1"
  using run_test_completes [OF sample_smooth sample_counters sample_sequential refl, of "[]" "[''a.spec'']" 0] sample_total
  by simp

end
