(* ===== verification/Spec2Isabelle.thy ===== *)
theory Spec2Isabelle
  imports HttpReply HttpExchange CallbackFacts CallbackNotifier HttpClient EventBus HttpGuards HttpFacts WebSocketFacts WebSocket ByteCodes   HttpConnection HttpAuth HttpServer HttpMessage RunnerUseFacts RunnerPoolFacts RunnerUse RunnerPool SchedulerFacts Scheduler EngineTrends NumberedIds EngineHistory EngineRecordFacts EngineRecords OrderedIndex ResultStore Trends JsonConvertFacts JsonConvert Cron TimeText Calendar TagFilter JsonRoundtrip Types TestQueue SpecWellFormed ConceptFacts EngineSmooth
begin

text \<open>
  TestHub.
\<close>

end
